(* ===== verification/Prelude.thy ===== *)
theory Prelude
  imports Main "HOL-Library.Word"
begin

text \<open>
  Shared vocabulary of the development. The programs of the backend run over an explicit state
  and may throw, so an operation is a function from the state to a result and the next state
  (type \<open>prog\<close>); an exception is a value of the datatype \<open>exn\<close>. The theory also holds
  the machine integers the code converts between, and the generic lemmas on lists and options
  that the component theories share.
\<close>

named_theorems prog_simps \<open>unfolding rules of the state and exception combinators\<close>
named_theorems op_defs \<open>definitions of the operations of the components\<close>

section \<open>Exceptions and programs over a state\<close>

text \<open>
  The exception classes the code tells apart in its catch clauses: the repository's own
  serialization error, errors of the MySQL connector, of the Redis client (its time-out is a
  subclass), of the JSON library (parse errors have their own handler), any other
  \<open>std::exception\<close>, and a throw of something else.
\<close>

datatype exn =
    RepoSerialization string
  | MysqlxError string
  | RedisTimeout string
  | RedisError string
  | JsonParseError string
  | StdExn string
  | ForeignExn

fun what :: "exn \<Rightarrow> string" where
  "what (RepoSerialization m) = m"
| "what (MysqlxError m) = m"
| "what (RedisTimeout m) = m"
| "what (RedisError m) = m"
| "what (JsonParseError m) = m"
| "what (StdExn m) = m"
| "what ForeignExn = []"

fun is_std_exn :: "exn \<Rightarrow> bool" where
  "is_std_exn ForeignExn = False"
| "is_std_exn _ = True"

fun is_redis_exn :: "exn \<Rightarrow> bool" where
  "is_redis_exn (RedisTimeout _) = True"
| "is_redis_exn (RedisError _) = True"
| "is_redis_exn _ = False"

type_synonym ('s, 'a) prog = "'s \<Rightarrow> (exn + 'a) \<times> 's"

definition ret :: "'a \<Rightarrow> ('s, 'a) prog" where
  "ret x = (\<lambda>s. (Inr x, s))"

definition throw :: "exn \<Rightarrow> ('s, 'a) prog" where
  "throw e = (\<lambda>s. (Inl e, s))"

definition bindp :: "('s, 'a) prog \<Rightarrow> ('a \<Rightarrow> ('s, 'b) prog) \<Rightarrow> ('s, 'b) prog" where
  "bindp m k = (\<lambda>s. case m s of (Inl e, s') \<Rightarrow> (Inl e, s') | (Inr x, s') \<Rightarrow> k x s')"

lemma ret_app [simp, prog_simps]: "ret x s = (Inr x, s)"
  by (simp add: ret_def)

lemma throw_app [simp, prog_simps]: "throw e s = (Inl e, s)"
  by (simp add: throw_def)

lemma bindp_Inl [simp]: "m s = (Inl e, s') \<Longrightarrow> bindp m k s = (Inl e, s')"
  by (simp add: bindp_def)

lemma bindp_Inr [simp]: "m s = (Inr x, s') \<Longrightarrow> bindp m k s = k x s'"
  by (simp add: bindp_def)

lemma bindp_app [prog_simps]:
  "bindp m k s = (case m s of (Inl e, s') \<Rightarrow> (Inl e, s') | (Inr x, s') \<Rightarrow> k x s')"
  by (simp add: bindp_def)

text \<open>A step that may throw but has no state.\<close>

definition bindr :: "exn + 'a \<Rightarrow> ('a \<Rightarrow> exn + 'b) \<Rightarrow> exn + 'b" where
  "bindr m k = (case m of Inl e \<Rightarrow> Inl e | Inr x \<Rightarrow> k x)"

lemma bindr_simps [simp]: "bindr (Inl e) k = Inl e" "bindr (Inr x) k = k x"
  by (simp_all add: bindr_def)

lemma bindr_InrD: "bindr m k = Inr y \<Longrightarrow> \<exists>x. m = Inr x \<and> k x = Inr y"
  by (cases m) simp_all

text \<open>A state predicate that both halves of a program keep is kept by the whole.\<close>

lemma bindp_inv:
  assumes "I s" and "\<And>s. I s \<Longrightarrow> I (snd (m s))" and "\<And>x s. I s \<Longrightarrow> I (snd (k x s))"
  shows "I (snd (bindp m k s))"
proof (cases "m s")
  case (Pair r s')
  with assms(1) assms(2)[of s] have "I s'" by simp
  with Pair assms(3) show ?thesis by (cases r) (auto simp: bindp_def)
qed

text \<open>The same as a predicate on programs, with one rule per combinator.\<close>

named_theorems keeps_intros \<open>rules that a program keeps a state predicate\<close>

definition keeps :: "('s \<Rightarrow> bool) \<Rightarrow> ('s, 'a) prog \<Rightarrow> bool" where
  "keeps I m \<longleftrightarrow> (\<forall>s. I s \<longrightarrow> I (snd (m s)))"

lemma keepsI: "(\<And>s. I s \<Longrightarrow> I (snd (m s))) \<Longrightarrow> keeps I m"
  by (simp add: keeps_def)

lemma keepsD: "keeps I m \<Longrightarrow> I s \<Longrightarrow> I (snd (m s))"
  by (simp add: keeps_def)

lemma keeps_ret [keeps_intros]: "keeps I (ret x)"
  by (simp add: keeps_def)

lemma keeps_throw [keeps_intros]: "keeps I (throw e)"
  by (simp add: keeps_def)

lemma keeps_bindp [keeps_intros]: "keeps I m \<Longrightarrow> (\<And>x. keeps I (k x)) \<Longrightarrow> keeps I (bindp m k)"
  by (rule keepsI) (rule bindp_inv, auto dest: keepsD)

lemma keeps_if [keeps_intros]: "(b \<Longrightarrow> keeps I m) \<Longrightarrow> (\<not> b \<Longrightarrow> keeps I n) \<Longrightarrow> keeps I (if b then m else n)"
  by simp

lemma keeps_option [keeps_intros]:
  "keeps I m \<Longrightarrow> (\<And>x. keeps I (k x)) \<Longrightarrow> keeps I (case v of None \<Rightarrow> m | Some x \<Rightarrow> k x)"
  by (cases v) simp_all

lemma keeps_sum [keeps_intros]:
  "(\<And>x. keeps I (h x)) \<Longrightarrow> (\<And>x. keeps I (k x)) \<Longrightarrow> keeps I (case v of Inl x \<Rightarrow> h x | Inr x \<Rightarrow> k x)"
  by (cases v) simp_all

lemma keeps_list [keeps_intros]:
  "keeps I m \<Longrightarrow> (\<And>x xs. keeps I (k x xs)) \<Longrightarrow> keeps I (case v of [] \<Rightarrow> m | x # xs \<Rightarrow> k x xs)"
  by (cases v) simp_all

section \<open>Machine integers\<close>

text \<open>
  \<open>static_cast\<close> to \<open>int\<close> and to \<open>int64_t\<close>: reduction modulo the width, read as two's
  complement. The code keeps its counters and identifiers as mathematical integers here, and
  the casts it performs are these functions.
\<close>

definition int32_of :: "int \<Rightarrow> int" where
  "int32_of n = (n + 2 ^ 31) mod 2 ^ 32 - 2 ^ 31"

definition int64_of :: "int \<Rightarrow> int" where
  "int64_of n = (n + 2 ^ 63) mod 2 ^ 64 - 2 ^ 63"

definition is_int32 :: "int \<Rightarrow> bool" where
  "is_int32 n \<longleftrightarrow> - (2 ^ 31) \<le> n \<and> n < 2 ^ 31"

definition is_int64 :: "int \<Rightarrow> bool" where
  "is_int64 n \<longleftrightarrow> - (2 ^ 63) \<le> n \<and> n < 2 ^ 63"

lemma int32_of_id [simp]: "is_int32 n \<Longrightarrow> int32_of n = n"
  by (simp add: int32_of_def is_int32_def)

lemma int64_of_id [simp]: "is_int64 n \<Longrightarrow> int64_of n = n"
  by (simp add: int64_of_def is_int64_def)

lemma is_int32_int32_of [simp, intro]: "is_int32 (int32_of n)"
proof -
  have "0 \<le> (n + 2 ^ 31) mod 2 ^ 32" "(n + 2 ^ 31) mod 2 ^ 32 < 2 ^ 32" by simp_all
  then show ?thesis by (simp add: int32_of_def is_int32_def)
qed

lemma is_int64_int64_of [simp, intro]: "is_int64 (int64_of n)"
proof -
  have "0 \<le> (n + 2 ^ 63) mod 2 ^ 64" "(n + 2 ^ 63) mod 2 ^ 64 < 2 ^ 64" by simp_all
  then show ?thesis by (simp add: int64_of_def is_int64_def)
qed

lemma is_int32_int64: "is_int32 n \<Longrightarrow> is_int64 n"
  by (simp add: is_int32_def is_int64_def)

text \<open>The page offset is a 64-bit product of two 32-bit values, so it cannot overflow.\<close>

lemma int32_mult_int64:
  assumes "is_int32 a" "is_int32 b" "0 \<le> a" "0 \<le> b"
  shows "is_int64 (a * b)"
proof -
  have "a * b \<le> 2 ^ 31 * 2 ^ 31"
    using assms by (intro mult_mono) (auto simp: is_int32_def)
  moreover have "0 \<le> a * b" using assms by simp
  ultimately show ?thesis by (simp add: is_int64_def)
qed

section \<open>Lists and options\<close>

text \<open>Two texts cut at the first occurrence of a separator agree when their parts do.\<close>

lemma append_sep_eq:
  assumes "c \<notin> set xs" "c \<notin> set xs'"
  shows "xs @ c # ys = xs' @ c # ys' \<longleftrightarrow> xs = xs' \<and> ys = ys'"
  using assms
proof (induction xs arbitrary: xs')
  case Nil
  then show ?case by (cases xs') auto
next
  case (Cons x xs)
  then show ?case by (cases xs') auto
qed

lemma dropWhile_id: "(xs = [] \<or> \<not> P (hd xs)) \<Longrightarrow> dropWhile P xs = xs"
  by (cases xs) auto

lemma set_dropWhile_subset: "set (dropWhile P xs) \<subseteq> set xs"
  by (auto dest: set_dropWhileD)

text \<open>Membership after an update of the elements that satisfy a guard.\<close>

lemma mem_map_upd:
  "x \<in> set (map (\<lambda>q. if P q then f q else q) xs) \<longleftrightarrow> (\<exists>q\<in>set xs. P q \<and> x = f q) \<or> (x \<in> set xs \<and> \<not> P x)"
  by (induction xs) auto

lemma find_SomeD: "find P xs = Some x \<Longrightarrow> x \<in> set xs \<and> P x"
  by (induction xs) (auto split: if_splits)

lemma find_None_iff_ball: "find P xs = None \<longleftrightarrow> (\<forall>x\<in>set xs. \<not> P x)"
  by (induction xs) auto

lemma length_filter_map_le:
  "(\<And>x. x \<in> set xs \<Longrightarrow> P (f x) \<Longrightarrow> Q x) \<Longrightarrow> length (filter P (map f xs)) \<le> length (filter Q xs)"
  by (induction xs) auto

lemma distinct_map_eq: "distinct (map f xs) \<Longrightarrow> x \<in> set xs \<Longrightarrow> y \<in> set xs \<Longrightarrow> f x = f y \<Longrightarrow> x = y"
  by (auto simp: distinct_map inj_on_def)

end
