(* ===== verification/Text.thy ===== *)
theory Text
  imports Prelude
begin

text \<open>
  The characters and strings of the C++ code: the classification functions of \<open>cctype\<close> in the
  "C" locale, the trimming and splitting helpers that several files define for themselves, the
  decimal and hexadecimal rendering of \<open>std::to_string\<close> and \<open>std::format\<close>, and the number
  parsers \<open>std::stoll\<close> and \<open>std::from_chars\<close>. A \<open>std::string\<close> is a list of bytes, so it is
  the type \<open>string\<close> here.
\<close>

section \<open>Character classes\<close>

definition cbyte :: "char \<Rightarrow> nat" where
  "cbyte c = of_char c"

definition is_space :: "char \<Rightarrow> bool" where
  "is_space c \<longleftrightarrow> cbyte c = 32 \<or> (9 \<le> cbyte c \<and> cbyte c \<le> 13)"

definition is_digit :: "char \<Rightarrow> bool" where
  "is_digit c \<longleftrightarrow> 48 \<le> cbyte c \<and> cbyte c \<le> 57"

definition is_upper :: "char \<Rightarrow> bool" where
  "is_upper c \<longleftrightarrow> 65 \<le> cbyte c \<and> cbyte c \<le> 90"

definition is_lower :: "char \<Rightarrow> bool" where
  "is_lower c \<longleftrightarrow> 97 \<le> cbyte c \<and> cbyte c \<le> 122"

definition is_alnum :: "char \<Rightarrow> bool" where
  "is_alnum c \<longleftrightarrow> is_upper c \<or> is_lower c \<or> is_digit c"

definition to_lower :: "char \<Rightarrow> char" where
  "to_lower c = (if is_upper c then char_of (cbyte c + 32) else c)"

lemma cbyte_less [simp]: "cbyte c < 256"
  by (simp add: cbyte_def)

lemma cbyte_char_of: "n < 256 \<Longrightarrow> cbyte (char_of n) = n"
  by (simp add: cbyte_def of_char_of take_bit_eq_mod)

lemma cbyte_inj: "cbyte c = cbyte d \<Longrightarrow> c = d"
  by (simp add: cbyte_def)

lemma to_lower_not_upper [simp]: "\<not> is_upper (to_lower c)"
  by (auto simp: to_lower_def is_upper_def cbyte_char_of)

lemma to_lower_idem [simp]: "to_lower (to_lower c) = to_lower c"
  using to_lower_not_upper [of c] by (simp add: to_lower_def [of "to_lower c"])

definition lower :: "string \<Rightarrow> string" where
  "lower s = map to_lower s"

lemma lower_idem [simp]: "lower (lower s) = lower s"
  by (simp add: lower_def)

lemma length_lower [simp]: "length (lower s) = length s"
  by (simp add: lower_def)

section \<open>Searching and trimming\<close>

definition starts_with :: "string \<Rightarrow> string \<Rightarrow> bool" where
  "starts_with s p \<longleftrightarrow> take (length p) s = p"

definition ends_with :: "string \<Rightarrow> string \<Rightarrow> bool" where
  "ends_with s p \<longleftrightarrow> length p \<le> length s \<and> drop (length s - length p) s = p"

fun contains_str :: "string \<Rightarrow> string \<Rightarrow> bool" where
  "contains_str [] p = (p = [])"
| "contains_str (c # s) p = (starts_with (c # s) p \<or> contains_str s p)"

lemma starts_with_append [simp]: "starts_with (p @ s) p"
  by (simp add: starts_with_def)

lemma starts_with_iff: "starts_with s p \<longleftrightarrow> (\<exists>t. s = p @ t)"
proof
  assume "starts_with s p"
  then have "s = p @ drop (length p) s"
    by (metis append_take_drop_id starts_with_def)
  then show "\<exists>t. s = p @ t" ..
qed auto

lemma ends_with_append [simp]: "ends_with (s @ p) p"
  by (simp add: ends_with_def)

text \<open>\<open>trimInPlace\<close>, \<open>trimCopy\<close>, \<open>trim\<close> and \<open>trimWhitespace\<close> are the same function:
  drop the white space in front, then behind.\<close>

definition trim :: "string \<Rightarrow> string" where
  "trim s = rev (dropWhile is_space (rev (dropWhile is_space s)))"

lemma trim_Nil [simp]: "trim [] = []"
  by (simp add: trim_def)

lemma set_trim: "set (trim s) \<subseteq> set s"
  using set_dropWhile_subset [of is_space s]
    set_dropWhile_subset [of is_space "rev (dropWhile is_space s)"]
  unfolding trim_def set_rev by (rule_tac order_trans)

lemma length_trim: "length (trim s) \<le> length s"
  using length_dropWhile_le [of is_space "rev (dropWhile is_space s)"]
    length_dropWhile_le [of is_space s]
  by (simp add: trim_def)

lemma dropWhile_last_keep:
  "ys \<noteq> [] \<Longrightarrow> \<not> P (hd ys) \<Longrightarrow> dropWhile P (rev ys) \<noteq> [] \<and> last (dropWhile P (rev ys)) = hd ys"
  by (cases ys) (auto simp: dropWhile_append3)

lemma trim_hd: "trim s \<noteq> [] \<Longrightarrow> \<not> is_space (hd (trim s))"
proof -
  assume ne: "trim s \<noteq> []"
  let ?d = "dropWhile is_space s"
  have d: "?d \<noteq> []" using ne unfolding trim_def by (metis dropWhile.simps(1) rev.simps(1))
  then have "\<not> is_space (hd ?d)" by (rule hd_dropWhile)
  with d have "last (dropWhile is_space (rev ?d)) = hd ?d"
    using dropWhile_last_keep [of ?d is_space] by simp
  then have "hd (trim s) = hd ?d"
    using ne by (simp add: trim_def hd_rev)
  with \<open>\<not> is_space (hd ?d)\<close> show ?thesis by simp
qed

lemma trim_last: "trim s \<noteq> [] \<Longrightarrow> \<not> is_space (last (trim s))"
  using hd_dropWhile [of is_space "rev (dropWhile is_space s)"] by (simp add: trim_def last_rev)

lemma trim_id: "s = [] \<or> \<not> is_space (hd s) \<and> \<not> is_space (last s) \<Longrightarrow> trim s = s"
  by (auto simp: trim_def dropWhile_id hd_rev)

lemma trim_idem [simp]: "trim (trim s) = trim s"
  by (rule trim_id) (use trim_hd trim_last in blast)

section \<open>Rendering integers\<close>

definition digit_char :: "nat \<Rightarrow> char" where
  "digit_char d = char_of (48 + d)"

fun fmt_nat :: "nat \<Rightarrow> string" where
  "fmt_nat n = (if n < 10 then [digit_char n] else fmt_nat (n div 10) @ [digit_char (n mod 10)])"

declare fmt_nat.simps [simp del]

definition fmt_int :: "int \<Rightarrow> string" where
  "fmt_int n = (if n < 0 then CHR ''-'' # fmt_nat (nat (- n)) else fmt_nat (nat n))"

lemma cbyte_digit_char: "d < 10 \<Longrightarrow> cbyte (digit_char d) = 48 + d"
  by (simp add: digit_char_def cbyte_char_of)

lemma is_digit_digit_char: "d < 10 \<Longrightarrow> is_digit (digit_char d)"
  by (simp add: is_digit_def cbyte_digit_char)

lemma fmt_nat_nonempty [simp]: "fmt_nat n \<noteq> []"
  by (subst fmt_nat.simps) simp

lemma fmt_nat_digits: "c \<in> set (fmt_nat n) \<Longrightarrow> is_digit c"
proof (induction n rule: fmt_nat.induct)
  case (1 n)
  then show ?case
    by (cases "n < 10") (auto simp: fmt_nat.simps [of n] is_digit_digit_char)
qed

lemma fmt_int_nonempty [simp]: "fmt_int n \<noteq> []"
  by (simp add: fmt_int_def)

lemma fmt_int_chars: "c \<in> set (fmt_int n) \<Longrightarrow> is_digit c \<or> c = CHR ''-''"
  by (auto simp: fmt_int_def dest: fmt_nat_digits split: if_splits)

lemma not_digit_chars [simp]:
  "\<not> is_digit (CHR '':'')" "\<not> is_digit (CHR ''-'')" "\<not> is_digit (CHR ''/'')" "\<not> is_digit (CHR '' '')"
  "\<not> is_digit (CHR ''p'')" "\<not> is_digit (CHR ''.'')" "\<not> is_digit (CHR ''v'')" "\<not> is_digit (CHR ''s'')"
  by (simp_all add: is_digit_def cbyte_def)

lemma fmt_int_sep [simp]: "CHR '':'' \<notin> set (fmt_int n)" "CHR ''/'' \<notin> set (fmt_int n)"
  using fmt_int_chars by fastforce+

section \<open>Reading integers back\<close>

definition digit_val :: "char \<Rightarrow> nat" where
  "digit_val c = cbyte c - 48"

definition read_nat :: "string \<Rightarrow> nat" where
  "read_nat s = foldl (\<lambda>n c. 10 * n + digit_val c) 0 s"

lemma digit_val_digit_char [simp]: "d < 10 \<Longrightarrow> digit_val (digit_char d) = d"
  by (simp add: digit_val_def cbyte_digit_char)

lemma read_nat_snoc [simp]: "read_nat (s @ [c]) = 10 * read_nat s + digit_val c"
  by (simp add: read_nat_def)

lemma read_nat_fmt_nat [simp]: "read_nat (fmt_nat n) = n"
proof (induction n rule: fmt_nat.induct)
  case (1 n)
  show ?case
  proof (cases "n < 10")
    case True
    then show ?thesis by (simp add: fmt_nat.simps [of n] read_nat_def)
  next
    case False
    with 1 show ?thesis by (simp add: fmt_nat.simps [of n])
  qed
qed

lemma fmt_nat_inj: "fmt_nat m = fmt_nat n \<Longrightarrow> m = n"
  by (metis read_nat_fmt_nat)

text \<open>
  \<open>std::stoll\<close>: skip white space, an optional sign, at least one digit (otherwise
  \<open>invalid_argument\<close>), the longest run of digits, and \<open>out_of_range\<close> outside 64 bits.
  Text behind the digits is ignored.
\<close>

definition split_sign :: "string \<Rightarrow> bool \<times> string" where
  "split_sign s = (case s of
      [] \<Rightarrow> (False, [])
    | c # r \<Rightarrow> if c = CHR ''-'' then (True, r) else if c = CHR ''+'' then (False, r) else (False, s))"

definition stoll :: "string \<Rightarrow> exn + int" where
  "stoll s =
     (let (neg, r) = split_sign (dropWhile is_space s);
          ds = takeWhile is_digit r;
          n = (if neg then - int (read_nat ds) else int (read_nat ds))
      in if ds = [] then Inl (StdExn ''stoll'')
         else if is_int64 n then Inr n else Inl (StdExn ''stoll''))"

lemma takeWhile_digits_fmt_nat [simp]: "takeWhile is_digit (fmt_nat n) = fmt_nat n"
  using fmt_nat_digits by (simp add: takeWhile_eq_all_conv)

lemma digit_not_sign: "is_digit c \<Longrightarrow> c \<noteq> CHR ''-'' \<and> c \<noteq> CHR ''+'' \<and> \<not> is_space c"
  by (auto simp: is_digit_def is_space_def cbyte_def)

lemma fmt_nat_hd: "is_digit (hd (fmt_nat n))"
  using fmt_nat_digits [of "hd (fmt_nat n)" n] by simp

lemma split_sign_fmt_nat: "split_sign (fmt_nat n) = (False, fmt_nat n)"
  using fmt_nat_hd [of n] digit_not_sign
  by (cases "fmt_nat n") (auto simp: split_sign_def)

lemma fmt_int_hd: "\<not> is_space (hd (fmt_int n))"
  using fmt_nat_hd digit_not_sign by (auto simp: fmt_int_def is_space_def cbyte_def)

lemma stoll_fmt_int: "is_int64 n \<Longrightarrow> stoll (fmt_int n) = Inr n"
proof -
  assume n: "is_int64 n"
  have d: "dropWhile is_space (fmt_int n) = fmt_int n"
    using fmt_int_hd by (simp add: dropWhile_id)
  show ?thesis
  proof (cases "n < 0")
    case True
    then have "split_sign (fmt_int n) = (True, fmt_nat (nat (- n)))"
      by (simp add: fmt_int_def split_sign_def)
    with True n d show ?thesis by (simp add: stoll_def)
  next
    case False
    then have "split_sign (fmt_int n) = (False, fmt_nat (nat n))"
      by (simp add: fmt_int_def split_sign_fmt_nat)
    with False n d show ?thesis by (simp add: stoll_def)
  qed
qed

lemma fmt_int_inj [simp]: "fmt_int m = fmt_int n \<longleftrightarrow> m = n"
proof
  assume eq: "fmt_int m = fmt_int n"
  have "fmt_nat k \<noteq> CHR ''-'' # r" for k r
    using fmt_nat_hd [of k] by auto
  then have "m < 0 \<longleftrightarrow> n < 0" using eq
    by (metis fmt_int_def)
  then show "m = n"
    using eq fmt_nat_inj by (fastforce simp: fmt_int_def split: if_splits)
qed simp

section \<open>Hexadecimal\<close>

definition hex_char :: "nat \<Rightarrow> char" where
  "hex_char d = (if d < 10 then char_of (48 + d) else char_of (87 + d))"

fun fmt_hex :: "nat \<Rightarrow> string" where
  "fmt_hex n = (if n < 16 then [hex_char n] else fmt_hex (n div 16) @ [hex_char (n mod 16)])"

declare fmt_hex.simps [simp del]

text \<open>The format \<open>{:0Nx}\<close>: padded with zeros on the left to the width.\<close>

definition fmt_hex_pad :: "nat \<Rightarrow> nat \<Rightarrow> string" where
  "fmt_hex_pad w n = replicate (w - length (fmt_hex n)) (CHR ''0'') @ fmt_hex n"

definition fmt_int_pad :: "nat \<Rightarrow> nat \<Rightarrow> string" where
  "fmt_int_pad w n = replicate (w - length (fmt_nat n)) (CHR ''0'') @ fmt_nat n"

section \<open>Splitting\<close>

text \<open>\<open>split(str, delim)\<close>: the current part is collected in an accumulator and pushed at each
  delimiter and once more at the end.\<close>

fun split_loop :: "char \<Rightarrow> string \<Rightarrow> string \<Rightarrow> string list" where
  "split_loop d [] cur = [cur]"
| "split_loop d (c # s) cur = (if c = d then cur # split_loop d s [] else split_loop d s (cur @ [c]))"

definition split :: "string \<Rightarrow> char \<Rightarrow> string list" where
  "split s d = split_loop d s []"

lemma split_loop_append: "d \<notin> set xs \<Longrightarrow> split_loop d (xs @ d # ys) cur = (cur @ xs) # split_loop d ys []"
  by (induction xs arbitrary: cur) auto

lemma split_loop_last: "d \<notin> set xs \<Longrightarrow> split_loop d xs cur = [cur @ xs]"
  by (induction xs arbitrary: cur) auto

lemmas split_simps = split_def split_loop_append split_loop_last

lemma length_split: "length (split_loop d s cur) = Suc (count_list s d)"
  by (induction s arbitrary: cur) auto

end
