(* ===== verification/Task_Status.thy ===== *)
theory Task_Status
  imports Text
begin

text \<open>
  The task life cycle of \<open>Backend/include/models/task_status.h\<close>: the eight statuses, the guards
  of cancel, retry, delete and download, and the two readings of a status text: the exact one
  of the database and the tolerant one of the model service.
\<close>

datatype task_status =
  Pending | Queued | Generating | Success | Failed | Cancelled | Timeout | Unknown

text \<open>The enumerators have the underlying values 0 to 7, in the order of the declaration.\<close>

fun status_code_of :: "task_status \<Rightarrow> nat" where
  "status_code_of Pending = 0"
| "status_code_of Queued = 1"
| "status_code_of Generating = 2"
| "status_code_of Success = 3"
| "status_code_of Failed = 4"
| "status_code_of Cancelled = 5"
| "status_code_of Timeout = 6"
| "status_code_of Unknown = 7"

lemma status_code_of_inj [simp]: "status_code_of a = status_code_of b \<longleftrightarrow> a = b"
  by (cases a; cases b) simp_all

instantiation task_status :: linorder
begin

definition less_eq_task_status :: "task_status \<Rightarrow> task_status \<Rightarrow> bool" where
  "less_eq_task_status a b \<longleftrightarrow> status_code_of a \<le> status_code_of b"

definition less_task_status :: "task_status \<Rightarrow> task_status \<Rightarrow> bool" where
  "less_task_status a b \<longleftrightarrow> status_code_of a < status_code_of b"

instance
  by standard (auto simp: less_eq_task_status_def less_task_status_def)

end

section \<open>Guards of the operations on a task\<close>

fun isTerminal :: "task_status \<Rightarrow> bool" where
  "isTerminal Success = True"
| "isTerminal Failed = True"
| "isTerminal Cancelled = True"
| "isTerminal Timeout = True"
| "isTerminal _ = False"

fun canCancel :: "task_status \<Rightarrow> bool" where
  "canCancel Pending = True"
| "canCancel Queued = True"
| "canCancel Generating = True"
| "canCancel _ = False"

definition canRetry :: "task_status \<Rightarrow> int \<Rightarrow> int \<Rightarrow> bool" where
  "canRetry s retryCount maxRetries =
     (if retryCount \<ge> maxRetries then False
      else case s of Failed \<Rightarrow> True | Timeout \<Rightarrow> True | Cancelled \<Rightarrow> True | _ \<Rightarrow> False)"

definition canDelete :: "task_status \<Rightarrow> bool" where
  "canDelete s = isTerminal s"

definition canReturnBinary :: "task_status \<Rightarrow> string \<Rightarrow> bool" where
  "canReturnBinary s storageKey \<longleftrightarrow> s = Success \<and> storageKey \<noteq> []"

section \<open>Status texts\<close>

definition asciiToLower :: "char \<Rightarrow> char" where
  "asciiToLower c = (if cbyte (CHR ''A'') \<le> cbyte c \<and> cbyte c \<le> cbyte (CHR ''Z'')
      then char_of (cbyte c + (cbyte (CHR ''a'') - cbyte (CHR ''A''))) else c)"

fun ciEquals_loop :: "string \<Rightarrow> string \<Rightarrow> bool" where
  "ciEquals_loop (x # xs) (y # ys) =
     (if asciiToLower x \<noteq> asciiToLower y then False else ciEquals_loop xs ys)"
| "ciEquals_loop _ _ = True"

definition ciEquals :: "string \<Rightarrow> string \<Rightarrow> bool" where
  "ciEquals a b = (if length a \<noteq> length b then False else ciEquals_loop a b)"

definition statusFromString :: "string \<Rightarrow> task_status" where
  "statusFromString s =
     (if s = ''pending'' then Pending
      else if s = ''queued'' then Queued
      else if s = ''generating'' then Generating
      else if s = ''success'' then Success
      else if s = ''failed'' then Failed
      else if s = ''cancelled'' then Cancelled
      else if s = ''timeout'' then Timeout
      else Unknown)"

fun statusToString :: "task_status \<Rightarrow> string" where
  "statusToString Pending = ''pending''"
| "statusToString Queued = ''queued''"
| "statusToString Generating = ''generating''"
| "statusToString Success = ''success''"
| "statusToString Failed = ''failed''"
| "statusToString Cancelled = ''cancelled''"
| "statusToString Timeout = ''timeout''"
| "statusToString Unknown = ''unknown''"

definition normalizeTaskStatus :: "string \<Rightarrow> task_status" where
  "normalizeTaskStatus rawStatus =
     (if ciEquals rawStatus ''success'' \<or> ciEquals rawStatus ''succeeded'' \<or>
         ciEquals rawStatus ''completed'' \<or> ciEquals rawStatus ''done'' \<or>
         ciEquals rawStatus ''ok'' then Success
      else if ciEquals rawStatus ''failed'' \<or> ciEquals rawStatus ''failure'' \<or>
         ciEquals rawStatus ''error'' then Failed
      else if ciEquals rawStatus ''queued'' then Queued
      else if ciEquals rawStatus ''pending'' then Pending
      else if ciEquals rawStatus ''processing'' \<or> ciEquals rawStatus ''generating'' then Generating
      else if length rawStatus \<ge> 32 then Unknown
      else statusFromString (map asciiToLower rawStatus))"

section \<open>Facts\<close>

lemma statusFromString_toString [simp]: "statusFromString (statusToString s) = s"
  by (cases s) (simp_all add: statusFromString_def)

lemma statusToString_inj [simp]: "statusToString a = statusToString b \<longleftrightarrow> a = b"
  by (metis statusFromString_toString)

lemma statusToString_nonempty [simp]: "statusToString s \<noteq> []"
  by (cases s) simp_all

lemma statusToString_sep: "CHR '':'' \<notin> set (statusToString s)"
  by (cases s) simp_all

lemma canDelete_eq [simp]: "canDelete s = isTerminal s"
  by (simp add: canDelete_def)

lemma canRetry_iff:
  "canRetry s n m \<longleftrightarrow> n < m \<and> s \<in> {Failed, Timeout, Cancelled}"
  by (cases s) (auto simp: canRetry_def)

lemma canRetry_terminal: "canRetry s n m \<Longrightarrow> isTerminal s"
  by (cases s) (auto simp: canRetry_def split: if_splits)

text \<open>Every status is in exactly one of three classes: active, terminal, unknown.\<close>

lemma status_classes:
  "(canCancel s \<and> \<not> isTerminal s \<and> s \<noteq> Unknown) \<or> (\<not> canCancel s \<and> isTerminal s \<and> s \<noteq> Unknown) \<or>
   (\<not> canCancel s \<and> \<not> isTerminal s \<and> s = Unknown)"
  by (cases s) simp_all

text \<open>\<open>ciEquals\<close> compares the lower-cased texts.\<close>

lemma ciEquals_loop_eq:
  "length a = length b \<Longrightarrow> ciEquals_loop a b \<longleftrightarrow> map asciiToLower a = map asciiToLower b"
  by (induction a b rule: list_induct2) auto

lemma ciEquals_iff: "ciEquals a b \<longleftrightarrow> map asciiToLower a = map asciiToLower b"
  by (auto simp: ciEquals_def ciEquals_loop_eq dest: map_eq_imp_length_eq)

lemma asciiToLower_eq_to_lower: "asciiToLower c = to_lower c"
  by (simp add: asciiToLower_def to_lower_def is_upper_def cbyte_def)

lemma asciiToLower_idem [simp]: "asciiToLower (asciiToLower c) = asciiToLower c"
  by (simp add: asciiToLower_eq_to_lower)

lemma map_asciiToLower_idem [simp]: "map asciiToLower (map asciiToLower s) = map asciiToLower s"
  by simp

lemma ciEquals_lower_left [simp]: "ciEquals (map asciiToLower a) b = ciEquals a b"
  by (simp only: ciEquals_iff map_asciiToLower_idem)

lemma normalize_status_text [simp]: "normalizeTaskStatus (statusToString s) = s"
  by (cases s) (simp_all add: normalizeTaskStatus_def ciEquals_def asciiToLower_def cbyte_def
      statusFromString_def)

lemma normalize_lower: "normalizeTaskStatus (map asciiToLower raw) = normalizeTaskStatus raw"
  unfolding normalizeTaskStatus_def
  by (simp only: ciEquals_lower_left map_asciiToLower_idem length_map)

section \<open>Properties\<close>

text \<open>
  The status text written to the database is read back as the same status, the tolerant
  reader agrees with the exact one on those texts, and the tolerant reader does not depend on
  the case of the letters.
\<close>

theorem status_text_roundtrip:
  "statusFromString (statusToString s) = s \<and> normalizeTaskStatus (statusToString s) = s \<and>
   normalizeTaskStatus (map asciiToLower raw) = normalizeTaskStatus raw"
  by (simp only: statusFromString_toString normalize_status_text normalize_lower)

end
