(* ===== verification/Json_Model.thy ===== *)
theory Json_Model
  imports Text Complex_Main
begin

text \<open>
  The values of \<open>nlohmann::json\<close> as the code uses them: an object is looked up by key, its
  members are tested for their type and converted. The library distinguishes signed and unsigned
  integers only in how they print; both are \<open>JInt\<close>. The text forms (\<open>parse\<close>, \<open>dump\<close>) are
  the library's and stay parameters of the definitions that use them. A \<open>double\<close> is a
  real number; rounding is not modelled.
\<close>

datatype json =
    JNull
  | JBool bool
  | JInt int
  | JFloat real
  | JStr string
  | JArr "json list"
  | JObj "(string \<times> json) list"

definition type_error :: exn where
  "type_error = StdExn ''type_error''"

fun is_object :: "json \<Rightarrow> bool" where
  "is_object (JObj _) = True"
| "is_object _ = False"

fun is_string :: "json \<Rightarrow> bool" where
  "is_string (JStr _) = True"
| "is_string _ = False"

fun is_number_integer :: "json \<Rightarrow> bool" where
  "is_number_integer (JInt _) = True"
| "is_number_integer _ = False"

fun is_number :: "json \<Rightarrow> bool" where
  "is_number (JInt _) = True"
| "is_number (JFloat _) = True"
| "is_number _ = False"

text \<open>\<open>j.contains(key)\<close> with \<open>j[key]\<close>: the member, if \<open>j\<close> is an object that has it.\<close>

fun jfind :: "json \<Rightarrow> string \<Rightarrow> json option" where
  "jfind (JObj kvs) k = map_of kvs k"
| "jfind _ k = None"

fun jput :: "string \<Rightarrow> json \<Rightarrow> json \<Rightarrow> json" where
  "jput k v (JObj kvs) = JObj ((k, v) # filter (\<lambda>(k', _). k' \<noteq> k) kvs)"
| "jput k v j = JObj [(k, v)]"

lemma map_of_filter_neq [simp]: "map_of (filter (\<lambda>(k', _). k' \<noteq> k) kvs) k'' =
    (if k'' = k then None else map_of kvs k'')"
  by (induction kvs) auto

lemma jfind_jput [simp]: "jfind (jput k v (JObj kvs)) k' = (if k' = k then Some v else map_of kvs k')"
  by simp

section \<open>Conversions\<close>

definition trunc :: "real \<Rightarrow> int" where
  "trunc r = (if r \<ge> 0 then \<lfloor>r\<rfloor> else \<lceil>r\<rceil>)"

fun as_string :: "json \<Rightarrow> exn + string" where
  "as_string (JStr s) = Inr s"
| "as_string _ = Inl type_error"

fun as_bool :: "json \<Rightarrow> exn + bool" where
  "as_bool (JBool b) = Inr b"
| "as_bool _ = Inl type_error"

fun as_int32 :: "json \<Rightarrow> exn + int" where
  "as_int32 (JInt n) = Inr (int32_of n)"
| "as_int32 (JFloat r) = Inr (int32_of (trunc r))"
| "as_int32 (JBool b) = Inr (if b then 1 else 0)"
| "as_int32 _ = Inl type_error"

fun as_int64 :: "json \<Rightarrow> exn + int" where
  "as_int64 (JInt n) = Inr (int64_of n)"
| "as_int64 (JFloat r) = Inr (int64_of (trunc r))"
| "as_int64 _ = Inl type_error"

text \<open>\<open>j.value(key, default)\<close>: throws unless \<open>j\<close> is an object, and unless a present member has
  the type of the default.\<close>

fun jvalue :: "(json \<Rightarrow> exn + 'a) \<Rightarrow> json \<Rightarrow> string \<Rightarrow> 'a \<Rightarrow> exn + 'a" where
  "jvalue conv (JObj kvs) k d = (case map_of kvs k of None \<Rightarrow> Inr d | Some v \<Rightarrow> conv v)"
| "jvalue conv _ k d = Inl type_error"

text \<open>The serialiser throws on a string that is not UTF-8, so \<open>dump\<close> may fail. The round trip the
  code relies on where it caches or transports a value as text (the parser reads back what the
  serialiser wrote) is documented by the library and named here, for a set of values, for the
  properties that need it.\<close>

definition json_text_on :: "json set \<Rightarrow> (json \<Rightarrow> exn + string) \<Rightarrow> (string \<Rightarrow> exn + json) \<Rightarrow> bool" where
  "json_text_on S dump parse \<longleftrightarrow> (\<forall>j\<in>S. \<exists>t. dump j = Inr t \<and> parse t = Inr j)"

lemma json_text_onD: "json_text_on S dump parse \<Longrightarrow> j \<in> S \<Longrightarrow> \<exists>t. dump j = Inr t \<and> parse t = Inr j"
  by (simp add: json_text_on_def)

end
