(* ===== verification/Chrono.thy ===== *)
theory Chrono
  imports Text "HOL-Library.Monad_Syntax"
begin

text \<open>
  Time points and the database's time text, \<open>Backend/include/utils/chrono_utils.h\<close>. A
  \<open>system_clock::time_point\<close> is a count of nanoseconds since 1970-01-01 UTC. The C library
  functions the code calls (\<open>gmtime_r\<close>, \<open>timegm\<close>) are the proleptic Gregorian calendar; the
  stream manipulators \<open>put_time\<close> and \<open>get_time\<close> are used with the format
  \<open>%Y-%m-%d %H:%M:%S\<close>.
\<close>

type_synonym time_point = int

definition ns :: int where
  "ns = 1000000000"

text \<open>\<open>to_time_t(floor<seconds>(tp))\<close> and \<open>from_time_t\<close>.\<close>

definition time_t_of :: "time_point \<Rightarrow> int" where
  "time_t_of tp = tp div ns"

definition from_time_t :: "int \<Rightarrow> time_point" where
  "from_time_t t = t * ns"

lemma ns_pos [simp]: "0 < ns"
  by (simp add: ns_def)

lemma time_t_of_from [simp]: "time_t_of (from_time_t t) = t"
  by (simp add: time_t_of_def from_time_t_def ns_def)

lemma time_t_of_mono: "a \<le> b \<Longrightarrow> time_t_of a \<le> time_t_of b"
  by (simp add: time_t_of_def zdiv_mono1)

section \<open>The calendar\<close>

definition leap :: "int \<Rightarrow> bool" where
  "leap y \<longleftrightarrow> y mod 4 = 0 \<and> (y mod 100 \<noteq> 0 \<or> y mod 400 = 0)"

text \<open>Days from 0001-01-01 to January 1st of year \<open>y\<close>.\<close>

definition days_before_year :: "int \<Rightarrow> int" where
  "days_before_year y = 365 * (y - 1) + (y - 1) div 4 - (y - 1) div 100 + (y - 1) div 400"

definition month_lengths :: "int \<Rightarrow> int list" where
  "month_lengths y = [31, if leap y then 29 else 28, 31, 30, 31, 30, 31, 31, 30, 31, 30, 31]"

lemma div_pred:
  fixes y k :: int
  assumes "0 < k"
  shows "y div k = (y - 1) div k + (if y mod k = 0 then 1 else 0)"
proof (cases "y mod k = 0")
  case True
  then obtain q where q: "y = k * q" by (auto simp: mod_eq_0_iff_dvd)
  then have "(y - 1) div k = q - 1"
    using assms by (intro int_div_pos_eq [of "y - 1" k "q - 1" "k - 1"]) (simp_all add: algebra_simps)
  with True q assms show ?thesis by simp
next
  case False
  have e: "y - 1 = k * (y div k) + (y mod k - 1)"
    using mult_div_mod_eq [of k y] by linarith
  have "0 < y mod k" "y mod k < k"
    using assms False pos_mod_sign [of k y] pos_mod_bound [of k y] by linarith+
  then have "(y - 1) div k = y div k"
    by (intro int_div_pos_eq [OF e]) simp_all
  with False show ?thesis by simp
qed

lemma days_before_year_Suc:
  "days_before_year (y + 1) = days_before_year y + (if leap y then 366 else 365)"
proof -
  have a: "y div 4 = (y - 1) div 4 + (if y mod 4 = 0 then 1 else 0)"
    and b: "y div 100 = (y - 1) div 100 + (if y mod 100 = 0 then 1 else 0)"
    and c: "y div 400 = (y - 1) div 400 + (if y mod 400 = 0 then 1 else 0)"
    by (rule div_pred, simp)+
  have d: "y mod 100 = 0 \<Longrightarrow> y mod 4 = 0" "y mod 400 = 0 \<Longrightarrow> y mod 100 = 0"
    using dvd_trans [of 4 100 y] dvd_trans [of 100 400 y] by (simp_all add: mod_eq_0_iff_dvd)
  have s: "days_before_year (y + 1) = 365 * y + y div 4 - y div 100 + y div 400"
    by (simp add: days_before_year_def)
  have e: "days_before_year y = 365 * (y - 1) + (y - 1) div 4 - (y - 1) div 100 + (y - 1) div 400"
    by (rule days_before_year_def)
  have regroup: "365 * y + (p + i) - (q + j) + (r + k) = 365 * (y - 1) + p - q + r + 365 + i - j + k"
    for p q r i j k :: int by simp
  have "days_before_year (y + 1) = days_before_year y + 365 + (if y mod 4 = 0 then 1 else 0)
      - (if y mod 100 = 0 then 1 else 0) + (if y mod 400 = 0 then 1 else 0)"
    unfolding s e a b c by (rule regroup)
  also have "\<dots> = days_before_year y + (if leap y then 366 else 365)"
    unfolding leap_def using d
    by (cases "y mod 4 = 0"; cases "y mod 100 = 0"; cases "y mod 400 = 0") (simp_all only: if_True if_False simp_thms not_False_eq_True)
  finally show ?thesis .
qed

lemma sum_month_lengths: "sum_list (month_lengths y) = (if leap y then 366 else 365)"
  by (simp add: month_lengths_def)

lemma days_before_year_mono: "y \<le> z \<Longrightarrow> days_before_year y \<le> days_before_year z"
proof (induction z rule: int_ge_induct)
  case (step i)
  then show ?case by (simp add: days_before_year_Suc)
qed simp

text \<open>\<open>gmtime_r\<close>: the year is found by counting up from a lower bound, the month by taking
  the month lengths off.\<close>

function year_loop :: "int \<Rightarrow> int \<Rightarrow> int" where
  "year_loop y n = (if days_before_year (y + 1) \<le> n then year_loop (y + 1) n else y)"
  by pat_completeness auto
termination
  by (relation "measure (\<lambda>(y, n). nat (n - days_before_year y + 1))")
    (auto simp: days_before_year_Suc split: if_splits)

declare year_loop.simps [simp del]

definition year_of_day :: "int \<Rightarrow> int" where
  "year_of_day n = year_loop ((if n \<ge> 0 then n div 366 else n div 365) + 1) n"

fun month_split :: "int list \<Rightarrow> int \<Rightarrow> nat \<times> int" where
  "month_split [] d = (0, d)"
| "month_split (m # ms) d = (if d < m then (0, d) else (let (k, r) = month_split ms (d - m) in (Suc k, r)))"

record tm =
  tm_year :: int
  tm_mon :: nat
  tm_mday :: int
  tm_hour :: int
  tm_min :: int
  tm_sec :: int

definition epoch_days :: int where
  "epoch_days = 719162"

definition gmtime :: "int \<Rightarrow> tm" where
  "gmtime t =
     (let n = t div 86400 + epoch_days; y = year_of_day n;
          (k, d) = month_split (month_lengths y) (n - days_before_year y); s = t mod 86400
      in \<lparr>tm_year = y, tm_mon = Suc k, tm_mday = d + 1,
          tm_hour = s div 3600, tm_min = s mod 3600 div 60, tm_sec = s mod 60\<rparr>)"

definition timegm :: "tm \<Rightarrow> int" where
  "timegm m =
     (days_before_year (tm_year m) + sum_list (take (tm_mon m - 1) (month_lengths (tm_year m)))
        + tm_mday m - 1 - epoch_days) * 86400
     + tm_hour m * 3600 + tm_min m * 60 + tm_sec m"

lemma year_loop_correct:
  "days_before_year y \<le> n \<Longrightarrow>
   days_before_year (year_loop y n) \<le> n \<and> n < days_before_year (year_loop y n + 1)"
proof (induction y n rule: year_loop.induct)
  case (1 y n)
  then show ?case
    by (cases "days_before_year (y + 1) \<le> n") (simp_all add: year_loop.simps [of y n])
qed

lemma days_before_year_quarters:
  "days_before_year (k + 1) =
     365 * k + (k div 4 - k div 4 div 25 + k div 4 div 25 div 4)"
  by (simp add: days_before_year_def flip: zdiv_zmult2_eq)

lemma div_nonneg_le: "0 \<le> a \<Longrightarrow> 0 < k \<Longrightarrow> 0 \<le> a div k \<and> a div k \<le> a" for a k :: int
  using zdiv_mono2 [of a 1 k] by (simp add: pos_imp_zdiv_nonneg_iff)

lemma div_neg_ge: "a < 0 \<Longrightarrow> 0 < k \<Longrightarrow> a \<le> a div k \<and> a div k < 0" for a k :: int
  using zdiv_mono2_neg [of a 1 k] div_neg_pos_less0 [of a k] by simp

lemma days_before_year_low: "0 \<le> k \<Longrightarrow> days_before_year (k + 1) \<le> 366 * k"
  using div_nonneg_le [of k 4] div_nonneg_le [of "k div 4" 25]
    div_nonneg_le [of "k div 4 div 25" 4]
  unfolding days_before_year_quarters by linarith

lemma days_before_year_low_neg: "k < 0 \<Longrightarrow> days_before_year (k + 1) \<le> 365 * k"
  using div_neg_ge [of k 4] div_neg_ge [of "k div 4" 25] div_neg_ge [of "k div 4 div 25" 4]
  unfolding days_before_year_quarters by linarith

lemma year_of_day_correct:
  "days_before_year (year_of_day n) \<le> n \<and> n < days_before_year (year_of_day n + 1)"
proof -
  have "days_before_year ((if n \<ge> 0 then n div 366 else n div 365) + 1) \<le> n"
  proof (cases "n \<ge> 0")
    case True
    then have "0 \<le> n div 366" by (simp add: pos_imp_zdiv_nonneg_iff)
    moreover have "366 * (n div 366) \<le> n"
      using mult_div_mod_eq [of 366 n] pos_mod_sign [of 366 n] by linarith
    ultimately show ?thesis
      using True days_before_year_low [of "n div 366"] by simp
  next
    case False
    then have "n div 365 < 0" by (simp add: neg_imp_zdiv_neg_iff)
    moreover have "365 * (n div 365) \<le> n"
      using mult_div_mod_eq [of 365 n] pos_mod_sign [of 365 n] by linarith
    ultimately show ?thesis
      using False days_before_year_low_neg [of "n div 365"] by simp
  qed
  then show ?thesis
    unfolding year_of_day_def by (rule year_loop_correct)
qed

lemma month_split_correct:
  "0 \<le> d \<Longrightarrow> d < sum_list ms \<Longrightarrow> month_split ms d = (k, r) \<Longrightarrow>
   k < length ms \<and> sum_list (take k ms) + r = d \<and> 0 \<le> r \<and> r < ms ! k"
proof (induction ms arbitrary: d k r)
  case (Cons m ms)
  show ?case
  proof (cases "d < m")
    case False
    with Cons.prems(3) obtain k' where k': "month_split ms (d - m) = (k', r)" "k = Suc k'"
      by (auto split: prod.splits)
    with False Cons.IH [of "d - m" k' r] Cons.prems show ?thesis by simp
  qed (use Cons.prems in auto)
qed simp

lemma month_length_le: "k < 12 \<Longrightarrow> month_lengths y ! k \<le> 31"
proof -
  assume "k < 12"
  then have "month_lengths y ! k \<in> set (month_lengths y)"
    by (intro nth_mem) (simp add: month_lengths_def)
  moreover have "\<forall>m\<in>set (month_lengths y). m \<le> 31" by (simp add: month_lengths_def)
  ultimately show ?thesis by blast
qed

text \<open>\<open>timegm\<close> inverts \<open>gmtime\<close>, and the fields are in range.\<close>

lemma gmtime_fields:
  assumes "gmtime t = m"
  shows "timegm m = t" "1 \<le> tm_mon m" "tm_mon m \<le> 12" "1 \<le> tm_mday m" "tm_mday m \<le> 31"
    "0 \<le> tm_hour m" "tm_hour m \<le> 23" "0 \<le> tm_min m" "tm_min m \<le> 59" "0 \<le> tm_sec m" "tm_sec m \<le> 59"
    "tm_year m = year_of_day (t div 86400 + epoch_days)"
proof -
  define n where "n = t div 86400 + epoch_days"
  define y where "y = year_of_day n"
  define s where "s = t mod 86400"
  obtain k d where kd: "month_split (month_lengths y) (n - days_before_year y) = (k, d)"
    by (cases "month_split (month_lengths y) (n - days_before_year y)") auto
  have yn: "days_before_year y \<le> n" "n < days_before_year (y + 1)"
    unfolding y_def using year_of_day_correct by auto
  have ms: "k < length (month_lengths y) \<and> sum_list (take k (month_lengths y)) + d =
      n - days_before_year y \<and> 0 \<le> d \<and> d < month_lengths y ! k"
    by (rule month_split_correct [OF _ _ kd])
      (use yn in \<open>simp_all add: sum_month_lengths days_before_year_Suc\<close>)
  then have k12: "k < 12" by (simp add: month_lengths_def)
  have m: "m = \<lparr>tm_year = y, tm_mon = Suc k, tm_mday = d + 1,
      tm_hour = s div 3600, tm_min = s mod 3600 div 60, tm_sec = s mod 60\<rparr>"
    using assms kd by (simp add: gmtime_def Let_def n_def y_def s_def)
  have s: "0 \<le> s" "s < 86400" by (simp_all add: s_def)
  have hms: "s div 3600 * 3600 + s mod 3600 div 60 * 60 + s mod 60 = s"
  proof -
    have "s mod 3600 mod 60 = s mod 60" by (simp add: mod_mod_cancel)
    then show ?thesis
      using mult_div_mod_eq [of 3600 s] mult_div_mod_eq [of 60 "s mod 3600"] by linarith
  qed
  have "timegm m = (days_before_year y + sum_list (take k (month_lengths y)) + d - epoch_days) * 86400
      + (s div 3600 * 3600 + s mod 3600 div 60 * 60 + s mod 60)"
    by (simp add: m timegm_def)
  also have "days_before_year y + sum_list (take k (month_lengths y)) + d - epoch_days = t div 86400"
    using ms by (simp add: n_def)
  also have "t div 86400 * 86400 + (s div 3600 * 3600 + s mod 3600 div 60 * 60 + s mod 60) = t"
    unfolding hms by (simp add: s_def)
  finally show "timegm m = t" .
  show "1 \<le> tm_mon m" "tm_mon m \<le> 12" using k12 by (simp_all add: m)
  show "1 \<le> tm_mday m" "tm_mday m \<le> 31"
    using ms month_length_le [OF k12, of y] by (simp_all add: m)
  show "0 \<le> tm_hour m" "tm_hour m \<le> 23" "0 \<le> tm_min m" "tm_min m \<le> 59" "0 \<le> tm_sec m" "tm_sec m \<le> 59"
    using s zdiv_mono1 [of s 86399 3600] zdiv_mono1 [of "s mod 3600" 3599 60]
    by (simp_all add: m pos_imp_zdiv_nonneg_iff)
  show "tm_year m = year_of_day (t div 86400 + epoch_days)" by (simp add: m y_def n_def)
qed

lemma year_of_day_range:
  assumes "days_before_year a \<le> n" "n < days_before_year b"
  shows "a \<le> year_of_day n" "year_of_day n < b"
proof -
  from year_of_day_correct have y: "days_before_year (year_of_day n) \<le> n"
    "n < days_before_year (year_of_day n + 1)" by auto
  show "a \<le> year_of_day n"
  proof (rule ccontr)
    assume "\<not> ?thesis"
    then have "days_before_year (year_of_day n + 1) \<le> days_before_year a"
      by (intro days_before_year_mono) simp
    with y assms show False by linarith
  qed
  show "year_of_day n < b"
  proof (rule ccontr)
    assume "\<not> ?thesis"
    then have "days_before_year b \<le> days_before_year (year_of_day n)"
      by (intro days_before_year_mono) simp
    with y assms show False by linarith
  qed
qed

section \<open>The time text of the database\<close>

definition toDbString :: "time_point \<Rightarrow> string" where
  "toDbString tp =
     (let m = gmtime (time_t_of tp)
      in fmt_int_pad 4 (nat (tm_year m)) @ CHR ''-'' #
         fmt_int_pad 2 (tm_mon m) @ CHR ''-'' #
         fmt_int_pad 2 (nat (tm_mday m)) @ CHR '' '' #
         fmt_int_pad 2 (nat (tm_hour m)) @ CHR '':'' #
         fmt_int_pad 2 (nat (tm_min m)) @ CHR '':'' #
         fmt_int_pad 2 (nat (tm_sec m)))"

text \<open>\<open>get_time\<close>: a numeric field takes at most \<open>w\<close> digits and must be in its range, a
  literal must match, a space of the format takes any white space.\<close>

definition read_field :: "nat \<Rightarrow> nat \<Rightarrow> nat \<Rightarrow> string \<Rightarrow> (nat \<times> string) option" where
  "read_field w lo hi s =
     (let ds = takeWhile is_digit (take w s); n = read_nat ds
      in if ds = [] \<or> n < lo \<or> n > hi then None else Some (n, drop (length ds) s))"

definition read_lit :: "char \<Rightarrow> string \<Rightarrow> string option" where
  "read_lit c s = (case s of [] \<Rightarrow> None | c' # r \<Rightarrow> if c' = c then Some r else None)"

definition get_time :: "string \<Rightarrow> tm option" where
  "get_time s = do {
     (y, s) \<leftarrow> read_field 4 0 9999 (dropWhile is_space s);
     s \<leftarrow> read_lit (CHR ''-'') s;
     (mo, s) \<leftarrow> read_field 2 1 12 s;
     s \<leftarrow> read_lit (CHR ''-'') s;
     (d, s) \<leftarrow> read_field 2 1 31 s;
     (h, s) \<leftarrow> read_field 2 0 23 (dropWhile is_space s);
     s \<leftarrow> read_lit (CHR '':'') s;
     (mi, s) \<leftarrow> read_field 2 0 59 s;
     s \<leftarrow> read_lit (CHR '':'') s;
     (se, s) \<leftarrow> read_field 2 0 60 s;
     Some \<lparr>tm_year = int y, tm_mon = mo, tm_mday = int d, tm_hour = int h, tm_min = int mi, tm_sec = int se\<rparr>
   }"

definition fromDbString :: "string \<Rightarrow> time_point option" where
  "fromDbString value =
     (if value = [] then None
      else let cleaned = map (\<lambda>c. if c = CHR ''T'' then CHR '' '' else c)
                             (takeWhile (\<lambda>c. c \<noteq> CHR ''.'') value)
           in case get_time cleaned of
                None \<Rightarrow> None
              | Some m \<Rightarrow> (let t = timegm m in if t = -1 then None else Some (from_time_t t)))"

lemma length_fmt_nat_le: "n < 10 ^ Suc w \<Longrightarrow> length (fmt_nat n) \<le> Suc w"
proof (induction w arbitrary: n)
  case 0
  then show ?case by (simp add: fmt_nat.simps [of n])
next
  case (Suc w)
  then show ?case
    by (cases "n < 10") (simp_all add: fmt_nat.simps [of n] less_mult_imp_div_less mult.commute)
qed

lemma length_fmt_int_pad: "n < 10 ^ Suc w \<Longrightarrow> length (fmt_int_pad (Suc w) n) = Suc w"
  using length_fmt_nat_le [of n w] by (simp add: fmt_int_pad_def)

lemma fmt_int_pad_digits: "c \<in> set (fmt_int_pad w n) \<Longrightarrow> is_digit c"
  by (auto simp: fmt_int_pad_def is_digit_def cbyte_def dest: fmt_nat_digits)

lemma read_nat_zeros: "read_nat (replicate k (CHR ''0'') @ s) = read_nat s"
proof -
  have "foldl (\<lambda>n c. 10 * n + digit_val c) 0 (replicate k (CHR ''0'')) = 0"
    by (induction k) (simp_all add: digit_val_def cbyte_def)
  then show ?thesis by (simp add: read_nat_def)
qed

lemma read_field_pad:
  assumes "n < 10 ^ Suc w" "lo \<le> n" "n \<le> hi"
  shows "read_field (Suc w) lo hi (fmt_int_pad (Suc w) n @ rest) = Some (n, rest)"
proof -
  have len: "length (fmt_int_pad (Suc w) n) = Suc w" using assms(1) by (rule length_fmt_int_pad)
  then have ne: "fmt_int_pad (Suc w) n \<noteq> []" by auto
  have tw: "takeWhile is_digit (take (Suc w) (fmt_int_pad (Suc w) n @ rest)) = fmt_int_pad (Suc w) n"
    using fmt_int_pad_digits by (simp add: takeWhile_eq_all_conv len)
  have "read_nat (fmt_int_pad (Suc w) n) = n"
    by (simp add: fmt_int_pad_def read_nat_zeros)
  then show ?thesis
    unfolding read_field_def Let_def tw using assms ne by (simp add: len)
qed

lemma read_lit_Cons [simp]: "read_lit c (c # s) = Some s"
  by (simp add: read_lit_def)

lemma fmt_int_pad_no_space:
  assumes "n < 10 ^ Suc w"
  shows "dropWhile is_space (fmt_int_pad (Suc w) n @ rest) = fmt_int_pad (Suc w) n @ rest"
proof -
  obtain c cs where "fmt_int_pad (Suc w) n = c # cs"
    using length_fmt_int_pad [OF assms] by (cases "fmt_int_pad (Suc w) n") auto
  moreover from this have "is_digit c" using fmt_int_pad_digits [of c "Suc w" n] by simp
  ultimately show ?thesis using digit_not_sign by simp
qed

lemmas fmt_field_simps =
  read_field_pad [where w = 3, unfolded Suc_numeral, simplified]
  fmt_int_pad_no_space [where w = 3, unfolded Suc_numeral, simplified]
  read_field_pad [where w = 1, unfolded One_nat_def, folded numeral_2_eq_2, simplified]
  fmt_int_pad_no_space [where w = 1, unfolded One_nat_def, folded numeral_2_eq_2, simplified]

text \<open>The reader inverts the writer for the years of a DATETIME, 1000 to 9999; the one second
  before the epoch is lost, because \<open>timegm\<close> reports errors as -1.\<close>

definition db_time :: "time_point \<Rightarrow> bool" where
  "db_time tp \<longleftrightarrow> -30610224000 \<le> time_t_of tp \<and> time_t_of tp < 253402300800 \<and> time_t_of tp \<noteq> -1"

lemma days_of_range:
  "a * 86400 \<le> t \<Longrightarrow> t < b * 86400 \<Longrightarrow> a \<le> t div 86400 \<and> t div 86400 < b" for a b t :: int
  using zdiv_mono1 [of "a * 86400" t 86400] mult_div_mod_eq [of 86400 t] pos_mod_sign [of 86400 t]
  by (simp add: mult.commute)

lemma gmtime_year_range:
  assumes "-30610224000 \<le> t" "t < 253402300800"
  shows "1000 \<le> tm_year (gmtime t) \<and> tm_year (gmtime t) < 10000"
proof -
  have "-354285 \<le> t div 86400 \<and> t div 86400 < 2932897"
    by (rule days_of_range) (use assms in simp_all)
  then have "days_before_year 1000 \<le> t div 86400 + epoch_days"
    "t div 86400 + epoch_days < days_before_year 10000"
    by (simp_all add: days_before_year_def epoch_days_def)
  then show ?thesis
    using year_of_day_range gmtime_fields(12) [OF refl] by metis
qed

lemma fromDbString_toDbString:
  assumes "db_time tp"
  shows "fromDbString (toDbString tp) = Some (from_time_t (time_t_of tp))"
proof -
  define m where "m = gmtime (time_t_of tp)"
  note f = gmtime_fields [OF m_def [symmetric]]
  have y: "1000 \<le> tm_year m \<and> tm_year m < 10000"
    unfolding m_def by (rule gmtime_year_range) (use assms in \<open>simp_all add: db_time_def\<close>)
  have tx: "toDbString tp = fmt_int_pad 4 (nat (tm_year m)) @ CHR ''-'' #
         fmt_int_pad 2 (tm_mon m) @ CHR ''-'' # fmt_int_pad 2 (nat (tm_mday m)) @ CHR '' '' #
         fmt_int_pad 2 (nat (tm_hour m)) @ CHR '':'' # fmt_int_pad 2 (nat (tm_min m)) @ CHR '':'' #
         fmt_int_pad 2 (nat (tm_sec m)) @ []"
    by (simp add: toDbString_def m_def Let_def)
  have chars: "c \<in> set (toDbString tp) \<Longrightarrow> is_digit c \<or> c \<in> {CHR ''-'', CHR '' '', CHR '':''}" for c
    unfolding tx by (auto dest: fmt_int_pad_digits)
  have "c \<noteq> CHR ''.'' \<and> c \<noteq> CHR ''T''" if "c \<in> set (toDbString tp)" for c
    using chars [OF that] by (auto simp: is_digit_def cbyte_def)
  then have tw: "takeWhile (\<lambda>c. c \<noteq> CHR ''.'') (toDbString tp) = toDbString tp"
    and mp: "map (\<lambda>c. if c = CHR ''T'' then CHR '' '' else c) (toDbString tp) = toDbString tp"
    by (simp_all add: takeWhile_eq_all_conv map_idI)
  have gt: "get_time (toDbString tp) = Some m"
  proof -
    have b: "nat (tm_year m) < 10000" "nat (tm_year m) \<le> 9999" "tm_mon m < 100" "1 \<le> tm_mon m" "Suc 0 \<le> tm_mon m"
      "tm_mon m \<le> 12" "nat (tm_mday m) < 100" "1 \<le> nat (tm_mday m)" "Suc 0 \<le> nat (tm_mday m)" "nat (tm_mday m) \<le> 31"
      "nat (tm_hour m) < 100" "nat (tm_hour m) \<le> 23" "nat (tm_min m) < 100" "nat (tm_min m) \<le> 59"
      "nat (tm_sec m) < 100" "nat (tm_sec m) \<le> 60" "0 \<le> tm_mday m" "0 \<le> tm_hour m" "0 \<le> tm_min m"
      "0 \<le> tm_sec m" "0 \<le> tm_year m"
      using f(2-11) y by auto
    have sp: "is_space (CHR '' '')" by (simp add: is_space_def cbyte_def)
    have "m = \<lparr>tm_year = tm_year m, tm_mon = tm_mon m, tm_mday = tm_mday m, tm_hour = tm_hour m,
        tm_min = tm_min m, tm_sec = tm_sec m\<rparr>" by simp
    then show ?thesis
      unfolding tx get_time_def by (simp add: fmt_field_simps sp b y del: append_Nil2)
  qed
  have "toDbString tp \<noteq> []" by (simp add: tx)
  then show ?thesis
    using assms unfolding fromDbString_def Let_def tw mp gt by (simp add: f(1) db_time_def)
qed

section \<open>Properties\<close>

text \<open>
  A time point written to the database as text is read back as the same instant, cut to
  whole seconds. The hypothesis is the range of a DATETIME column without the one second that
  \<open>timegm\<close> cannot return.
\<close>

theorem db_time_roundtrip:
  assumes "db_time tp"
  shows "fromDbString (toDbString tp) = Some (tp div ns * ns)"
  using fromDbString_toDbString [OF assms] by (simp add: from_time_t_def time_t_of_def)

theorem db_time_roundtrip_witness:
  "fromDbString (toDbString 1718000000500000000) = Some 1718000000000000000"
  using db_time_roundtrip [of 1718000000500000000] by (simp add: db_time_def time_t_of_def ns_def)

end
