(* ===== verification/Image_Model.thy ===== *)
theory Image_Model
  imports Task_Status Json_Model Chrono
begin

text \<open>
  The task record and its JSON form: \<open>Backend/include/models/image_generation.h\<close>,
  \<open>Backend/src/models/image_generation.cpp\<close> and the failure codes of
  \<open>Backend/include/models/failure_code.h\<close>. The field \<open>id\<close> is \<open>img_id\<close> here, and every other
  field keeps its name behind the same prefix.
\<close>

record image_generation =
  img_id :: int
  img_user_id :: int
  img_request_id :: string
  img_prompt :: string
  img_negative_prompt :: string
  img_num_steps :: int
  img_height :: int
  img_width :: int
  img_seed :: "int option"
  img_status :: task_status
  img_retry_count :: int
  img_max_retries :: int
  img_failure_code :: string
  img_worker_id :: string
  img_image_url :: string
  img_thumbnail_url :: string
  img_storage_key :: string
  img_image_bytes :: string
  img_error_message :: string
  img_generation_time :: real
  img_created_at :: time_point
  img_started_at :: "time_point option"
  img_completed_at :: "time_point option"
  img_cancelled_at :: "time_point option"
  img_lease_expires_at :: "time_point option"

definition default_image :: image_generation where
  "default_image =
     \<lparr>img_id = 0, img_user_id = 0, img_request_id = [], img_prompt = [], img_negative_prompt = [],
      img_num_steps = 8, img_height = 768, img_width = 768, img_seed = None, img_status = Pending,
      img_retry_count = 0, img_max_retries = 3, img_failure_code = [], img_worker_id = [],
      img_image_url = [], img_thumbnail_url = [], img_storage_key = [], img_image_bytes = [],
      img_error_message = [], img_generation_time = 0, img_created_at = 0, img_started_at = None,
      img_completed_at = None, img_cancelled_at = None, img_lease_expires_at = None\<rparr>"

section \<open>Failure codes\<close>

definition kPythonServiceRequestFailed :: string where
  "kPythonServiceRequestFailed = ''python_service_request_failed''"
definition kPythonServiceEmptyResponse :: string where
  "kPythonServiceEmptyResponse = ''python_service_empty_response''"
definition kPythonServiceInvalidJson :: string where
  "kPythonServiceInvalidJson = ''python_service_invalid_json''"
definition kPythonServiceException :: string where
  "kPythonServiceException = ''python_service_exception''"
definition kPythonServiceUnknownException :: string where
  "kPythonServiceUnknownException = ''python_service_unknown_exception''"
definition kMissingImagePayload :: string where
  "kMissingImagePayload = ''missing_image_payload''"
definition kStorageWriteFailed :: string where
  "kStorageWriteFailed = ''storage_write_failed''"
definition kLeaseExpired :: string where
  "kLeaseExpired = ''lease_expired''"
definition kLeaseExpiredMaxRetries :: string where
  "kLeaseExpiredMaxRetries = ''lease_expired_max_retries''"
definition kModelServiceUnavailable :: string where
  "kModelServiceUnavailable = ''model_service_unavailable''"

lemmas failure_code_defs = kPythonServiceRequestFailed_def kPythonServiceEmptyResponse_def
  kPythonServiceInvalidJson_def kPythonServiceException_def kPythonServiceUnknownException_def
  kMissingImagePayload_def kStorageWriteFailed_def kLeaseExpired_def kLeaseExpiredMaxRetries_def
  kModelServiceUnavailable_def

section \<open>Reading JSON\<close>

text \<open>Each reader returns the first of the keys whose member has the wanted type.\<close>

fun readStringAny :: "json \<Rightarrow> string list \<Rightarrow> string option" where
  "readStringAny j [] = None"
| "readStringAny j (k # ks) = (case jfind j k of Some (JStr s) \<Rightarrow> Some s | _ \<Rightarrow> readStringAny j ks)"

fun readIntAny :: "json \<Rightarrow> string list \<Rightarrow> int option" where
  "readIntAny j [] = None"
| "readIntAny j (k # ks) = (case jfind j k of Some (JInt n) \<Rightarrow> Some (int32_of n) | _ \<Rightarrow> readIntAny j ks)"

fun readInt64Any :: "json \<Rightarrow> string list \<Rightarrow> int option" where
  "readInt64Any j [] = None"
| "readInt64Any j (k # ks) = (case jfind j k of Some (JInt n) \<Rightarrow> Some (int64_of n) | _ \<Rightarrow> readInt64Any j ks)"

fun readDoubleAny :: "json \<Rightarrow> string list \<Rightarrow> real option" where
  "readDoubleAny j [] = None"
| "readDoubleAny j (k # ks) =
     (case jfind j k of Some (JFloat r) \<Rightarrow> Some r | Some (JInt n) \<Rightarrow> Some (real_of_int n)
      | _ \<Rightarrow> readDoubleAny j ks)"

definition readTimeAny :: "json \<Rightarrow> string list \<Rightarrow> time_point option" where
  "readTimeAny j ks = (case readStringAny j ks of Some v \<Rightarrow> fromDbString v | None \<Rightarrow> None)"

text \<open>\<open>if (const auto value = \<dots>) img.field = *value;\<close>: a missing value leaves the default.\<close>

definition fromJson :: "json \<Rightarrow> image_generation" where
  "fromJson j =
     default_image
        \<lparr>img_id := case readInt64Any j [''id'', ''taskId''] of Some x \<Rightarrow> x | None \<Rightarrow> img_id default_image,
         img_user_id := case readInt64Any j [''user_id'', ''userId''] of Some x \<Rightarrow> x | None \<Rightarrow> img_user_id default_image,
         img_request_id := case readStringAny j [''request_id'', ''requestId''] of Some x \<Rightarrow> x | None \<Rightarrow> [],
         img_prompt := case readStringAny j [''prompt''] of Some x \<Rightarrow> x | None \<Rightarrow> [],
         img_negative_prompt := case readStringAny j [''negative_prompt'', ''negativePrompt''] of Some x \<Rightarrow> x | None \<Rightarrow> [],
         img_num_steps := case readIntAny j [''num_steps'', ''numSteps''] of Some x \<Rightarrow> x | None \<Rightarrow> img_num_steps default_image,
         img_height := case readIntAny j [''height''] of Some x \<Rightarrow> x | None \<Rightarrow> img_height default_image,
         img_width := case readIntAny j [''width''] of Some x \<Rightarrow> x | None \<Rightarrow> img_width default_image,
         img_seed := readIntAny j [''seed''],
         img_status := case readStringAny j [''status''] of Some x \<Rightarrow> statusFromString x | None \<Rightarrow> img_status default_image,
         img_image_url := case readStringAny j [''image_url'', ''imageUrl''] of Some x \<Rightarrow> x | None \<Rightarrow> [],
         img_thumbnail_url := case readStringAny j [''thumbnail_url'', ''thumbnailUrl''] of Some x \<Rightarrow> x | None \<Rightarrow> [],
         img_storage_key := case readStringAny j [''storage_key'', ''storage_key'', ''storageKey''] of Some x \<Rightarrow> x | None \<Rightarrow> [],
         img_image_bytes := case readStringAny j [''image_bytes'', ''imageBytes''] of Some x \<Rightarrow> x | None \<Rightarrow> [],
         img_error_message := case readStringAny j [''error_message'', ''errorMessage''] of Some x \<Rightarrow> x | None \<Rightarrow> [],
         img_generation_time := case readDoubleAny j [''generation_time'', ''generationTime''] of Some x \<Rightarrow> x | None \<Rightarrow> 0,
         img_retry_count := case readIntAny j [''retry_count'', ''retryCount''] of Some x \<Rightarrow> x | None \<Rightarrow> img_retry_count default_image,
         img_max_retries := case readIntAny j [''max_retries'', ''maxRetries''] of Some x \<Rightarrow> x | None \<Rightarrow> img_max_retries default_image,
         img_failure_code := case readStringAny j [''failure_code'', ''failureCode''] of Some x \<Rightarrow> x | None \<Rightarrow> [],
         img_worker_id := case readStringAny j [''worker_id'', ''workerId''] of Some x \<Rightarrow> x | None \<Rightarrow> [],
         img_created_at := case readTimeAny j [''created_at'', ''createdAt''] of Some x \<Rightarrow> x | None \<Rightarrow> img_created_at default_image,
         img_started_at := readTimeAny j [''started_at'', ''startedAt''],
         img_completed_at := readTimeAny j [''completed_at'', ''completedAt''],
         img_cancelled_at := readTimeAny j [''cancelled_at'', ''cancelledAt''],
         img_lease_expires_at := readTimeAny j [''lease_expires_at'', ''leaseExpiresAt'']\<rparr>"

section \<open>Writing JSON\<close>

definition putOptionalTime :: "string \<Rightarrow> time_point option \<Rightarrow> (string \<times> json) list" where
  "putOptionalTime key value = (case value of Some tp \<Rightarrow> [(key, JStr (toDbString tp))] | None \<Rightarrow> [])"

definition toJson :: "image_generation \<Rightarrow> json" where
  "toJson img = JObj (
     [(''id'', JInt (img_id img)), (''taskId'', JInt (img_id img)),
      (''userId'', JInt (img_user_id img)), (''requestId'', JStr (img_request_id img)),
      (''prompt'', JStr (img_prompt img)), (''negativePrompt'', JStr (img_negative_prompt img)),
      (''numSteps'', JInt (img_num_steps img)), (''height'', JInt (img_height img)),
      (''width'', JInt (img_width img)), (''status'', JStr (statusToString (img_status img))),
      (''retryCount'', JInt (img_retry_count img)), (''maxRetries'', JInt (img_max_retries img)),
      (''failureCode'', JStr (img_failure_code img)), (''workerId'', JStr (img_worker_id img)),
      (''imageUrl'', JStr (img_image_url img)), (''errorMessage'', JStr (img_error_message img)),
      (''generationTime'', JFloat (img_generation_time img)),
      (''createdAt'', JStr (toDbString (img_created_at img))),
      (''thumbnailUrl'', JStr (img_thumbnail_url img)), (''storageKey'', JStr (img_storage_key img)),
      (''imageBytes'', JStr (img_image_bytes img))]
     @ (case img_seed img of Some n \<Rightarrow> [(''seed'', JInt n)] | None \<Rightarrow> [])
     @ putOptionalTime ''startedAt'' (img_started_at img)
     @ putOptionalTime ''completedAt'' (img_completed_at img)
     @ putOptionalTime ''cancelledAt'' (img_cancelled_at img)
     @ putOptionalTime ''leaseExpiresAt'' (img_lease_expires_at img))"

section \<open>Facts\<close>

text \<open>A record the code can hold: the integers have their widths and the time points are
  instants of a DATETIME column.\<close>

definition wf_image :: "image_generation \<Rightarrow> bool" where
  "wf_image img \<longleftrightarrow>
     is_int64 (img_id img) \<and> is_int64 (img_user_id img) \<and> is_int32 (img_num_steps img) \<and>
     is_int32 (img_height img) \<and> is_int32 (img_width img) \<and> pred_option is_int32 (img_seed img) \<and>
     is_int32 (img_retry_count img) \<and> is_int32 (img_max_retries img) \<and> db_time (img_created_at img) \<and>
     pred_option db_time (img_started_at img) \<and> pred_option db_time (img_completed_at img) \<and>
     pred_option db_time (img_cancelled_at img) \<and> pred_option db_time (img_lease_expires_at img)"

definition whole_seconds :: "time_point \<Rightarrow> time_point" where
  "whole_seconds tp = from_time_t (time_t_of tp)"

definition cut_times :: "image_generation \<Rightarrow> image_generation" where
  "cut_times img = img
     \<lparr>img_created_at := whole_seconds (img_created_at img),
      img_started_at := map_option whole_seconds (img_started_at img),
      img_completed_at := map_option whole_seconds (img_completed_at img),
      img_cancelled_at := map_option whole_seconds (img_cancelled_at img),
      img_lease_expires_at := map_option whole_seconds (img_lease_expires_at img)\<rparr>"

lemma whole_seconds_idem [simp]: "whole_seconds (whole_seconds tp) = whole_seconds tp"
  by (simp add: whole_seconds_def)

lemma fromDbString_whole: "db_time tp \<Longrightarrow> fromDbString (toDbString tp) = Some (whole_seconds tp)"
  by (simp add: fromDbString_toDbString whole_seconds_def)

text \<open>The optional members of \<open>toJson\<close>: an absent one is not found, and no other key is one
  of theirs.\<close>

lemma map_of_putOptionalTime [simp]:
  "map_of (putOptionalTime key v) k =
     (if k = key then map_option (\<lambda>tp. JStr (toDbString tp)) v else None)"
  by (auto simp: putOptionalTime_def split: option.splits)

lemma map_of_seed [simp]:
  "map_of (case v of Some n \<Rightarrow> [(''seed'', JInt n)] | None \<Rightarrow> []) k =
     (if k = ''seed'' then map_option JInt v else None)"
  by (auto split: option.splits)

lemma jfind_toJson:
  "jfind (toJson img) ''id'' = Some (JInt (img_id img))"
  "jfind (toJson img) ''userId'' = Some (JInt (img_user_id img))"
  "jfind (toJson img) ''requestId'' = Some (JStr (img_request_id img))"
  "jfind (toJson img) ''prompt'' = Some (JStr (img_prompt img))"
  "jfind (toJson img) ''negativePrompt'' = Some (JStr (img_negative_prompt img))"
  "jfind (toJson img) ''numSteps'' = Some (JInt (img_num_steps img))"
  "jfind (toJson img) ''height'' = Some (JInt (img_height img))"
  "jfind (toJson img) ''width'' = Some (JInt (img_width img))"
  "jfind (toJson img) ''status'' = Some (JStr (statusToString (img_status img)))"
  "jfind (toJson img) ''retryCount'' = Some (JInt (img_retry_count img))"
  "jfind (toJson img) ''maxRetries'' = Some (JInt (img_max_retries img))"
  "jfind (toJson img) ''failureCode'' = Some (JStr (img_failure_code img))"
  "jfind (toJson img) ''workerId'' = Some (JStr (img_worker_id img))"
  "jfind (toJson img) ''imageUrl'' = Some (JStr (img_image_url img))"
  "jfind (toJson img) ''errorMessage'' = Some (JStr (img_error_message img))"
  "jfind (toJson img) ''generationTime'' = Some (JFloat (img_generation_time img))"
  "jfind (toJson img) ''createdAt'' = Some (JStr (toDbString (img_created_at img)))"
  "jfind (toJson img) ''thumbnailUrl'' = Some (JStr (img_thumbnail_url img))"
  "jfind (toJson img) ''storageKey'' = Some (JStr (img_storage_key img))"
  "jfind (toJson img) ''imageBytes'' = Some (JStr (img_image_bytes img))"
  "jfind (toJson img) ''seed'' = map_option JInt (img_seed img)"
  "jfind (toJson img) ''startedAt'' = map_option (\<lambda>tp. JStr (toDbString tp)) (img_started_at img)"
  "jfind (toJson img) ''completedAt'' = map_option (\<lambda>tp. JStr (toDbString tp)) (img_completed_at img)"
  "jfind (toJson img) ''cancelledAt'' = map_option (\<lambda>tp. JStr (toDbString tp)) (img_cancelled_at img)"
  "jfind (toJson img) ''leaseExpiresAt'' = map_option (\<lambda>tp. JStr (toDbString tp)) (img_lease_expires_at img)"
  by (simp_all add: toJson_def map_add_def split: option.split)

lemma jfind_toJson_absent:
  "jfind (toJson img) ''user_id'' = None"
  "jfind (toJson img) ''request_id'' = None"
  "jfind (toJson img) ''negative_prompt'' = None"
  "jfind (toJson img) ''num_steps'' = None"
  "jfind (toJson img) ''image_url'' = None"
  "jfind (toJson img) ''thumbnail_url'' = None"
  "jfind (toJson img) ''storage_key'' = None"
  "jfind (toJson img) ''image_bytes'' = None"
  "jfind (toJson img) ''error_message'' = None"
  "jfind (toJson img) ''generation_time'' = None"
  "jfind (toJson img) ''retry_count'' = None"
  "jfind (toJson img) ''max_retries'' = None"
  "jfind (toJson img) ''failure_code'' = None"
  "jfind (toJson img) ''worker_id'' = None"
  "jfind (toJson img) ''created_at'' = None"
  "jfind (toJson img) ''started_at'' = None"
  "jfind (toJson img) ''completed_at'' = None"
  "jfind (toJson img) ''cancelled_at'' = None"
  "jfind (toJson img) ''lease_expires_at'' = None"
  by (simp_all add: toJson_def map_add_def)

lemma fromJson_sel:
  "img_id (fromJson j) = (case readInt64Any j [''id'', ''taskId''] of Some x \<Rightarrow> x | None \<Rightarrow> 0)"
  "img_user_id (fromJson j) = (case readInt64Any j [''user_id'', ''userId''] of Some x \<Rightarrow> x | None \<Rightarrow> 0)"
  "img_num_steps (fromJson j) = (case readIntAny j [''num_steps'', ''numSteps''] of Some x \<Rightarrow> x | None \<Rightarrow> 8)"
  "img_height (fromJson j) = (case readIntAny j [''height''] of Some x \<Rightarrow> x | None \<Rightarrow> 768)"
  "img_width (fromJson j) = (case readIntAny j [''width''] of Some x \<Rightarrow> x | None \<Rightarrow> 768)"
  "img_retry_count (fromJson j) = (case readIntAny j [''retry_count'', ''retryCount''] of Some x \<Rightarrow> x | None \<Rightarrow> 0)"
  "img_max_retries (fromJson j) = (case readIntAny j [''max_retries'', ''maxRetries''] of Some x \<Rightarrow> x | None \<Rightarrow> 3)"
  "img_generation_time (fromJson j) = (case readDoubleAny j [''generation_time'', ''generationTime''] of Some x \<Rightarrow> x | None \<Rightarrow> 0)"
  "img_created_at (fromJson j) = (case readTimeAny j [''created_at'', ''createdAt''] of Some x \<Rightarrow> x | None \<Rightarrow> 0)"
  "img_request_id (fromJson j) = (case readStringAny j [''request_id'', ''requestId''] of Some x \<Rightarrow> x | None \<Rightarrow> [])"
  "img_negative_prompt (fromJson j) = (case readStringAny j [''negative_prompt'', ''negativePrompt''] of Some x \<Rightarrow> x | None \<Rightarrow> [])"
  "img_image_url (fromJson j) = (case readStringAny j [''image_url'', ''imageUrl''] of Some x \<Rightarrow> x | None \<Rightarrow> [])"
  "img_thumbnail_url (fromJson j) = (case readStringAny j [''thumbnail_url'', ''thumbnailUrl''] of Some x \<Rightarrow> x | None \<Rightarrow> [])"
  "img_image_bytes (fromJson j) = (case readStringAny j [''image_bytes'', ''imageBytes''] of Some x \<Rightarrow> x | None \<Rightarrow> [])"
  "img_error_message (fromJson j) = (case readStringAny j [''error_message'', ''errorMessage''] of Some x \<Rightarrow> x | None \<Rightarrow> [])"
  "img_failure_code (fromJson j) = (case readStringAny j [''failure_code'', ''failureCode''] of Some x \<Rightarrow> x | None \<Rightarrow> [])"
  "img_worker_id (fromJson j) = (case readStringAny j [''worker_id'', ''workerId''] of Some x \<Rightarrow> x | None \<Rightarrow> [])"
  "img_prompt (fromJson j) = (case readStringAny j [''prompt''] of Some x \<Rightarrow> x | None \<Rightarrow> [])"
  "img_storage_key (fromJson j) = (case readStringAny j [''storage_key'', ''storage_key'', ''storageKey''] of Some x \<Rightarrow> x | None \<Rightarrow> [])"
  "img_status (fromJson j) = (case readStringAny j [''status''] of Some x \<Rightarrow> statusFromString x | None \<Rightarrow> Pending)"
  "img_seed (fromJson j) = readIntAny j [''seed'']"
  "img_started_at (fromJson j) = readTimeAny j [''started_at'', ''startedAt'']"
  "img_completed_at (fromJson j) = readTimeAny j [''completed_at'', ''completedAt'']"
  "img_cancelled_at (fromJson j) = readTimeAny j [''cancelled_at'', ''cancelledAt'']"
  "img_lease_expires_at (fromJson j) = readTimeAny j [''lease_expires_at'', ''leaseExpiresAt'']"
  by (simp_all add: fromJson_def default_image_def del: readStringAny.simps readIntAny.simps
      readInt64Any.simps readDoubleAny.simps split: option.split)

lemmas json_read_simps = fromJson_sel jfind_toJson jfind_toJson_absent readTimeAny_def

lemma fromJson_toJson_ints:
  assumes "wf_image img"
  shows "img_id (fromJson (toJson img)) = img_id img"
    "img_user_id (fromJson (toJson img)) = img_user_id img"
    "img_num_steps (fromJson (toJson img)) = img_num_steps img"
    "img_height (fromJson (toJson img)) = img_height img"
    "img_width (fromJson (toJson img)) = img_width img"
    "img_seed (fromJson (toJson img)) = img_seed img"
    "img_retry_count (fromJson (toJson img)) = img_retry_count img"
    "img_max_retries (fromJson (toJson img)) = img_max_retries img"
    "img_generation_time (fromJson (toJson img)) = img_generation_time img"
  using assms by (simp_all add: json_read_simps wf_image_def) (cases "img_seed img"; simp)

lemma fromJson_toJson_strings:
  "img_request_id (fromJson (toJson img)) = img_request_id img"
  "img_prompt (fromJson (toJson img)) = img_prompt img"
  "img_negative_prompt (fromJson (toJson img)) = img_negative_prompt img"
  "img_status (fromJson (toJson img)) = img_status img"
  "img_image_url (fromJson (toJson img)) = img_image_url img"
  "img_thumbnail_url (fromJson (toJson img)) = img_thumbnail_url img"
  "img_storage_key (fromJson (toJson img)) = img_storage_key img"
  "img_image_bytes (fromJson (toJson img)) = img_image_bytes img"
  "img_error_message (fromJson (toJson img)) = img_error_message img"
  "img_failure_code (fromJson (toJson img)) = img_failure_code img"
  "img_worker_id (fromJson (toJson img)) = img_worker_id img"
  by (simp_all add: json_read_simps)

lemma fromJson_toJson_times:
  assumes "wf_image img"
  shows "img_created_at (fromJson (toJson img)) = whole_seconds (img_created_at img)"
    "img_started_at (fromJson (toJson img)) = map_option whole_seconds (img_started_at img)"
    "img_completed_at (fromJson (toJson img)) = map_option whole_seconds (img_completed_at img)"
    "img_cancelled_at (fromJson (toJson img)) = map_option whole_seconds (img_cancelled_at img)"
    "img_lease_expires_at (fromJson (toJson img)) = map_option whole_seconds (img_lease_expires_at img)"
proof -
  note wf = assms[unfolded wf_image_def]
  show "img_created_at (fromJson (toJson img)) = whole_seconds (img_created_at img)"
    using wf by (simp add: json_read_simps fromDbString_whole)
  show "img_started_at (fromJson (toJson img)) = map_option whole_seconds (img_started_at img)"
    using wf by (cases "img_started_at img") (simp_all add: json_read_simps fromDbString_whole)
  show "img_completed_at (fromJson (toJson img)) = map_option whole_seconds (img_completed_at img)"
    using wf by (cases "img_completed_at img") (simp_all add: json_read_simps fromDbString_whole)
  show "img_cancelled_at (fromJson (toJson img)) = map_option whole_seconds (img_cancelled_at img)"
    using wf by (cases "img_cancelled_at img") (simp_all add: json_read_simps fromDbString_whole)
  show "img_lease_expires_at (fromJson (toJson img)) = map_option whole_seconds (img_lease_expires_at img)"
    using wf by (cases "img_lease_expires_at img") (simp_all add: json_read_simps fromDbString_whole)
qed

lemma fromJson_toJson: "wf_image img \<Longrightarrow> fromJson (toJson img) = cut_times img"
  by (rule image_generation.equality)
    (simp_all add: cut_times_def fromJson_toJson_ints fromJson_toJson_strings fromJson_toJson_times)

text \<open>What comes out of a JSON text fits the machine integers, whatever the text holds.\<close>

lemma readIntAny_range: "readIntAny j ks = Some n \<Longrightarrow> is_int32 n"
  by (induction ks) (auto split: option.splits json.splits)

lemma readInt64Any_range: "readInt64Any j ks = Some n \<Longrightarrow> is_int64 n"
  by (induction ks) (auto split: option.splits json.splits)

lemma is_int32_case [intro]: "(\<And>x. v = Some x \<Longrightarrow> is_int32 x) \<Longrightarrow> is_int32 d \<Longrightarrow>
    is_int32 (case v of Some x \<Rightarrow> x | None \<Rightarrow> d)"
  by (cases v) auto

lemma is_int64_case [intro]: "(\<And>x. v = Some x \<Longrightarrow> is_int64 x) \<Longrightarrow> is_int64 d \<Longrightarrow>
    is_int64 (case v of Some x \<Rightarrow> x | None \<Rightarrow> d)"
  by (cases v) auto

lemma small_is_int32: "is_int32 0" "is_int32 3" "is_int32 8" "is_int32 768" "is_int64 0"
  by (simp_all add: is_int32_def is_int64_def)

lemma fromJson_ints:
  "is_int64 (img_id (fromJson j))" "is_int32 (img_num_steps (fromJson j))"
  "is_int32 (img_height (fromJson j))" "is_int32 (img_width (fromJson j))"
  "is_int32 (img_retry_count (fromJson j))" "is_int32 (img_max_retries (fromJson j))"
  by (auto simp: fromJson_sel small_is_int32 simp del: readIntAny.simps readInt64Any.simps
      dest: readIntAny_range readInt64Any_range)

section \<open>Properties\<close>

text \<open>
  C28: a task record written as JSON, to the cache or to a client, is read back as itself with its
  time points cut to whole seconds: no field is dropped, renamed or confused with another, the
  absent optional fields stay absent, and the status survives as text.
\<close>

theorem image_json_roundtrip:
  assumes "wf_image img"
  shows "fromJson (toJson img) = cut_times img"
  using assms by (rule fromJson_toJson)

theorem image_json_roundtrip_witness:
  "fromJson (toJson (default_image\<lparr>img_id := 7, img_seed := Some 42, img_status := Generating,
      img_started_at := Some 1718000000500000000\<rparr>))
   = default_image\<lparr>img_id := 7, img_seed := Some 42, img_status := Generating,
      img_started_at := Some 1718000000000000000\<rparr>"
  using image_json_roundtrip [of "default_image\<lparr>img_id := 7, img_seed := Some 42,
      img_status := Generating, img_started_at := Some 1718000000500000000\<rparr>"]
  by (simp add: wf_image_def default_image_def is_int32_def is_int64_def db_time_def time_t_of_def
      cut_times_def whole_seconds_def from_time_t_def ns_def)

end
