(* ===== verification/Errors.thy ===== *)
theory Errors
  imports Json_Model
begin

text \<open>
  The error values of the layers: \<open>RepoError\<close> with its classification of exception texts
  (\<open>Backend/src/database/repo_error.cpp\<close>), the barrier \<open>repoInvoke\<close>
  (\<open>Backend/include/database/repo_invoke.h\<close>), \<open>HttpError\<close> with \<open>toExpectedBody\<close>, and the
  two mappers to the \<open>ServiceError\<close> a handler answers with.
\<close>

section \<open>Repository errors\<close>

datatype repo_kind = DbUnavailable | QueryFailed | ConstraintViolation | Serialization | Internal

record repo_error =
  re_kind :: repo_kind
  re_message :: string

definition containsInsensitive :: "string \<Rightarrow> string \<Rightarrow> bool" where
  "containsInsensitive value needle = contains_str (lower value) (lower needle)"

definition classifyErrorMessage :: "string \<Rightarrow> repo_kind" where
  "classifyErrorMessage message =
     (if containsInsensitive message ''db not initialized'' \<or>
         containsInsensitive message ''database name is empty'' then Internal
      else if containsInsensitive message ''can't connect'' \<or>
         containsInsensitive message ''cannot connect'' \<or>
         containsInsensitive message ''connection refused'' \<or>
         containsInsensitive message ''lost connection'' \<or>
         containsInsensitive message ''server has gone away'' \<or>
         containsInsensitive message ''not connected'' then DbUnavailable
      else if containsInsensitive message ''duplicate entry'' \<or>
         containsInsensitive message ''foreign key constraint fails'' then ConstraintViolation
      else QueryFailed)"

definition makeRepoErrorFromMysqlMessage :: "string \<Rightarrow> repo_error" where
  "makeRepoErrorFromMysqlMessage message =
     \<lparr>re_kind = classifyErrorMessage message, re_message = message\<rparr>"

definition makeRepoErrorFromExceptionMessage :: "string \<Rightarrow> repo_error" where
  "makeRepoErrorFromExceptionMessage message =
     (let kind = classifyErrorMessage message
      in \<lparr>re_kind = (if kind = QueryFailed then Internal else kind), re_message = message\<rparr>)"

text \<open>
  \<open>repoInvoke\<close>: the catch clauses in their order. No exception leaves a repository operation;
  what the operation did to the database before the throw stays.
\<close>

fun repo_error_of :: "exn \<Rightarrow> repo_error" where
  "repo_error_of (RepoSerialization m) = \<lparr>re_kind = Serialization, re_message = m\<rparr>"
| "repo_error_of (MysqlxError m) = makeRepoErrorFromMysqlMessage m"
| "repo_error_of ForeignExn = \<lparr>re_kind = Internal, re_message = ''unknown repository error''\<rparr>"
| "repo_error_of e = makeRepoErrorFromExceptionMessage (what e)"

definition repoInvoke :: "('s, 'a) prog \<Rightarrow> 's \<Rightarrow> (repo_error + 'a) \<times> 's" where
  "repoInvoke fn s = (case fn s of
      (Inl e, s') \<Rightarrow> (Inl (repo_error_of e), s')
    | (Inr x, s') \<Rightarrow> (Inr x, s'))"

lemma repoInvoke_Inl [simp]: "fn s = (Inl e, s') \<Longrightarrow> repoInvoke fn s = (Inl (repo_error_of e), s')"
  by (simp add: repoInvoke_def)

lemma repoInvoke_Inr [simp]: "fn s = (Inr x, s') \<Longrightarrow> repoInvoke fn s = (Inr x, s')"
  by (simp add: repoInvoke_def)

lemma snd_repoInvoke [simp]: "snd (repoInvoke fn s) = snd (fn s)"
  by (cases "fn s"; cases "fst (fn s)") (auto simp: repoInvoke_def)

lemma fst_repoInvoke_Inr: "fst (repoInvoke fn s) = Inr x \<longleftrightarrow> fst (fn s) = Inr x"
  by (cases "fn s"; cases "fst (fn s)") (auto simp: repoInvoke_def)

section \<open>Service errors\<close>

record service_error =
  se_status :: int
  se_code :: string
  se_message :: string
  se_details :: json

definition mk_error :: "int \<Rightarrow> string \<Rightarrow> string \<Rightarrow> service_error" where
  "mk_error st c m = \<lparr>se_status = st, se_code = c, se_message = m, se_details = JObj []\<rparr>"

definition tooManyRequests :: "string \<Rightarrow> string \<Rightarrow> service_error" where
  "tooManyRequests c m = mk_error 429 c m"

definition service_error_toJson :: "service_error \<Rightarrow> json" where
  "service_error_toJson e =
     (let body = [(''code'', JStr (se_code e)), (''message'', JStr (se_message e))]
      in case se_details e of
           JObj (kv # kvs) \<Rightarrow> JObj (body @ [(''details'', JObj (kv # kvs))])
         | _ \<Rightarrow> JObj body)"

definition mapRepoError :: "repo_error \<Rightarrow> service_error" where
  "mapRepoError e = (case re_kind e of
      DbUnavailable \<Rightarrow> mk_error 503 ''database_unavailable'' ''database is unavailable''
    | ConstraintViolation \<Rightarrow> mk_error 409 ''database_constraint_violation'' ''database constraint violation''
    | Serialization \<Rightarrow> mk_error 500 ''database_serialization_failed'' ''failed to read database row''
    | QueryFailed \<Rightarrow> mk_error 500 ''database_query_failed'' ''database query failed''
    | Internal \<Rightarrow> mk_error 500 ''database_internal_error'' ''database operation failed'')"

definition unauthorized :: service_error where
  "unauthorized = mk_error 401 ''unauthorized'' ''unauthorized''"

text \<open>\<open>if (!result) return std::unexpected(mapRepoError(result.error()))\<close>.\<close>

definition repo_ok :: "repo_error + 'a \<Rightarrow> ('a \<Rightarrow> ('s, service_error + 'b) prog) \<Rightarrow> ('s, service_error + 'b) prog" where
  "repo_ok r k = (case r of Inl e \<Rightarrow> ret (Inl (mapRepoError e)) | Inr v \<Rightarrow> k v)"

definition deny :: "service_error \<Rightarrow> ('s, service_error + 'b) prog" where
  "deny e = ret (Inl e)"

section \<open>HTTP errors\<close>

record http_error =
  he_status_code :: int
  he_message :: string

record http_result =
  hr_status_code :: int
  hr_body :: string
  hr_failure :: "http_error option"

definition makeDetails :: "http_error \<Rightarrow> json" where
  "makeDetails e = JObj ((''status_code'', JInt (he_status_code e)) #
     (if he_message e \<noteq> [] then [(''reason'', JStr (he_message e))] else []))"

definition mapHttpError :: "http_error \<Rightarrow> service_error" where
  "mapHttpError e =
     (if he_status_code e = 0 then
        (mk_error 503 ''model_service_unavailable'' ''model service is unavailable'')
          \<lparr>se_details := makeDetails e\<rparr>
      else if he_status_code e \<ge> 500 then
        (mk_error 502 ''model_service_error'' ''model service returned an error'')
          \<lparr>se_details := makeDetails e\<rparr>
      else if he_status_code e \<ge> 400 then
        (mk_error 502 ''model_service_error'' ''model service rejected the request'')
          \<lparr>se_details := makeDetails e\<rparr>
      else (mk_error 502 ''model_service_error'' ''model service request failed'')
          \<lparr>se_details := makeDetails e\<rparr>)"

section \<open>Facts\<close>

lemma mk_error_sel [simp]:
  "se_status (mk_error st c m) = st" "se_code (mk_error st c m) = c"
  "se_message (mk_error st c m) = m" "se_details (mk_error st c m) = JObj []"
  by (simp_all add: mk_error_def)

lemma classify_lower: "classifyErrorMessage (lower m) = classifyErrorMessage m"
  by (simp add: classifyErrorMessage_def containsInsensitive_def)

lemma repo_error_of_QueryFailed:
  "re_kind (repo_error_of e) = QueryFailed \<Longrightarrow> \<exists>m. e = MysqlxError m"
  by (cases e) (auto simp: makeRepoErrorFromExceptionMessage_def Let_def split: if_splits)

lemma mapRepoError_message_hidden:
  "re_kind e = re_kind e' \<Longrightarrow> mapRepoError e = mapRepoError e'"
  by (simp add: mapRepoError_def)

section \<open>Properties\<close>

text \<open>
  C29: what a client learns of a failed database operation. Whatever exception the operation
  throws, the answer is 409, 500 or 503; it is 503 only for a message that reports a lost or
  refused connection; and two failures of the same kind give the same answer, so no text of the
  database reaches the client.
\<close>

theorem repo_failure_answer:
  assumes "fn s = (Inl e, s')"
  shows "\<exists>err. repoInvoke fn s = (Inl err, s') \<and>
     se_status (mapRepoError err) \<in> {409, 500, 503} \<and>
     (se_status (mapRepoError err) = 503 \<longrightarrow> classifyErrorMessage (what e) = DbUnavailable) \<and>
     (\<forall>err'. re_kind err' = re_kind err \<longrightarrow> mapRepoError err' = mapRepoError err)"
proof (intro exI [of _ "repo_error_of e"] conjI)
  show "repoInvoke fn s = (Inl (repo_error_of e), s')" using assms by simp
  show "se_status (mapRepoError (repo_error_of e)) \<in> {409, 500, 503}"
    by (simp add: mapRepoError_def split: repo_kind.split)
  show "se_status (mapRepoError (repo_error_of e)) = 503 \<longrightarrow>
      classifyErrorMessage (what e) = DbUnavailable"
    by (cases e) (auto simp: mapRepoError_def makeRepoErrorFromMysqlMessage_def
        makeRepoErrorFromExceptionMessage_def Let_def split: repo_kind.splits if_splits)
  show "\<forall>err'. re_kind err' = re_kind (repo_error_of e) \<longrightarrow>
      mapRepoError err' = mapRepoError (repo_error_of e)"
    by (simp add: mapRepoError_def)
qed

theorem repo_failure_answer_witness:
  "\<exists>err. repoInvoke (throw (MysqlxError ''Lost Connection to server'') :: (nat, nat) prog) 7 = (Inl err, 7) \<and>
     se_status (mapRepoError err) = 503"
proof -
  have k: "classifyErrorMessage ''Lost Connection to server'' = DbUnavailable" by code_simp
  have "fst (repoInvoke (throw (MysqlxError ''Lost Connection to server'') :: (nat, nat) prog) 7) =
      Inl (makeRepoErrorFromMysqlMessage ''Lost Connection to server'')" by simp
  then show ?thesis
    using repo_failure_answer [of "throw (MysqlxError ''Lost Connection to server'') :: (nat, nat) prog" 7
      "MysqlxError ''Lost Connection to server''" 7] k
    by (auto simp: mapRepoError_def makeRepoErrorFromMysqlMessage_def)
qed

end
