(* ===== verification/Image_Repo.thy ===== *)
theory Image_Repo
  imports Image_Model Errors "HOL-Library.Option_ord" "HOL-Library.Product_Lexorder"
begin

text \<open>
  The task repository \<open>Backend/src/database/ImageRepo.cpp\<close> over a model of the one table it
  owns. A row has the columns of the CREATE TABLE statement, NULL is \<open>None\<close>, a DATETIME is its
  number of seconds. Every SQL statement of the code is a function on the table with MySQL's
  meaning of its clauses: a comparison with NULL does not hold, text is compared under the
  collation of the database (the field \<open>collation\<close> maps a text to its collation key), ORDER
  BY puts NULL first, a SELECT without ORDER BY returns the rows in the order of the primary
  key. A statement may be rejected, or run and lose its reply: the field \<open>faults\<close> says what
  happens to the statements to come. Each operation takes the clock readings it makes.
\<close>

section \<open>The table\<close>

record image_row =
  ir_id :: int
  ir_user_id :: int
  ir_request_id :: "string option"
  ir_prompt :: "string option"
  ir_negative_prompt :: "string option"
  ir_num_steps :: "int option"
  ir_height :: "int option"
  ir_width :: "int option"
  ir_seed :: "int option"
  ir_status :: "string option"
  ir_retry_count :: int
  ir_max_retries :: int
  ir_failure_code :: "string option"
  ir_worker_id :: "string option"
  ir_image_url :: "string option"
  ir_thumbnail_url :: "string option"
  ir_storage_key :: "string option"
  ir_error_message :: "string option"
  ir_generation_time :: "real option"
  ir_created_at :: "int option"
  ir_started_at :: "int option"
  ir_completed_at :: "int option"
  ir_cancelled_at :: "int option"
  ir_lease_expires_at :: "int option"

datatype stmt_fault = Runs | Rejected exn | ReplyLost exn

record image_db =
  cfg_host :: string
  cfg_database :: string
  table_ready :: bool
  table_exists :: bool
  columns :: "string list"
  indexes :: "string list"
  rows :: "image_row list"
  next_id :: int
  collation :: "string \<Rightarrow> string"
  count_matched :: bool
  faults :: "stmt_fault list"

definition imageSchemaName :: "image_db \<Rightarrow> exn + string" where
  "imageSchemaName db =
     (if cfg_host db = [] then Inl (StdExn ''DB not initialized'')
      else if cfg_database db = [] then Inl (StdExn ''database name is empty'')
      else Inr (cfg_database db))"

text \<open>One statement: it names the table, it meets its fate, and it runs unless it is rejected.\<close>

definition exec :: "(image_db \<Rightarrow> 'a \<times> image_db) \<Rightarrow> (image_db, 'a) prog" where
  "exec f db = (case imageSchemaName db of
      Inl e \<Rightarrow> (Inl e, db)
    | Inr _ \<Rightarrow> (case faults db of
          [] \<Rightarrow> (let (x, db') = f db in (Inr x, db'))
        | Runs # fs \<Rightarrow> (let (x, db') = f (db\<lparr>faults := fs\<rparr>) in (Inr x, db'))
        | Rejected e # fs \<Rightarrow> (Inl e, db\<lparr>faults := fs\<rparr>)
        | ReplyLost e # fs \<Rightarrow> (Inl e, snd (f (db\<lparr>faults := fs\<rparr>)))))"

definition sql_select :: "(image_row \<Rightarrow> bool) \<Rightarrow> image_db \<Rightarrow> image_row list \<times> image_db" where
  "sql_select p db = (filter p (rows db), db)"

definition sql_update :: "(image_row \<Rightarrow> bool) \<Rightarrow> (image_row \<Rightarrow> image_row) \<Rightarrow> image_db \<Rightarrow> nat \<times> image_db" where
  "sql_update p f db =
     (length (filter (\<lambda>r. p r \<and> (count_matched db \<or> f r \<noteq> r)) (rows db)),
      db\<lparr>rows := map (\<lambda>r. if p r then f r else r) (rows db)\<rparr>)"

definition sql_delete :: "(image_row \<Rightarrow> bool) \<Rightarrow> image_db \<Rightarrow> nat \<times> image_db" where
  "sql_delete p db =
     (length (filter p (rows db)), db\<lparr>rows := filter (\<lambda>r. \<not> p r) (rows db)\<rparr>)"

text \<open>Comparisons of a column with a bound value.\<close>

definition text_eq :: "image_db \<Rightarrow> string option \<Rightarrow> string \<Rightarrow> bool" where
  "text_eq db c v = (case c of None \<Rightarrow> False | Some s \<Rightarrow> collation db s = collation db v)"

definition text_in :: "image_db \<Rightarrow> string option \<Rightarrow> string list \<Rightarrow> bool" where
  "text_in db c vs \<longleftrightarrow> (\<exists>v\<in>set vs. text_eq db c v)"

definition time_less :: "int option \<Rightarrow> int \<Rightarrow> bool" where
  "time_less c t = (case c of None \<Rightarrow> False | Some s \<Rightarrow> s < t)"

section \<open>ensureTable\<close>

definition allColumns :: "string list" where
  "allColumns = [''id'', ''user_id'', ''request_id'', ''prompt'', ''negative_prompt'', ''num_steps'',
     ''height'', ''width'', ''seed'', ''status'', ''retry_count'', ''max_retries'', ''failure_code'',
     ''worker_id'', ''image_url'', ''thumbnail_url'', ''storage_key'', ''error_message'',
     ''generation_time'', ''created_at'', ''started_at'', ''completed_at'', ''cancelled_at'',
     ''lease_expires_at'']"

definition allIndexes :: "string list" where
  "allIndexes = [''idx_user_id'', ''idx_request_id'', ''idx_created_at'', ''idx_status_created_at'',
     ''idx_status_lease'']"

definition columnMigrations :: "string list" where
  "columnMigrations = [''retry_count'', ''max_retries'', ''failure_code'', ''worker_id'',
     ''thumbnail_url'', ''storage_key'', ''started_at'', ''cancelled_at'', ''lease_expires_at'']"

definition indexMigrations :: "string list" where
  "indexMigrations = [''idx_status_created_at'', ''idx_status_lease'']"

text \<open>A missing table has no rows, so creating it changes only the catalogue.\<close>

definition create_table :: "image_db \<Rightarrow> unit \<times> image_db" where
  "create_table db =
     ((), if table_exists db then db
          else db\<lparr>table_exists := True, columns := allColumns, indexes := allIndexes\<rparr>)"

definition columnExists :: "string \<Rightarrow> (image_db, bool) prog" where
  "columnExists c = exec (\<lambda>db. (c \<in> set (columns db), db))"

definition indexExists :: "string \<Rightarrow> (image_db, bool) prog" where
  "indexExists i = exec (\<lambda>db. (i \<in> set (indexes db), db))"

definition add_column :: "string \<Rightarrow> (image_db, unit) prog" where
  "add_column c = exec (\<lambda>db. ((), db\<lparr>columns := columns db @ [c]\<rparr>))"

definition add_index :: "string \<Rightarrow> (image_db, unit) prog" where
  "add_index i = exec (\<lambda>db. ((), db\<lparr>indexes := indexes db @ [i]\<rparr>))"

fun migrate_columns :: "string list \<Rightarrow> (image_db, unit) prog" where
  "migrate_columns [] = ret ()"
| "migrate_columns (c # cs) = bindp (columnExists c) (\<lambda>present.
     if present then migrate_columns cs
     else bindp (add_column c) (\<lambda>_. migrate_columns cs))"

fun migrate_indexes :: "string list \<Rightarrow> (image_db, unit) prog" where
  "migrate_indexes [] = ret ()"
| "migrate_indexes (i # ids) = bindp (indexExists i) (\<lambda>present.
     if present then migrate_indexes ids
     else bindp (add_index i) (\<lambda>_. migrate_indexes ids))"

text \<open>\<open>call_once\<close>: the flag is set only when the body returns, so a failed set-up is repeated
  by the next operation.\<close>

definition ensureTable :: "(image_db, unit) prog" where
  "ensureTable db =
     (if table_ready db then (Inr (), db)
      else case imageSchemaName db of
        Inl e \<Rightarrow> (Inl e, db)
      | Inr _ \<Rightarrow> (case bindp (exec create_table) (\<lambda>_. bindp (migrate_columns columnMigrations)
                       (\<lambda>_. migrate_indexes indexMigrations)) db of
            (Inl e, db') \<Rightarrow> (Inl e, db')
          | (Inr _, db') \<Rightarrow> (Inr (), db'\<lparr>table_ready := True\<rparr>)))"

section \<open>Reading a row\<close>

text \<open>A DATETIME is selected as text with DATE_FORMAT, the text \<open>toDbString\<close> writes.\<close>

definition column_text :: "int option \<Rightarrow> string" where
  "column_text c = (case c of None \<Rightarrow> [] | Some t \<Rightarrow> toDbString (from_time_t t))"

definition getStringOrEmpty :: "string option \<Rightarrow> string" where
  "getStringOrEmpty c = (case c of None \<Rightarrow> [] | Some s \<Rightarrow> s)"

definition getIntOrDefault :: "int option \<Rightarrow> int \<Rightarrow> int" where
  "getIntOrDefault c fallback = (case c of None \<Rightarrow> fallback | Some n \<Rightarrow> int32_of n)"

definition getDoubleOrDefault :: "real option \<Rightarrow> real \<Rightarrow> real" where
  "getDoubleOrDefault c fallback = (case c of None \<Rightarrow> fallback | Some x \<Rightarrow> x)"

text \<open>\<open>get<uint64_t>\<close>: the connector refuses a negative number.\<close>

definition get_uint64 :: "int \<Rightarrow> exn + int" where
  "get_uint64 n = (if n < 0 then Inl (MysqlxError ''Numeric conversion overflow'') else Inr n)"

definition rowToImageGeneration :: "time_point \<Rightarrow> image_row \<Rightarrow> exn + image_generation" where
  "rowToImageGeneration now row =
     (case get_uint64 (ir_id row) of
        Inl e \<Rightarrow> Inl (RepoSerialization (what e))
      | Inr i \<Rightarrow> (case get_uint64 (ir_user_id row) of
        Inl e \<Rightarrow> Inl (RepoSerialization (what e))
      | Inr u \<Rightarrow> Inr
         \<lparr>img_id = int64_of i, img_user_id = int64_of u,
          img_request_id = getStringOrEmpty (ir_request_id row),
          img_prompt = getStringOrEmpty (ir_prompt row),
          img_negative_prompt = getStringOrEmpty (ir_negative_prompt row),
          img_num_steps = getIntOrDefault (ir_num_steps row) 8,
          img_height = getIntOrDefault (ir_height row) 768,
          img_width = getIntOrDefault (ir_width row) 768,
          img_seed = map_option int32_of (ir_seed row),
          img_status = statusFromString (getStringOrEmpty (ir_status row)),
          img_retry_count = getIntOrDefault (Some (ir_retry_count row)) 0,
          img_max_retries = getIntOrDefault (Some (ir_max_retries row)) 3,
          img_failure_code = getStringOrEmpty (ir_failure_code row),
          img_worker_id = getStringOrEmpty (ir_worker_id row),
          img_image_url = getStringOrEmpty (ir_image_url row),
          img_thumbnail_url = getStringOrEmpty (ir_thumbnail_url row),
          img_storage_key = getStringOrEmpty (ir_storage_key row),
          img_image_bytes = [],
          img_error_message = getStringOrEmpty (ir_error_message row),
          img_generation_time = getDoubleOrDefault (ir_generation_time row) 0,
          img_created_at = (case fromDbString (column_text (ir_created_at row)) of
             Some t \<Rightarrow> t | None \<Rightarrow> now),
          img_started_at = fromDbString (column_text (ir_started_at row)),
          img_completed_at = fromDbString (column_text (ir_completed_at row)),
          img_cancelled_at = fromDbString (column_text (ir_cancelled_at row)),
          img_lease_expires_at = fromDbString (column_text (ir_lease_expires_at row))\<rparr>))"

text \<open>\<open>fetchOne\<close> with the early return of the lookups.\<close>

definition fetch_one :: "time_point \<Rightarrow> image_row list \<Rightarrow> ('s, image_generation option) prog" where
  "fetch_one now rs = (case rs of
      [] \<Rightarrow> ret None
    | r # _ \<Rightarrow> (case rowToImageGeneration now r of Inl e \<Rightarrow> throw e | Inr img \<Rightarrow> ret (Some img)))"

section \<open>Insert and lookups\<close>

definition optionalTimeToValue :: "time_point option \<Rightarrow> int option" where
  "optionalTimeToValue v = map_option time_t_of v"

definition image_values :: "time_point \<Rightarrow> int \<Rightarrow> image_generation \<Rightarrow> image_row" where
  "image_values createdAt n g =
     \<lparr>ir_id = n, ir_user_id = img_user_id g, ir_request_id = Some (img_request_id g),
      ir_prompt = Some (img_prompt g), ir_negative_prompt = Some (img_negative_prompt g),
      ir_num_steps = Some (img_num_steps g), ir_height = Some (img_height g),
      ir_width = Some (img_width g), ir_seed = img_seed g,
      ir_status = Some (statusToString (img_status g)),
      ir_retry_count = img_retry_count g, ir_max_retries = img_max_retries g,
      ir_failure_code = Some (img_failure_code g), ir_worker_id = Some (img_worker_id g),
      ir_image_url = Some (img_image_url g), ir_thumbnail_url = Some (img_thumbnail_url g),
      ir_storage_key = Some (img_storage_key g), ir_error_message = Some (img_error_message g),
      ir_generation_time = Some (img_generation_time g),
      ir_created_at = Some (time_t_of createdAt),
      ir_started_at = optionalTimeToValue (img_started_at g),
      ir_completed_at = optionalTimeToValue (img_completed_at g),
      ir_cancelled_at = optionalTimeToValue (img_cancelled_at g),
      ir_lease_expires_at = optionalTimeToValue (img_lease_expires_at g)\<rparr>"

definition sql_insert :: "(int \<Rightarrow> image_row) \<Rightarrow> image_db \<Rightarrow> unit \<times> image_db" where
  "sql_insert mk db = ((), db\<lparr>rows := rows db @ [mk (next_id db)], next_id := next_id db + 1\<rparr>)"

text \<open>LAST_INSERT_ID() belongs to the session, whose last insert is the statement before.\<close>

definition last_insert_id :: "image_db \<Rightarrow> int \<times> image_db" where
  "last_insert_id db = (next_id db - 1, db)"

definition repo_insert :: "time_point \<Rightarrow> image_generation \<Rightarrow> image_db \<Rightarrow> (repo_error + int) \<times> image_db" where
  "repo_insert now g = repoInvoke (bindp ensureTable (\<lambda>_.
     let createdAt = (if img_created_at g = 0 then now else img_created_at g)
     in bindp (exec (sql_insert (\<lambda>n. image_values createdAt n g))) (\<lambda>_.
        bindp (exec last_insert_id) (\<lambda>i.
          case get_uint64 i of Inl e \<Rightarrow> throw e | Inr n \<Rightarrow> ret (int64_of n)))))"

record image_page =
  page_content :: "image_generation list"
  page_total :: int

definition normalizePage :: "int \<Rightarrow> int" where
  "normalizePage page = (if page < 0 then 0 else page)"

definition normalizeSize :: "int \<Rightarrow> int" where
  "normalizeSize sz = (if sz \<le> 0 then 10 else sz)"

fun collectPagedResultRows :: "time_point \<Rightarrow> (image_row \<times> int) list \<Rightarrow> image_page \<Rightarrow> exn + image_page" where
  "collectPagedResultRows now [] page = Inr page"
| "collectPagedResultRows now ((row, tot) # rs) page =
     (let page = (if page_total page = 0 then page\<lparr>page_total := tot\<rparr> else page)
      in case rowToImageGeneration now row of
           Inl e \<Rightarrow> Inl e
         | Inr img \<Rightarrow> collectPagedResultRows now rs (page\<lparr>page_content := page_content page @ [img]\<rparr>))"

text \<open>SELECT ..., COUNT(*) OVER() ... ORDER BY id DESC LIMIT ? OFFSET ?\<close>

definition sql_page :: "(image_db \<Rightarrow> image_row \<Rightarrow> bool) \<Rightarrow> int \<Rightarrow> int \<Rightarrow> image_db \<Rightarrow>
    (image_row \<times> int) list \<times> image_db" where
  "sql_page p sz offset db =
     (let rs = sort_key (\<lambda>r. - ir_id r) (filter (p db) (rows db))
      in (map (\<lambda>r. (r, int (length rs))) (take (nat sz) (drop (nat offset) rs)), db))"

definition sql_count :: "(image_db \<Rightarrow> image_row \<Rightarrow> bool) \<Rightarrow> image_db \<Rightarrow> int \<times> image_db" where
  "sql_count p db = (int (length (filter (p db) (rows db))), db)"

definition find_page :: "(image_db \<Rightarrow> image_row \<Rightarrow> bool) \<Rightarrow> time_point \<Rightarrow> int \<Rightarrow> int \<Rightarrow> (image_db, image_page) prog" where
  "find_page p now page sz = bindp ensureTable (\<lambda>_.
     let safePage = normalizePage page; safeSize = normalizeSize sz;
         offset = safePage * safeSize
     in bindp (exec (sql_page p safeSize offset)) (\<lambda>rs.
          case collectPagedResultRows now rs \<lparr>page_content = [], page_total = 0\<rparr> of
            Inl e \<Rightarrow> throw e
          | Inr res \<Rightarrow>
              if page_content res = [] \<and> offset > 0
              then bindp (exec (sql_count p)) (\<lambda>n. ret (res\<lparr>page_total := n\<rparr>))
              else ret res))"

definition of_user :: "int \<Rightarrow> image_db \<Rightarrow> image_row \<Rightarrow> bool" where
  "of_user userId db r \<longleftrightarrow> ir_user_id r = userId"

definition of_user_status :: "int \<Rightarrow> task_status \<Rightarrow> image_db \<Rightarrow> image_row \<Rightarrow> bool" where
  "of_user_status userId status db r \<longleftrightarrow>
     ir_user_id r = userId \<and> text_eq db (ir_status r) (statusToString status)"

definition findByUserId :: "time_point \<Rightarrow> int \<Rightarrow> int \<Rightarrow> int \<Rightarrow> image_db \<Rightarrow> (repo_error + image_page) \<times> image_db" where
  "findByUserId now userId page sz = repoInvoke (find_page (of_user userId) now page sz)"

definition findByUserIdAndStatus :: "time_point \<Rightarrow> int \<Rightarrow> task_status \<Rightarrow> int \<Rightarrow> int \<Rightarrow> image_db \<Rightarrow>
    (repo_error + image_page) \<times> image_db" where
  "findByUserIdAndStatus now userId status page sz =
     repoInvoke (find_page (of_user_status userId status) now page sz)"

definition by_id_and_user :: "int \<Rightarrow> int \<Rightarrow> image_row \<Rightarrow> bool" where
  "by_id_and_user i u r \<longleftrightarrow> ir_id r = i \<and> ir_user_id r = u"

definition select_where :: "(image_db \<Rightarrow> image_row \<Rightarrow> bool) \<Rightarrow> (image_db, image_row list) prog" where
  "select_where p = exec (\<lambda>db. sql_select (p db) db)"

definition findByIdAndUserId :: "time_point \<Rightarrow> int \<Rightarrow> int \<Rightarrow> image_db \<Rightarrow>
    (repo_error + image_generation option) \<times> image_db" where
  "findByIdAndUserId now i u = repoInvoke (bindp ensureTable (\<lambda>_.
     bindp (select_where (\<lambda>_. by_id_and_user i u)) (fetch_one now)))"

definition findByRequestIdAndUserId :: "time_point \<Rightarrow> string \<Rightarrow> int \<Rightarrow> image_db \<Rightarrow>
    (repo_error + image_generation option) \<times> image_db" where
  "findByRequestIdAndUserId now requestId u = repoInvoke (bindp ensureTable (\<lambda>_.
     bindp (select_where (\<lambda>db r. text_eq db (ir_request_id r) requestId \<and> ir_user_id r = u))
       (fetch_one now)))"

definition active_row :: "image_db \<Rightarrow> image_row \<Rightarrow> bool" where
  "active_row db r \<longleftrightarrow> text_in db (ir_status r) [''queued'', ''pending'', ''generating'']"

definition countActiveTasksByUserId :: "int \<Rightarrow> image_db \<Rightarrow> (repo_error + int) \<times> image_db" where
  "countActiveTasksByUserId u = repoInvoke (bindp ensureTable (\<lambda>_.
     exec (sql_count (\<lambda>db r. ir_user_id r = u \<and> active_row db r))))"

definition deletable_row :: "image_db \<Rightarrow> image_row \<Rightarrow> bool" where
  "deletable_row db r \<longleftrightarrow>
     text_in db (ir_status r) [''success'', ''failed'', ''cancelled'', ''timeout'']"

definition deleteByIdAndUserId :: "int \<Rightarrow> int \<Rightarrow> image_db \<Rightarrow> (repo_error + bool) \<times> image_db" where
  "deleteByIdAndUserId i u = repoInvoke (bindp ensureTable (\<lambda>_.
     bindp (exec (\<lambda>db. sql_delete (\<lambda>r. by_id_and_user i u r \<and> deletable_row db r) db))
       (\<lambda>n. ret (n > 0))))"

section \<open>Claiming and leases\<close>

definition lease_seconds :: "int \<Rightarrow> int" where
  "lease_seconds l = (if l \<le> 0 then 900 else l)"

definition expires_at :: "time_point \<Rightarrow> int \<Rightarrow> time_point" where
  "expires_at now leaseSeconds = now + lease_seconds leaseSeconds * ns"

definition set_claimed :: "string \<Rightarrow> int \<Rightarrow> int \<Rightarrow> image_row \<Rightarrow> image_row" where
  "set_claimed workerId nowText expiresAtText r =
     r\<lparr>ir_status := Some ''generating'', ir_worker_id := Some workerId,
       ir_started_at := (case ir_started_at r of None \<Rightarrow> Some nowText | Some t \<Rightarrow> Some t),
       ir_lease_expires_at := Some expiresAtText,
       ir_failure_code := Some [], ir_error_message := Some []\<rparr>"

text \<open>The inner SELECT of \<open>claimNextTask\<close>: the oldest row that is waiting, or whose lease is
  missing or over.\<close>

definition claimable :: "image_db \<Rightarrow> int \<Rightarrow> image_row \<Rightarrow> bool" where
  "claimable db nowText r \<longleftrightarrow>
     text_in db (ir_status r) [''queued'', ''pending''] \<or>
     (text_eq db (ir_status r) ''generating'' \<and>
      (ir_lease_expires_at r = None \<or> time_less (ir_lease_expires_at r) nowText))"

definition oldest :: "(image_row \<Rightarrow> bool) \<Rightarrow> image_db \<Rightarrow> image_row option" where
  "oldest p db = (case sort_key (\<lambda>r. (ir_created_at r, ir_id r)) (filter p (rows db)) of
      [] \<Rightarrow> None | r # _ \<Rightarrow> Some r)"

definition stmt_claim_next :: "string \<Rightarrow> int \<Rightarrow> int \<Rightarrow> image_db \<Rightarrow> nat \<times> image_db" where
  "stmt_claim_next workerId nowText expiresAtText db =
     (case oldest (claimable db nowText) db of
        None \<Rightarrow> (0, db)
      | Some t \<Rightarrow> sql_update (\<lambda>r. ir_id r = ir_id t) (set_claimed workerId nowText expiresAtText) db)"

definition claimNextTask :: "time_point \<Rightarrow> string \<Rightarrow> int \<Rightarrow> image_db \<Rightarrow>
    (repo_error + image_generation option) \<times> image_db" where
  "claimNextTask now workerId leaseSeconds = repoInvoke (bindp ensureTable (\<lambda>_.
     let nowText = time_t_of now; expiresAtText = time_t_of (expires_at now leaseSeconds)
     in bindp (exec (stmt_claim_next workerId nowText expiresAtText)) (\<lambda>n.
          if n = 0 then ret None
          else bindp (select_where (\<lambda>db r. text_eq db (ir_worker_id r) workerId \<and>
                   text_eq db (ir_status r) ''generating'' \<and>
                   ir_lease_expires_at r = Some expiresAtText))
                 (fetch_one now))))"

definition waiting_row :: "image_db \<Rightarrow> image_row \<Rightarrow> bool" where
  "waiting_row db r \<longleftrightarrow> text_in db (ir_status r) [''queued'', ''pending'']"

definition stmt_claim_by_id :: "int \<Rightarrow> string \<Rightarrow> int \<Rightarrow> int \<Rightarrow> image_db \<Rightarrow> nat \<times> image_db" where
  "stmt_claim_by_id taskId workerId nowText expiresAtText db =
     sql_update (\<lambda>r. ir_id r = taskId \<and> waiting_row db r) (set_claimed workerId nowText expiresAtText) db"

definition claimTaskById :: "time_point \<Rightarrow> int \<Rightarrow> string \<Rightarrow> int \<Rightarrow> image_db \<Rightarrow>
    (repo_error + image_generation option) \<times> image_db" where
  "claimTaskById now taskId workerId leaseSeconds = repoInvoke (bindp ensureTable (\<lambda>_.
     let nowText = time_t_of now; expiresAtText = time_t_of (expires_at now leaseSeconds)
     in bindp (exec (stmt_claim_by_id taskId workerId nowText expiresAtText)) (\<lambda>n.
          if n = 0 then ret None
          else bindp (select_where (\<lambda>db r. ir_id r = taskId \<and> text_eq db (ir_worker_id r) workerId \<and>
                   text_eq db (ir_status r) ''generating''))
                 (fetch_one now))))"

fun collect_ids :: "image_row list \<Rightarrow> exn + int list" where
  "collect_ids [] = Inr []"
| "collect_ids (r # rs) = (case get_uint64 (ir_id r) of
      Inl e \<Rightarrow> Inl e
    | Inr i \<Rightarrow> (case collect_ids rs of Inl e \<Rightarrow> Inl e | Inr ids \<Rightarrow> Inr (int64_of i # ids)))"

definition findQueuedTaskIds :: "image_db \<Rightarrow> (repo_error + int list) \<times> image_db" where
  "findQueuedTaskIds = repoInvoke (bindp ensureTable (\<lambda>_.
     bindp (exec (\<lambda>db. (sort_key (\<lambda>r. (ir_created_at r, ir_id r)) (filter (waiting_row db) (rows db)), db)))
       (\<lambda>rs. case collect_ids rs of Inl e \<Rightarrow> throw e | Inr ids \<Rightarrow> ret ids)))"

text \<open>The rows a worker holds: the guard of every operation on a claimed task.\<close>

definition held_row :: "image_db \<Rightarrow> int \<Rightarrow> int \<Rightarrow> string \<Rightarrow> image_row \<Rightarrow> bool" where
  "held_row db i u workerId r \<longleftrightarrow>
     by_id_and_user i u r \<and> text_eq db (ir_status r) ''generating'' \<and>
     text_eq db (ir_worker_id r) workerId"

definition stmt_renew :: "int \<Rightarrow> int \<Rightarrow> string \<Rightarrow> int \<Rightarrow> image_db \<Rightarrow> nat \<times> image_db" where
  "stmt_renew i u workerId expiresAtText db =
     sql_update (held_row db i u workerId) (\<lambda>r. r\<lparr>ir_lease_expires_at := Some expiresAtText\<rparr>) db"

definition renewLease :: "time_point \<Rightarrow> int \<Rightarrow> int \<Rightarrow> string \<Rightarrow> int \<Rightarrow> image_db \<Rightarrow>
    (repo_error + bool) \<times> image_db" where
  "renewLease now i u workerId leaseSeconds = repoInvoke (bindp ensureTable (\<lambda>_.
     bindp (exec (stmt_renew i u workerId (time_t_of (expires_at now leaseSeconds))))
       (\<lambda>n. ret (n > 0))))"

definition set_finished :: "image_generation \<Rightarrow> image_row \<Rightarrow> image_row" where
  "set_finished g r =
     r\<lparr>ir_status := Some (statusToString (img_status g)), ir_image_url := Some (img_image_url g),
       ir_error_message := Some (img_error_message g),
       ir_generation_time := Some (img_generation_time g),
       ir_completed_at := optionalTimeToValue (img_completed_at g),
       ir_cancelled_at := optionalTimeToValue (img_cancelled_at g),
       ir_failure_code := Some (img_failure_code g),
       ir_thumbnail_url := Some (img_thumbnail_url g), ir_storage_key := Some (img_storage_key g),
       ir_lease_expires_at := None, ir_worker_id := None\<rparr>"

definition stmt_finish :: "image_generation \<Rightarrow> image_db \<Rightarrow> nat \<times> image_db" where
  "stmt_finish g db =
     sql_update (held_row db (img_id g) (img_user_id g) (img_worker_id g)) (set_finished g) db"

definition finishClaimedTask :: "image_generation \<Rightarrow> image_db \<Rightarrow> (repo_error + bool) \<times> image_db" where
  "finishClaimedTask g = repoInvoke (bindp ensureTable (\<lambda>_.
     bindp (exec (stmt_finish g)) (\<lambda>n. ret (n > 0))))"

definition set_deferred :: "string \<Rightarrow> string \<Rightarrow> image_row \<Rightarrow> image_row" where
  "set_deferred failureCode errorMessage r =
     r\<lparr>ir_status := Some ''queued'', ir_retry_count := ir_retry_count r + 1,
       ir_failure_code := Some failureCode, ir_error_message := Some errorMessage,
       ir_worker_id := None, ir_lease_expires_at := None, ir_started_at := None\<rparr>"

definition stmt_defer :: "int \<Rightarrow> int \<Rightarrow> string \<Rightarrow> string \<Rightarrow> string \<Rightarrow> image_db \<Rightarrow> nat \<times> image_db" where
  "stmt_defer i u workerId failureCode errorMessage db =
     sql_update (held_row db i u workerId) (set_deferred failureCode errorMessage) db"

definition deferClaimedTaskForModelHealth :: "int \<Rightarrow> int \<Rightarrow> string \<Rightarrow> string \<Rightarrow> string \<Rightarrow> image_db \<Rightarrow>
    (repo_error + bool) \<times> image_db" where
  "deferClaimedTaskForModelHealth i u workerId failureCode errorMessage =
     repoInvoke (bindp ensureTable (\<lambda>_.
       bindp (exec (stmt_defer i u workerId failureCode errorMessage)) (\<lambda>n. ret (n > 0))))"

section \<open>Cancel, retry, expiry\<close>

definition set_cancelled :: "int \<Rightarrow> image_row \<Rightarrow> image_row" where
  "set_cancelled nowText r =
     r\<lparr>ir_status := Some ''cancelled'', ir_cancelled_at := Some nowText,
       ir_lease_expires_at := None, ir_worker_id := None, ir_error_message := Some [],
       ir_failure_code := Some [], ir_completed_at := Some nowText\<rparr>"

definition stmt_cancel :: "int \<Rightarrow> int \<Rightarrow> int \<Rightarrow> image_db \<Rightarrow> nat \<times> image_db" where
  "stmt_cancel i u nowText db =
     sql_update (\<lambda>r. by_id_and_user i u r \<and> active_row db r) (set_cancelled nowText) db"

text \<open>The read-back of cancel and retry: a row that vanished is an internal error.\<close>

definition read_back :: "string \<Rightarrow> time_point \<Rightarrow> int \<Rightarrow> int \<Rightarrow> (image_db, image_generation option) prog" where
  "read_back op now i u = bindp (select_where (\<lambda>_. by_id_and_user i u)) (\<lambda>rs.
     if rs = [] then throw (StdExn (op @ '': updated row vanished, id='' @ fmt_int i @ '', user_id='' @ fmt_int u))
     else fetch_one now rs)"

definition cancelByIdAndUserId :: "time_point \<Rightarrow> int \<Rightarrow> int \<Rightarrow> image_db \<Rightarrow>
    (repo_error + image_generation option) \<times> image_db" where
  "cancelByIdAndUserId now i u = repoInvoke (bindp ensureTable (\<lambda>_.
     bindp (exec (stmt_cancel i u (time_t_of now))) (\<lambda>n.
       if n = 0 then ret None else read_back ''cancelByIdAndUserId'' now i u)))"

definition set_retried :: "image_row \<Rightarrow> image_row" where
  "set_retried r =
     r\<lparr>ir_status := Some ''queued'', ir_retry_count := ir_retry_count r + 1,
       ir_failure_code := Some [], ir_error_message := Some [], ir_image_url := Some [],
       ir_thumbnail_url := Some [], ir_storage_key := Some [], ir_generation_time := Some 0,
       ir_worker_id := None, ir_lease_expires_at := None, ir_started_at := None,
       ir_completed_at := None, ir_cancelled_at := None\<rparr>"

definition retryable_row :: "image_db \<Rightarrow> image_row \<Rightarrow> bool" where
  "retryable_row db r \<longleftrightarrow>
     text_in db (ir_status r) [''failed'', ''timeout'', ''cancelled''] \<and>
     ir_retry_count r < ir_max_retries r"

definition stmt_retry :: "int \<Rightarrow> int \<Rightarrow> image_db \<Rightarrow> nat \<times> image_db" where
  "stmt_retry i u db = sql_update (\<lambda>r. by_id_and_user i u r \<and> retryable_row db r) set_retried db"

definition retryByIdAndUserId :: "time_point \<Rightarrow> int \<Rightarrow> int \<Rightarrow> image_db \<Rightarrow>
    (repo_error + image_generation option) \<times> image_db" where
  "retryByIdAndUserId now i u = repoInvoke (bindp ensureTable (\<lambda>_.
     bindp (exec (stmt_retry i u)) (\<lambda>n.
       if n = 0 then ret None else read_back ''retryByIdAndUserId'' now i u)))"

definition lease_over :: "image_db \<Rightarrow> int \<Rightarrow> image_row \<Rightarrow> bool" where
  "lease_over db nowText r \<longleftrightarrow>
     text_eq db (ir_status r) ''generating'' \<and> ir_lease_expires_at r \<noteq> None \<and>
     time_less (ir_lease_expires_at r) nowText"

definition to_requeue :: "image_db \<Rightarrow> int \<Rightarrow> image_row \<Rightarrow> bool" where
  "to_requeue db nowText r \<longleftrightarrow> lease_over db nowText r \<and> ir_retry_count r < ir_max_retries r"

definition to_timeout :: "image_db \<Rightarrow> int \<Rightarrow> image_row \<Rightarrow> bool" where
  "to_timeout db nowText r \<longleftrightarrow> lease_over db nowText r \<and> ir_retry_count r \<ge> ir_max_retries r"

definition set_requeued :: "image_row \<Rightarrow> image_row" where
  "set_requeued r =
     r\<lparr>ir_status := Some ''queued'', ir_worker_id := None, ir_lease_expires_at := None,
       ir_retry_count := ir_retry_count r + 1, ir_failure_code := Some kLeaseExpired,
       ir_error_message := Some ''worker lease expired, re-queued for retry''\<rparr>"

definition set_timed_out :: "int \<Rightarrow> image_row \<Rightarrow> image_row" where
  "set_timed_out nowText r =
     r\<lparr>ir_status := Some ''timeout'', ir_worker_id := None, ir_lease_expires_at := None,
       ir_completed_at := Some nowText, ir_failure_code := Some kLeaseExpiredMaxRetries,
       ir_error_message := Some ''worker lease expired and max retries reached''\<rparr>"

definition stmt_requeue :: "int \<Rightarrow> image_db \<Rightarrow> nat \<times> image_db" where
  "stmt_requeue nowText db = sql_update (to_requeue db nowText) set_requeued db"

definition stmt_timeout :: "int \<Rightarrow> image_db \<Rightarrow> nat \<times> image_db" where
  "stmt_timeout nowText db = sql_update (to_timeout db nowText) (set_timed_out nowText) db"

definition expireLeasesUnsafe :: "time_point \<Rightarrow> (image_db, int) prog" where
  "expireLeasesUnsafe now =
     (let nowText = time_t_of now
      in bindp (exec (stmt_requeue nowText)) (\<lambda>a. bindp (exec (stmt_timeout nowText)) (\<lambda>b.
           ret (int32_of (int a + int b)))))"

definition expireLeases :: "time_point \<Rightarrow> image_db \<Rightarrow> (repo_error + int) \<times> image_db" where
  "expireLeases now = repoInvoke (bindp ensureTable (\<lambda>_. expireLeasesUnsafe now))"

record expired_lease =
  el_id :: int
  el_user_id :: int
  el_requeue :: bool

fun collect_expired :: "bool \<Rightarrow> image_row list \<Rightarrow> exn + expired_lease list" where
  "collect_expired rq [] = Inr []"
| "collect_expired rq (r # rs) = (case get_uint64 (ir_id r) of
      Inl e \<Rightarrow> Inl e
    | Inr i \<Rightarrow> (case get_uint64 (ir_user_id r) of
      Inl e \<Rightarrow> Inl e
    | Inr u \<Rightarrow> (case collect_expired rq rs of
      Inl e \<Rightarrow> Inl e
    | Inr ls \<Rightarrow> Inr (\<lparr>el_id = int64_of i, el_user_id = int64_of u, el_requeue = rq\<rparr> # ls))))"

text \<open>The clock is read once for the two SELECTs and again inside \<open>expireLeasesUnsafe\<close>.\<close>

definition expireLeasesReturningExpired :: "time_point \<Rightarrow> time_point \<Rightarrow> image_db \<Rightarrow>
    (repo_error + expired_lease list) \<times> image_db" where
  "expireLeasesReturningExpired now now' = repoInvoke (bindp ensureTable (\<lambda>_.
     let nowText = time_t_of now
     in bindp (select_where (\<lambda>db. to_requeue db nowText)) (\<lambda>rs.
        case collect_expired True rs of
          Inl e \<Rightarrow> throw e
        | Inr requeue \<Rightarrow> bindp (select_where (\<lambda>db. to_timeout db nowText)) (\<lambda>rs'.
        case collect_expired False rs' of
          Inl e \<Rightarrow> throw e
        | Inr timedOut \<Rightarrow> bindp (expireLeasesUnsafe now') (\<lambda>_. ret (requeue @ timedOut))))))"

definition set_status_error :: "task_status \<Rightarrow> string \<Rightarrow> int option \<Rightarrow> image_row \<Rightarrow> image_row" where
  "set_status_error status errorMessage completedAt r =
     r\<lparr>ir_status := Some (statusToString status), ir_error_message := Some errorMessage,
       ir_completed_at := completedAt\<rparr>"

definition updateStatusAndError :: "time_point \<Rightarrow> int \<Rightarrow> int \<Rightarrow> task_status \<Rightarrow> string \<Rightarrow> image_db \<Rightarrow>
    (repo_error + bool) \<times> image_db" where
  "updateStatusAndError now i u status errorMessage = repoInvoke (bindp ensureTable (\<lambda>_.
     let completedAt = (if isTerminal status then Some (time_t_of now) else None)
     in bindp (exec (sql_update (by_id_and_user i u) (set_status_error status errorMessage completedAt)))
          (\<lambda>n. ret (n > 0))))"

end
