(* ===== verification/Image_Repo_Facts.thy ===== *)
theory Image_Repo_Facts
  imports Image_Repo
begin

text \<open>
  What the task repository guarantees: the table invariant \<open>wf_db\<close> and that every operation
  keeps it whatever statements fail, the agreement of the guards written in SQL with the guards
  of \<open>task_status.h\<close>, the outcome of each operation on its row, and the life cycle of a row.
\<close>

section \<open>Statements and set-up\<close>

definition with_faults :: "image_db \<Rightarrow> stmt_fault list \<Rightarrow> image_db" where
  "with_faults db fs = db\<lparr>faults := fs\<rparr>"

lemma with_faults_sel [simp]:
  "rows (with_faults db fs) = rows db" "next_id (with_faults db fs) = next_id db"
  "collation (with_faults db fs) = collation db" "count_matched (with_faults db fs) = count_matched db"
  "table_ready (with_faults db fs) = table_ready db" "cfg_host (with_faults db fs) = cfg_host db"
  "cfg_database (with_faults db fs) = cfg_database db" "faults (with_faults db fs) = fs"
  by (simp_all add: with_faults_def)

lemma with_faults_self: "faults db = fs \<Longrightarrow> with_faults db fs = db"
  by (auto simp: with_faults_def)

lemma exec_unfold:
  "imageSchemaName db = Inr nm \<Longrightarrow> exec f db = (case faults db of
      [] \<Rightarrow> (let (x, db') = f (with_faults db []) in (Inr x, db'))
    | Runs # fs \<Rightarrow> (let (x, db') = f (with_faults db fs) in (Inr x, db'))
    | Rejected e # fs \<Rightarrow> (Inl e, with_faults db fs)
    | ReplyLost e # fs \<Rightarrow> (Inl e, snd (f (with_faults db fs))))"
proof (cases "faults db")
  case Nil
  assume "imageSchemaName db = Inr nm"
  with Nil show ?thesis by (simp add: exec_def with_faults_self)
next
  case (Cons x fs)
  assume "imageSchemaName db = Inr nm"
  with Cons show ?thesis by (cases x) (simp_all add: exec_def with_faults_def)
qed

lemma exec_no_schema: "imageSchemaName db = Inl e \<Longrightarrow> exec f db = (Inl e, db)"
  by (simp add: exec_def)

lemma exec_InrD:
  assumes "exec f db = (Inr x, db')"
  shows "\<exists>fs. f (with_faults db fs) = (x, db')"
proof (cases "imageSchemaName db")
  case (Inl e)
  with assms show ?thesis by (simp add: exec_no_schema)
next
  case (Inr nm)
  with assms show ?thesis
    by (fastforce simp: exec_unfold split: list.splits stmt_fault.splits prod.splits)
qed

lemma exec_cases:
  obtains "snd (exec f db) = db" | fs where "snd (exec f db) = with_faults db fs"
    | fs where "snd (exec f db) = snd (f (with_faults db fs))"
proof (cases "imageSchemaName db")
  case (Inl e)
  then show ?thesis using that(1) by (simp add: exec_no_schema)
next
  case (Inr nm)
  show ?thesis
  proof (cases "faults db")
    case Nil
    then show ?thesis using that(3) [of "[]"] Inr by (simp add: exec_unfold split_beta)
  next
    case (Cons x fs)
    then show ?thesis using that(2,3) [of fs] Inr by (cases x) (simp_all add: exec_unfold split_beta)
  qed
qed

lemma exec_inv:
  assumes "I db" and "\<And>db fs. I db \<Longrightarrow> I (with_faults db fs)" and "\<And>db. I db \<Longrightarrow> I (snd (f db))"
  shows "I (snd (exec f db))"
  using exec_cases [of f db] assms by metis

lemma exec_const_inv: "I db \<Longrightarrow> (\<And>db fs. I db \<Longrightarrow> I (with_faults db fs)) \<Longrightarrow>
    I (snd (exec (\<lambda>db. (g db, db)) db))"
  by (rule exec_inv) simp_all

definition quiet :: "image_db \<Rightarrow> bool" where
  "quiet db \<longleftrightarrow> table_ready db \<and> faults db = [] \<and> cfg_host db \<noteq> [] \<and> cfg_database db \<noteq> []"

lemma exec_quiet: "quiet db \<Longrightarrow> exec f db = (Inr (fst (f db)), snd (f db))"
  by (simp add: exec_def quiet_def imageSchemaName_def split: prod.split)

lemma ensureTable_ready [simp]: "table_ready db \<Longrightarrow> ensureTable db = (Inr (), db)"
  by (simp add: ensureTable_def)

lemma quiet_ready [simp]: "quiet db \<Longrightarrow> table_ready db"
  by (simp add: quiet_def)

lemma sql_update_sel [simp]:
  "rows (snd (sql_update p f db)) = map (\<lambda>r. if p r then f r else r) (rows db)"
  "next_id (snd (sql_update p f db)) = next_id db"
  "collation (snd (sql_update p f db)) = collation db"
  "count_matched (snd (sql_update p f db)) = count_matched db"
  "faults (snd (sql_update p f db)) = faults db"
  "quiet (snd (sql_update p f db)) = quiet db"
  "table_ready (snd (sql_update p f db)) = table_ready db"
  by (simp_all add: sql_update_def quiet_def)

lemma fst_sql_update_pos:
  "fst (sql_update p f db) > 0 \<longleftrightarrow> (\<exists>r\<in>set (rows db). p r \<and> (count_matched db \<or> f r \<noteq> r))"
  by (auto simp: sql_update_def filter_empty_conv)

lemma sql_update_zero:
  "fst (sql_update p f db) = 0 \<Longrightarrow> rows (snd (sql_update p f db)) = rows db"
  by (auto simp: sql_update_def filter_empty_conv intro!: map_idI)

section \<open>The table invariant\<close>

definition wf_collation :: "(string \<Rightarrow> string) \<Rightarrow> bool" where
  "wf_collation c \<longleftrightarrow> inj (\<lambda>s. c (statusToString s))"

definition row_status :: "image_row \<Rightarrow> task_status" where
  "row_status r = statusFromString (getStringOrEmpty (ir_status r))"

definition wf_row :: "image_row \<Rightarrow> bool" where
  "wf_row r \<longleftrightarrow> ir_status r = Some (statusToString (row_status r)) \<and> 0 \<le> ir_user_id r"

definition wf_db :: "image_db \<Rightarrow> bool" where
  "wf_db db \<longleftrightarrow> wf_collation (collation db) \<and> distinct (map ir_id (rows db)) \<and> 1 \<le> next_id db \<and>
     (\<forall>r\<in>set (rows db). 1 \<le> ir_id r \<and> ir_id r < next_id db \<and> wf_row r)"

lemma wf_db_with_faults [simp]: "wf_db (with_faults db fs) = wf_db db"
  by (simp add: wf_db_def)

lemma wf_db_ready [simp]: "wf_db (db\<lparr>table_ready := b\<rparr>) = wf_db db"
  by (simp add: wf_db_def)

lemma wf_rowD: "wf_db db \<Longrightarrow> r \<in> set (rows db) \<Longrightarrow> wf_row r"
  by (simp add: wf_db_def)

text \<open>Under the invariant a comparison of the status column is a comparison of statuses.\<close>

lemma status_eq_iff:
  "wf_db db \<Longrightarrow> wf_row r \<Longrightarrow> text_eq db (ir_status r) (statusToString s) \<longleftrightarrow> row_status r = s"
  by (auto simp: wf_row_def text_eq_def wf_db_def wf_collation_def inj_def)

lemma status_literals:
  "''pending'' = statusToString Pending" "''queued'' = statusToString Queued"
  "''generating'' = statusToString Generating" "''success'' = statusToString Success"
  "''failed'' = statusToString Failed" "''cancelled'' = statusToString Cancelled"
  "''timeout'' = statusToString Timeout"
  by simp_all

lemma status_in_iff:
  "wf_db db \<Longrightarrow> wf_row r \<Longrightarrow>
   text_in db (ir_status r) (map statusToString ss) \<longleftrightarrow> row_status r \<in> set ss"
  by (auto simp: text_in_def status_eq_iff)

lemma sql_guards:
  assumes "wf_db db" "wf_row r"
  shows "waiting_row db r \<longleftrightarrow> row_status r \<in> {Queued, Pending}"
    and "active_row db r \<longleftrightarrow> canCancel (row_status r)"
    and "deletable_row db r \<longleftrightarrow> canDelete (row_status r)"
    and "retryable_row db r \<longleftrightarrow> canRetry (row_status r) (ir_retry_count r) (ir_max_retries r)"
    and "text_eq db (ir_status r) ''generating'' \<longleftrightarrow> row_status r = Generating"
proof -
  show "waiting_row db r \<longleftrightarrow> row_status r \<in> {Queued, Pending}"
    using status_in_iff [OF assms, of "[Queued, Pending]"] by (simp add: waiting_row_def)
  show "active_row db r \<longleftrightarrow> canCancel (row_status r)"
    using status_in_iff [OF assms, of "[Queued, Pending, Generating]"]
    by (cases "row_status r") (simp_all add: active_row_def)
  show "deletable_row db r \<longleftrightarrow> canDelete (row_status r)"
    using status_in_iff [OF assms, of "[Success, Failed, Cancelled, Timeout]"]
    by (cases "row_status r") (simp_all add: deletable_row_def)
  show "retryable_row db r \<longleftrightarrow> canRetry (row_status r) (ir_retry_count r) (ir_max_retries r)"
    using status_in_iff [OF assms, of "[Failed, Timeout, Cancelled]"]
    by (auto simp: retryable_row_def canRetry_iff)
  show "text_eq db (ir_status r) ''generating'' \<longleftrightarrow> row_status r = Generating"
    using status_eq_iff [OF assms, of Generating] by simp
qed

section \<open>What the statements do to a row\<close>

lemma setter_keys [simp]:
  "ir_id (set_claimed w n e r) = ir_id r" "ir_user_id (set_claimed w n e r) = ir_user_id r"
  "ir_id (set_finished g r) = ir_id r" "ir_user_id (set_finished g r) = ir_user_id r"
  "ir_id (set_deferred c m r) = ir_id r" "ir_user_id (set_deferred c m r) = ir_user_id r"
  "ir_id (set_cancelled n r) = ir_id r" "ir_user_id (set_cancelled n r) = ir_user_id r"
  "ir_id (set_retried r) = ir_id r" "ir_user_id (set_retried r) = ir_user_id r"
  "ir_id (set_requeued r) = ir_id r" "ir_user_id (set_requeued r) = ir_user_id r"
  "ir_id (set_timed_out n r) = ir_id r" "ir_user_id (set_timed_out n r) = ir_user_id r"
  "ir_id (set_status_error st m cp r) = ir_id r" "ir_user_id (set_status_error st m cp r) = ir_user_id r"
  by (simp_all add: set_claimed_def set_finished_def set_deferred_def set_cancelled_def
      set_retried_def set_requeued_def set_timed_out_def set_status_error_def)

lemma setter_status [simp]:
  "row_status (set_claimed w n e r) = Generating" "row_status (set_finished g r) = img_status g"
  "row_status (set_deferred c m r) = Queued" "row_status (set_cancelled n r) = Cancelled"
  "row_status (set_retried r) = Queued" "row_status (set_requeued r) = Queued"
  "row_status (set_timed_out n r) = Timeout" "row_status (set_status_error st m cp r) = st"
  "row_status (r\<lparr>ir_lease_expires_at := l\<rparr>) = row_status r"
  by (simp_all add: row_status_def getStringOrEmpty_def set_claimed_def set_finished_def
      set_deferred_def set_cancelled_def set_retried_def set_requeued_def set_timed_out_def
      set_status_error_def) (simp_all add: statusFromString_def)

lemma setter_status_text [simp]:
  "ir_status (set_claimed w n e r) = Some ''generating''"
  "ir_status (set_finished g r) = Some (statusToString (img_status g))"
  "ir_status (set_deferred c m r) = Some ''queued''" "ir_status (set_cancelled n r) = Some ''cancelled''"
  "ir_status (set_retried r) = Some ''queued''" "ir_status (set_requeued r) = Some ''queued''"
  "ir_status (set_timed_out n r) = Some ''timeout''"
  "ir_status (set_status_error st m cp r) = Some (statusToString st)"
  by (simp_all add: set_claimed_def set_finished_def set_deferred_def set_cancelled_def
      set_retried_def set_requeued_def set_timed_out_def set_status_error_def)

lemma setter_lease [simp]:
  "ir_worker_id (set_claimed w n e r) = Some w" "ir_lease_expires_at (set_claimed w n e r) = Some e"
  "ir_worker_id (set_finished g r) = None" "ir_lease_expires_at (set_finished g r) = None"
  "ir_worker_id (set_deferred c m r) = None" "ir_lease_expires_at (set_deferred c m r) = None"
  "ir_worker_id (set_cancelled n r) = None" "ir_lease_expires_at (set_cancelled n r) = None"
  "ir_worker_id (set_requeued r) = None" "ir_lease_expires_at (set_requeued r) = None"
  "ir_worker_id (set_timed_out n r) = None" "ir_lease_expires_at (set_timed_out n r) = None"
  by (simp_all add: set_claimed_def set_finished_def set_deferred_def set_cancelled_def
      set_requeued_def set_timed_out_def)

lemma setter_wf [simp]:
  "wf_row r \<Longrightarrow> wf_row (set_claimed w n e r)" "wf_row r \<Longrightarrow> wf_row (set_finished g r)"
  "wf_row r \<Longrightarrow> wf_row (set_deferred c m r)" "wf_row r \<Longrightarrow> wf_row (set_cancelled n r)"
  "wf_row r \<Longrightarrow> wf_row (set_retried r)" "wf_row r \<Longrightarrow> wf_row (set_requeued r)"
  "wf_row r \<Longrightarrow> wf_row (set_timed_out n r)" "wf_row r \<Longrightarrow> wf_row (set_status_error st m cp r)"
  "wf_row r \<Longrightarrow> wf_row (r\<lparr>ir_lease_expires_at := l\<rparr>)"
  by (simp_all add: wf_row_def)

lemma setter_budget [simp]:
  "ir_max_retries (set_claimed w n e r) = ir_max_retries r" "ir_retry_count (set_claimed w n e r) = ir_retry_count r"
  "ir_max_retries (set_finished g r) = ir_max_retries r" "ir_retry_count (set_finished g r) = ir_retry_count r"
  "ir_max_retries (set_deferred c m r) = ir_max_retries r" "ir_retry_count (set_deferred c m r) = ir_retry_count r + 1"
  "ir_max_retries (set_cancelled n r) = ir_max_retries r" "ir_retry_count (set_cancelled n r) = ir_retry_count r"
  "ir_max_retries (set_retried r) = ir_max_retries r" "ir_retry_count (set_retried r) = ir_retry_count r + 1"
  "ir_max_retries (set_requeued r) = ir_max_retries r" "ir_retry_count (set_requeued r) = ir_retry_count r + 1"
  "ir_max_retries (set_timed_out n r) = ir_max_retries r" "ir_retry_count (set_timed_out n r) = ir_retry_count r"
  by (simp_all add: set_claimed_def set_finished_def set_deferred_def set_cancelled_def
      set_retried_def set_requeued_def set_timed_out_def)

section \<open>Every operation keeps the invariant\<close>

lemma wf_db_update:
  assumes "wf_db db" and "\<And>r. wf_row r \<Longrightarrow> ir_id (f r) = ir_id r \<and> wf_row (f r)"
  shows "wf_db (snd (sql_update p f db))"
proof -
  have id: "ir_id (if p r then f r else r) = ir_id r" if "r \<in> set (rows db)" for r
    using assms(2) [OF wf_rowD [OF assms(1) that]] by simp
  then have "map ir_id (rows (snd (sql_update p f db))) = map ir_id (rows db)" by simp
  then have "distinct (map ir_id (rows (snd (sql_update p f db))))"
    using assms(1) by (simp only: wf_db_def)
  then show ?thesis using assms id by (auto simp: wf_db_def simp del: map_map)
qed

lemma wf_db_delete: "wf_db db \<Longrightarrow> wf_db (snd (sql_delete p db))"
  by (auto simp: wf_db_def sql_delete_def intro: distinct_map_filter)

lemma wf_db_insert:
  assumes "wf_db db" "\<And>n. ir_id (mk n) = n" "\<And>n. wf_row (mk n)"
  shows "wf_db (snd (sql_insert mk db))"
  using assms unfolding wf_db_def sql_insert_def by fastforce

lemma image_values_keys [simp]:
  "ir_id (image_values t n g) = n" "ir_user_id (image_values t n g) = img_user_id g"
  "ir_status (image_values t n g) = Some (statusToString (img_status g))"
  "row_status (image_values t n g) = img_status g"
  by (simp_all add: image_values_def row_status_def getStringOrEmpty_def)

lemma wf_image_values: "0 \<le> img_user_id g \<Longrightarrow> wf_row (image_values t n g)"
  by (simp add: wf_row_def image_values_def row_status_def getStringOrEmpty_def)

lemma keeps_exec:
  assumes "\<And>db fs. I db \<Longrightarrow> I (with_faults db fs)" "\<And>db. I db \<Longrightarrow> I (snd (f db))"
  shows "keeps I (exec f)"
  by (rule keepsI) (rule exec_inv, auto intro: assms)

lemma keeps_repoInvoke: "keeps I m \<Longrightarrow> I s \<Longrightarrow> I (snd (repoInvoke m s))"
  by (simp add: keepsD)

text \<open>A predicate that depends on the rows, the identifiers and the collation only, and that a
  completed set-up does not disturb.\<close>

definition table_pred :: "(image_db \<Rightarrow> bool) \<Rightarrow> bool" where
  "table_pred I \<longleftrightarrow> (\<forall>db db'. rows db' = rows db \<and> next_id db' = next_id db \<and> collation db' = collation db \<and>
     (table_ready db \<longrightarrow> table_ready db') \<longrightarrow> I db \<longrightarrow> I db')"

lemma table_predD: "table_pred I \<Longrightarrow> I db \<Longrightarrow> rows db' = rows db \<Longrightarrow> next_id db' = next_id db \<Longrightarrow>
    collation db' = collation db \<Longrightarrow> (table_ready db \<Longrightarrow> table_ready db') \<Longrightarrow> I db'"
  by (auto simp: table_pred_def)

lemma table_pred_wf_db: "table_pred wf_db"
  by (simp add: table_pred_def wf_db_def)

lemma keeps_exec_table:
  assumes "table_pred I" "\<And>db. I db \<Longrightarrow> I (snd (f db))"
  shows "keeps I (exec f)"
  by (rule keeps_exec) (auto intro: assms table_predD [OF assms(1)])

lemma keeps_read: "table_pred I \<Longrightarrow> keeps I (exec (\<lambda>db. (g db, db)))"
  by (rule keeps_exec_table) simp_all

lemma keeps_migrate_columns: "table_pred I \<Longrightarrow> keeps I (migrate_columns cs)"
proof (induction cs)
  case (Cons c cs)
  then have "keeps I (columnExists c)" "keeps I (add_column c)"
    unfolding columnExists_def add_column_def
    by (auto intro!: keeps_exec_table elim: table_predD)
  with Cons show ?case by (auto intro!: keeps_intros)
qed (simp add: keeps_ret)

lemma keeps_migrate_indexes: "table_pred I \<Longrightarrow> keeps I (migrate_indexes cs)"
proof (induction cs)
  case (Cons c cs)
  then have "keeps I (indexExists c)" "keeps I (add_index c)"
    unfolding indexExists_def add_index_def
    by (auto intro!: keeps_exec_table elim: table_predD)
  with Cons show ?case by (auto intro!: keeps_intros)
qed (simp add: keeps_ret)

lemma keeps_ensureTable: "table_pred I \<Longrightarrow> keeps I ensureTable"
proof (rule keepsI)
  fix db assume I: "table_pred I" "I db"
  have "keeps I (exec create_table)"
    using I(1) by (rule keeps_exec_table) (auto simp: create_table_def elim: table_predD [OF I(1)])
  then have "keeps I (bindp (exec create_table) (\<lambda>_. bindp (migrate_columns columnMigrations)
      (\<lambda>_. migrate_indexes indexMigrations)))"
    by (intro keeps_bindp keeps_migrate_columns keeps_migrate_indexes I(1))
  from keepsD [OF this I(2)] show "I (snd (ensureTable db))"
    using I by (auto simp: ensureTable_def split: sum.splits prod.splits elim: table_predD)
qed

lemma keeps_fetch_one [keeps_intros]: "keeps I (fetch_one now rs)"
  unfolding fetch_one_def by (intro keeps_intros)

lemma keeps_select_where: "table_pred I \<Longrightarrow> keeps I (select_where p)"
  unfolding select_where_def sql_select_def by (rule keeps_read)

lemma keeps_read_back: "table_pred I \<Longrightarrow> keeps I (read_back op now i u)"
  unfolding read_back_def by (intro keeps_intros keeps_select_where)

section \<open>The operations as one family\<close>

datatype repo_op =
    OpInsert time_point image_generation
  | OpPage time_point int int int
  | OpPageStatus time_point int task_status int int
  | OpFind time_point int int
  | OpFindRequest time_point string int
  | OpCount int
  | OpDelete int int
  | OpClaimNext time_point string int
  | OpClaim time_point int string int
  | OpQueuedIds
  | OpRenew time_point int int string int
  | OpFinish image_generation
  | OpDefer int int string string string
  | OpCancel time_point int int
  | OpRetry time_point int int
  | OpExpire time_point
  | OpExpireReport time_point time_point
  | OpUpdateStatus time_point int int task_status string

fun run_op :: "repo_op \<Rightarrow> image_db \<Rightarrow> image_db" where
  "run_op (OpInsert now g) db = snd (repo_insert now g db)"
| "run_op (OpPage now u p s) db = snd (findByUserId now u p s db)"
| "run_op (OpPageStatus now u st p s) db = snd (findByUserIdAndStatus now u st p s db)"
| "run_op (OpFind now i u) db = snd (findByIdAndUserId now i u db)"
| "run_op (OpFindRequest now rid u) db = snd (findByRequestIdAndUserId now rid u db)"
| "run_op (OpCount u) db = snd (countActiveTasksByUserId u db)"
| "run_op (OpDelete i u) db = snd (deleteByIdAndUserId i u db)"
| "run_op (OpClaimNext now w l) db = snd (claimNextTask now w l db)"
| "run_op (OpClaim now i w l) db = snd (claimTaskById now i w l db)"
| "run_op OpQueuedIds db = snd (findQueuedTaskIds db)"
| "run_op (OpRenew now i u w l) db = snd (renewLease now i u w l db)"
| "run_op (OpFinish g) db = snd (finishClaimedTask g db)"
| "run_op (OpDefer i u w c m) db = snd (deferClaimedTaskForModelHealth i u w c m db)"
| "run_op (OpCancel now i u) db = snd (cancelByIdAndUserId now i u db)"
| "run_op (OpRetry now i u) db = snd (retryByIdAndUserId now i u db)"
| "run_op (OpExpire now) db = snd (expireLeases now db)"
| "run_op (OpExpireReport now now') db = snd (expireLeasesReturningExpired now now' db)"
| "run_op (OpUpdateStatus now i u st m) db = snd (updateStatusAndError now i u st m db)"

text \<open>The one write of each operation; the reading operations have none.\<close>

inductive op_write :: "repo_op \<Rightarrow> (image_db \<Rightarrow> nat \<times> image_db) \<Rightarrow> bool" where
  "op_write (OpDelete i u) (\<lambda>db. sql_delete (\<lambda>r. by_id_and_user i u r \<and> deletable_row db r) db)"
| "op_write (OpClaimNext now w l) (stmt_claim_next w (time_t_of now) (time_t_of (expires_at now l)))"
| "op_write (OpClaim now i w l) (stmt_claim_by_id i w (time_t_of now) (time_t_of (expires_at now l)))"
| "op_write (OpRenew now i u w l) (stmt_renew i u w (time_t_of (expires_at now l)))"
| "op_write (OpFinish g) (stmt_finish g)"
| "op_write (OpDefer i u w c m) (stmt_defer i u w c m)"
| "op_write (OpCancel now i u) (stmt_cancel i u (time_t_of now))"
| "op_write (OpRetry now i u) (stmt_retry i u)"
| "op_write (OpExpire now) (stmt_requeue (time_t_of now))"
| "op_write (OpExpire now) (stmt_timeout (time_t_of now))"
| "op_write (OpExpireReport now now') (stmt_requeue (time_t_of now'))"
| "op_write (OpExpireReport now now') (stmt_timeout (time_t_of now'))"
| "op_write (OpUpdateStatus now i u st m)
     (sql_update (by_id_and_user i u)
       (set_status_error st m (if isTerminal st then Some (time_t_of now) else None)))"

text \<open>A predicate on the table that every write of an operation keeps is kept by the operation,
  whichever of its statements fail.\<close>

lemma run_op_keeps:
  assumes I: "table_pred I" "I db"
    and ins: "\<And>now g t db. op = OpInsert now g \<Longrightarrow> I db \<Longrightarrow>
      I (snd (sql_insert (\<lambda>n. image_values t n g) db))"
    and wr: "\<And>f db. op_write op f \<Longrightarrow> I db \<Longrightarrow> I (snd (f db))"
  shows "I (run_op op db)"
proof -
  have W: "keeps I (exec f)" if "op_write op f" for f
    using I(1) wr [OF that] by (rule keeps_exec_table)
  have N: "keeps I (exec (sql_insert (\<lambda>n. image_values t n g)))" if "op = OpInsert now g" for now t g
    using I(1) ins [OF that] by (rule keeps_exec_table)
  have X: "I (snd (repoInvoke (bindp ensureTable (\<lambda>_. m)) db))" if "keeps I m" for m :: "(image_db, 'z) prog"
    using keeps_bindp [OF keeps_ensureTable [OF I(1)] that] I(2) by (rule keeps_repoInvoke)
  note R = keeps_select_where [OF I(1)] keeps_read_back [OF I(1)] keeps_read [OF I(1)]
  note defs = repo_insert_def findByUserId_def findByUserIdAndStatus_def find_page_def Let_def
    findByIdAndUserId_def findByRequestIdAndUserId_def countActiveTasksByUserId_def
    deleteByIdAndUserId_def claimNextTask_def claimTaskById_def findQueuedTaskIds_def
    renewLease_def finishClaimedTask_def deferClaimedTaskForModelHealth_def
    cancelByIdAndUserId_def retryByIdAndUserId_def expireLeases_def expireLeasesUnsafe_def
    expireLeasesReturningExpired_def updateStatusAndError_def last_insert_id_def sql_page_def sql_count_def
  show ?thesis
  proof (cases op)
    case (OpInsert now g)
    show ?thesis unfolding OpInsert run_op.simps defs
      by (rule X) (intro keeps_intros R N, rule OpInsert)
  next
    case (OpPage now u p s)
    show ?thesis unfolding OpPage run_op.simps defs by (rule X) (intro keeps_intros R)
  next
    case (OpPageStatus now u st p s)
    show ?thesis unfolding OpPageStatus run_op.simps defs by (rule X) (intro keeps_intros R)
  next
    case (OpFind now i u)
    show ?thesis unfolding OpFind run_op.simps defs by (rule X) (intro keeps_intros R)
  next
    case (OpFindRequest now rid u)
    show ?thesis unfolding OpFindRequest run_op.simps defs by (rule X) (intro keeps_intros R)
  next
    case (OpCount u)
    show ?thesis unfolding OpCount run_op.simps defs by (rule X) (intro keeps_intros R)
  next
    case (OpDelete i u)
    show ?thesis unfolding OpDelete run_op.simps defs
      by (rule X) (intro keeps_intros R W, simp only: OpDelete op_write.intros)
  next
    case (OpClaimNext now w l)
    show ?thesis unfolding OpClaimNext run_op.simps defs
      by (rule X) (intro keeps_intros R W, simp only: OpClaimNext op_write.intros)
  next
    case (OpClaim now i w l)
    show ?thesis unfolding OpClaim run_op.simps defs
      by (rule X) (intro keeps_intros R W, simp only: OpClaim op_write.intros)
  next
    case OpQueuedIds
    show ?thesis unfolding OpQueuedIds run_op.simps defs by (rule X) (intro keeps_intros R)
  next
    case (OpRenew now i u w l)
    show ?thesis unfolding OpRenew run_op.simps defs
      by (rule X) (intro keeps_intros R W, simp only: OpRenew op_write.intros)
  next
    case (OpFinish g)
    show ?thesis unfolding OpFinish run_op.simps defs
      by (rule X) (intro keeps_intros R W, simp only: OpFinish op_write.intros)
  next
    case (OpDefer i u w c m)
    show ?thesis unfolding OpDefer run_op.simps defs
      by (rule X) (intro keeps_intros R W, simp only: OpDefer op_write.intros)
  next
    case (OpCancel now i u)
    show ?thesis unfolding OpCancel run_op.simps defs
      by (rule X) (intro keeps_intros R W, simp only: OpCancel op_write.intros)
  next
    case (OpRetry now i u)
    show ?thesis unfolding OpRetry run_op.simps defs
      by (rule X) (intro keeps_intros R W, simp only: OpRetry op_write.intros)
  next
    case (OpExpire now)
    show ?thesis unfolding OpExpire run_op.simps defs
      by (rule X) (intro keeps_intros R W, simp_all only: OpExpire op_write.intros)
  next
    case (OpExpireReport now now')
    show ?thesis unfolding OpExpireReport run_op.simps defs
      by (rule X) (intro keeps_intros R W, simp_all only: OpExpireReport op_write.intros)
  next
    case (OpUpdateStatus now i u st m)
    show ?thesis unfolding OpUpdateStatus run_op.simps defs
      by (rule X) (intro keeps_intros R W, simp only: OpUpdateStatus op_write.intros)
  qed
qed

section \<open>Consequences for the invariant and for settled rows\<close>

lemma wf_oldest: "oldest p db = Some t \<Longrightarrow> t \<in> set (rows db) \<and> p t"
proof -
  assume "oldest p db = Some t"
  then obtain rs where "sort_key (\<lambda>r. (ir_created_at r, ir_id r)) (filter p (rows db)) = t # rs"
    by (auto simp: oldest_def split: list.splits)
  then have "t \<in> set (sort_key (\<lambda>r. (ir_created_at r, ir_id r)) (filter p (rows db)))" by simp
  then show ?thesis by simp
qed

lemma op_write_wf: "op_write op f \<Longrightarrow> wf_db db \<Longrightarrow> wf_db (snd (f db))"
  by (induction rule: op_write.induct)
    (auto simp: stmt_claim_next_def stmt_claim_by_id_def stmt_renew_def stmt_finish_def stmt_defer_def
      stmt_cancel_def stmt_retry_def stmt_requeue_def stmt_timeout_def
      intro!: wf_db_update wf_db_delete split: option.split)

fun wf_op :: "repo_op \<Rightarrow> bool" where
  "wf_op (OpInsert now g) \<longleftrightarrow> 0 \<le> img_user_id g"
| "wf_op _ \<longleftrightarrow> True"

lemma wf_run_op: "wf_op op \<Longrightarrow> wf_db db \<Longrightarrow> wf_db (run_op op db)"
  by (rule run_op_keeps [OF table_pred_wf_db])
    (auto intro!: wf_db_insert wf_image_values op_write_wf)

definition run_ops :: "repo_op list \<Rightarrow> image_db \<Rightarrow> image_db" where
  "run_ops ops db = foldl (\<lambda>db op. run_op op db) db ops"

lemma run_ops_simps [simp]:
  "run_ops [] db = db" "run_ops (op # ops) db = run_ops ops (run_op op db)"
  by (simp_all add: run_ops_def)

lemma wf_run_ops: "\<forall>op\<in>set ops. wf_op op \<Longrightarrow> wf_db db \<Longrightarrow> wf_db (run_ops ops db)"
  by (induction ops arbitrary: db) (simp_all add: wf_run_op)

text \<open>The operations that may change a row in a terminal status: its owner's delete, its owner's
  retry within the budget, and the unguarded \<open>updateStatusAndError\<close>.\<close>

fun reopens :: "repo_op \<Rightarrow> image_row \<Rightarrow> bool" where
  "reopens (OpDelete i u) r \<longleftrightarrow> by_id_and_user i u r"
| "reopens (OpRetry now i u) r \<longleftrightarrow> by_id_and_user i u r \<and>
     canRetry (row_status r) (ir_retry_count r) (ir_max_retries r)"
| "reopens (OpUpdateStatus now i u st m) r \<longleftrightarrow> by_id_and_user i u r"
| "reopens _ r \<longleftrightarrow> False"

definition settled_in :: "image_row \<Rightarrow> image_db \<Rightarrow> bool" where
  "settled_in r db \<longleftrightarrow> wf_db db \<and> r \<in> set (rows db)"

lemma table_pred_settled: "table_pred (settled_in r)"
  using table_pred_wf_db by (auto simp: table_pred_def settled_in_def)

lemma sql_update_other:
  "r \<in> set (rows db) \<Longrightarrow> \<not> p r \<Longrightarrow> r \<in> set (rows (snd (sql_update p f db)))"
  by (auto intro!: image_eqI [of _ _ r])

lemma terminal_guards:
  assumes "wf_db db" "r \<in> set (rows db)" "isTerminal (row_status r)"
  shows "\<not> waiting_row db r" "\<not> active_row db r" "\<not> claimable db n r" "\<not> held_row db i u w r"
    "\<not> lease_over db n r"
proof -
  note g = sql_guards [OF assms(1) wf_rowD [OF assms(1,2)]]
  show "\<not> waiting_row db r" "\<not> active_row db r" "\<not> held_row db i u w r" "\<not> lease_over db n r"
    using assms(3) g by (cases "row_status r"; simp add: held_row_def lease_over_def)+
  show "\<not> claimable db n r"
    using assms(3) g by (cases "row_status r"; simp add: claimable_def waiting_row_def)
qed

lemma op_write_settled:
  assumes "op_write op f" "settled_in r db" "isTerminal (row_status r)" "\<not> reopens op r"
  shows "r \<in> set (rows (snd (f db)))"
proof -
  have wf: "wf_db db" and r: "r \<in> set (rows db)" using assms(2) by (auto simp: settled_in_def)
  note t = terminal_guards [OF wf r assms(3)]
  note g = sql_guards [OF wf wf_rowD [OF wf r]]
  from assms(1,4) show ?thesis
  proof cases
    case (2 now w l)
    show ?thesis
    proof (cases "oldest (claimable db (time_t_of now)) db")
      case (Some q)
      then have q: "q \<in> set (rows db)" "claimable db (time_t_of now) q" using wf_oldest by auto
      then have "ir_id r \<noteq> ir_id q"
        using distinct_map_eq [of ir_id "rows db" r q] wf r t(3) by (auto simp: wf_db_def)
      with Some r show ?thesis unfolding 2 stmt_claim_next_def by (auto intro!: sql_update_other)
    qed (simp add: 2 stmt_claim_next_def r)
  qed (use r t g in \<open>auto simp: stmt_claim_by_id_def stmt_renew_def stmt_finish_def stmt_defer_def
      stmt_cancel_def stmt_retry_def stmt_requeue_def stmt_timeout_def to_requeue_def to_timeout_def
      sql_delete_def by_id_and_user_def simp del: sql_update_sel intro!: sql_update_other\<close>)
qed

lemma run_op_settled:
  assumes "settled_in r db" "isTerminal (row_status r)" "\<not> reopens op r" "wf_op op"
  shows "settled_in r (run_op op db)"
proof (rule run_op_keeps [OF table_pred_settled assms(1)])
  fix now g t db' assume op: "op = OpInsert now g" and s: "settled_in r db'"
  have "0 \<le> img_user_id g" using assms(4) op by simp
  then have "wf_db (snd (sql_insert (\<lambda>n. image_values t n g) db'))"
    using s by (intro wf_db_insert wf_image_values) (auto simp: settled_in_def)
  with s show "settled_in r (snd (sql_insert (\<lambda>n. image_values t n g) db'))"
    by (auto simp: settled_in_def sql_insert_def)
next
  fix f db' assume w: "op_write op f" and s: "settled_in r db'"
  then show "settled_in r (snd (f db'))"
    using op_write_settled [OF w s assms(2,3)] op_write_wf [OF w] by (auto simp: settled_in_def)
qed

lemma run_ops_settled:
  "settled_in r db \<Longrightarrow> isTerminal (row_status r) \<Longrightarrow> \<forall>op\<in>set ops. wf_op op \<and> \<not> reopens op r \<Longrightarrow>
   settled_in r (run_ops ops db)"
  by (induction ops arbitrary: db) (simp_all add: run_op_settled)

section \<open>Reading rows back\<close>

definition image_of :: "time_point \<Rightarrow> image_row \<Rightarrow> image_generation" where
  "image_of now r = projr (rowToImageGeneration now r)"

lemma row_readable: "0 \<le> ir_id r \<Longrightarrow> 0 \<le> ir_user_id r \<Longrightarrow> rowToImageGeneration now r = Inr (image_of now r)"
  by (simp add: image_of_def rowToImageGeneration_def get_uint64_def)

lemma wf_row_readable: "wf_db db \<Longrightarrow> r \<in> set (rows db) \<Longrightarrow> rowToImageGeneration now r = Inr (image_of now r)"
  by (rule row_readable) (auto simp: wf_db_def wf_row_def)

lemma image_of_sel:
  assumes "0 \<le> ir_id r" "0 \<le> ir_user_id r"
  shows "img_id (image_of now r) = int64_of (ir_id r)"
    "img_user_id (image_of now r) = int64_of (ir_user_id r)"
    "img_status (image_of now r) = row_status r"
    "img_worker_id (image_of now r) = getStringOrEmpty (ir_worker_id r)"
    "img_storage_key (image_of now r) = getStringOrEmpty (ir_storage_key r)"
    "img_request_id (image_of now r) = getStringOrEmpty (ir_request_id r)"
    "img_retry_count (image_of now r) = int32_of (ir_retry_count r)"
    "img_max_retries (image_of now r) = int32_of (ir_max_retries r)"
    "img_image_bytes (image_of now r) = []"
  using assms by (simp_all add: image_of_def rowToImageGeneration_def get_uint64_def row_status_def
      getIntOrDefault_def)

lemma row_image_sel:
  assumes "rowToImageGeneration now r = Inr img"
  shows "img_id img = int64_of (ir_id r)" "img_user_id img = int64_of (ir_user_id r)"
    "img_status img = row_status r" "img_worker_id img = getStringOrEmpty (ir_worker_id r)"
    "img_storage_key img = getStringOrEmpty (ir_storage_key r)"
    "img_retry_count img = int32_of (ir_retry_count r)"
  using assms by (auto simp: rowToImageGeneration_def get_uint64_def row_status_def
      getIntOrDefault_def split: if_splits)

lemma filter_unique_id:
  "distinct (map ir_id xs) \<Longrightarrow> r \<in> set xs \<Longrightarrow> P r \<Longrightarrow>
   (\<And>q. q \<in> set xs \<Longrightarrow> P q \<Longrightarrow> ir_id q = ir_id r) \<Longrightarrow> filter P xs = [r]"
proof (induction xs)
  case (Cons x xs)
  have d: "ir_id x \<notin> ir_id ` set xs" and dx: "distinct (map ir_id xs)" using Cons.prems(1) by auto
  show ?case
  proof (cases "x = r")
    case True
    have "\<not> P y" if "y \<in> set xs" for y
      using d Cons.prems(4) [of y] that unfolding True by (metis imageI list.set_intros(2))
    then have "filter P xs = []" by (simp add: filter_empty_conv)
    with True Cons.prems(3) show ?thesis by simp
  next
    case False
    then have r: "r \<in> set xs" using Cons.prems(2) by simp
    then have "\<not> P x" using d Cons.prems(4) [of x] by (metis imageI list.set_intros(1))
    moreover have "filter P xs = [r]" by (rule Cons.IH [OF dx r Cons.prems(3)]) (simp add: Cons.prems(4))
    ultimately show ?thesis by simp
  qed
qed simp

lemma unique_row: "wf_db db \<Longrightarrow> r \<in> set (rows db) \<Longrightarrow> q \<in> set (rows db) \<Longrightarrow> ir_id q = ir_id r \<Longrightarrow> q = r"
  by (auto simp: wf_db_def dest: distinct_map_eq)

lemma wf_rows_id: "wf_db db \<Longrightarrow> r \<in> set (rows db) \<Longrightarrow> 0 \<le> ir_id r \<and> 0 \<le> ir_user_id r"
  by (auto simp: wf_db_def wf_row_def)

section \<open>Operations that succeed did their statement\<close>

lemma repoInvoke_ready:
  "table_ready db \<Longrightarrow> repoInvoke (bindp ensureTable (\<lambda>_. m)) db = repoInvoke m db"
  by (simp add: repoInvoke_def bindp_def)

lemma repo_bind_InrD:
  assumes "repoInvoke (bindp m k) db = (Inr x, db')"
  shows "\<exists>y db1. m db = (Inr y, db1) \<and> k y db1 = (Inr x, db')"
  using assms by (auto simp: repoInvoke_def bindp_def split: prod.splits sum.splits)

lemma guarded_update_InrD:
  assumes "table_ready db"
    and "repoInvoke (bindp ensureTable (\<lambda>_. bindp (exec f) (\<lambda>n. ret (g n)))) db = (Inr b, db')"
  shows "\<exists>fs. snd (f (with_faults db fs)) = db' \<and> b = g (fst (f (with_faults db fs)))"
proof -
  from assms obtain n db1 where "exec f db = (Inr n, db1)" "b = g n" "db' = db1"
    by (auto simp: repoInvoke_ready dest: repo_bind_InrD)
  then show ?thesis using exec_InrD [of f db n db1] by (metis fst_conv snd_conv)
qed

lemma text_eq_with_faults [simp]: "text_eq (with_faults db fs) = text_eq db"
  by (intro ext) (simp add: text_eq_def split: option.split)

lemma guards_with_faults [simp]:
  "waiting_row (with_faults db fs) = waiting_row db" "active_row (with_faults db fs) = active_row db"
  "deletable_row (with_faults db fs) = deletable_row db"
  "retryable_row (with_faults db fs) = retryable_row db"
  "claimable (with_faults db fs) = claimable db" "held_row (with_faults db fs) = held_row db"
  "lease_over (with_faults db fs) = lease_over db"
  "to_requeue (with_faults db fs) = to_requeue db" "to_timeout (with_faults db fs) = to_timeout db"
  by (intro ext; simp add: waiting_row_def active_row_def deletable_row_def retryable_row_def
      claimable_def held_row_def lease_over_def to_requeue_def to_timeout_def text_in_def)+

text \<open>The rows and the catalogue of the collation, the part of the state the guards read.\<close>

definition same_table :: "image_db \<Rightarrow> image_db \<Rightarrow> bool" where
  "same_table db db' \<longleftrightarrow> rows db' = rows db \<and> collation db' = collation db \<and> next_id db' = next_id db"

lemma guards_collation:
  assumes "collation db' = collation db"
  shows "text_eq db' = text_eq db" "waiting_row db' = waiting_row db" "active_row db' = active_row db"
    "deletable_row db' = deletable_row db" "retryable_row db' = retryable_row db"
    "claimable db' = claimable db" "held_row db' = held_row db" "lease_over db' = lease_over db"
    "to_requeue db' = to_requeue db" "to_timeout db' = to_timeout db"
  using assms by (intro ext; simp add: waiting_row_def active_row_def deletable_row_def
      retryable_row_def claimable_def held_row_def lease_over_def to_requeue_def to_timeout_def
      text_in_def text_eq_def split: option.split)+

end
