(* ===== verification/Image_Repo_Correct.thy ===== *)
theory Image_Repo_Correct
  imports Image_Repo_Facts
begin

text \<open>
  The correctness of the task repository, as properties of its operations: the table invariant,
  exclusive claiming, fenced completion, cancellation, lease expiry, retry budget, paging.
\<close>

section \<open>A table to evaluate on\<close>

definition demo_row :: "int \<Rightarrow> int \<Rightarrow> task_status \<Rightarrow> image_row" where
  "demo_row i u st = (image_values (i * ns) i (default_image\<lparr>img_user_id := u, img_status := st\<rparr>))
     \<lparr>ir_worker_id := None\<rparr>"

definition demo_db :: "image_row list \<Rightarrow> image_db" where
  "demo_db rs = \<lparr>cfg_host = ''db'', cfg_database = ''app'', table_ready = True, table_exists = True,
     columns = allColumns, indexes = allIndexes, rows = rs, next_id = 100, collation = (\<lambda>s. s),
     count_matched = False, faults = []\<rparr>"

lemma demo_row_sel [simp]:
  "ir_id (demo_row i u st) = i" "ir_user_id (demo_row i u st) = u"
  "row_status (demo_row i u st) = st" "ir_status (demo_row i u st) = Some (statusToString st)"
  "ir_retry_count (demo_row i u st) = 0" "ir_max_retries (demo_row i u st) = 3"
  "ir_worker_id (demo_row i u st) = None" "ir_lease_expires_at (demo_row i u st) = None"
  "ir_created_at (demo_row i u st) = Some i"
  by (simp_all add: demo_row_def row_status_def getStringOrEmpty_def image_values_def default_image_def
      optionalTimeToValue_def time_t_of_def ns_def)

lemma wf_collation_id [simp]: "wf_collation (\<lambda>s. s)"
  by (simp add: wf_collation_def inj_def)

lemma demo_db_sel [simp]:
  "rows (demo_db rs) = rs" "collation (demo_db rs) = (\<lambda>s. s)" "faults (demo_db rs) = []"
  "table_ready (demo_db rs)" "quiet (demo_db rs)" "next_id (demo_db rs) = 100"
  "count_matched (demo_db rs) = False"
  by (simp_all add: demo_db_def quiet_def)

lemma wf_demo_row [simp]: "0 \<le> u \<Longrightarrow> wf_row (demo_row i u st)"
  by (simp add: wf_row_def)

lemma wf_demo_db: "distinct (map ir_id rs) \<Longrightarrow>
    \<forall>r\<in>set rs. 1 \<le> ir_id r \<and> ir_id r < 100 \<and> wf_row r \<Longrightarrow> wf_db (demo_db rs)"
  by (simp add: wf_db_def)

section \<open>Claiming\<close>

lemma select_where_InrD:
  "select_where p db = (Inr rs, db') \<Longrightarrow> \<exists>fs. db' = with_faults db fs \<and> rs = filter (p (with_faults db fs)) (rows db)"
  unfolding select_where_def by (drule exec_InrD) (auto simp: sql_select_def)

lemma fetch_one_InrD: "fetch_one now rs db = (Inr (Some img), db') \<Longrightarrow>
    db' = db \<and> rs \<noteq> [] \<and> rowToImageGeneration now (hd rs) = Inr img"
  by (auto simp: fetch_one_def split: list.splits sum.splits)

text \<open>What a successful claim of a task leaves behind.\<close>

lemma claimTaskById_SomeD:
  assumes "wf_db db" "table_ready db"
    and "claimTaskById now i w l db = (Inr (Some img), db')"
  obtains r where "r \<in> set (rows db)" "ir_id r = i" "row_status r \<in> {Queued, Pending}"
    "rows db' = map (\<lambda>q. if ir_id q = i then set_claimed w (time_t_of now)
       (time_t_of (expires_at now l)) q else q) (rows db)"
    "rowToImageGeneration now (set_claimed w (time_t_of now) (time_t_of (expires_at now l)) r) = Inr img"
    "table_ready db'" "collation db' = collation db" "wf_db db'"
proof -
  let ?n = "time_t_of now" and ?e = "time_t_of (expires_at now l)"
  from assms(2,3) obtain k db1 rs where ex: "exec (stmt_claim_by_id i w ?n ?e) db = (Inr k, db1)"
    and k: "k \<noteq> 0" and sel: "select_where (\<lambda>db r. ir_id r = i \<and> text_eq db (ir_worker_id r) w \<and>
        text_eq db (ir_status r) ''generating'') db1 = (Inr rs, db')"
    and f: "rs \<noteq> []" "rowToImageGeneration now (hd rs) = Inr img"
    by (auto simp: claimTaskById_def repoInvoke_ready Let_def dest!: repo_bind_InrD fetch_one_InrD
        split: if_splits) (auto simp: bindp_def repoInvoke_def split: prod.splits sum.splits dest!: fetch_one_InrD)
  obtain fs where u: "(k, db1) = sql_update (\<lambda>r. ir_id r = i \<and> waiting_row db r) (set_claimed w ?n ?e)
      (with_faults db fs)"
    using exec_InrD [OF ex] unfolding stmt_claim_by_id_def guards_with_faults by metis
  then have kk: "k = fst (sql_update (\<lambda>r. ir_id r = i \<and> waiting_row db r) (set_claimed w ?n ?e) (with_faults db fs))"
    and db1: "db1 = snd (sql_update (\<lambda>r. ir_id r = i \<and> waiting_row db r) (set_claimed w ?n ?e) (with_faults db fs))"
    by (metis fst_conv, metis snd_conv)
  obtain r where r: "r \<in> set (rows db)" "ir_id r = i" "waiting_row db r"
    using k kk fst_sql_update_pos [of "\<lambda>r. ir_id r = i \<and> waiting_row db r" "set_claimed w ?n ?e"
        "with_faults db fs"] by auto
  have uniq: "q = r" if "q \<in> set (rows db)" "ir_id q = i" for q
    using unique_row [OF assms(1) r(1) that(1)] that(2) r(2) by simp
  have rows1: "rows db1 = map (\<lambda>q. if ir_id q = i then set_claimed w ?n ?e q else q) (rows db)"
    unfolding db1 using uniq r(3) by (auto simp: sql_update_sel)
  obtain fs' where s: "db' = with_faults db1 fs'" and rs_eq: "rs = filter (\<lambda>r. ir_id r = i \<and>
      text_eq (with_faults db1 fs') (ir_worker_id r) w \<and>
      text_eq (with_faults db1 fs') (ir_status r) ''generating'') (rows db1)"
    using select_where_InrD [OF sel] by blast
  then have rs: "set rs \<subseteq> set (rows db1)" and rs_id: "\<forall>q\<in>set rs. ir_id q = i" by simp_all
  have "hd rs \<in> set rs" using f(1) by simp
  then have "hd rs \<in> set (rows db1)" "ir_id (hd rs) = i" using rs rs_id by auto
  then obtain q where "q \<in> set (rows db)" "ir_id q = i" "hd rs = set_claimed w ?n ?e q"
    unfolding rows1 mem_map_upd by blast
  then have "hd rs = set_claimed w ?n ?e r" using uniq by blast
  moreover have "row_status r \<in> {Queued, Pending}"
    using sql_guards(1) [OF assms(1) wf_rowD [OF assms(1) r(1)]] r(3) by simp
  moreover have "wf_db db1"
    unfolding db1 by (rule wf_db_update) (use assms(1) in auto)
  ultimately show ?thesis
    using that [OF r(1,2)] f(2) rows1 assms(2) unfolding s by (simp add: db1)
qed

lemma guarded_none:
  assumes "wf_db db" "table_ready db" "\<forall>r\<in>set (rows db). ir_id r = i \<longrightarrow> \<not> waiting_row db r"
    and "claimTaskById now i w l db = (Inr x, db')"
  shows "x = None \<and> rows db' = rows db"
proof -
  from assms(2,4) obtain k db1 where ex: "exec (stmt_claim_by_id i w (time_t_of now)
      (time_t_of (expires_at now l))) db = (Inr k, db1)"
    and n: "(if k = 0 then x = None \<and> db' = db1 else True)"
    by (auto simp: claimTaskById_def repoInvoke_ready Let_def dest!: repo_bind_InrD split: if_splits)
  obtain fs where u: "sql_update (\<lambda>r. ir_id r = i \<and> waiting_row db r)
      (set_claimed w (time_t_of now) (time_t_of (expires_at now l))) (with_faults db fs) = (k, db1)"
    using exec_InrD [OF ex] by (auto simp: stmt_claim_by_id_def)
  have "\<not> fst (sql_update (\<lambda>r. ir_id r = i \<and> waiting_row db r)
      (set_claimed w (time_t_of now) (time_t_of (expires_at now l))) (with_faults db fs)) > 0"
    unfolding fst_sql_update_pos using assms(3) by auto
  then have "k = 0" using u by simp
  moreover have "rows db1 = rows db"
    using u sql_update_zero [of _ _ "with_faults db fs"] \<open>k = 0\<close> by (metis fst_conv snd_conv with_faults_sel(1))
  ultimately show ?thesis using n by simp
qed

lemma exec_quiet_bind: "quiet db \<Longrightarrow> bindp (exec f) k db = k (fst (f db)) (snd (f db))"
  by (simp add: bindp_def exec_quiet)

lemma quiet_bind: "quiet db \<Longrightarrow> repoInvoke (bindp ensureTable (\<lambda>_. bindp (exec f) k)) db =
    repoInvoke (k (fst (f db))) (snd (f db))"
  by (simp add: repoInvoke_ready) (simp add: repoInvoke_def exec_quiet_bind)

lemma quiet_select: "quiet db \<Longrightarrow> bindp (select_where p) k db = k (filter (p db) (rows db)) db"
  by (simp add: select_where_def exec_quiet_bind sql_select_def)

text \<open>A claim of a waiting task succeeds when no statement fails.\<close>

lemma claimTaskById_waiting:
  assumes "wf_db db" "quiet db" "r \<in> set (rows db)" "ir_id r = i" "row_status r \<in> {Queued, Pending}"
  shows "claimTaskById now i w l db =
     (Inr (Some (image_of now (set_claimed w (time_t_of now) (time_t_of (expires_at now l)) r))),
      snd (stmt_claim_by_id i w (time_t_of now) (time_t_of (expires_at now l)) db))"
proof -
  let ?c = "set_claimed w (time_t_of now) (time_t_of (expires_at now l))"
  let ?st = "stmt_claim_by_id i w (time_t_of now) (time_t_of (expires_at now l))"
  note g = sql_guards [OF assms(1) wf_rowD [OF assms(1,3)]]
  have w: "waiting_row db r" using g(1) assms(5) by simp
  have "row_status (?c r) \<noteq> row_status r" using assms(5) by auto
  then have ne: "?c r \<noteq> r" by metis
  have pos: "fst (?st db) \<noteq> 0"
    using fst_sql_update_pos [of "\<lambda>r. ir_id r = i \<and> waiting_row db r" ?c db] assms(3,4) w ne
    by (auto simp: stmt_claim_by_id_def)
  have q: "quiet (snd (?st db))" using assms(2) by (simp add: stmt_claim_by_id_def)
  have wf: "wf_db (snd (?st db))"
    unfolding stmt_claim_by_id_def by (rule wf_db_update [OF assms(1)]) simp
  have mem: "?c r \<in> set (rows (snd (?st db)))"
    unfolding stmt_claim_by_id_def sql_update_sel mem_map_upd using assms(3,4) w by blast
  have sel: "filter (\<lambda>r. ir_id r = i \<and> text_eq (snd (?st db)) (ir_worker_id r) w \<and>
      text_eq (snd (?st db)) (ir_status r) ''generating'') (rows (snd (?st db))) = [?c r]"
    by (rule filter_unique_id) (use wf mem assms(4) in \<open>simp_all add: wf_db_def text_eq_def\<close>)
  have "fetch_one now [?c r] s = (Inr (Some (image_of now (?c r))), s)" for s :: image_db
    using wf_rows_id [OF assms(1,3)] by (simp add: fetch_one_def row_readable)
  then have "bindp (select_where (\<lambda>db r. ir_id r = i \<and> text_eq db (ir_worker_id r) w \<and>
      text_eq db (ir_status r) ''generating'')) (fetch_one now) (snd (?st db)) =
      (Inr (Some (image_of now (?c r))), snd (?st db))"
    by (simp only: quiet_select [OF q] sel)
  with pos show ?thesis
    by (simp add: claimTaskById_def Let_def quiet_bind [OF assms(2)])
qed

text \<open>
  C1: a task is claimed by one worker only. Whenever a claim of a task returns
  it, the task was waiting, it is now generating and held by the claiming worker with the lease
  the claim computed, every other row is as before, and no later claim of the same task, by any
  worker, returns it again. Statements of either claim may fail or lose their reply.
\<close>

theorem claim_is_exclusive:
  assumes "wf_db db" "table_ready db"
    and "claimTaskById now i w l db = (Inr (Some img), db')"
  shows "(\<exists>r\<in>set (rows db). ir_id r = i \<and> row_status r \<in> {Queued, Pending}) \<and>
     img_status img = Generating \<and> img_worker_id img = w \<and>
     (\<forall>q. ir_id q \<noteq> i \<longrightarrow> q \<in> set (rows db') \<longleftrightarrow> q \<in> set (rows db)) \<and>
     (\<forall>r\<in>set (rows db'). ir_id r = i \<longrightarrow> row_status r = Generating \<and> ir_worker_id r = Some w \<and>
        ir_lease_expires_at r = Some (time_t_of (expires_at now l))) \<and>
     (\<forall>now' w' l' img'. fst (claimTaskById now' i w' l' db') \<noteq> Inr (Some img'))"
proof -
  obtain r where r: "r \<in> set (rows db)" "ir_id r = i" "row_status r \<in> {Queued, Pending}"
    and rows': "rows db' = map (\<lambda>q. if ir_id q = i then set_claimed w (time_t_of now)
       (time_t_of (expires_at now l)) q else q) (rows db)"
    and img: "rowToImageGeneration now (set_claimed w (time_t_of now) (time_t_of (expires_at now l)) r) = Inr img"
    and st: "table_ready db'" "collation db' = collation db" "wf_db db'"
    using claimTaskById_SomeD [OF assms] .
  have held: "\<forall>r\<in>set (rows db'). ir_id r = i \<longrightarrow> row_status r = Generating \<and> ir_worker_id r = Some w \<and>
        ir_lease_expires_at r = Some (time_t_of (expires_at now l))"
  proof (intro ballI impI)
    fix q assume "q \<in> set (rows db')" "ir_id q = i"
    then obtain p where "q = set_claimed w (time_t_of now) (time_t_of (expires_at now l)) p"
      unfolding rows' mem_map_upd by blast
    then show "row_status q = Generating \<and> ir_worker_id q = Some w \<and>
        ir_lease_expires_at q = Some (time_t_of (expires_at now l))" by simp
  qed
  have nw: "\<forall>q\<in>set (rows db'). ir_id q = i \<longrightarrow> \<not> waiting_row db' q"
    using sql_guards(1) [OF st(3) wf_rowD [OF st(3)]] held by simp
  have none: "fst (claimTaskById now' i w' l' db') \<noteq> Inr (Some img')" for now' w' l' img'
    using guarded_none [OF st(3,1) nw, of now' w' l']
    by (metis option.distinct(1) prod.collapse)
  have "(\<forall>q. ir_id q \<noteq> i \<longrightarrow> q \<in> set (rows db') \<longleftrightarrow> q \<in> set (rows db))"
    unfolding rows' mem_map_upd by (metis setter_keys(1))
  moreover have "img_status img = Generating" "img_worker_id img = w"
    using row_image_sel(3,4) [OF img] by (simp_all add: getStringOrEmpty_def)
  ultimately show ?thesis using r(1-3) held none by blast
qed

theorem claim_is_exclusive_witness:
  "let db = demo_db [demo_row 1 5 Queued, demo_row 2 6 Success];
       (res, db') = claimTaskById 1000000000 1 ''w'' 60 db
   in (\<exists>img. res = Inr (Some img) \<and> img_status img = Generating \<and> img_worker_id img = ''w'') \<and>
      (\<forall>now' w' l' img'. fst (claimTaskById now' 1 w' l' db') \<noteq> Inr (Some img'))"
proof -
  let ?db = "demo_db [demo_row 1 5 Queued, demo_row 2 6 Success]"
  have wf: "wf_db ?db" by (rule wf_demo_db) simp_all
  obtain img db' where c: "claimTaskById 1000000000 1 ''w'' 60 ?db = (Inr (Some img), db')"
    using claimTaskById_waiting [OF wf _ _, of "demo_row 1 5 Queued" 1] by simp
  show ?thesis using claim_is_exclusive [OF wf _ c] c by simp
qed

section \<open>The invariant and settled rows\<close>

text \<open>
  C23: whatever sequence of repository operations runs, with whatever statements
  failing or losing their reply, the identifiers of the table stay unique and below the next
  one, and every row keeps a status text that the code can read.
\<close>

theorem repo_keeps_table:
  assumes "wf_db db" "\<forall>op\<in>set ops. wf_op op"
  shows "wf_db (run_ops ops db)"
  using assms by (intro wf_run_ops)

theorem repo_keeps_table_witness:
  "wf_db (run_ops [OpClaimNext 5 ''w'' 0, OpInsert 7 default_image, OpCancel 9 1 5]
     (demo_db [demo_row 1 5 Queued]\<lparr>faults := [Runs, ReplyLost ForeignExn]\<rparr>))"
proof -
  have "wf_db (demo_db [demo_row 1 5 Queued]\<lparr>faults := [Runs, ReplyLost ForeignExn]\<rparr>)"
    by (simp add: wf_db_def)
  then show ?thesis by (rule repo_keeps_table) (simp add: default_image_def)
qed

text \<open>
  C7: a task that has ended keeps every column. Only its owner's delete,
  its owner's retry within the budget (never for a success) and the unguarded
  \<open>updateStatusAndError\<close> reach it; claims, completions, deferrals, cancellations and lease
  expiries of any worker leave it as it is, in any order and with any failures.
\<close>

theorem terminal_task_is_settled:
  assumes "wf_db db" "r \<in> set (rows db)" "isTerminal (row_status r)"
    and "\<forall>op\<in>set ops. wf_op op \<and> \<not> reopens op r"
  shows "r \<in> set (rows (run_ops ops db))"
  using run_ops_settled [of r db ops] assms by (simp add: settled_in_def)

theorem terminal_task_is_settled_witness:
  "let ops = [OpCancel 9 2 6, OpClaimNext 5 ''w'' 0, OpExpireReport 1 2, OpRetry 4 2 6];
       db = demo_db [demo_row 1 5 Queued, demo_row 2 6 Success]
   in demo_row 2 6 Success \<in> set (rows (run_ops ops db))"
proof -
  let ?db = "demo_db [demo_row 1 5 Queued, demo_row 2 6 Success]"
  have wf: "wf_db ?db" by (rule wf_demo_db) simp_all
  show ?thesis
    unfolding Let_def
    by (rule terminal_task_is_settled [OF wf]) (simp_all add: canRetry_def)
qed

text \<open>
  The status lists written in the SQL of claim, cancel, delete and retry are
  the guards that \<open>task_status.h\<close> defines and the service checks beforehand.
\<close>

theorem sql_guards_agree:
  assumes "wf_db db" "r \<in> set (rows db)"
  shows "(waiting_row db r \<longleftrightarrow> row_status r \<in> {Pending, Queued}) \<and>
     (active_row db r \<longleftrightarrow> canCancel (row_status r)) \<and>
     (deletable_row db r \<longleftrightarrow> canDelete (row_status r)) \<and>
     (retryable_row db r \<longleftrightarrow> canRetry (row_status r) (ir_retry_count r) (ir_max_retries r))"
  using sql_guards [OF assms(1) wf_rowD [OF assms]] by auto

theorem sql_guards_agree_witness:
  "retryable_row (demo_db [demo_row 3 6 Failed]) (demo_row 3 6 Failed) \<and>
   \<not> waiting_row (demo_db [demo_row 3 6 Failed]) (demo_row 3 6 Failed)"
proof -
  have wf: "wf_db (demo_db [demo_row 3 6 Failed])" by (rule wf_demo_db) simp_all
  show ?thesis using sql_guards_agree [OF wf, of "demo_row 3 6 Failed"] by (simp add: canRetry_def)
qed

section \<open>Completion\<close>

lemma held_not_fixed: "held_row db i u w r \<Longrightarrow> set_finished g r \<noteq> r"
proof
  assume "held_row db i u w r" "set_finished g r = r"
  then have "ir_worker_id r = None" by (metis setter_lease(3))
  with \<open>held_row db i u w r\<close> show False by (simp add: held_row_def text_eq_def)
qed

lemma finishClaimedTask_outcome:
  assumes "table_ready db" "finishClaimedTask g db = (Inr b, db')"
  defines "p \<equiv> held_row db (img_id g) (img_user_id g) (img_worker_id g)"
  shows "b \<longleftrightarrow> (\<exists>r\<in>set (rows db). p r)"
    and "rows db' = map (\<lambda>r. if p r then set_finished g r else r) (rows db)"
    and "table_ready db'" "collation db' = collation db"
proof -
  obtain fs where db': "snd (stmt_finish g (with_faults db fs)) = db'"
    and b: "b = (0 < fst (stmt_finish g (with_faults db fs)))"
    using guarded_update_InrD [OF assms(1), of "stmt_finish g" "\<lambda>n. 0 < n" b db'] assms(2)
    unfolding finishClaimedTask_def by blast
  show "b \<longleftrightarrow> (\<exists>r\<in>set (rows db). p r)"
    unfolding b stmt_finish_def fst_sql_update_pos guards_with_faults with_faults_sel p_def [symmetric]
    using held_not_fixed unfolding p_def by blast
  show "rows db' = map (\<lambda>r. if p r then set_finished g r else r) (rows db)"
    "table_ready db'" "collation db' = collation db"
    unfolding db' [symmetric] stmt_finish_def guards_with_faults p_def using assms(1) by simp_all
qed

text \<open>
  C2: the completion of a task reaches the row only while the task is generating
  and held by the worker that reports; it answers true exactly in that case. Afterwards nobody
  holds the task, so a second completion that is still on its way, by the same or by another
  worker, answers false and changes nothing.
\<close>

theorem finish_is_fenced:
  assumes "wf_db db" "table_ready db" "finishClaimedTask g db = (Inr b, db')"
    and "img_status g \<noteq> Generating"
  shows "(b \<longleftrightarrow> (\<exists>r\<in>set (rows db). ir_id r = img_id g \<and> ir_user_id r = img_user_id g \<and>
       row_status r = Generating \<and> text_eq db (ir_worker_id r) (img_worker_id g))) \<and>
     (\<not> b \<longrightarrow> rows db' = rows db) \<and>
     (\<forall>r'\<in>set (rows db'). ir_id r' \<noteq> img_id g \<longrightarrow> r' \<in> set (rows db)) \<and>
     (b \<longrightarrow> (\<forall>g' b' db''. img_id g' = img_id g \<and> finishClaimedTask g' db' = (Inr b', db'') \<longrightarrow>
        \<not> b' \<and> rows db'' = rows db'))"
proof -
  let ?p = "held_row db (img_id g) (img_user_id g) (img_worker_id g)"
  note o = finishClaimedTask_outcome [OF assms(2,3)]
  have p: "?p r \<longleftrightarrow> ir_id r = img_id g \<and> ir_user_id r = img_user_id g \<and> row_status r = Generating \<and>
      text_eq db (ir_worker_id r) (img_worker_id g)" if "r \<in> set (rows db)" for r
    using sql_guards(5) [OF assms(1) wf_rowD [OF assms(1) that]]
    by (auto simp: held_row_def by_id_and_user_def)
  have nb: "rows db' = rows db" if "\<not> b"
    unfolding o(2) using that o(1) by (intro map_idI) auto
  have wf': "wf_db db'"
    using wf_run_op [of "OpFinish g" db] assms(1,3) by simp
  have other: "r' \<in> set (rows db)" if "r' \<in> set (rows db')" "ir_id r' \<noteq> img_id g" for r'
    using that unfolding o(2) mem_map_upd
    by (metis (no_types, lifting) by_id_and_user_def held_row_def setter_keys(3))
  have "\<not> b' \<and> rows db'' = rows db'"
    if bt: "b" and gi: "img_id g' = img_id g" and f': "finishClaimedTask g' db' = (Inr b', db'')"
    for g' b' db''
  proof -
    note o' = finishClaimedTask_outcome [OF o(3) f']
    obtain r where r: "r \<in> set (rows db)" "?p r" using bt o(1) by blast
    then have "set_finished g r \<in> set (rows db')" unfolding o(2) mem_map_upd by blast
    moreover have "ir_id (set_finished g r) = img_id g" using r by (simp add: p)
    ultimately have "row_status q \<noteq> Generating" if "q \<in> set (rows db')" "ir_id q = img_id g" for q
      using unique_row [OF wf' that(1), of "set_finished g r"] that(2) assms(4) by auto
    then have "\<not> held_row db' (img_id g') (img_user_id g') (img_worker_id g') q"
      if "q \<in> set (rows db')" for q
      using sql_guards(5) [OF wf' wf_rowD [OF wf' that]] that gi
      by (auto simp: held_row_def by_id_and_user_def)
    then show ?thesis using o'(1,2) by (auto intro!: map_idI)
  qed
  with o(1) p nb other show ?thesis by blast
qed

theorem finish_is_fenced_witness:
  "let db = demo_db [set_claimed ''w'' 5 65 (demo_row 1 5 Queued)];
       g = default_image\<lparr>img_id := 1, img_user_id := 5, img_worker_id := ''w'', img_status := Success\<rparr>;
       (res, db') = finishClaimedTask g db
   in res = Inr True \<and> fst (finishClaimedTask g db') \<noteq> Inr True"
proof -
  let ?db = "demo_db [set_claimed ''w'' 5 65 (demo_row 1 5 Queued)]"
  let ?g = "default_image\<lparr>img_id := 1, img_user_id := 5, img_worker_id := ''w'', img_status := Success\<rparr>"
  have wf: "wf_db ?db" by (rule wf_demo_db) simp_all
  obtain b db' where c: "finishClaimedTask ?g ?db = (Inr b, db')"
    unfolding finishClaimedTask_def by (simp add: quiet_bind)
  have ns: "img_status ?g \<noteq> Generating" by simp
  note f = finish_is_fenced [OF wf demo_db_sel(4) c ns]
  have b: "b" using conjunct1 [OF f] by (simp add: text_eq_def)
  have "\<not> b' \<and> rows db'' = rows db'" if "finishClaimedTask ?g db' = (Inr b', db'')" for b' db''
    using f b that by blast
  then have "fst (finishClaimedTask ?g db') \<noteq> Inr True"
    by (cases "finishClaimedTask ?g db'") auto
  then show ?thesis using b c by simp
qed

section \<open>Cancellation\<close>

text \<open>Operations on a held row do nothing to a task that is not generating.\<close>

definition not_held :: "image_db \<Rightarrow> image_row list \<Rightarrow> int \<Rightarrow> bool" where
  "not_held db rs i \<longleftrightarrow> wf_db db \<and> rows db = rs \<and> (\<forall>r\<in>set rs. ir_id r = i \<longrightarrow> row_status r \<noteq> Generating)"

lemma table_pred_not_held: "table_pred (\<lambda>db. not_held db rs i)"
  using table_pred_wf_db by (auto simp: table_pred_def not_held_def)

lemma not_held_row: "not_held db rs i \<Longrightarrow> r \<in> set rs \<Longrightarrow> \<not> held_row db i u w r"
  using sql_guards(5) wf_rowD by (fastforce simp: not_held_def held_row_def by_id_and_user_def)

lemma update_nothing: "\<forall>r\<in>set (rows db). \<not> p r \<Longrightarrow> rows (snd (sql_update p f db)) = rows db \<and>
    fst (sql_update p f db) = 0"
  by (auto simp: sql_update_def filter_empty_conv intro: map_idI)

lemma not_held_ops:
  assumes "not_held db rs i" "op \<in> {OpFinish g, OpDefer i u w c m, OpRenew now i u w l}" "img_id g = i"
  shows "rows (run_op op db) = rs"
proof -
  have "not_held (run_op op db) rs i"
  proof (rule run_op_keeps [OF table_pred_not_held assms(1)])
    fix f db' assume w: "op_write op f" and n: "not_held db' rs i"
    have "rows (snd (f db')) = rows db'"
      using w assms(2,3) not_held_row [OF n] n
      by cases (auto simp del: sql_update_sel simp: stmt_finish_def stmt_defer_def stmt_renew_def
          update_nothing not_held_def)
    then show "not_held (snd (f db')) rs i"
      using n op_write_wf [OF w] by (simp add: not_held_def)
  qed (use assms(2) in auto)
  then show ?thesis by (simp add: not_held_def)
qed

lemma not_held_results:
  assumes "not_held db rs i" "table_ready db"
  shows "img_id g = i \<Longrightarrow> fst (finishClaimedTask g db) \<noteq> Inr True"
    and "fst (deferClaimedTaskForModelHealth i u w c m db) \<noteq> Inr True"
    and "fst (renewLease now i u w l db) \<noteq> Inr True"
proof -
  have no: "\<not> 0 < fst (sql_update (held_row db i u w) f (with_faults db fs))" for f u w fs
    using not_held_row [OF assms(1)] assms(1) by (auto simp: fst_sql_update_pos not_held_def)
  show "fst (finishClaimedTask g db) \<noteq> Inr True" if "img_id g = i"
    using guarded_update_InrD [OF assms(2), of "stmt_finish g" "\<lambda>n. 0 < n" True] no that
    by (cases "finishClaimedTask g db") (auto simp: finishClaimedTask_def stmt_finish_def)
  show "fst (deferClaimedTaskForModelHealth i u w c m db) \<noteq> Inr True"
    using guarded_update_InrD [OF assms(2), of "stmt_defer i u w c m" "\<lambda>n. 0 < n" True] no
    by (cases "deferClaimedTaskForModelHealth i u w c m db")
      (auto simp: deferClaimedTaskForModelHealth_def stmt_defer_def)
  show "fst (renewLease now i u w l db) \<noteq> Inr True"
    using guarded_update_InrD [OF assms(2), of "stmt_renew i u w (time_t_of (expires_at now l))"
        "\<lambda>n. 0 < n" True] no
    by (cases "renewLease now i u w l db") (auto simp: renewLease_def stmt_renew_def)
qed

lemma cancelByIdAndUserId_SomeD:
  assumes "wf_db db" "table_ready db" "cancelByIdAndUserId now i u db = (Inr (Some img), db')"
  obtains r where "r \<in> set (rows db)" "ir_id r = i" "ir_user_id r = u" "canCancel (row_status r)"
    "rows db' = map (\<lambda>q. if ir_id q = i then set_cancelled (time_t_of now) q else q) (rows db)"
    "rowToImageGeneration now (set_cancelled (time_t_of now) r) = Inr img"
    "table_ready db'" "collation db' = collation db" "wf_db db'"
proof -
  let ?t = "time_t_of now" and ?p = "\<lambda>r. by_id_and_user i u r \<and> active_row db r"
  from assms(2,3) obtain k db1 rs where ex: "exec (stmt_cancel i u ?t) db = (Inr k, db1)" and k: "k \<noteq> 0"
    and sel: "select_where (\<lambda>_. by_id_and_user i u) db1 = (Inr rs, db')"
    and f: "rs \<noteq> []" "rowToImageGeneration now (hd rs) = Inr img"
    by (auto simp: cancelByIdAndUserId_def repoInvoke_ready Let_def dest!: repo_bind_InrD fetch_one_InrD
        split: if_splits) (auto simp: bindp_def repoInvoke_def read_back_def split: prod.splits sum.splits if_splits
        dest!: fetch_one_InrD)
  obtain fs where u: "(k, db1) = sql_update ?p (set_cancelled ?t) (with_faults db fs)"
    using exec_InrD [OF ex] unfolding stmt_cancel_def guards_with_faults by metis
  then have kk: "k = fst (sql_update ?p (set_cancelled ?t) (with_faults db fs))"
    and db1: "db1 = snd (sql_update ?p (set_cancelled ?t) (with_faults db fs))"
    by (metis fst_conv, metis snd_conv)
  obtain r where r: "r \<in> set (rows db)" "ir_id r = i" "ir_user_id r = u" "active_row db r"
    using k kk fst_sql_update_pos [of ?p "set_cancelled ?t" "with_faults db fs"]
    by (auto simp: by_id_and_user_def)
  have uniq: "q = r" if "q \<in> set (rows db)" "ir_id q = i" for q
    using unique_row [OF assms(1) r(1) that(1)] that(2) r(2) by simp
  have rows1: "rows db1 = map (\<lambda>q. if ir_id q = i then set_cancelled ?t q else q) (rows db)"
    unfolding db1 using uniq r(3,4) by (auto simp: sql_update_sel by_id_and_user_def)
  obtain fs' where s: "db' = with_faults db1 fs'" and rs: "rs = filter (by_id_and_user i u) (rows db1)"
    using select_where_InrD [OF sel] by blast
  have "hd rs \<in> set (rows db1)" "ir_id (hd rs) = i"
    using f(1) rs hd_in_set [of rs] by (auto simp: by_id_and_user_def)
  then obtain q where "q \<in> set (rows db)" "ir_id q = i" "hd rs = set_cancelled ?t q"
    unfolding rows1 mem_map_upd by blast
  then have "hd rs = set_cancelled ?t r" using uniq by blast
  moreover have "canCancel (row_status r)"
    using sql_guards(2) [OF assms(1) wf_rowD [OF assms(1) r(1)]] r(4) by simp
  moreover have "wf_db db1"
    unfolding db1 by (rule wf_db_update) (use assms(1) in auto)
  ultimately show ?thesis
    using that [OF r(1-3)] f(2) rows1 assms(2) unfolding s by (simp add: db1)
qed

text \<open>
  C8: a cancellation that answers with the task has found it active and owned by the
  caller, and it is final for the worker: the completion, the deferral and the lease renewal that
  a worker still holding the task sends afterwards all fail and leave the table as it is, so the
  cancelled status is not overwritten by a late result.
\<close>

theorem cancel_wins:
  assumes "wf_db db" "table_ready db" "cancelByIdAndUserId now i u db = (Inr (Some img), db')"
  shows "img_status img = Cancelled \<and>
     (\<exists>r\<in>set (rows db). ir_id r = i \<and> ir_user_id r = u \<and> canCancel (row_status r)) \<and>
     (\<forall>g. img_id g = i \<longrightarrow> fst (finishClaimedTask g db') \<noteq> Inr True \<and>
        rows (snd (finishClaimedTask g db')) = rows db') \<and>
     (\<forall>u' w c m. fst (deferClaimedTaskForModelHealth i u' w c m db') \<noteq> Inr True \<and>
        rows (snd (deferClaimedTaskForModelHealth i u' w c m db')) = rows db') \<and>
     (\<forall>now' u' w l. fst (renewLease now' i u' w l db') \<noteq> Inr True \<and>
        rows (snd (renewLease now' i u' w l db')) = rows db')"
proof -
  obtain r where r: "r \<in> set (rows db)" "ir_id r = i" "ir_user_id r = u" "canCancel (row_status r)"
    and rows': "rows db' = map (\<lambda>q. if ir_id q = i then set_cancelled (time_t_of now) q else q) (rows db)"
    and img: "rowToImageGeneration now (set_cancelled (time_t_of now) r) = Inr img"
    and st: "table_ready db'" "collation db' = collation db" "wf_db db'"
    using cancelByIdAndUserId_SomeD [OF assms] .
  have "row_status q = Cancelled" if q: "q \<in> set (rows db')" "ir_id q = i" for q
  proof -
    obtain p where "q = set_cancelled (time_t_of now) p"
      using q unfolding rows' mem_map_upd by blast
    then show ?thesis by simp
  qed
  then have n: "not_held db' (rows db') i" using st(3) by (auto simp: not_held_def)
  have "rows (snd (finishClaimedTask g db')) = rows db'" if "img_id g = i" for g
    using not_held_ops [OF n, of "OpFinish g" g] that by simp
  moreover have "rows (snd (deferClaimedTaskForModelHealth i u' w c m db')) = rows db'" for u' w c m
    using not_held_ops [OF n, of "OpDefer i u' w c m" "default_image\<lparr>img_id := i\<rparr>" u' w c m] by simp
  moreover have "rows (snd (renewLease now' i u' w l db')) = rows db'" for now' u' w l
    using not_held_ops [OF n, of "OpRenew now' i u' w l" "default_image\<lparr>img_id := i\<rparr>" u' w _ _ now' l] by simp
  moreover have "img_status img = Cancelled" using row_image_sel(3) [OF img] by simp
  ultimately show ?thesis
    using r not_held_results [OF n st(1)] by blast
qed

lemma cancelByIdAndUserId_active:
  assumes "wf_db db" "quiet db" "r \<in> set (rows db)" "ir_id r = i" "ir_user_id r = u"
    "canCancel (row_status r)"
  shows "cancelByIdAndUserId now i u db =
     (Inr (Some (image_of now (set_cancelled (time_t_of now) r))),
      snd (stmt_cancel i u (time_t_of now) db))"
proof -
  let ?c = "set_cancelled (time_t_of now)" and ?st = "stmt_cancel i u (time_t_of now)"
  have a: "active_row db r" using sql_guards(2) [OF assms(1) wf_rowD [OF assms(1,3)]] assms(6) by simp
  have "row_status (?c r) \<noteq> row_status r" using assms(6) by auto
  then have ne: "?c r \<noteq> r" by metis
  have pos: "fst (?st db) \<noteq> 0"
    using fst_sql_update_pos [of "\<lambda>r. by_id_and_user i u r \<and> active_row db r" ?c db] assms(3-5) a ne
    by (auto simp: stmt_cancel_def by_id_and_user_def)
  have q: "quiet (snd (?st db))" using assms(2) by (simp add: stmt_cancel_def)
  have wf: "wf_db (snd (?st db))"
    unfolding stmt_cancel_def by (rule wf_db_update [OF assms(1)]) simp
  have mem: "?c r \<in> set (rows (snd (?st db)))"
    unfolding stmt_cancel_def sql_update_sel mem_map_upd by_id_and_user_def using assms(3-5) a by blast
  have sel: "filter (by_id_and_user i u) (rows (snd (?st db))) = [?c r]"
  proof (rule filter_unique_id)
    show "distinct (map ir_id (rows (snd (?st db))))" using wf by (simp only: wf_db_def)
    show "?c r \<in> set (rows (snd (?st db)))" by (rule mem)
    show "by_id_and_user i u (?c r)" using assms(4,5) by (simp add: by_id_and_user_def)
    show "ir_id q = ir_id (?c r)" if "by_id_and_user i u q" for q
      using that assms(4) by (simp add: by_id_and_user_def)
  qed
  have "fetch_one now [?c r] s = (Inr (Some (image_of now (?c r))), s)" for s :: image_db
    using wf_rows_id [OF assms(1,3)] by (simp add: fetch_one_def row_readable)
  then have "read_back ''cancelByIdAndUserId'' now i u (snd (?st db)) =
      (Inr (Some (image_of now (?c r))), snd (?st db))"
    by (simp add: read_back_def quiet_select [OF q] sel)
  with pos show ?thesis
    by (simp add: cancelByIdAndUserId_def quiet_bind [OF assms(2)])
qed

theorem cancel_wins_witness:
  "let db = demo_db [set_claimed ''w'' 5 65 (demo_row 1 5 Queued)];
       (res, db') = cancelByIdAndUserId 7000000000 1 5 db
   in (\<exists>img. res = Inr (Some img) \<and> img_status img = Cancelled) \<and>
      fst (finishClaimedTask (default_image\<lparr>img_id := 1, img_user_id := 5, img_worker_id := ''w'',
        img_status := Success\<rparr>) db') \<noteq> Inr True"
proof -
  let ?r = "set_claimed ''w'' 5 65 (demo_row 1 5 Queued)"
  have wf: "wf_db (demo_db [?r])" by (rule wf_demo_db) simp_all
  obtain img db' where c: "cancelByIdAndUserId 7000000000 1 5 (demo_db [?r]) = (Inr (Some img), db')"
    using cancelByIdAndUserId_active [OF wf _ _, of ?r 1 5] by simp
  show ?thesis using cancel_wins [OF wf _ c] c by simp
qed

end
