(* ===== verification/Image_Repo_Leases.thy ===== *)
theory Image_Repo_Leases
  imports Image_Repo_Correct
begin

text \<open>
  The queue side of the task repository: which task \<open>claimNextTask\<close> takes, what lease expiry does
  to a held task, the retry budget, and the two readings of the clock in the reporting expiry.
  The second half is what a user sees: pages and the isolation of users from each other.
\<close>

section \<open>The oldest task first\<close>

lemma oldest_least:
  assumes "oldest p db = Some t" "r \<in> set (rows db)" "p r"
  shows "(ir_created_at t, ir_id t) \<le> (ir_created_at r, ir_id r)"
proof -
  let ?k = "\<lambda>r. (ir_created_at r, ir_id r)"
  obtain rs where s: "sort_key ?k (filter p (rows db)) = t # rs"
    using assms(1) by (auto simp: oldest_def split: list.splits)
  have "sorted (map ?k (t # rs))" unfolding s [symmetric] by (rule sorted_sort_key)
  moreover have "r \<in> set (t # rs)" unfolding s [symmetric] using assms(2,3) by simp
  ultimately show ?thesis by auto
qed

lemma oldest_exists: "r \<in> set (rows db) \<Longrightarrow> p r \<Longrightarrow> \<exists>t. oldest p db = Some t"
proof -
  assume r: "r \<in> set (rows db)" "p r"
  then have "r \<in> set (sort_key (\<lambda>r. (ir_created_at r, ir_id r)) (filter p (rows db)))" by simp
  then show ?thesis
    by (cases "sort_key (\<lambda>r. (ir_created_at r, ir_id r)) (filter p (rows db))")
      (simp_all add: oldest_def)
qed

lemma oldest_with_faults [simp]: "oldest p (with_faults db fs) = oldest p db"
  by (simp add: oldest_def)

lemma claimable_iff:
  "wf_db db \<Longrightarrow> r \<in> set (rows db) \<Longrightarrow> claimable db n r \<longleftrightarrow> row_status r \<in> {Queued, Pending} \<or>
     row_status r = Generating \<and> (ir_lease_expires_at r = None \<or> time_less (ir_lease_expires_at r) n)"
  using sql_guards(1,5) wf_rowD by (fastforce simp: claimable_def waiting_row_def)

lemma claimNextTask_InrD:
  assumes "table_ready db" "claimNextTask now w l db = (Inr (Some img), db')"
  obtains t r where "oldest (claimable db (time_t_of now)) db = Some t"
    "rows db' = map (\<lambda>q. if ir_id q = ir_id t then set_claimed w (time_t_of now)
       (time_t_of (expires_at now l)) q else q) (rows db)"
    "r \<in> set (rows db')" "text_eq db (ir_worker_id r) w" "text_eq db (ir_status r) ''generating''"
    "ir_lease_expires_at r = Some (time_t_of (expires_at now l))"
    "rowToImageGeneration now r = Inr img"
proof -
  let ?n = "time_t_of now" and ?e = "time_t_of (expires_at now l)"
  let ?P = "\<lambda>db r. text_eq db (ir_worker_id r) w \<and> text_eq db (ir_status r) ''generating'' \<and>
      ir_lease_expires_at r = Some ?e"
  from assms obtain k db1 rs where ex: "exec (stmt_claim_next w ?n ?e) db = (Inr k, db1)"
    and k: "k \<noteq> 0" and sel: "select_where ?P db1 = (Inr rs, db')"
    and f: "rs \<noteq> []" "rowToImageGeneration now (hd rs) = Inr img"
    by (auto simp: claimNextTask_def repoInvoke_ready Let_def dest!: repo_bind_InrD fetch_one_InrD
        split: if_splits) (auto simp: bindp_def repoInvoke_def split: prod.splits sum.splits dest!: fetch_one_InrD)
  obtain fs where u: "(k, db1) = stmt_claim_next w ?n ?e (with_faults db fs)"
    using exec_InrD [OF ex] by metis
  then obtain t where t: "oldest (claimable db ?n) db = Some t"
    using k by (auto simp: stmt_claim_next_def split: option.splits)
  then have "(k, db1) = sql_update (\<lambda>r. ir_id r = ir_id t) (set_claimed w ?n ?e) (with_faults db fs)"
    using u by (simp add: stmt_claim_next_def)
  then have db1: "db1 = snd (sql_update (\<lambda>r. ir_id r = ir_id t) (set_claimed w ?n ?e) (with_faults db fs))"
    by (metis snd_conv)
  obtain fs' where s: "db' = with_faults db1 fs'" and rs: "rs = filter (?P (with_faults db1 fs')) (rows db1)"
    using select_where_InrD [OF sel] by blast
  have te: "text_eq (with_faults db1 fs') = text_eq db"
    unfolding db1 by (rule guards_collation) simp
  have "hd rs \<in> set rs" using f(1) by simp
  then have h: "hd rs \<in> set (rows db')" "text_eq db (ir_worker_id (hd rs)) w"
    "text_eq db (ir_status (hd rs)) ''generating''" "ir_lease_expires_at (hd rs) = Some ?e"
    unfolding rs te using s by auto
  have "rows db' = map (\<lambda>q. if ir_id q = ir_id t then set_claimed w ?n ?e q else q) (rows db)"
    unfolding s db1 by simp
  from that [OF t this h f(2)] show ?thesis .
qed

text \<open>
  C26: when \<open>claimNextTask\<close> reports a task, it has marked exactly one row: a
  claimable one (waiting, or generating with a missing or expired lease) such that no claimable row
  was created earlier; every other row stays as it is. The task that is reported is a row that the
  worker now holds, generating and with the new end of the lease: the marked row, or a row that the
  worker held before with a lease that ends in the same second. So it is the marked row whenever the
  worker holds no such other row.
\<close>

theorem claim_next_takes_oldest:
  assumes "wf_db db" "table_ready db" "claimNextTask now w l db = (Inr (Some img), db')"
  shows "\<exists>t\<in>set (rows db). claimable db (time_t_of now) t \<and>
     (\<forall>r\<in>set (rows db). claimable db (time_t_of now) r \<longrightarrow>
        (ir_created_at t, ir_id t) \<le> (ir_created_at r, ir_id r)) \<and>
     rows db' = map (\<lambda>q. if ir_id q = ir_id t then set_claimed w (time_t_of now)
       (time_t_of (expires_at now l)) q else q) (rows db) \<and>
     (\<exists>r\<in>set (rows db'). text_eq db (ir_worker_id r) w \<and> text_eq db (ir_status r) ''generating'' \<and>
        ir_lease_expires_at r = Some (time_t_of (expires_at now l)) \<and> rowToImageGeneration now r = Inr img \<and>
        (r = set_claimed w (time_t_of now) (time_t_of (expires_at now l)) t \<or> r \<in> set (rows db) \<and> ir_id r \<noteq> ir_id t)) \<and>
     ((\<forall>r\<in>set (rows db). ir_id r \<noteq> ir_id t \<longrightarrow> text_eq db (ir_worker_id r) w \<longrightarrow>
         ir_lease_expires_at r \<noteq> Some (time_t_of (expires_at now l))) \<longrightarrow>
       rowToImageGeneration now (set_claimed w (time_t_of now) (time_t_of (expires_at now l)) t) = Inr img)"
proof -
  let ?e = "time_t_of (expires_at now l)" and ?n = "time_t_of now"
  obtain t r where t: "oldest (claimable db ?n) db = Some t"
    and rows': "rows db' = map (\<lambda>q. if ir_id q = ir_id t then set_claimed w ?n ?e q else q) (rows db)"
    and r: "r \<in> set (rows db')" "text_eq db (ir_worker_id r) w" "text_eq db (ir_status r) ''generating''"
      "ir_lease_expires_at r = Some ?e" "rowToImageGeneration now r = Inr img"
    using claimNextTask_InrD [OF assms(2,3)] .
  have tt: "t \<in> set (rows db)" "claimable db ?n t" using wf_oldest [OF t] by auto
  have held: "r = set_claimed w ?n ?e t \<or> r \<in> set (rows db) \<and> ir_id r \<noteq> ir_id t"
  proof -
    obtain q where q: "q \<in> set (rows db)" "r = (if ir_id q = ir_id t then set_claimed w ?n ?e q else q)"
      using r(1) unfolding rows' by auto
    then show ?thesis using unique_row [OF assms(1) tt(1)] by (cases "ir_id q = ir_id t") auto
  qed
  then have "rowToImageGeneration now (set_claimed w ?n ?e t) = Inr img"
    if "\<forall>r\<in>set (rows db). ir_id r \<noteq> ir_id t \<longrightarrow> text_eq db (ir_worker_id r) w \<longrightarrow> ir_lease_expires_at r \<noteq> Some ?e"
    using that r by blast
  with t tt oldest_least [OF t] rows' r held show ?thesis by blast
qed

lemma set_claimed_neq: "ir_lease_expires_at t \<noteq> Some e \<Longrightarrow> set_claimed w n e t \<noteq> t"
  by (metis setter_lease(2))

lemma claimNextTask_claims:
  assumes "wf_db db" "quiet db" "oldest (claimable db (time_t_of now)) db = Some t"
    and only: "\<forall>r\<in>set (rows db). ir_id r \<noteq> ir_id t \<longrightarrow> text_eq db (ir_worker_id r) w \<longrightarrow>
         text_eq db (ir_status r) ''generating'' \<longrightarrow> ir_lease_expires_at r \<noteq> Some (time_t_of (expires_at now l))"
    and new: "set_claimed w (time_t_of now) (time_t_of (expires_at now l)) t \<noteq> t"
  shows "claimNextTask now w l db =
     (Inr (Some (image_of now (set_claimed w (time_t_of now) (time_t_of (expires_at now l)) t))),
      snd (stmt_claim_next w (time_t_of now) (time_t_of (expires_at now l)) db))"
proof -
  let ?e = "time_t_of (expires_at now l)" and ?n = "time_t_of now"
  let ?c = "set_claimed w ?n ?e" and ?st = "stmt_claim_next w ?n ?e"
  have tt: "t \<in> set (rows db)" using wf_oldest [OF assms(3)] by auto
  have st: "?st db = sql_update (\<lambda>r. ir_id r = ir_id t) ?c db"
    by (simp add: stmt_claim_next_def assms(3))
  from new have pos: "fst (?st db) \<noteq> 0"
    using fst_sql_update_pos [of "\<lambda>r. ir_id r = ir_id t" ?c db] tt unfolding st by auto
  have q: "quiet (snd (?st db))" using assms(2) by (simp add: st)
  have wf: "wf_db (snd (?st db))"
    unfolding st by (rule wf_db_update [OF assms(1)]) simp
  have te: "text_eq (snd (?st db)) = text_eq db" unfolding st by (rule guards_collation) simp
  let ?P = "\<lambda>r. text_eq (snd (?st db)) (ir_worker_id r) w \<and>
      text_eq (snd (?st db)) (ir_status r) ''generating'' \<and> ir_lease_expires_at r = Some ?e"
  have sel: "filter ?P (rows (snd (?st db))) = [?c t]"
  proof (rule filter_unique_id)
    show "distinct (map ir_id (rows (snd (?st db))))" using wf by (simp only: wf_db_def)
    show "?c t \<in> set (rows (snd (?st db)))"
      unfolding st sql_update_sel mem_map_upd using tt by blast
    show "?P (?c t)" by (simp add: text_eq_def)
    fix q assume "q \<in> set (rows (snd (?st db)))" "?P q"
    then have "ir_id q = ir_id t \<or> (q \<in> set (rows db) \<and> ir_id q \<noteq> ir_id t)"
      unfolding st sql_update_sel mem_map_upd by fastforce
    with \<open>?P q\<close> only show "ir_id q = ir_id (?c t)" unfolding te by auto
  qed
  have "fetch_one now [?c t] s = (Inr (Some (image_of now (?c t))), s)" for s :: image_db
    using wf_rows_id [OF assms(1) tt] by (simp add: fetch_one_def row_readable)
  then have "bindp (select_where (\<lambda>db r. text_eq db (ir_worker_id r) w \<and>
      text_eq db (ir_status r) ''generating'' \<and> ir_lease_expires_at r = Some ?e)) (fetch_one now)
      (snd (?st db)) = (Inr (Some (image_of now (?c t))), snd (?st db))"
    by (simp only: quiet_select [OF q] sel)
  with pos show ?thesis by (simp add: claimNextTask_def Let_def quiet_bind [OF assms(2)])
qed

theorem claim_next_takes_oldest_witness:
  "let db = demo_db [demo_row 4 5 Queued, demo_row 3 6 Pending, demo_row 2 7 Success];
       (res, db') = claimNextTask 9000000000 ''w'' 60 db
   in (\<exists>img. res = Inr (Some img) \<and> img_id img = 3) \<and>
      rows db' = [demo_row 4 5 Queued, set_claimed ''w'' 9 69 (demo_row 3 6 Pending), demo_row 2 7 Success]"
proof -
  let ?rs = "[demo_row 4 5 Queued, demo_row 3 6 Pending, demo_row 2 7 Success]"
  have wf: "wf_db (demo_db ?rs)" by (rule wf_demo_db) simp_all
  have t: "time_t_of 9000000000 = 9" "time_t_of (expires_at 9000000000 60) = 69"
    by (simp_all add: time_t_of_def ns_def expires_at_def lease_seconds_def)
  have cl: "claimable (demo_db ?rs) 9 (demo_row 4 5 Queued)" "claimable (demo_db ?rs) 9 (demo_row 3 6 Pending)"
    "\<not> claimable (demo_db ?rs) 9 (demo_row 2 7 Success)"
    using claimable_iff [OF wf, of _ 9] by simp_all
  have o: "oldest (claimable (demo_db ?rs) 9) (demo_db ?rs) = Some (demo_row 3 6 Pending)"
    using cl by (simp add: oldest_def)
  obtain img db' where c: "claimNextTask 9000000000 ''w'' 60 (demo_db ?rs) = (Inr (Some img), db')"
    using claimNextTask_claims [OF wf, of 9000000000 "demo_row 3 6 Pending" "''w''" 60] o
    by (simp add: t text_eq_def set_claimed_neq)
  obtain u where u: "u \<in> set ?rs" "claimable (demo_db ?rs) 9 u"
    and least: "\<forall>r\<in>set ?rs. claimable (demo_db ?rs) 9 r \<longrightarrow> (ir_created_at u, ir_id u) \<le> (ir_created_at r, ir_id r)"
    and rows': "rows db' = map (\<lambda>q. if ir_id q = ir_id u then set_claimed ''w'' 9 69 q else q) ?rs"
    and im: "(\<forall>r\<in>set ?rs. ir_id r \<noteq> ir_id u \<longrightarrow> text_eq (demo_db ?rs) (ir_worker_id r) ''w'' \<longrightarrow>
         ir_lease_expires_at r \<noteq> Some 69) \<longrightarrow>
       rowToImageGeneration 9000000000 (set_claimed ''w'' 9 69 u) = Inr img"
    using claim_next_takes_oldest [OF wf demo_db_sel(4) c, unfolded t demo_db_sel(1)] by blast
  have img: "rowToImageGeneration 9000000000 (set_claimed ''w'' 9 69 u) = Inr img"
    using im by (simp add: text_eq_def)
  have "u = demo_row 3 6 Pending" using u least cl by auto
  with c rows' row_image_sel(1) [OF img] show ?thesis by (simp add: int64_of_def)
qed

text \<open>The comment in the code calls the read-back unique. It is not when one worker name claims
  twice in the same second: the second claim marks one task and returns the other.\<close>

theorem claim_next_read_back_ambiguous:
  "let db = demo_db [set_claimed ''w'' 9 69 (demo_row 1 5 Queued), demo_row 2 6 Queued];
       (res, db') = claimNextTask 9000000000 ''w'' 60 db
   in (\<exists>img. res = Inr (Some img) \<and> img_id img = 1) \<and>
      rows db' = [set_claimed ''w'' 9 69 (demo_row 1 5 Queued), set_claimed ''w'' 9 69 (demo_row 2 6 Queued)]"
proof -
  let ?rs = "[set_claimed ''w'' 9 69 (demo_row 1 5 Queued), demo_row 2 6 Queued]"
  have wf: "wf_db (demo_db ?rs)" by (rule wf_demo_db) simp_all
  have t: "time_t_of 9000000000 = 9" "time_t_of (expires_at 9000000000 60) = 69"
    by (simp_all add: time_t_of_def ns_def expires_at_def lease_seconds_def)
  have cl: "claimable (demo_db ?rs) 9 (demo_row 2 6 Queued)"
    "\<not> claimable (demo_db ?rs) 9 (set_claimed ''w'' 9 69 (demo_row 1 5 Queued))"
    using claimable_iff [OF wf, of _ 9] by (simp_all add: time_less_def)
  have o: "oldest (claimable (demo_db ?rs) 9) (demo_db ?rs) = Some (demo_row 2 6 Queued)"
    using cl by (simp add: oldest_def)
  have ne: "set_claimed ''w'' 9 69 (demo_row 2 6 Queued) \<noteq> demo_row 2 6 Queued"
    by (metis demo_row_sel(8) option.distinct(1) setter_lease(2))
  show ?thesis
    using o ne by (simp add: claimNextTask_def Let_def quiet_bind t stmt_claim_next_def sql_update_def
        quiet_select quiet_def text_eq_def fetch_one_def row_readable image_of_sel int64_of_def demo_db_def)
qed

section \<open>Lease expiry\<close>

definition expired :: "image_db \<Rightarrow> int \<Rightarrow> image_row \<Rightarrow> image_row" where
  "expired db t r =
     (if to_requeue db t r then set_requeued r
      else if to_timeout db t r then set_timed_out t r else r)"

lemma expiry_guards: "lease_over db t r \<longleftrightarrow> to_requeue db t r \<or> to_timeout db t r"
  by (auto simp: to_requeue_def to_timeout_def)

lemma not_generating_not_over:
  "wf_db db \<Longrightarrow> wf_row r \<Longrightarrow> row_status r \<noteq> Generating \<Longrightarrow> \<not> lease_over db t r"
  using sql_guards(5) by (simp add: lease_over_def)

lemma expireLeasesUnsafe_outcome:
  assumes "wf_db db" "expireLeasesUnsafe now db = (Inr n, db')"
  defines "t \<equiv> time_t_of now"
  shows "rows db' = map (expired db t) (rows db)"
    and "n = int32_of (int (length (filter (lease_over db t) (rows db))))"
    and "wf_db db'" "collation db' = collation db"
proof -
  obtain a db1 b where e1: "exec (stmt_requeue t) db = (Inr a, db1)"
    and e2: "exec (stmt_timeout t) db1 = (Inr b, db')" and n: "n = int32_of (int a + int b)"
    using assms(2) unfolding expireLeasesUnsafe_def t_def
    by (auto simp: bindp_def Let_def split: prod.splits sum.splits)
  obtain fs where s1: "sql_update (to_requeue db t) set_requeued (with_faults db fs) = (a, db1)"
    using exec_InrD [OF e1] by (auto simp: stmt_requeue_def)
  then have db1: "db1 = snd (sql_update (to_requeue db t) set_requeued (with_faults db fs))"
    and a: "a = fst (sql_update (to_requeue db t) set_requeued (with_faults db fs))" by simp_all
  have c1: "collation db1 = collation db" and r1: "rows db1 = map (\<lambda>r. if to_requeue db t r then set_requeued r else r) (rows db)"
    unfolding db1 by simp_all
  have wf1: "wf_db db1" unfolding db1 by (rule wf_db_update) (use assms(1) in simp_all)
  obtain fs' where s2: "sql_update (to_timeout db t) (set_timed_out t) (with_faults db1 fs') = (b, db')"
    using exec_InrD [OF e2] guards_collation(10) [OF c1] by (auto simp: stmt_timeout_def)
  then have db': "db' = snd (sql_update (to_timeout db t) (set_timed_out t) (with_faults db1 fs'))"
    and b: "b = fst (sql_update (to_timeout db t) (set_timed_out t) (with_faults db1 fs'))" by simp_all
  show c2: "collation db' = collation db" unfolding db' by (simp add: c1)
  show "wf_db db'" unfolding db' by (rule wf_db_update) (use wf1 in simp_all)
  have no: "\<not> to_timeout db t (set_requeued r)" if "r \<in> set (rows db)" for r
    using not_generating_not_over [OF assms(1), of "set_requeued r" t] wf_rowD [OF assms(1) that]
    by (simp add: to_timeout_def)
  have ex: "\<not> (to_requeue db t r \<and> to_timeout db t r)" for r
    by (auto simp: to_requeue_def to_timeout_def)
  show "rows db' = map (expired db t) (rows db)"
    unfolding db' by (auto simp: r1 expired_def no ex)
  have ne1: "set_requeued r \<noteq> r" if "to_requeue db t r" for r
    using that by (metis lease_over_def setter_lease(10) to_requeue_def)
  have ne2: "set_timed_out t r \<noteq> r" if "to_timeout db t r" for r
    using that by (metis lease_over_def setter_lease(12) to_timeout_def)
  have la: "a = length (filter (to_requeue db t) (rows db))"
    unfolding a sql_update_def using ne1 by (auto intro!: arg_cong [of _ _ length] filter_cong)
  have lb: "b = length (filter (to_timeout db t) (rows db))"
    unfolding b sql_update_def with_faults_sel fst_conv r1 filter_map length_map
    using ne2 no ex by (auto intro!: arg_cong [of _ _ length] filter_cong split: if_splits)
  have "length (filter (\<lambda>r. P r \<or> Q r) xs) = length (filter P xs) + length (filter Q xs)"
    if "\<forall>r. \<not> (P r \<and> Q r)" for P Q and xs :: "image_row list"
    using that by (induction xs) auto
  then show "n = int32_of (int (length (filter (lease_over db t) (rows db))))"
    unfolding n la lb expiry_guards using ex by simp
qed

lemma expired_not_over:
  "wf_db db \<Longrightarrow> r \<in> set (rows db) \<Longrightarrow> \<not> lease_over db t' (expired db t r) \<or> \<not> lease_over db t r"
  using not_generating_not_over [of db "expired db t r" t'] wf_rowD [of db r]
  by (auto simp: expired_def expiry_guards)

text \<open>
  C17: lease expiry changes exactly the tasks whose lease is over. A task
  with retries left goes back to the queue with its retry counted, a task without goes to
  timeout, nobody holds it any more, the result is the number of tasks changed (as an \<open>int\<close>), and
  no task is left generating with an expired lease.
\<close>

theorem expiry_splits_by_budget:
  assumes "wf_db db" "table_ready db" "expireLeases now db = (Inr n, db')"
  shows "rows db' = map (\<lambda>r. if \<not> lease_over db (time_t_of now) r then r
       else if ir_retry_count r < ir_max_retries r then set_requeued r
       else set_timed_out (time_t_of now) r) (rows db) \<and>
     n = int32_of (int (length (filter (lease_over db (time_t_of now)) (rows db)))) \<and>
     (\<forall>r\<in>set (rows db'). \<not> lease_over db' (time_t_of now) r)"
proof -
  let ?t = "time_t_of now"
  have e: "expireLeasesUnsafe now db = (Inr n, db')"
    using assms(2,3) by (auto simp: expireLeases_def repoInvoke_ready repoInvoke_def split: prod.splits sum.splits)
  note o = expireLeasesUnsafe_outcome [OF assms(1) e]
  have ex: "expired db ?t r = (if \<not> lease_over db ?t r then r
       else if ir_retry_count r < ir_max_retries r then set_requeued r else set_timed_out ?t r)" for r
    by (auto simp: expired_def to_requeue_def to_timeout_def)
  have "\<not> lease_over db' ?t r'" if r': "r' \<in> set (rows db')" for r'
  proof -
    obtain r where r: "r \<in> set (rows db)" "r' = expired db ?t r" using r' o(1) by auto
    show ?thesis
    proof (cases "lease_over db ?t r")
      case True
      then show ?thesis
        using expired_not_over [OF assms(1) r(1), of ?t ?t] r(2) guards_collation(8) [OF o(4)] by simp
    next
      case False
      then show ?thesis using r(2) guards_collation(8) [OF o(4)] by (simp add: ex)
    qed
  qed
  with o(1,2) show ?thesis unfolding ex by blast
qed

theorem expiry_splits_by_budget_witness:
  "let r1 = set_claimed ''w'' 5 65 (demo_row 1 5 Queued);
       r2 = (set_claimed ''v'' 5 65 (demo_row 2 6 Queued))\<lparr>ir_retry_count := 3\<rparr>;
       r3 = set_claimed ''w'' 5 900 (demo_row 3 5 Queued);
       (res, db') = expireLeases 80000000000 (demo_db [r1, r2, r3])
   in res = Inr 2 \<and> rows db' = [set_requeued r1, set_timed_out 80 r2, r3]"
proof -
  let ?r1 = "set_claimed ''w'' 5 65 (demo_row 1 5 Queued)"
  let ?r2 = "(set_claimed ''v'' 5 65 (demo_row 2 6 Queued))\<lparr>ir_retry_count := 3\<rparr>"
  let ?r3 = "set_claimed ''w'' 5 900 (demo_row 3 5 Queued)"
  let ?db = "demo_db [?r1, ?r2, ?r3]"
  have s2: "row_status ?r2 = Generating" "ir_max_retries ?r2 = 3"
    by (simp_all add: row_status_def getStringOrEmpty_def statusFromString_def)
  have wf: "wf_db ?db" by (rule wf_demo_db) (use s2 in \<open>simp_all add: wf_row_def\<close>)
  have t: "time_t_of 80000000000 = 80" by (simp add: time_t_of_def ns_def)
  obtain n db' where c: "expireLeases 80000000000 ?db = (Inr n, db')"
    by (simp add: expireLeases_def expireLeasesUnsafe_def repoInvoke_ready Let_def repoInvoke_def
        bindp_def exec_quiet stmt_requeue_def)
  have lo: "lease_over ?db 80 ?r1" "lease_over ?db 80 ?r2" "\<not> lease_over ?db 80 ?r3"
    by (simp_all add: lease_over_def text_eq_def time_less_def)
  show ?thesis
    using expiry_splits_by_budget [OF wf demo_db_sel(4) c] lo s2 c by (simp add: t int32_of_def)
qed

lemma collect_expired_Inr:
  "collect_expired b rs = Inr ls \<Longrightarrow>
   ls = map (\<lambda>r. \<lparr>el_id = int64_of (ir_id r), el_user_id = int64_of (ir_user_id r), el_requeue = b\<rparr>) rs"
proof (induction rs arbitrary: ls)
  case (Cons r rs)
  then show ?case by (auto simp: get_uint64_def split: if_splits sum.splits)
qed simp

lemma expireReport_InrD:
  assumes "table_ready db" "expireLeasesReturningExpired now now' db = (Inr ls, db')"
  obtains fs n where
    "ls = map (\<lambda>r. \<lparr>el_id = int64_of (ir_id r), el_user_id = int64_of (ir_user_id r), el_requeue = True\<rparr>)
        (filter (to_requeue db (time_t_of now)) (rows db)) @
      map (\<lambda>r. \<lparr>el_id = int64_of (ir_id r), el_user_id = int64_of (ir_user_id r), el_requeue = False\<rparr>)
        (filter (to_timeout db (time_t_of now)) (rows db))"
    "expireLeasesUnsafe now' (with_faults db fs) = (Inr n, db')"
proof -
  let ?t = "time_t_of now"
  from assms obtain rs db1 ls1 rs' db2 ls2 n where
    s1: "select_where (\<lambda>db. to_requeue db ?t) db = (Inr rs, db1)" "collect_expired True rs = Inr ls1"
    and s2: "select_where (\<lambda>db. to_timeout db ?t) db1 = (Inr rs', db2)" "collect_expired False rs' = Inr ls2"
    and e: "expireLeasesUnsafe now' db2 = (Inr n, db')" "ls = ls1 @ ls2"
    by (auto simp: expireLeasesReturningExpired_def repoInvoke_ready Let_def repoInvoke_def bindp_def
        split: prod.splits sum.splits)
  obtain fs where f1: "db1 = with_faults db fs" "rs = filter (to_requeue db ?t) (rows db)"
    using select_where_InrD [OF s1(1)] by auto
  obtain fs' where f2: "db2 = with_faults db1 fs'" "rs' = filter (to_timeout db ?t) (rows db)"
    using select_where_InrD [OF s2(1)] f1(1) by auto
  have "db2 = with_faults db fs'" by (simp add: f1(1) f2(1) with_faults_def)
  then show ?thesis
    using that [of fs'] e collect_expired_Inr [OF s1(2)] collect_expired_Inr [OF s2(2)] f1(2) f2(2) by auto
qed

lemma lease_over_mono: "lease_over db t r \<Longrightarrow> t \<le> t' \<Longrightarrow> lease_over db t' r"
  by (auto simp: lease_over_def time_less_def split: option.splits)

text \<open>
  What \<open>expireLeasesReturningExpired\<close> reports to the engine. Every reported
  task had an expired lease and is queued again or timed out, as the report says; a task whose
  row changed and that is not reported has a lease that ended between the two clock readings.
\<close>


theorem expiry_report:
  assumes "wf_db db" "table_ready db" "time_t_of now \<le> time_t_of now'"
    and "expireLeasesReturningExpired now now' db = (Inr ls, db')"
  shows "(\<forall>e\<in>set ls. \<exists>r\<in>set (rows db). lease_over db (time_t_of now) r \<and>
        el_id e = int64_of (ir_id r) \<and> el_user_id e = int64_of (ir_user_id r) \<and>
        (el_requeue e \<longleftrightarrow> ir_retry_count r < ir_max_retries r) \<and>
        (if el_requeue e then set_requeued r else set_timed_out (time_t_of now') r) \<in> set (rows db')) \<and>
     (\<forall>r\<in>set (rows db). r \<notin> set (rows db') \<longrightarrow>
        (\<exists>e\<in>set ls. el_id e = int64_of (ir_id r)) \<or>
        (\<not> lease_over db (time_t_of now) r \<and> lease_over db (time_t_of now') r))"
proof -
  let ?t = "time_t_of now" and ?t' = "time_t_of now'"
  obtain fs n where ls: "ls = map (\<lambda>r. \<lparr>el_id = int64_of (ir_id r), el_user_id = int64_of (ir_user_id r), el_requeue = True\<rparr>)
        (filter (to_requeue db ?t) (rows db)) @
      map (\<lambda>r. \<lparr>el_id = int64_of (ir_id r), el_user_id = int64_of (ir_user_id r), el_requeue = False\<rparr>)
        (filter (to_timeout db ?t) (rows db))"
    and e: "expireLeasesUnsafe now' (with_faults db fs) = (Inr n, db')"
    using expireReport_InrD [OF assms(2,4)] .
  have ee: "expired (with_faults db fs) ?t' = expired db ?t'" by (intro ext) (simp add: expired_def)
  have "wf_db (with_faults db fs)" using assms(1) by simp
  from expireLeasesUnsafe_outcome(1) [OF this e]
  have rows': "rows db' = map (expired db ?t') (rows db)" unfolding ee with_faults_sel .
  have reported: "\<exists>r\<in>set (rows db). lease_over db ?t r \<and> el_id e = int64_of (ir_id r) \<and>
      el_user_id e = int64_of (ir_user_id r) \<and> (el_requeue e \<longleftrightarrow> ir_retry_count r < ir_max_retries r) \<and>
      (if el_requeue e then set_requeued r else set_timed_out ?t' r) \<in> set (rows db')"
    if "e \<in> set ls" for e
  proof -
    have "\<exists>r\<in>set (rows db). lease_over db ?t r \<and> el_id e = int64_of (ir_id r) \<and>
        el_user_id e = int64_of (ir_user_id r) \<and> (el_requeue e \<longleftrightarrow> ir_retry_count r < ir_max_retries r)"
      using that unfolding ls set_append set_map set_filter to_requeue_def to_timeout_def
      by fastforce
    then obtain r where r: "r \<in> set (rows db)" "lease_over db ?t r" "el_id e = int64_of (ir_id r)"
      "el_user_id e = int64_of (ir_user_id r)" "el_requeue e \<longleftrightarrow> ir_retry_count r < ir_max_retries r" by blast
    have "expired db ?t' r = (if el_requeue e then set_requeued r else set_timed_out ?t' r)"
      using lease_over_mono [OF r(2) assms(3)] r(5) by (auto simp: expired_def to_requeue_def to_timeout_def)
    moreover have "expired db ?t' r \<in> set (rows db')" unfolding rows' using r(1) by simp
    ultimately show ?thesis using r by metis
  qed
  have "(\<exists>e\<in>set ls. el_id e = int64_of (ir_id r)) \<or> (\<not> lease_over db ?t r \<and> lease_over db ?t' r)"
    if "r \<in> set (rows db)" "r \<notin> set (rows db')" for r
  proof -
    have "expired db ?t' r \<noteq> r" using that unfolding rows' by (metis image_eqI list.set_map)
    then have over: "lease_over db ?t' r" by (auto simp: expired_def expiry_guards split: if_splits)
    show ?thesis
    proof (cases "lease_over db ?t r")
      case True
      then show ?thesis using that(1) unfolding ls expiry_guards by force
    qed (simp add: over)
  qed
  with reported show ?thesis by blast
qed

lemma get_uint64_nonneg [simp]: "0 \<le> n \<Longrightarrow> get_uint64 n = Inr n"
  by (simp add: get_uint64_def)

theorem expiry_report_witness:
  "let r1 = set_claimed ''w'' 5 65 (demo_row 1 5 Queued); r3 = set_claimed ''w'' 5 900 (demo_row 3 5 Queued);
       (res, db') = expireLeasesReturningExpired 80000000000 81000000000 (demo_db [r1, r3])
   in res = Inr [\<lparr>el_id = 1, el_user_id = 5, el_requeue = True\<rparr>] \<and> set_requeued r1 \<in> set (rows db')"
proof -
  let ?r1 = "set_claimed ''w'' 5 65 (demo_row 1 5 Queued)"
  let ?r3 = "set_claimed ''w'' 5 900 (demo_row 3 5 Queued)"
  let ?db = "demo_db [?r1, ?r3]"
  have wf: "wf_db ?db" by (rule wf_demo_db) simp_all
  have t: "time_t_of 80000000000 = 80" "time_t_of 81000000000 = 81" by (simp_all add: time_t_of_def ns_def)
  have lo: "to_requeue ?db 80 ?r1" "\<not> to_requeue ?db 80 ?r3" "\<not> to_timeout ?db 80 ?r1" "\<not> to_timeout ?db 80 ?r3"
    by (simp_all add: to_requeue_def to_timeout_def lease_over_def text_eq_def time_less_def)
  obtain db' where c: "expireLeasesReturningExpired 80000000000 81000000000 ?db =
      (Inr [\<lparr>el_id = 1, el_user_id = 5, el_requeue = True\<rparr>], db')"
    using lo by (simp add: expireLeasesReturningExpired_def expireLeasesUnsafe_def repoInvoke_ready Let_def
        repoInvoke_def bindp_def exec_quiet stmt_requeue_def select_where_def sql_select_def t int64_of_def)
  have le: "time_t_of 80000000000 \<le> time_t_of 81000000000" by (simp add: t)
  show ?thesis
    using expiry_report [OF wf demo_db_sel(4) le c] c by (auto simp: t int64_of_def)
qed

section \<open>The retry budget\<close>

text \<open>Every operation but the deferral keeps the retry count within the limit of the task.\<close>

definition within_budget :: "image_row \<Rightarrow> bool" where
  "within_budget r \<longleftrightarrow> ir_retry_count r \<le> ir_max_retries r"

definition budget_db :: "image_db \<Rightarrow> bool" where
  "budget_db db \<longleftrightarrow> (\<forall>r\<in>set (rows db). within_budget r)"

lemma table_pred_budget: "table_pred budget_db"
  by (simp add: table_pred_def budget_db_def)

lemma budget_update: "budget_db db \<Longrightarrow> (\<And>r. r \<in> set (rows db) \<Longrightarrow> p r \<Longrightarrow> within_budget r \<Longrightarrow> within_budget (f r)) \<Longrightarrow>
    budget_db (snd (sql_update p f db))"
  by (auto simp: budget_db_def)

lemma setter_within [simp]:
  "within_budget (set_claimed w n e r) = within_budget r" "within_budget (set_finished g r) = within_budget r"
  "within_budget (set_cancelled n r) = within_budget r" "within_budget (set_timed_out n r) = within_budget r"
  "within_budget (set_status_error st m cp r) = within_budget r"
  "within_budget (r\<lparr>ir_lease_expires_at := l\<rparr>) = within_budget r"
  by (simp_all add: within_budget_def) (simp add: set_status_error_def)

lemma within_add [simp]:
  "within_budget (set_retried r) \<longleftrightarrow> ir_retry_count r < ir_max_retries r"
  "within_budget (set_requeued r) \<longleftrightarrow> ir_retry_count r < ir_max_retries r"
  by (auto simp: within_budget_def)

fun spends_within :: "repo_op \<Rightarrow> bool" where
  "spends_within (OpInsert now g) \<longleftrightarrow> img_retry_count g \<le> img_max_retries g"
| "spends_within (OpDefer i u w c m) \<longleftrightarrow> False"
| "spends_within _ \<longleftrightarrow> True"

lemma budget_delete: "budget_db db \<Longrightarrow> budget_db (snd (sql_delete p db))"
  by (auto simp: budget_db_def sql_delete_def)

lemma op_write_budget: "op_write op f \<Longrightarrow> spends_within op \<Longrightarrow> budget_db db \<Longrightarrow> budget_db (snd (f db))"
  by (induction rule: op_write.induct)
    (auto simp: stmt_claim_next_def stmt_claim_by_id_def stmt_renew_def stmt_finish_def
      stmt_cancel_def stmt_retry_def stmt_requeue_def stmt_timeout_def retryable_row_def to_requeue_def
      simp del: sql_update_sel intro!: budget_update budget_delete split: option.split)

lemma run_op_budget:
  assumes "spends_within op" "budget_db db"
  shows "budget_db (run_op op db)"
proof (rule run_op_keeps [OF table_pred_budget assms(2)])
  fix now g t db' assume "op = OpInsert now g" "budget_db db'"
  then show "budget_db (snd (sql_insert (\<lambda>n. image_values t n g) db'))"
    using assms(1) by (auto simp: budget_db_def sql_insert_def within_budget_def image_values_def)
qed (use assms(1) op_write_budget in blast)

lemma run_ops_budget: "\<forall>op\<in>set ops. spends_within op \<Longrightarrow> budget_db db \<Longrightarrow> budget_db (run_ops ops db)"
  by (induction ops arbitrary: db) (simp_all add: run_op_budget)

text \<open>
  C25: no sequence of claims, completions, user retries, cancellations and lease
  expiries takes a task past its retry limit, as long as it is not deferred for the health of the
  model service. A deferral counts as a retry without looking at the limit, and it can take a
  task past it.
\<close>

theorem retry_budget_kept:
  assumes "\<forall>r\<in>set (rows db). ir_retry_count r \<le> ir_max_retries r"
    and "\<forall>op\<in>set ops. spends_within op"
  shows "(\<forall>r\<in>set (rows (run_ops ops db)). ir_retry_count r \<le> ir_max_retries r) \<and>
     (\<exists>db' i u w. (\<forall>r\<in>set (rows db'). ir_retry_count r \<le> ir_max_retries r) \<and>
        (\<exists>r\<in>set (rows (run_op (OpDefer i u w c m) db')). ir_max_retries r < ir_retry_count r))"
proof -
  let ?r = "(set_claimed ''w'' 5 65 (demo_row 1 5 Queued))\<lparr>ir_retry_count := 3\<rparr>"
  let ?db = "demo_db [?r]"
  have "rows (run_op (OpDefer 1 5 ''w'' c m) ?db) = [set_deferred c m ?r]"
    by (simp add: deferClaimedTaskForModelHealth_def repoInvoke_ready repoInvoke_def bindp_def exec_quiet
        stmt_defer_def held_row_def by_id_and_user_def text_eq_def)
  moreover have "ir_max_retries ?r = 3" by simp
  ultimately have "(\<forall>r\<in>set (rows ?db). ir_retry_count r \<le> ir_max_retries r) \<and>
        (\<exists>r\<in>set (rows (run_op (OpDefer 1 5 ''w'' c m) ?db)). ir_max_retries r < ir_retry_count r)"
    by simp
  moreover have "\<forall>r\<in>set (rows (run_ops ops db)). ir_retry_count r \<le> ir_max_retries r"
    using run_ops_budget [OF assms(2), of db] assms(1) by (simp add: budget_db_def within_budget_def)
  ultimately show ?thesis by blast
qed

theorem retry_budget_kept_witness:
  "budget_db (run_ops [OpRetry 5 1 5, OpClaimNext 6 ''w'' 1, OpExpire 9000000000] (demo_db [demo_row 1 5 Failed]))"
  using retry_budget_kept [of "demo_db [demo_row 1 5 Failed]"
      "[OpRetry 5 1 5, OpClaimNext 6 ''w'' 1, OpExpire 9000000000]"]
  by (simp add: budget_db_def within_budget_def)

end
