(* ===== verification/Image_Repo_Users.thy ===== *)
theory Image_Repo_Users
  imports Image_Repo_Leases
begin

text \<open>
  The repository as a user sees it: pages of tasks, lookups that return the tasks of the asking
  user only, and operations of one user that leave the rows of every other user as they are.
\<close>

section \<open>Pages\<close>

lemma collect_pages:
  assumes "\<forall>p\<in>set rs. snd p = n \<and> 0 \<le> ir_id (fst p) \<and> 0 \<le> ir_user_id (fst p)" "page_total pg \<in> {0, n}"
  shows "collectPagedResultRows now rs pg = Inr
     \<lparr>page_content = page_content pg @ map (image_of now \<circ> fst) rs,
      page_total = (if rs = [] then page_total pg else n)\<rparr>"
  using assms
proof (induction rs arbitrary: pg)
  case (Cons p rs)
  obtain r where p: "p = (r, n)" using Cons.prems(1) by (cases p) auto
  have "rowToImageGeneration now r = Inr (image_of now r)"
    using Cons.prems(1) p by (intro row_readable) auto
  with Cons p show ?case by (auto simp: Let_def)
qed simp

definition newest_first :: "(image_db \<Rightarrow> image_row \<Rightarrow> bool) \<Rightarrow> image_db \<Rightarrow> image_row list" where
  "newest_first p db = sort_key (\<lambda>r. - ir_id r) (filter (p db) (rows db))"

lemma set_newest_first [simp]: "set (newest_first p db) = {r \<in> set (rows db). p db r}"
  by (auto simp: newest_first_def)

lemma length_newest_first: "length (newest_first p db) = length (filter (p db) (rows db))"
  by (simp add: newest_first_def)

lemma find_page_quiet:
  assumes "wf_db db" "quiet db"
  shows "find_page p now page sz db = (Inr
     \<lparr>page_content = map (image_of now) (take (nat (normalizeSize sz))
         (drop (nat (normalizePage page * normalizeSize sz)) (newest_first p db))),
      page_total = int (length (newest_first p db))\<rparr>, db)"
proof -
  let ?o = "normalizePage page * normalizeSize sz"
  let ?rs = "take (nat (normalizeSize sz)) (drop (nat ?o) (newest_first p db))"
  let ?n = "int (length (newest_first p db))"
  have r: "set ?rs \<subseteq> set (rows db)"
    by (rule order_trans [OF set_take_subset], rule order_trans [OF set_drop_subset]) auto
  have s: "sql_page p (normalizeSize sz) ?o db = (map (\<lambda>r. (r, ?n)) ?rs, db)"
    by (simp add: sql_page_def newest_first_def Let_def)
  have c: "collectPagedResultRows now (map (\<lambda>r. (r, ?n)) ?rs) \<lparr>page_content = [], page_total = 0\<rparr> =
      Inr \<lparr>page_content = map (image_of now) ?rs, page_total = (if ?rs = [] then 0 else ?n)\<rparr>"
    by (subst collect_pages [where n = ?n]) (use wf_rows_id [OF assms(1)] r in \<open>auto simp: o_def\<close>)
  have z: "?n = 0" if "?rs = []" "\<not> ?o > 0"
    using that normalizeSize_def by (auto simp: take_eq_Nil split: if_splits)
  show ?thesis
    unfolding find_page_def Let_def using z
    by (simp add: exec_quiet_bind [OF assms(2)] bindp_def [of ensureTable] assms(2) s c
        del: take_eq_Nil drop_eq_Nil map_eq_conv)
      (auto simp: sql_count_def length_newest_first newest_first_def)
qed

lemma newest_first_sorted: "sorted_wrt (\<lambda>a b. ir_id b \<le> ir_id a) (newest_first p db)"
proof -
  have "sorted (map (\<lambda>r. - ir_id r) (newest_first p db))"
    unfolding newest_first_def by (rule sorted_sort_key)
  then show ?thesis by (simp add: sorted_wrt_map)
qed

text \<open>
  C27: a page of a user's tasks is the slice, at the page's offset, of the list of
  exactly that user's tasks (of the wanted status), newest identifier first; the total is the
  number of these tasks also when the page lies behind the last one; a negative page is the first
  page and a size that is not positive is ten; the offset of any two \<open>int\<close> arguments fits 64 bits;
  and reading a page changes nothing.
\<close>

theorem pages_are_slices:
  assumes "wf_db db" "quiet db" "is_int32 page" "is_int32 sz"
  shows "let p = (if page < 0 then 0 else page); s = (if sz \<le> 0 then 10 else sz);
             mine = newest_first (of_user u) db; those = newest_first (of_user_status u st) db
         in is_int64 (p * s) \<and>
            set mine = {r \<in> set (rows db). ir_user_id r = u} \<and>
            set those = {r \<in> set (rows db). ir_user_id r = u \<and> row_status r = st} \<and>
            sorted_wrt (\<lambda>a b. ir_id b \<le> ir_id a) mine \<and> sorted_wrt (\<lambda>a b. ir_id b \<le> ir_id a) those \<and>
            findByUserId now u page sz db = (Inr
              \<lparr>page_content = map (image_of now) (take (nat s) (drop (nat (p * s)) mine)),
               page_total = int (length mine)\<rparr>, db) \<and>
            findByUserIdAndStatus now u st page sz db = (Inr
              \<lparr>page_content = map (image_of now) (take (nat s) (drop (nat (p * s)) those)),
               page_total = int (length those)\<rparr>, db)"
proof -
  have off: "is_int64 (normalizePage page * normalizeSize sz)"
    using assms(3,4) by (intro int32_mult_int64) (auto simp: normalizePage_def normalizeSize_def is_int32_def)
  have st: "of_user_status u st db r \<longleftrightarrow> ir_user_id r = u \<and> row_status r = st" if "r \<in> set (rows db)" for r
    using status_eq_iff [OF assms(1) wf_rowD [OF assms(1) that]] by (simp add: of_user_status_def)
  have f: "repoInvoke (find_page p now page sz) db = (Inr
     \<lparr>page_content = map (image_of now) (take (nat (normalizeSize sz))
         (drop (nat (normalizePage page * normalizeSize sz)) (newest_first p db))),
      page_total = int (length (newest_first p db))\<rparr>, db)" for p
    by (rule repoInvoke_Inr) (rule find_page_quiet [OF assms(1,2)])
  show ?thesis
    unfolding Let_def findByUserId_def findByUserIdAndStatus_def f
    using off st newest_first_sorted
    by (auto simp: of_user_def normalizePage_def [symmetric] normalizeSize_def [symmetric])
qed

theorem pages_are_slices_witness:
  "findByUserId 7 5 1 1 (demo_db [demo_row 1 5 Queued, demo_row 2 6 Failed, demo_row 3 5 Success]) =
     (Inr \<lparr>page_content = [image_of 7 (demo_row 1 5 Queued)], page_total = 2\<rparr>,
      demo_db [demo_row 1 5 Queued, demo_row 2 6 Failed, demo_row 3 5 Success])"
proof -
  let ?rs = "[demo_row 1 5 Queued, demo_row 2 6 Failed, demo_row 3 5 Success]"
  have wf: "wf_db (demo_db ?rs)" by (rule wf_demo_db) simp_all
  have m: "newest_first (of_user 5) (demo_db ?rs) = [demo_row 3 5 Success, demo_row 1 5 Queued]"
    by (simp add: newest_first_def of_user_def)
  have i: "is_int32 1" by (simp add: is_int32_def)
  show ?thesis
    using pages_are_slices [OF wf demo_db_sel(5) i i, of 5 Queued 7] by (simp add: m Let_def)
qed

section \<open>Users do not reach each other's tasks\<close>

fun op_user :: "repo_op \<Rightarrow> int option" where
  "op_user (OpInsert now g) = Some (img_user_id g)"
| "op_user (OpPage now u p s) = Some u"
| "op_user (OpPageStatus now u st p s) = Some u"
| "op_user (OpFind now i u) = Some u"
| "op_user (OpFindRequest now rid u) = Some u"
| "op_user (OpCount u) = Some u"
| "op_user (OpDelete i u) = Some u"
| "op_user (OpCancel now i u) = Some u"
| "op_user (OpRetry now i u) = Some u"
| "op_user (OpRenew now i u w l) = Some u"
| "op_user (OpFinish g) = Some (img_user_id g)"
| "op_user (OpDefer i u w c m) = Some u"
| "op_user (OpUpdateStatus now i u st m) = Some u"
| "op_user _ = None"

definition rows_of_others :: "int \<Rightarrow> image_db \<Rightarrow> image_row list" where
  "rows_of_others u db = filter (\<lambda>r. ir_user_id r \<noteq> u) (rows db)"

lemma others_update:
  "(\<And>r. p r \<Longrightarrow> ir_user_id r = u \<and> ir_user_id (f r) = u) \<Longrightarrow>
   filter (\<lambda>r. ir_user_id r \<noteq> u) (map (\<lambda>r. if p r then f r else r) rs) = filter (\<lambda>r. ir_user_id r \<noteq> u) rs"
  by (induction rs) auto

lemma others_sql_update:
  assumes "\<And>r. p r \<Longrightarrow> ir_user_id r = u" "\<And>r. ir_user_id (f r) = ir_user_id r"
  shows "rows_of_others u (snd (sql_update p f db)) = rows_of_others u db"
  unfolding rows_of_others_def sql_update_sel by (rule others_update) (simp add: assms)

lemma others_sql_delete:
  assumes "\<And>r. p r \<Longrightarrow> ir_user_id r = u"
  shows "rows_of_others u (snd (sql_delete p db)) = rows_of_others u db"
  using assms by (auto simp: rows_of_others_def sql_delete_def intro: filter_cong)

lemma op_write_others:
  assumes "op_write op f" "op_user op = Some u"
  shows "rows_of_others u (snd (f db)) = rows_of_others u db"
  using assms
proof cases
  case (1 i u')
  with assms(2) show ?thesis by (auto simp: by_id_and_user_def intro: others_sql_delete)
next
  case (4 now i u' w l)
  with assms(2) show ?thesis
    by (auto simp: stmt_renew_def held_row_def by_id_and_user_def intro: others_sql_update)
next
  case (5 g)
  with assms(2) show ?thesis
    by (auto simp: stmt_finish_def held_row_def by_id_and_user_def intro: others_sql_update)
next
  case (6 i u' w c m)
  with assms(2) show ?thesis
    by (auto simp: stmt_defer_def held_row_def by_id_and_user_def intro: others_sql_update)
next
  case (7 i u' now)
  with assms(2) show ?thesis by (auto simp: stmt_cancel_def by_id_and_user_def intro: others_sql_update)
next
  case (8 i u' now)
  with assms(2) show ?thesis by (auto simp: stmt_retry_def by_id_and_user_def intro: others_sql_update)
next
  case (13 now i u' st m)
  with assms(2) show ?thesis by (auto simp: by_id_and_user_def intro: others_sql_update)
qed (use assms(2) in simp_all)

lemma run_op_others:
  assumes "op_user op = Some u"
  shows "rows_of_others u (run_op op db) = rows_of_others u db"
proof (rule run_op_keeps [where I = "\<lambda>db'. rows_of_others u db' = rows_of_others u db"])
  show "table_pred (\<lambda>db'. rows_of_others u db' = rows_of_others u db)"
    by (simp add: table_pred_def rows_of_others_def)
qed (use assms op_write_others in \<open>auto simp: rows_of_others_def sql_insert_def\<close>)

lemma findByIdAndUserId_SomeD:
  assumes "table_ready db" "findByIdAndUserId now i u db = (Inr (Some img), db')"
  shows "\<exists>r\<in>set (rows db). ir_id r = i \<and> ir_user_id r = u \<and> rowToImageGeneration now r = Inr img"
proof -
  obtain rs db1 where s: "select_where (\<lambda>_. by_id_and_user i u) db = (Inr rs, db1)"
    and f: "rs \<noteq> []" "rowToImageGeneration now (hd rs) = Inr img"
    using assms by (auto simp: findByIdAndUserId_def repoInvoke_ready repoInvoke_def bindp_def
        split: prod.splits sum.splits dest!: fetch_one_InrD)
  then show ?thesis
    using select_where_InrD [OF s] hd_in_set [of rs] by (auto simp: by_id_and_user_def)
qed

text \<open>
  C24: an operation made for one user, with any of its statements failing, leaves
  every row of every other user as it is and in its place; and a lookup by identifier returns a
  row only when that row exists with that identifier and belongs to the asking user.
\<close>

theorem users_are_isolated:
  assumes "op_user op = Some u"
  shows "filter (\<lambda>r. ir_user_id r \<noteq> u) (rows (run_op op db)) = filter (\<lambda>r. ir_user_id r \<noteq> u) (rows db) \<and>
     (\<forall>now i img. table_ready db \<longrightarrow> fst (findByIdAndUserId now i u db) = Inr (Some img) \<longrightarrow>
        (\<exists>r\<in>set (rows db). ir_id r = i \<and> ir_user_id r = u \<and> rowToImageGeneration now r = Inr img))"
  using run_op_others [OF assms, of db] findByIdAndUserId_SomeD [of db]
  by (auto simp: rows_of_others_def) (metis prod.collapse)

theorem users_are_isolated_witness:
  "filter (\<lambda>r. ir_user_id r \<noteq> 5) (rows (run_op (OpDelete 2 5) (demo_db [demo_row 1 5 Success, demo_row 2 6 Success])))
   = [demo_row 2 6 Success]"
  using users_are_isolated [of "OpDelete 2 5" 5 "demo_db [demo_row 1 5 Success, demo_row 2 6 Success]"]
  by simp

end
