(* ===== verification/Redis_Server.thy ===== *)
theory Redis_Server
  imports Errors Chrono
begin

text \<open>
  The Redis commands that the code sends, with the meaning the Redis documentation gives them:
  keys that hold a string, a list or a set and may expire, and the Lua scripts of the code, which
  the server runs without interleaving. The state holds the clock of the server and the fate of
  the commands to come; a command may be refused or run and lose its reply.
\<close>

datatype rvalue = RStr string | RList "string list" | RSet "string list"

datatype cmd_fault = CmdRuns | CmdRefused exn | CmdReplyLost exn

record redis_server =
  r_store :: "string \<Rightarrow> (rvalue \<times> time_point option) option"
  r_now :: time_point
  r_faults :: "cmd_fault list"

text \<open>A key is gone from the moment its time to live is over.\<close>

definition live_at :: "time_point \<Rightarrow> (rvalue \<times> time_point option) option \<Rightarrow> (rvalue \<times> time_point option) option" where
  "live_at t x = (case x of
      Some (v, Some e) \<Rightarrow> if e \<le> t then None else Some (v, Some e)
    | other \<Rightarrow> other)"

definition r_live :: "redis_server \<Rightarrow> string \<Rightarrow> (rvalue \<times> time_point option) option" where
  "r_live s k = live_at (r_now s) (r_store s k)"

definition r_value :: "redis_server \<Rightarrow> string \<Rightarrow> rvalue option" where
  "r_value s k = map_option fst (r_live s k)"

definition r_put :: "string \<Rightarrow> (rvalue \<times> time_point option) option \<Rightarrow> redis_server \<Rightarrow> redis_server" where
  "r_put k v s = s\<lparr>r_store := (r_store s)(k := v)\<rparr>"

definition wrong_type :: exn where
  "wrong_type = RedisError ''WRONGTYPE Operation against a key holding the wrong kind of value''"

type_synonym 'a rcmd = "redis_server \<Rightarrow> (exn + 'a) \<times> redis_server"

text \<open>One round trip to the server.\<close>

definition r_exec :: "'a rcmd \<Rightarrow> (redis_server, 'a) prog" where
  "r_exec f s = (case r_faults s of
      [] \<Rightarrow> f s
    | CmdRuns # fs \<Rightarrow> f (s\<lparr>r_faults := fs\<rparr>)
    | CmdRefused e # fs \<Rightarrow> (Inl e, s\<lparr>r_faults := fs\<rparr>)
    | CmdReplyLost e # fs \<Rightarrow> (Inl e, snd (f (s\<lparr>r_faults := fs\<rparr>))))"

section \<open>Strings\<close>

definition cmd_get :: "string \<Rightarrow> string option rcmd" where
  "cmd_get k s = (case r_value s k of
      None \<Rightarrow> (Inr None, s) | Some (RStr v) \<Rightarrow> (Inr (Some v), s) | Some _ \<Rightarrow> (Inl wrong_type, s))"

definition cmd_setex :: "string \<Rightarrow> int \<Rightarrow> string \<Rightarrow> unit rcmd" where
  "cmd_setex k ttl v s =
     (if ttl \<le> 0 then (Inl (RedisError ''ERR invalid expire time in setex command''), s)
      else (Inr (), r_put k (Some (RStr v, Some (r_now s + ttl * ns))) s))"

text \<open>\<open>SET key value EX ttl NX\<close>.\<close>

definition cmd_set_nx :: "string \<Rightarrow> string \<Rightarrow> int \<Rightarrow> bool rcmd" where
  "cmd_set_nx k v ttl s =
     (if ttl \<le> 0 then (Inl (RedisError ''ERR invalid expire time in set command''), s)
      else if r_live s k \<noteq> None then (Inr False, s)
      else (Inr True, r_put k (Some (RStr v, Some (r_now s + ttl * ns))) s))"

definition cmd_del :: "string \<Rightarrow> int rcmd" where
  "cmd_del k s = (Inr (if r_live s k = None then 0 else 1), r_put k None s)"

definition cmd_exists :: "string \<Rightarrow> int rcmd" where
  "cmd_exists k s = (Inr (if r_live s k = None then 0 else 1), s)"

definition cmd_expire :: "string \<Rightarrow> int \<Rightarrow> bool rcmd" where
  "cmd_expire k ttl s = (case r_live s k of
      None \<Rightarrow> (Inr False, s)
    | Some (v, _) \<Rightarrow> (Inr True, r_put k (if ttl \<le> 0 then None else Some (v, Some (r_now s + ttl * ns))) s))"

text \<open>A value is a number when it is the decimal text of a 64-bit integer.\<close>

definition as_number :: "string \<Rightarrow> int option" where
  "as_number v = (case stoll v of Inl _ \<Rightarrow> None | Inr n \<Rightarrow> if fmt_int n = v then Some n else None)"

definition cmd_incr :: "string \<Rightarrow> int rcmd" where
  "cmd_incr k s = (case r_live s k of
      None \<Rightarrow> (Inr 1, r_put k (Some (RStr (fmt_int 1), None)) s)
    | Some (RStr v, e) \<Rightarrow> (case as_number v of
          Some n \<Rightarrow> if is_int64 (n + 1) then (Inr (n + 1), r_put k (Some (RStr (fmt_int (n + 1)), e)) s)
                   else (Inl (RedisError ''ERR increment or decrement would overflow''), s)
        | None \<Rightarrow> (Inl (RedisError ''ERR value is not an integer or out of range''), s))
    | Some _ \<Rightarrow> (Inl wrong_type, s))"

section \<open>Lists and sets\<close>

text \<open>An empty list or set is a missing key.\<close>

definition r_list :: "redis_server \<Rightarrow> string \<Rightarrow> (string list \<times> time_point option) option" where
  "r_list s k = (case r_live s k of None \<Rightarrow> Some ([], None) | Some (RList xs, e) \<Rightarrow> Some (xs, e) | _ \<Rightarrow> None)"

definition put_list :: "string \<Rightarrow> string list \<Rightarrow> time_point option \<Rightarrow> redis_server \<Rightarrow> redis_server" where
  "put_list k xs e = r_put k (if xs = [] then None else Some (RList xs, e))"

definition cmd_lpush :: "string \<Rightarrow> string \<Rightarrow> int rcmd" where
  "cmd_lpush k v s = (case r_list s k of
      None \<Rightarrow> (Inl wrong_type, s)
    | Some (xs, e) \<Rightarrow> (Inr (int (length xs) + 1), put_list k (v # xs) e s))"

text \<open>\<open>BRPOP\<close> with a time-out: the last element, or nothing when the list stays empty.\<close>

definition cmd_brpop :: "string \<Rightarrow> string option rcmd" where
  "cmd_brpop k s = (case r_list s k of
      None \<Rightarrow> (Inl wrong_type, s)
    | Some (xs, e) \<Rightarrow> if xs = [] then (Inr None, s)
                      else (Inr (Some (last xs)), put_list k (butlast xs) e s))"

definition cmd_lrem_all :: "string \<Rightarrow> string \<Rightarrow> int rcmd" where
  "cmd_lrem_all k v s = (case r_list s k of
      None \<Rightarrow> (Inl wrong_type, s)
    | Some (xs, e) \<Rightarrow> (Inr (int (count_list xs v)), put_list k (filter (\<lambda>x. x \<noteq> v) xs) e s))"

definition r_set :: "redis_server \<Rightarrow> string \<Rightarrow> (string list \<times> time_point option) option" where
  "r_set s k = (case r_live s k of None \<Rightarrow> Some ([], None) | Some (RSet xs, e) \<Rightarrow> Some (xs, e) | _ \<Rightarrow> None)"

definition put_set :: "string \<Rightarrow> string list \<Rightarrow> time_point option \<Rightarrow> redis_server \<Rightarrow> redis_server" where
  "put_set k xs e = r_put k (if xs = [] then None else Some (RSet xs, e))"

definition cmd_sadd :: "string \<Rightarrow> string \<Rightarrow> int rcmd" where
  "cmd_sadd k v s = (case r_set s k of
      None \<Rightarrow> (Inl wrong_type, s)
    | Some (xs, e) \<Rightarrow> if v \<in> set xs then (Inr 0, s) else (Inr 1, put_set k (v # xs) e s))"

definition cmd_srem :: "string \<Rightarrow> string \<Rightarrow> int rcmd" where
  "cmd_srem k v s = (case r_set s k of
      None \<Rightarrow> (Inl wrong_type, s)
    | Some (xs, e) \<Rightarrow> (Inr (if v \<in> set xs then 1 else 0), put_set k (filter (\<lambda>x. x \<noteq> v) xs) e s))"

definition cmd_smembers :: "string \<Rightarrow> string list rcmd" where
  "cmd_smembers k s = (case r_set s k of
      None \<Rightarrow> (Inl wrong_type, s) | Some (xs, _) \<Rightarrow> (Inr xs, s))"

definition cmd_ping :: "unit rcmd" where
  "cmd_ping s = (Inr (), s)"

section \<open>Facts\<close>

lemma r_put_sel [simp]:
  "r_now (r_put k v s) = r_now s" "r_faults (r_put k v s) = r_faults s"
  "r_store (r_put k v s) = (r_store s)(k := v)"
  by (simp_all add: r_put_def)

lemma r_live_put [simp]:
  "r_live (r_put k v s) k' = (if k' = k then live_at (r_now s) v else r_live s k')"
  by (simp add: r_live_def)

lemma live_at_simps [simp]:
  "live_at t None = None" "live_at t (Some (v, None)) = Some (v, None)"
  "live_at t (Some (v, Some e)) = (if e \<le> t then None else Some (v, Some e))"
  by (simp_all add: live_at_def)

lemma live_at_idem [simp]: "live_at t (live_at t x) = live_at t x"
  by (auto simp: live_at_def split: option.splits)

lemma ttl_ns [simp]: "ttl * ns \<le> 0 \<longleftrightarrow> ttl \<le> 0"
  by (simp add: ns_def)

lemma r_value_put:
  "r_value (r_put j x s) i = (if i = j then map_option fst (live_at (r_now s) x) else r_value s i)"
  by (simp add: r_value_def)

lemma r_value_None: "r_value s k = None \<longleftrightarrow> r_live s k = None"
  by (simp add: r_value_def)

lemma r_live_cong: "r_store s' k = r_store s k \<Longrightarrow> r_now s' = r_now s \<Longrightarrow> r_live s' k = r_live s k"
  by (simp add: r_live_def)

lemma r_exec_quiet [simp]: "r_faults s = [] \<Longrightarrow> r_exec f s = f s"
  by (simp add: r_exec_def)

text \<open>The outcome of a round trip: nothing happened but an error, or the command ran.\<close>

lemma r_exec_cases:
  obtains e fs where "r_exec f s = (Inl e, s\<lparr>r_faults := fs\<rparr>)"
  | fs where "r_exec f s = f (s\<lparr>r_faults := fs\<rparr>)"
  | e fs where "r_exec f s = (Inl e, snd (f (s\<lparr>r_faults := fs\<rparr>)))"
proof (cases "r_faults s")
  case Nil
  then have "s = s\<lparr>r_faults := []\<rparr>" by simp
  with Nil that(2) [of "[]"] show ?thesis by (simp add: r_exec_def)
next
  case (Cons x fs)
  then show ?thesis using that by (cases x) (auto simp: r_exec_def)
qed

lemma r_exec_InrD: "r_exec f s = (Inr x, s') \<Longrightarrow> \<exists>fs. f (s\<lparr>r_faults := fs\<rparr>) = (Inr x, s')"
  by (cases rule: r_exec_cases [of f s]) auto

lemma r_faults_sel [simp]:
  "r_live (s\<lparr>r_faults := fs\<rparr>) = r_live s" "r_value (s\<lparr>r_faults := fs\<rparr>) = r_value s"
  "r_list (s\<lparr>r_faults := fs\<rparr>) = r_list s" "r_set (s\<lparr>r_faults := fs\<rparr>) = r_set s"
  by (simp_all add: fun_eq_iff r_value_def r_list_def r_set_def r_live_def)

lemma as_number_fmt [simp]: "is_int64 n \<Longrightarrow> as_number (fmt_int n) = Some n"
  by (simp add: as_number_def stoll_fmt_int)

end
