(* ===== verification/Redis_Client.thy ===== *)
theory Redis_Client
  imports Redis_Server Json_Model
begin

text \<open>
  \<open>Backend/src/services/redis_client.cpp\<close>: the task queue (a list, pushed at the head and popped
  at the tail), the task leases (a key per task with a time to live) and the key-value helpers of
  the refresh-token store. The state is the configuration, whether a connection object exists,
  and the server behind it. The code calls the operations only after \<open>isAvailable\<close>; a call
  without a connection object dereferences null, and the definitions throw \<open>ForeignExn\<close> there.
\<close>

record redis_config =
  rc_host :: string
  rc_port :: int
  rc_password :: string
  rc_db :: int
  rc_pool_size :: int
  rc_connect_timeout_ms :: int
  rc_socket_timeout_ms :: int
  rc_task_queue_key :: string
  rc_lease_key_prefix :: string
  rc_enabled :: bool

definition default_redis_config :: redis_config where
  "default_redis_config = \<lparr>rc_host = ''127.0.0.1'', rc_port = 6379, rc_password = [], rc_db = 0,
     rc_pool_size = 4, rc_connect_timeout_ms = 1000, rc_socket_timeout_ms = 5000,
     rc_task_queue_key = ''zimage:task_queue'', rc_lease_key_prefix = ''zimage:lease:'',
     rc_enabled = True\<rparr>"

definition parseRedisConfig :: "json \<Rightarrow> exn + redis_config" where
  "parseRedisConfig j = (let c = default_redis_config in
     bindr (jvalue as_string j ''host'' (rc_host c)) (\<lambda>h.
     bindr (jvalue as_int32 j ''port'' (rc_port c)) (\<lambda>p.
     bindr (jvalue as_string j ''password'' (rc_password c)) (\<lambda>pw.
     bindr (jvalue as_int32 j ''db'' (rc_db c)) (\<lambda>d.
     bindr (jvalue as_int32 j ''pool_size'' (rc_pool_size c)) (\<lambda>ps.
     bindr (jvalue as_int32 j ''connect_timeout_ms'' (rc_connect_timeout_ms c)) (\<lambda>ct.
     bindr (jvalue as_int32 j ''socket_timeout_ms'' (rc_socket_timeout_ms c)) (\<lambda>st.
     bindr (jvalue as_string j ''task_queue_key'' (rc_task_queue_key c)) (\<lambda>qk.
     bindr (jvalue as_string j ''lease_key_prefix'' (rc_lease_key_prefix c)) (\<lambda>lp.
     bindr (jvalue as_bool j ''enabled'' (rc_enabled c)) (\<lambda>en.
     Inr \<lparr>rc_host = h, rc_port = p, rc_password = pw, rc_db = d, rc_pool_size = ps,
          rc_connect_timeout_ms = ct, rc_socket_timeout_ms = st, rc_task_queue_key = qk,
          rc_lease_key_prefix = lp, rc_enabled = en\<rparr>)))))))))))"

record redis_client =
  rc_config :: redis_config
  rc_impl :: bool
  rc_server :: redis_server

definition redis_isAvailable :: "redis_client \<Rightarrow> bool" where
  "redis_isAvailable c \<longleftrightarrow> rc_enabled (rc_config c) \<and> rc_impl c"

text \<open>\<open>impl_->redis.\<dots>\<close>: one command or script on the server.\<close>

definition on_server :: "'a rcmd \<Rightarrow> (redis_client, 'a) prog" where
  "on_server f c =
     (if \<not> rc_impl c then (Inl ForeignExn, c)
      else let (r, s) = r_exec f (rc_server c) in (r, c\<lparr>rc_server := s\<rparr>))"

definition redis_init :: "redis_config \<Rightarrow> redis_client \<Rightarrow> redis_client" where
  "redis_init cfg c = c\<lparr>rc_config := cfg, rc_impl := True\<rparr>"

text \<open>\<open>catch (const sw::redis::Error&)\<close> with a value to return.\<close>

definition redis_or :: "'a \<Rightarrow> ('s, 'a) prog \<Rightarrow> ('s, 'a) prog" where
  "redis_or d m s = (case m s of
      (Inl e, s') \<Rightarrow> if is_redis_exn e then (Inr d, s') else (Inl e, s')
    | (Inr x, s') \<Rightarrow> (Inr x, s'))"

definition redis_ping :: "(redis_client, bool) prog" where
  "redis_ping c =
     (if \<not> redis_isAvailable c then (Inr False, c)
      else case on_server cmd_ping c of
        (Inr _, c') \<Rightarrow> (Inr True, c')
      | (Inl e, c') \<Rightarrow> if is_redis_exn e
          then (Inr False, c'\<lparr>rc_impl := False, rc_config := (rc_config c')\<lparr>rc_enabled := False\<rparr>\<rparr>)
          else (Inl e, c'))"

section \<open>The task queue\<close>

definition queue_key :: "redis_client \<Rightarrow> string" where
  "queue_key c = rc_task_queue_key (rc_config c)"

definition enqueueTask :: "int \<Rightarrow> (redis_client, unit) prog" where
  "enqueueTask taskId c =
     bindp (on_server (cmd_lpush (queue_key c) (fmt_int taskId))) (\<lambda>_. ret ()) c"

text \<open>The script of \<open>rebuildTaskQueue\<close>: DEL, then an LPUSH per argument. A failing command ends
  the script; what it did before stays.\<close>

fun lpush_all :: "string \<Rightarrow> string list \<Rightarrow> unit rcmd" where
  "lpush_all k [] s = (Inr (), s)"
| "lpush_all k (v # vs) s = (case cmd_lpush k v s of
      (Inl e, s') \<Rightarrow> (Inl e, s') | (Inr _, s') \<Rightarrow> lpush_all k vs s')"

definition script_rebuild :: "string \<Rightarrow> string list \<Rightarrow> int rcmd" where
  "script_rebuild k args s = (case cmd_del k s of
      (Inl e, s') \<Rightarrow> (Inl e, s')
    | (Inr _, s') \<Rightarrow> (case lpush_all k args s' of
          (Inl e, s'') \<Rightarrow> (Inl e, s'') | (Inr _, s'') \<Rightarrow> (Inr (int (length args)), s'')))"

definition rebuildTaskQueue :: "int list \<Rightarrow> (redis_client, unit) prog" where
  "rebuildTaskQueue taskIds c =
     bindp (on_server (script_rebuild (queue_key c) (map fmt_int taskIds))) (\<lambda>_. ret ()) c"

definition dequeueTask :: "(redis_client, int option) prog" where
  "dequeueTask c = redis_or None (bindp (on_server (cmd_brpop (queue_key c))) (\<lambda>r.
     case r of None \<Rightarrow> ret None
     | Some v \<Rightarrow> (case stoll v of Inl e \<Rightarrow> throw e | Inr n \<Rightarrow> ret (Some n)))) c"

definition removeFromQueue :: "int \<Rightarrow> (redis_client, bool) prog" where
  "removeFromQueue taskId c = redis_or False
     (bindp (on_server (cmd_lrem_all (queue_key c) (fmt_int taskId))) (\<lambda>n. ret (n > 0))) c"

section \<open>Leases\<close>

definition leaseKey :: "redis_config \<Rightarrow> int \<Rightarrow> string" where
  "leaseKey cfg taskId = rc_lease_key_prefix cfg @ fmt_int taskId"

definition lease_key :: "redis_client \<Rightarrow> int \<Rightarrow> string" where
  "lease_key c taskId = leaseKey (rc_config c) taskId"

definition acquireLease :: "int \<Rightarrow> string \<Rightarrow> int \<Rightarrow> (redis_client, bool) prog" where
  "acquireLease taskId workerId leaseSeconds c =
     redis_or False (on_server (cmd_set_nx (lease_key c taskId) workerId leaseSeconds)) c"

definition script_renew :: "string \<Rightarrow> string \<Rightarrow> int \<Rightarrow> int rcmd" where
  "script_renew k w ttl s = (case cmd_get k s of
      (Inl e, s') \<Rightarrow> (Inl e, s')
    | (Inr v, s') \<Rightarrow> if v = Some w then (case cmd_expire k ttl s' of
          (Inl e, s'') \<Rightarrow> (Inl e, s'') | (Inr _, s'') \<Rightarrow> (Inr 1, s''))
        else (Inr 0, s'))"

definition redis_renewLease :: "int \<Rightarrow> string \<Rightarrow> int \<Rightarrow> (redis_client, bool) prog" where
  "redis_renewLease taskId workerId leaseSeconds c = redis_or False
     (bindp (on_server (script_renew (lease_key c taskId) workerId leaseSeconds)) (\<lambda>n. ret (n = 1))) c"

definition script_release :: "string \<Rightarrow> string \<Rightarrow> int rcmd" where
  "script_release k w s = (case cmd_get k s of
      (Inl e, s') \<Rightarrow> (Inl e, s')
    | (Inr v, s') \<Rightarrow> if v = Some w then cmd_del k s' else (Inr 0, s'))"

definition releaseLease :: "int \<Rightarrow> string \<Rightarrow> (redis_client, bool) prog" where
  "releaseLease taskId workerId c = redis_or False
     (bindp (on_server (script_release (lease_key c taskId) workerId)) (\<lambda>n. ret (n = 1))) c"

definition forceReleaseLease :: "int \<Rightarrow> (redis_client, bool) prog" where
  "forceReleaseLease taskId c = redis_or False
     (bindp (on_server (cmd_del (lease_key c taskId))) (\<lambda>n. ret (n > 0))) c"

definition leaseExists :: "int \<Rightarrow> (redis_client, bool) prog" where
  "leaseExists taskId c = redis_or False
     (bindp (on_server (cmd_exists (lease_key c taskId))) (\<lambda>n. ret (n > 0))) c"

section \<open>Key-value helpers\<close>

definition kv_setex :: "string \<Rightarrow> string \<Rightarrow> int \<Rightarrow> (redis_client, unit) prog" where
  "kv_setex key v ttl = on_server (cmd_setex key ttl v)"

definition kv_get :: "string \<Rightarrow> (redis_client, string option) prog" where
  "kv_get key = on_server (cmd_get key)"

definition script_getdel :: "string \<Rightarrow> string option rcmd" where
  "script_getdel k s = (case cmd_get k s of
      (Inl e, s') \<Rightarrow> (Inl e, s')
    | (Inr None, s') \<Rightarrow> (Inr None, s')
    | (Inr (Some v), s') \<Rightarrow> (case cmd_del k s' of
          (Inl e, s'') \<Rightarrow> (Inl e, s'') | (Inr _, s'') \<Rightarrow> (Inr (Some v), s'')))"

definition kv_getDel :: "string \<Rightarrow> (redis_client, string option) prog" where
  "kv_getDel key = on_server (script_getdel key)"

definition kv_del :: "string \<Rightarrow> (redis_client, bool) prog" where
  "kv_del key = bindp (on_server (cmd_del key)) (\<lambda>n. ret (n > 0))"

definition kv_sadd :: "string \<Rightarrow> string \<Rightarrow> (redis_client, unit) prog" where
  "kv_sadd key v = bindp (on_server (cmd_sadd key v)) (\<lambda>_. ret ())"

definition kv_srem :: "string \<Rightarrow> string \<Rightarrow> (redis_client, unit) prog" where
  "kv_srem key v = bindp (on_server (cmd_srem key v)) (\<lambda>_. ret ())"

definition kv_smembers :: "string \<Rightarrow> (redis_client, string list) prog" where
  "kv_smembers key = on_server (cmd_smembers key)"

definition kv_expire :: "string \<Rightarrow> int \<Rightarrow> (redis_client, unit) prog" where
  "kv_expire key ttl = bindp (on_server (cmd_expire key ttl)) (\<lambda>_. ret ())"

end
