(* ===== verification/Task_Lease.thy ===== *)
theory Task_Lease
  imports Redis_Client Image_Repo_Users
begin

text \<open>
  The lease contract that the task engine relies on and its two providers: the Redis keys of
  \<open>redis_client.cpp\<close> and the rows of \<open>ImageRepo.cpp\<close>. The contract is a locale, its
  consequence (a lease is lost only by its holder's release) is proved once, and both models
  are shown to satisfy it, failing commands and statements included.
\<close>

section \<open>The contract\<close>

text \<open>
  \<open>holder s i\<close> is the worker that holds task \<open>i\<close>, as the store compares names (\<open>key\<close>). An acquire
  may report failure although it took the lease, when its reply is lost; it never reports
  success on a held lease.
\<close>

locale task_lease =
  fixes ok :: "'s \<Rightarrow> bool"
    and key :: "string \<Rightarrow> 'k"
    and holder :: "'s \<Rightarrow> int \<Rightarrow> 'k option"
    and acquire :: "int \<Rightarrow> string \<Rightarrow> 's \<Rightarrow> bool \<times> 's"
    and renew :: "int \<Rightarrow> string \<Rightarrow> 's \<Rightarrow> bool \<times> 's"
    and release :: "int \<Rightarrow> string \<Rightarrow> 's \<Rightarrow> bool \<times> 's"
  assumes acquire_ok: "ok s \<Longrightarrow> ok (snd (acquire i w s))"
    and renew_ok: "ok s \<Longrightarrow> ok (snd (renew i w s))"
    and release_ok: "ok s \<Longrightarrow> ok (snd (release i w s))"
    and acquire_true: "ok s \<Longrightarrow> acquire i w s = (True, s') \<Longrightarrow> holder s i = None \<and> holder s' i = Some (key w)"
    and acquire_held: "ok s \<Longrightarrow> holder s i = Some k \<Longrightarrow> holder (snd (acquire i w s)) i = Some k"
    and acquire_other: "ok s \<Longrightarrow> j \<noteq> i \<Longrightarrow> holder (snd (acquire i w s)) j = holder s j"
    and renew_true: "ok s \<Longrightarrow> renew i w s = (True, s') \<Longrightarrow> holder s i = Some (key w)"
    and renew_keeps: "ok s \<Longrightarrow> holder (snd (renew i w s)) = holder s"
    and release_true: "ok s \<Longrightarrow> release i w s = (True, s') \<Longrightarrow>
      holder s i = Some (key w) \<and> holder s' i = None"
    and release_fenced: "ok s \<Longrightarrow> holder s i \<noteq> Some (key w) \<Longrightarrow> holder (snd (release i w s)) i = holder s i"
    and release_other: "ok s \<Longrightarrow> j \<noteq> i \<Longrightarrow> holder (snd (release i w s)) j = holder s j"

datatype lease_op = Acquire int string | Renew int string | Release int string

context task_lease
begin

fun lease_step :: "lease_op \<Rightarrow> 's \<Rightarrow> bool \<times> 's" where
  "lease_step (Acquire i w) s = acquire i w s"
| "lease_step (Renew i w) s = renew i w s"
| "lease_step (Release i w) s = release i w s"

fun lease_run :: "lease_op list \<Rightarrow> 's \<Rightarrow> bool list \<times> 's" where
  "lease_run [] s = ([], s)"
| "lease_run (op # ops) s = (let (b, s') = lease_step op s; (bs, s'') = lease_run ops s' in (b # bs, s''))"

lemma step_ok: "ok s \<Longrightarrow> ok (snd (lease_step op s))"
  by (cases op) (simp_all add: acquire_ok renew_ok release_ok)

text \<open>Only a release by the holder ends a lease.\<close>

lemma step_held:
  assumes "ok s" "holder s i = Some k" "\<forall>w. op = Release i w \<longrightarrow> key w \<noteq> k"
  shows "holder (snd (lease_step op s)) i = Some k"
proof (cases op)
  case (Acquire j w)
  then show ?thesis
    using assms(1,2) acquire_held acquire_other [of s i j w] by (cases "j = i") auto
next
  case (Renew j w)
  then show ?thesis using assms(1,2) by (simp add: renew_keeps)
next
  case (Release j w)
  then show ?thesis
    using assms release_fenced [of s i w] release_other [of s i j w] by (cases "j = i") auto
qed

lemma run_held:
  assumes "ok s" "holder s i = Some k" "\<forall>op\<in>set ops. \<forall>w. op = Release i w \<longrightarrow> key w \<noteq> k"
  shows "holder (snd (lease_run ops s)) i = Some k"
  using assms
proof (induction ops arbitrary: s)
  case (Cons op ops)
  then show ?case
    using step_ok [of s op] step_held [of s i k op] by (auto simp: Let_def split_beta)
qed simp

text \<open>So after one worker's acquire no other acquire of the task succeeds before its release.\<close>

lemma exclusive:
  assumes "ok s" "acquire i w s = (True, s')"
    and "\<forall>op\<in>set ops. \<forall>w'. op = Release i w' \<longrightarrow> key w' \<noteq> key w"
  shows "holder (snd (lease_run ops s')) i = Some (key w) \<and>
     \<not> fst (acquire i v (snd (lease_run ops s')))"
proof -
  have ok': "ok s'" using acquire_ok [OF assms(1), of i w] assms(2) by simp
  have held: "holder s' i = Some (key w)" using acquire_true [OF assms(1,2)] by simp
  have h: "holder (snd (lease_run ops s')) i = Some (key w)" by (rule run_held [OF ok' held assms(3)])
  have "ok (snd (lease_run ops t))" if "ok t" for t
    using that step_ok by (induction ops arbitrary: t) (auto simp: Let_def split_beta)
  then have "ok (snd (lease_run ops s'))" using ok' .
  from acquire_true [OF this, of i v] h show ?thesis
    by (cases "acquire i v (snd (lease_run ops s'))") auto
qed

end

section \<open>The Redis provider\<close>

definition redis_holder :: "redis_client \<Rightarrow> int \<Rightarrow> string option" where
  "redis_holder c i = (case r_value (rc_server c) (lease_key c i) of Some (RStr w) \<Rightarrow> Some w | _ \<Rightarrow> None)"

text \<open>The answer of an operation, where an exception that is not a Redis error counts as false.\<close>

definition answer :: "('s, bool) prog \<Rightarrow> 's \<Rightarrow> bool \<times> 's" where
  "answer m s = (case m s of (Inr b, s') \<Rightarrow> (b, s') | (Inl _, s') \<Rightarrow> (False, s'))"

text \<open>The lease keys hold strings: nothing else writes under their prefix.\<close>

definition lease_keys_ok :: "redis_client \<Rightarrow> bool" where
  "lease_keys_ok c \<longleftrightarrow> (\<forall>i. case r_value (rc_server c) (lease_key c i) of
     Some (RStr _) \<Rightarrow> True | None \<Rightarrow> True | _ \<Rightarrow> False)"

lemma leaseKey_inj [simp]: "leaseKey cfg i = leaseKey cfg j \<longleftrightarrow> i = j"
  by (simp add: leaseKey_def)

lemma lease_key_server [simp]: "lease_key (c\<lparr>rc_server := s\<rparr>) i = lease_key c i"
  by (simp add: lease_key_def)

text \<open>What a lease operation can do to the server: nothing, or one command.\<close>

lemma answer_redis_or_cases:
  assumes "answer (redis_or False (bindp (on_server f) (\<lambda>n. ret (g n)))) c = (b, c')"
  obtains s fs where "c' = c\<lparr>rc_server := s\<rparr>"
    "(\<not> b \<and> s = (rc_server c)\<lparr>r_faults := fs\<rparr>) \<or>
     (\<exists>r. f ((rc_server c)\<lparr>r_faults := fs\<rparr>) = (r, s) \<and> (b \<longrightarrow> (\<exists>n. r = Inr n \<and> g n)))"
proof (cases "rc_impl c")
  case False
  then have "c' = c" "\<not> b" using assms by (auto simp: answer_def redis_or_def bindp_def on_server_def)
  then show ?thesis using that [of "rc_server c" "r_faults (rc_server c)"] by simp
next
  case True
  let ?s = "rc_server c"
  show ?thesis
  proof (cases rule: r_exec_cases [of f ?s])
    case (1 e fs)
    then show ?thesis using assms True that [of "?s\<lparr>r_faults := fs\<rparr>" fs]
      by (auto simp: answer_def redis_or_def bindp_def on_server_def split: if_splits)
  next
    case (2 fs)
    then show ?thesis using assms True that [of "snd (f (?s\<lparr>r_faults := fs\<rparr>))" fs]
      by (cases "f (?s\<lparr>r_faults := fs\<rparr>)"; cases "fst (f (?s\<lparr>r_faults := fs\<rparr>))")
        (fastforce simp: answer_def redis_or_def bindp_def on_server_def split: if_splits)+
  next
    case (3 e fs)
    then show ?thesis using assms True that [of "snd (f (?s\<lparr>r_faults := fs\<rparr>))" fs]
      by (cases "f (?s\<lparr>r_faults := fs\<rparr>)")
        (fastforce simp: answer_def redis_or_def bindp_def on_server_def split: if_splits)+
  qed
qed

lemma bindp_ret: "bindp m (\<lambda>n. ret n) = m"
  by (rule ext) (simp add: bindp_def split: prod.split sum.split)

lemmas answer_acquire_cases = answer_redis_or_cases [where g = "\<lambda>n. n", unfolded bindp_ret]

definition string_at :: "redis_server \<Rightarrow> string \<Rightarrow> string option" where
  "string_at s k = (case r_value s k of Some (RStr w) \<Rightarrow> Some w | _ \<Rightarrow> None)"

definition string_or_free :: "redis_server \<Rightarrow> string \<Rightarrow> bool" where
  "string_or_free s k \<longleftrightarrow> (case r_value s k of Some (RStr _) \<Rightarrow> True | None \<Rightarrow> True | _ \<Rightarrow> False)"

lemma string_at_faults [simp]:
  "string_at (s\<lparr>r_faults := fs\<rparr>) = string_at s" "string_or_free (s\<lparr>r_faults := fs\<rparr>) = string_or_free s"
  by (simp_all add: fun_eq_iff string_at_def string_or_free_def)

lemma redis_holder_eq: "redis_holder c i = string_at (rc_server c) (lease_key c i)"
  by (simp add: redis_holder_def string_at_def)

lemma lease_keys_ok_eq: "lease_keys_ok c \<longleftrightarrow> (\<forall>i. string_or_free (rc_server c) (lease_key c i))"
  by (simp add: lease_keys_ok_def string_or_free_def)

text \<open>The commands of the lease, by their effect on the strings of the server.\<close>

lemma set_nx_effect:
  assumes "cmd_set_nx k w ttl s = (r, s')"
  shows "j \<noteq> k \<Longrightarrow> r_value s' j = r_value s j"
    and "r = Inr True \<Longrightarrow> r_value s k = None \<and> r_value s' k = Some (RStr w)"
    and "r_value s k \<noteq> None \<Longrightarrow> s' = s"
    and "string_or_free s j \<Longrightarrow> string_or_free s' j"
  using assms
  by (cases "r_live s k"; auto simp: cmd_set_nx_def r_value_put r_value_None string_or_free_def
      split: if_splits)+

lemma renew_effect:
  assumes "script_renew k w ttl s = (r, s')" "0 < ttl"
  shows "string_at s' = string_at s" "r = Inr 1 \<Longrightarrow> string_at s k = Some w"
    "string_or_free s j \<Longrightarrow> string_or_free s' j"
proof -
  have e: "r_value (snd (cmd_expire k ttl s)) = r_value s"
    using assms(2)
    by (auto simp: fun_eq_iff cmd_expire_def r_value_put split: option.split prod.split)
      (auto simp: r_value_def)
  have f: "\<exists>b. fst (cmd_expire k ttl s) = Inr b"
    by (auto simp: cmd_expire_def split: option.split)
  have v: "r_value s' = r_value s \<and> (r = Inr 1 \<longrightarrow> string_at s k = Some w)"
    using assms(1) e f
    by (auto simp: script_renew_def cmd_get_def string_at_def split: option.splits rvalue.splits if_splits
        sum.splits prod.splits)
  show "string_at s' = string_at s" "r = Inr 1 \<Longrightarrow> string_at s k = Some w"
    "string_or_free s j \<Longrightarrow> string_or_free s' j"
    using v by (simp_all add: fun_eq_iff string_at_def string_or_free_def)
qed

lemma release_effect:
  assumes "script_release k w s = (r, s')"
  shows "j \<noteq> k \<Longrightarrow> r_value s' j = r_value s j"
    "r = Inr 1 \<Longrightarrow> string_at s k = Some w \<and> string_at s' k = None"
    "string_at s k \<noteq> Some w \<Longrightarrow> s' = s" "string_or_free s j \<Longrightarrow> string_or_free s' j"
  using assms
  by (auto simp: script_release_def cmd_get_def cmd_del_def string_at_def string_or_free_def r_value_put
      split: option.splits rvalue.splits if_splits)

section \<open>Interpretation: Redis keys\<close>

definition redis_acquire_op :: "int \<Rightarrow> int \<Rightarrow> string \<Rightarrow> redis_client \<Rightarrow> bool \<times> redis_client" where
  "redis_acquire_op l i w = answer (acquireLease i w l)"

definition redis_renew_op :: "int \<Rightarrow> int \<Rightarrow> string \<Rightarrow> redis_client \<Rightarrow> bool \<times> redis_client" where
  "redis_renew_op l i w = answer (redis_renewLease i w (lease_seconds l))"

definition redis_release_op :: "int \<Rightarrow> string \<Rightarrow> redis_client \<Rightarrow> bool \<times> redis_client" where
  "redis_release_op i w = answer (releaseLease i w)"

lemma lease_seconds_pos [simp]: "0 < lease_seconds l"
  by (simp add: lease_seconds_def)

text \<open>Each operation leaves the server as it was, but for its faults, or ran its command.\<close>

lemma acquire_op_cases:
  assumes "redis_acquire_op l i w c = (b, c')"
  obtains s fs where "c' = c\<lparr>rc_server := s\<rparr>"
    "(\<not> b \<and> s = (rc_server c)\<lparr>r_faults := fs\<rparr>) \<or>
     (\<exists>r. cmd_set_nx (lease_key c i) w l ((rc_server c)\<lparr>r_faults := fs\<rparr>) = (r, s) \<and> (b \<longrightarrow> r = Inr True))"
proof -
  have "answer (redis_or False (on_server (cmd_set_nx (lease_key c i) w l))) c = (b, c')"
    using assms by (simp add: redis_acquire_op_def acquireLease_def answer_def)
  then obtain s fs where c': "c' = c\<lparr>rc_server := s\<rparr>"
    and d: "(\<not> b \<and> s = (rc_server c)\<lparr>r_faults := fs\<rparr>) \<or>
     (\<exists>r. cmd_set_nx (lease_key c i) w l ((rc_server c)\<lparr>r_faults := fs\<rparr>) = (r, s) \<and> (b \<longrightarrow> (\<exists>n. r = Inr n \<and> n)))"
    by (rule answer_acquire_cases)
  show ?thesis by (rule that [OF c']) (use d in fastforce)
qed

lemma renew_op_cases:
  assumes "redis_renew_op l i w c = (b, c')"
  obtains s fs where "c' = c\<lparr>rc_server := s\<rparr>"
    "(\<not> b \<and> s = (rc_server c)\<lparr>r_faults := fs\<rparr>) \<or>
     (\<exists>r. script_renew (lease_key c i) w (lease_seconds l) ((rc_server c)\<lparr>r_faults := fs\<rparr>) = (r, s) \<and>
        (b \<longrightarrow> r = Inr 1))"
proof -
  have "answer (redis_or False (bindp (on_server (script_renew (lease_key c i) w (lease_seconds l)))
      (\<lambda>n. ret (n = 1)))) c = (b, c')"
    using assms by (simp add: redis_renew_op_def redis_renewLease_def answer_def)
  then obtain s fs where c': "c' = c\<lparr>rc_server := s\<rparr>"
    and d: "(\<not> b \<and> s = (rc_server c)\<lparr>r_faults := fs\<rparr>) \<or>
     (\<exists>r. script_renew (lease_key c i) w (lease_seconds l) ((rc_server c)\<lparr>r_faults := fs\<rparr>) = (r, s) \<and> (b \<longrightarrow> (\<exists>n. r = Inr n \<and> n = 1)))"
    by (rule answer_redis_or_cases)
  show ?thesis by (rule that [OF c']) (use d in fastforce)
qed

lemma release_op_cases:
  assumes "redis_release_op i w c = (b, c')"
  obtains s fs where "c' = c\<lparr>rc_server := s\<rparr>"
    "(\<not> b \<and> s = (rc_server c)\<lparr>r_faults := fs\<rparr>) \<or>
     (\<exists>r. script_release (lease_key c i) w ((rc_server c)\<lparr>r_faults := fs\<rparr>) = (r, s) \<and>
        (b \<longrightarrow> r = Inr 1))"
proof -
  have "answer (redis_or False (bindp (on_server (script_release (lease_key c i) w))
      (\<lambda>n. ret (n = 1)))) c = (b, c')"
    using assms by (simp add: redis_release_op_def releaseLease_def answer_def)
  then obtain s fs where c': "c' = c\<lparr>rc_server := s\<rparr>"
    and d: "(\<not> b \<and> s = (rc_server c)\<lparr>r_faults := fs\<rparr>) \<or>
     (\<exists>r. script_release (lease_key c i) w ((rc_server c)\<lparr>r_faults := fs\<rparr>) = (r, s) \<and> (b \<longrightarrow> (\<exists>n. r = Inr n \<and> n = 1)))"
    by (rule answer_redis_or_cases)
  show ?thesis by (rule that [OF c']) (use d in fastforce)
qed

lemma lease_key_eq [simp]: "lease_key c i = lease_key c j \<longleftrightarrow> i = j"
  by (simp add: lease_key_def)

lemma string_at_value: "r_value s' k = r_value s k \<Longrightarrow> string_at s' k = string_at s k"
  by (simp add: string_at_def)

lemma string_at_free: "string_or_free s k \<Longrightarrow> string_at s k = Some w \<longleftrightarrow> r_value s k = Some (RStr w)"
  by (auto simp: string_at_def string_or_free_def split: option.splits rvalue.splits)

lemma acquire_op_effect:
  assumes "lease_keys_ok c" "redis_acquire_op l i w c = (b, c')"
  shows "lease_keys_ok c'" "b \<Longrightarrow> redis_holder c i = None \<and> redis_holder c' i = Some w"
    "redis_holder c i = Some k \<Longrightarrow> redis_holder c' i = Some k"
    "j \<noteq> i \<Longrightarrow> redis_holder c' j = redis_holder c j"
proof -
  obtain s fs where c': "c' = c\<lparr>rc_server := s\<rparr>"
    and d: "(\<not> b \<and> s = (rc_server c)\<lparr>r_faults := fs\<rparr>) \<or>
     (\<exists>r. cmd_set_nx (lease_key c i) w l ((rc_server c)\<lparr>r_faults := fs\<rparr>) = (r, s) \<and> (b \<longrightarrow> r = Inr True))"
    using acquire_op_cases [OF assms(2)] .
  from d have e: "(\<forall>j. j \<noteq> i \<longrightarrow> r_value s (lease_key c j) = r_value (rc_server c) (lease_key c j)) \<and>
      (b \<longrightarrow> r_value (rc_server c) (lease_key c i) = None \<and> r_value s (lease_key c i) = Some (RStr w)) \<and>
      (r_value (rc_server c) (lease_key c i) \<noteq> None \<longrightarrow> r_value s = r_value (rc_server c)) \<and>
      (\<forall>j. string_or_free (rc_server c) (lease_key c j) \<longrightarrow> string_or_free s (lease_key c j))"
  proof
    assume "\<exists>r. cmd_set_nx (lease_key c i) w l ((rc_server c)\<lparr>r_faults := fs\<rparr>) = (r, s) \<and> (b \<longrightarrow> r = Inr True)"
    then obtain r where r: "cmd_set_nx (lease_key c i) w l ((rc_server c)\<lparr>r_faults := fs\<rparr>) = (r, s)"
      "b \<longrightarrow> r = Inr True" by blast
    show ?thesis using set_nx_effect [OF r(1)] r(2) by fastforce
  qed simp
  show "lease_keys_ok c'" using e assms(1) by (simp add: lease_keys_ok_eq c')
  show "redis_holder c i = None \<and> redis_holder c' i = Some w" if b
    using e that by (simp add: redis_holder_eq c' string_at_def)
  show "redis_holder c' i = Some k" if "redis_holder c i = Some k"
    using e that by (auto simp: redis_holder_eq c' string_at_def split: option.splits)
  show "redis_holder c' j = redis_holder c j" if "j \<noteq> i"
    using e that by (simp add: redis_holder_eq c' string_at_def)
qed

lemma renew_op_effect:
  assumes "lease_keys_ok c" "redis_renew_op l i w c = (b, c')"
  shows "lease_keys_ok c'" "b \<Longrightarrow> redis_holder c i = Some w" "redis_holder c' = redis_holder c"
proof -
  obtain s fs where c': "c' = c\<lparr>rc_server := s\<rparr>"
    and d: "(\<not> b \<and> s = (rc_server c)\<lparr>r_faults := fs\<rparr>) \<or>
     (\<exists>r. script_renew (lease_key c i) w (lease_seconds l) ((rc_server c)\<lparr>r_faults := fs\<rparr>) = (r, s) \<and>
        (b \<longrightarrow> r = Inr 1))"
    using renew_op_cases [OF assms(2)] .
  from d have e: "string_at s = string_at (rc_server c) \<and> (b \<longrightarrow> string_at (rc_server c) (lease_key c i) = Some w) \<and>
      (\<forall>j. string_or_free (rc_server c) (lease_key c j) \<longrightarrow> string_or_free s (lease_key c j))"
  proof
    assume "\<exists>r. script_renew (lease_key c i) w (lease_seconds l) ((rc_server c)\<lparr>r_faults := fs\<rparr>) = (r, s) \<and>
        (b \<longrightarrow> r = Inr 1)"
    then obtain r where r: "script_renew (lease_key c i) w (lease_seconds l) ((rc_server c)\<lparr>r_faults := fs\<rparr>) = (r, s)"
      "b \<longrightarrow> r = Inr 1" by blast
    show ?thesis using renew_effect [OF r(1)] r(2) by fastforce
  qed simp
  show "lease_keys_ok c'" using e assms(1) by (simp add: lease_keys_ok_eq c')
  show "redis_holder c i = Some w" if b using e that by (simp add: redis_holder_eq)
  show "redis_holder c' = redis_holder c" using e by (simp add: fun_eq_iff redis_holder_eq c')
qed

lemma release_op_effect:
  assumes "lease_keys_ok c" "redis_release_op i w c = (b, c')"
  shows "lease_keys_ok c'" "b \<Longrightarrow> redis_holder c i = Some w \<and> redis_holder c' i = None"
    "redis_holder c i \<noteq> Some w \<Longrightarrow> redis_holder c' i = redis_holder c i"
    "j \<noteq> i \<Longrightarrow> redis_holder c' j = redis_holder c j"
proof -
  obtain s fs where c': "c' = c\<lparr>rc_server := s\<rparr>"
    and d: "(\<not> b \<and> s = (rc_server c)\<lparr>r_faults := fs\<rparr>) \<or>
     (\<exists>r. script_release (lease_key c i) w ((rc_server c)\<lparr>r_faults := fs\<rparr>) = (r, s) \<and> (b \<longrightarrow> r = Inr 1))"
    using release_op_cases [OF assms(2)] .
  from d have e: "(\<forall>j. j \<noteq> i \<longrightarrow> r_value s (lease_key c j) = r_value (rc_server c) (lease_key c j)) \<and>
      (b \<longrightarrow> string_at (rc_server c) (lease_key c i) = Some w \<and> string_at s (lease_key c i) = None) \<and>
      (string_at (rc_server c) (lease_key c i) \<noteq> Some w \<longrightarrow> string_at s = string_at (rc_server c)) \<and>
      (\<forall>j. string_or_free (rc_server c) (lease_key c j) \<longrightarrow> string_or_free s (lease_key c j))"
  proof
    assume "\<exists>r. script_release (lease_key c i) w ((rc_server c)\<lparr>r_faults := fs\<rparr>) = (r, s) \<and> (b \<longrightarrow> r = Inr 1)"
    then obtain r where r: "script_release (lease_key c i) w ((rc_server c)\<lparr>r_faults := fs\<rparr>) = (r, s)"
      "b \<longrightarrow> r = Inr 1" by blast
    show ?thesis using release_effect [OF r(1)] r(2) by fastforce
  qed simp
  show "lease_keys_ok c'" using e assms(1) by (simp add: lease_keys_ok_eq c')
  show "redis_holder c i = Some w \<and> redis_holder c' i = None" if b
    using e that by (simp add: redis_holder_eq c')
  show "redis_holder c' i = redis_holder c i" if "redis_holder c i \<noteq> Some w"
    using e that by (simp add: redis_holder_eq c')
  show "redis_holder c' j = redis_holder c j" if "j \<noteq> i"
    using e that by (simp add: redis_holder_eq c' string_at_def)
qed

interpretation redis_lease: task_lease lease_keys_ok "\<lambda>w. w" redis_holder
    "redis_acquire_op l" "redis_renew_op l" redis_release_op
  for l
proof
  fix c i w
  assume ok: "lease_keys_ok c"
  obtain b c1 where a: "redis_acquire_op l i w c = (b, c1)" by fastforce
  obtain b' c2 where n: "redis_renew_op l i w c = (b', c2)" by fastforce
  obtain b'' c3 where r: "redis_release_op i w c = (b'', c3)" by fastforce
  note ea = acquire_op_effect [OF ok a] and en = renew_op_effect [OF ok n] and er = release_op_effect [OF ok r]
  show "lease_keys_ok (snd (redis_acquire_op l i w c))" using ea(1) a by simp
  show "lease_keys_ok (snd (redis_renew_op l i w c))" using en(1) n by simp
  show "lease_keys_ok (snd (redis_release_op i w c))" using er(1) r by simp
  show "redis_holder c i = None \<and> redis_holder c' i = Some w"
    if "redis_acquire_op l i w c = (True, c')" for c' using ea(2) a that by simp
  show "redis_holder (snd (redis_acquire_op l i w c)) i = Some k" if "redis_holder c i = Some k" for k
    using ea(3) [OF that] a by simp
  show "redis_holder (snd (redis_acquire_op l i w c)) j = redis_holder c j" if "j \<noteq> i" for j
    using ea(4) [OF that] a by simp
  show "redis_holder c i = Some w" if "redis_renew_op l i w c = (True, c')" for c'
    using en(2) n that by simp
  show "redis_holder (snd (redis_renew_op l i w c)) = redis_holder c" using en(3) n by simp
  show "redis_holder c i = Some w \<and> redis_holder c' i = None"
    if "redis_release_op i w c = (True, c')" for c' using er(2) r that by simp
  show "redis_holder (snd (redis_release_op i w c)) i = redis_holder c i" if "redis_holder c i \<noteq> Some w"
    using er(3) [OF that] r by simp
  show "redis_holder (snd (redis_release_op i w c)) j = redis_holder c j" if "j \<noteq> i" for j
    using er(4) [OF that] r by simp
qed

section \<open>Interpretation: rows of the repository\<close>

definition lease_db :: "(string \<Rightarrow> string) \<Rightarrow> image_db \<Rightarrow> bool" where
  "lease_db c db \<longleftrightarrow> wf_db db \<and> table_ready db \<and> collation db = c"

definition db_holder :: "(string \<Rightarrow> string) \<Rightarrow> image_db \<Rightarrow> int \<Rightarrow> string option" where
  "db_holder c db i = (case find (\<lambda>r. ir_id r = i \<and> row_status r = Generating) (rows db) of
      Some r \<Rightarrow> map_option c (ir_worker_id r) | None \<Rightarrow> None)"

definition db_acquire_op :: "time_point \<Rightarrow> int \<Rightarrow> int \<Rightarrow> string \<Rightarrow> image_db \<Rightarrow> bool \<times> image_db" where
  "db_acquire_op now l i w db = (case claimTaskById now i w l db of
      (Inr (Some _), db') \<Rightarrow> (True, db') | (_, db') \<Rightarrow> (False, db'))"

definition db_renew_op :: "time_point \<Rightarrow> int \<Rightarrow> int \<Rightarrow> int \<Rightarrow> string \<Rightarrow> image_db \<Rightarrow> bool \<times> image_db" where
  "db_renew_op now l u i w db = (case renewLease now i u w l db of
      (Inr b, db') \<Rightarrow> (b, db') | (_, db') \<Rightarrow> (False, db'))"

text \<open>The release is the completion of the task with a status that is not \<open>Generating\<close>.\<close>

definition finish_status :: "task_status \<Rightarrow> task_status" where
  "finish_status st = (if st = Generating then Failed else st)"

definition db_release_op :: "image_generation \<Rightarrow> int \<Rightarrow> string \<Rightarrow> image_db \<Rightarrow> bool \<times> image_db" where
  "db_release_op g i w db =
     (case finishClaimedTask (g\<lparr>img_id := i, img_worker_id := w, img_status := finish_status (img_status g)\<rparr>) db of
        (Inr b, db') \<Rightarrow> (b, db') | (_, db') \<Rightarrow> (False, db'))"

lemma snd_db_ops [simp]:
  "snd (db_acquire_op now l i w db) = run_op (OpClaim now i w l) db"
  "snd (db_renew_op now l u i w db) = run_op (OpRenew now i u w l) db"
  "snd (db_release_op g i w db) =
     run_op (OpFinish (g\<lparr>img_id := i, img_worker_id := w, img_status := finish_status (img_status g)\<rparr>)) db"
  by (auto simp: db_acquire_op_def db_renew_op_def db_release_op_def split: prod.split sum.split option.split)

lemma table_pred_lease_db: "table_pred (lease_db c)"
  using table_pred_wf_db by (auto simp: table_pred_def lease_db_def)

lemma collation_write:
  "op_write op f \<Longrightarrow> collation (snd (f db)) = collation db \<and> table_ready (snd (f db)) = table_ready db"
  by (induction rule: op_write.induct)
    (auto simp: stmt_claim_next_def stmt_claim_by_id_def stmt_renew_def stmt_finish_def stmt_defer_def
      stmt_cancel_def stmt_retry_def stmt_requeue_def stmt_timeout_def sql_delete_def split: option.split)

lemma run_op_lease_db: "lease_db c db \<Longrightarrow> wf_op op \<Longrightarrow> lease_db c (run_op op db)"
proof (rule run_op_keeps [OF table_pred_lease_db], assumption)
  fix now g t db' assume "wf_op op" "op = OpInsert now g" "lease_db c db'"
  then show "lease_db c (snd (sql_insert (\<lambda>n. image_values t n g) db'))"
    by (auto simp: lease_db_def sql_insert_def intro!: wf_db_insert [unfolded sql_insert_def, simplified]
        wf_image_values)
next
  fix f db' assume "wf_op op" "op_write op f" "lease_db c db'"
  then show "lease_db c (snd (f db'))"
    using op_write_wf [of op f db'] collation_write [of op f db'] by (simp add: lease_db_def)
qed

text \<open>The holder of a task depends on the rows with its identifier.\<close>

lemma db_holder_SomeD:
  assumes "wf_db db" "db_holder c db i = Some k"
  shows "\<exists>r w. r \<in> set (rows db) \<and> ir_id r = i \<and> row_status r = Generating \<and> ir_worker_id r = Some w \<and> k = c w"
proof (cases "find (\<lambda>r. ir_id r = i \<and> row_status r = Generating) (rows db)")
  case None
  with assms(2) show ?thesis by (simp add: db_holder_def)
next
  case (Some r)
  have "r \<in> set (rows db)" "ir_id r = i" "row_status r = Generating" using find_SomeD [OF Some] by auto
  moreover obtain w where "ir_worker_id r = Some w" "k = c w"
    using assms(2) Some by (auto simp: db_holder_def)
  ultimately show ?thesis by blast
qed

lemma db_holder_row:
  assumes "wf_db db" "r \<in> set (rows db)" "ir_id r = i" "row_status r = Generating"
  shows "db_holder c db i = map_option c (ir_worker_id r)"
proof -
  obtain q where q: "find (\<lambda>r. ir_id r = i \<and> row_status r = Generating) (rows db) = Some q"
    using assms by (cases "find (\<lambda>r. ir_id r = i \<and> row_status r = Generating) (rows db)")
      (auto simp: find_None_iff_ball)
  then have "q \<in> set (rows db)" "ir_id q = i" using find_SomeD [OF q] by auto
  then have "q = r" using unique_row [OF assms(1,2)] assms(3) by simp
  with q show ?thesis by (simp add: db_holder_def)
qed

lemma db_holder_none:
  assumes "\<And>r. r \<in> set (rows db) \<Longrightarrow> ir_id r = i \<Longrightarrow> row_status r \<noteq> Generating"
  shows "db_holder c db i = None"
proof -
  have "find (\<lambda>r. ir_id r = i \<and> row_status r = Generating) (rows db) = None"
    unfolding find_None_iff_ball using assms by blast
  then show ?thesis by (simp add: db_holder_def)
qed

lemma filter_id_holder:
  "filter (\<lambda>r. ir_id r = i) (rows db') = filter (\<lambda>r. ir_id r = i) (rows db) \<Longrightarrow>
   db_holder c db' i = db_holder c db i"
proof -
  assume f: "filter (\<lambda>r. ir_id r = i) (rows db') = filter (\<lambda>r. ir_id r = i) (rows db)"
  have g: "find (\<lambda>r. ir_id r = i \<and> P r) xs = find P (filter (\<lambda>r. ir_id r = i) xs)" for P xs
    by (induction xs) auto
  show ?thesis unfolding db_holder_def g f ..
qed

definition rows_of_id :: "int \<Rightarrow> image_db \<Rightarrow> image_row list" where
  "rows_of_id i db = filter (\<lambda>r. ir_id r = i) (rows db)"

lemma rows_of_id_update:
  assumes "\<And>r. p r \<Longrightarrow> ir_id r \<noteq> i" "\<And>r. ir_id (f r) = ir_id r"
  shows "rows_of_id i (snd (sql_update p f db)) = rows_of_id i db"
proof -
  have "filter (\<lambda>r. ir_id r = i) (map (\<lambda>r. if p r then f r else r) rs) = filter (\<lambda>r. ir_id r = i) rs" for rs
    using assms by (induction rs) auto
  then show ?thesis by (simp add: rows_of_id_def)
qed

lemma table_pred_rows_of_id: "table_pred (\<lambda>db'. rows_of_id i db' = rs)"
  by (simp add: table_pred_def rows_of_id_def)

text \<open>A claim, renewal or completion of one task does not touch the rows of another.\<close>

lemma other_rows_kept:
  assumes "op \<in> {OpClaim now j w l, OpRenew now j u w l, OpFinish g}" "img_id g = j" "i \<noteq> j"
  shows "rows_of_id i (run_op op db) = rows_of_id i db"
proof (rule run_op_keeps [OF table_pred_rows_of_id refl])
  fix f db' assume "op_write op f" "rows_of_id i db' = rows_of_id i db"
  then show "rows_of_id i (snd (f db')) = rows_of_id i db"
    using assms by cases (auto simp: stmt_claim_by_id_def stmt_renew_def stmt_finish_def held_row_def
        by_id_and_user_def simp del: sql_update_sel intro!: trans [OF rows_of_id_update])
qed (use assms(1) in auto)

lemma lease_dbD: "lease_db c db \<Longrightarrow> wf_db db \<and> table_ready db \<and> collation db = c"
  by (simp add: lease_db_def)

lemma mem_rows_of_id: "r \<in> set (rows_of_id i db) \<longleftrightarrow> r \<in> set (rows db) \<and> ir_id r = i"
  by (auto simp: rows_of_id_def)

definition id_rows :: "(string \<Rightarrow> string) \<Rightarrow> int \<Rightarrow> image_row list \<Rightarrow> image_db \<Rightarrow> bool" where
  "id_rows c i rs db \<longleftrightarrow> lease_db c db \<and> rows_of_id i db = rs"

lemma table_pred_conj: "table_pred I \<Longrightarrow> table_pred J \<Longrightarrow> table_pred (\<lambda>db. I db \<and> J db)"
  unfolding table_pred_def by blast

lemma table_pred_id_rows: "table_pred (id_rows c i rs)"
  unfolding id_rows_def by (rule table_pred_conj [OF table_pred_lease_db table_pred_rows_of_id])

text \<open>An operation whose write matches no row of a task leaves the rows of the task.\<close>

lemma untouched_rows:
  assumes "lease_db c db" "wf_op op" "\<forall>now g. op \<noteq> OpInsert now g"
    and "\<And>f db'. op_write op f \<Longrightarrow> id_rows c i (rows_of_id i db) db' \<Longrightarrow>
      rows_of_id i (snd (f db')) = rows_of_id i db'"
  shows "rows_of_id i (run_op op db) = rows_of_id i db"
proof -
  have "id_rows c i (rows_of_id i db) (run_op op db)"
  proof (rule run_op_keeps [OF table_pred_id_rows])
    fix f db' assume w: "op_write op f" and r: "id_rows c i (rows_of_id i db) db'"
    then show "id_rows c i (rows_of_id i db) (snd (f db'))"
      using assms(4) [OF w r] op_write_wf [OF w] collation_write [OF w] by (simp add: id_rows_def lease_db_def)
  qed (use assms in \<open>auto simp: id_rows_def\<close>)
  then show ?thesis by (simp add: id_rows_def)
qed

lemma rows_of_id_no_match:
  assumes "\<forall>r\<in>set (rows_of_id i db). \<not> p r" "\<And>r. ir_id (f r) = ir_id r"
  shows "rows_of_id i (snd (sql_update p f db)) = rows_of_id i db"
proof -
  have "filter (\<lambda>r. ir_id r = i) (map (\<lambda>r. if p r then f r else r) rs) = filter (\<lambda>r. ir_id r = i) rs"
    if "\<forall>r\<in>set rs. ir_id r = i \<longrightarrow> \<not> p r" for rs
    using that assms(2) by (induction rs) auto
  then show ?thesis using assms(1) by (simp add: rows_of_id_def)
qed

lemma db_acquire_held:
  assumes "lease_db c db" "db_holder c db i = Some k"
  shows "rows_of_id i (snd (db_acquire_op now l i w db)) = rows_of_id i db"
proof -
  note wf = lease_dbD [OF assms(1)]
  obtain r where r: "r \<in> set (rows db)" "ir_id r = i" "row_status r = Generating"
    using db_holder_SomeD [OF _ assms(2)] wf by blast
  have g: "row_status q = Generating" if "q \<in> set (rows_of_id i db)" for q
    using that unique_row [of db r q] r wf by (auto simp: mem_rows_of_id)
  have "rows_of_id i (run_op (OpClaim now i w l) db) = rows_of_id i db"
  proof (rule untouched_rows [OF assms(1)])
    fix f db' assume w: "op_write (OpClaim now i w l) f" and d: "id_rows c i (rows_of_id i db) db'"
    have "\<not> waiting_row db' q" if q: "q \<in> set (rows_of_id i db')" for q
    proof -
      have "wf_db db'" using d by (simp add: id_rows_def lease_db_def)
      moreover have "q \<in> set (rows db')" using q by (simp add: mem_rows_of_id)
      moreover have "row_status q = Generating" using g [of q] q d by (simp add: id_rows_def)
      ultimately show ?thesis using sql_guards(1) [of db' q] wf_rowD by simp
    qed
    with w show "rows_of_id i (snd (f db')) = rows_of_id i db'"
      by cases (simp add: stmt_claim_by_id_def rows_of_id_no_match)
  qed simp_all
  then show ?thesis by simp
qed

lemma db_acquire_true:
  assumes "lease_db c db" "db_acquire_op now l i w db = (True, db')"
  shows "db_holder c db i = None \<and> db_holder c db' i = Some (c w)"
proof -
  note wf = lease_dbD [OF assms(1)]
  obtain img where c: "claimTaskById now i w l db = (Inr (Some img), db')"
    using assms(2) by (auto simp: db_acquire_op_def split: prod.splits sum.splits option.splits)
  obtain r where r: "r \<in> set (rows db)" "ir_id r = i" "row_status r \<in> {Queued, Pending}"
    and rows': "rows db' = map (\<lambda>q. if ir_id q = i then set_claimed w (time_t_of now)
       (time_t_of (expires_at now l)) q else q) (rows db)" and wf': "wf_db db'"
    using claimTaskById_SomeD [OF wf [THEN conjunct1] wf [THEN conjunct2, THEN conjunct1] c] .
  have "row_status q \<noteq> Generating" if q: "q \<in> set (rows db)" "ir_id q = i" for q
  proof -
    have "q = r" using unique_row [OF wf [THEN conjunct1] r(1) q(1)] q(2) r(2) by simp
    then show ?thesis using r(3) by auto
  qed
  moreover have "set_claimed w (time_t_of now) (time_t_of (expires_at now l)) r \<in> set (rows db')"
    unfolding rows' mem_map_upd using r by blast
  ultimately show ?thesis
    using db_holder_none [of db i c] db_holder_row [OF wf', of "set_claimed w (time_t_of now)
      (time_t_of (expires_at now l)) r" i c] r(2) by simp
qed

lemma held_row_holder:
  assumes "lease_db c db" "r \<in> set (rows db)" "held_row db i u w r"
  shows "db_holder c db i = Some (c w)"
proof -
  have "row_status r = Generating" "ir_id r = i"
    using assms lease_dbD [OF assms(1)] sql_guards(5) [of db r] wf_rowD
    by (auto simp: held_row_def by_id_and_user_def)
  then show ?thesis
    using db_holder_row [of db r i c] assms lease_dbD [OF assms(1)]
    by (auto simp: held_row_def text_eq_def split: option.splits)
qed

lemma db_renew_true:
  assumes "lease_db c db" "db_renew_op now l u i w db = (True, db')"
  shows "db_holder c db i = Some (c w)"
proof -
  have r: "renewLease now i u w l db = (Inr True, db')"
    using assms(2) by (auto simp: db_renew_op_def split: prod.splits sum.splits)
  have rd: "table_ready db" using lease_dbD [OF assms(1)] by simp
  obtain fs where "0 < fst (stmt_renew i u w (time_t_of (expires_at now l)) (with_faults db fs))"
    using guarded_update_InrD [OF rd, of "stmt_renew i u w (time_t_of (expires_at now l))" "\<lambda>n. 0 < n" True db'] r
    unfolding renewLease_def by auto
  then obtain q where "q \<in> set (rows db)" "held_row db i u w q"
    unfolding stmt_renew_def fst_sql_update_pos by auto
  then show ?thesis by (rule held_row_holder [OF assms(1)])
qed

definition row_sig :: "image_row \<Rightarrow> int \<times> string option \<times> string option" where
  "row_sig r = (ir_id r, ir_status r, ir_worker_id r)"

lemma db_holder_sig: "map row_sig (rows db') = map row_sig (rows db) \<Longrightarrow> db_holder c db' = db_holder c db"
proof
  fix i assume m: "map row_sig (rows db') = map row_sig (rows db)"
  have "map_option ir_worker_id (find (\<lambda>r. ir_id r = i \<and> row_status r = Generating) xs) =
      map_option ir_worker_id (find (\<lambda>r. ir_id r = i \<and> row_status r = Generating) ys)"
    if "map row_sig xs = map row_sig ys" for xs ys
    using that
  proof (induction xs arbitrary: ys)
    case (Cons x xs)
    then obtain y ys' where "ys = y # ys'" "row_sig x = row_sig y" "map row_sig xs = map row_sig ys'" by auto
    then have "ir_id x = ir_id y" "row_status x = row_status y" "ir_worker_id x = ir_worker_id y"
      by (simp_all add: row_sig_def row_status_def)
    then show ?case using Cons.IH [of ys'] \<open>ys = y # ys'\<close> \<open>map row_sig xs = map row_sig ys'\<close> by simp
  qed simp
  from this [OF m] show "db_holder c db' i = db_holder c db i"
    by (auto simp: db_holder_def split: option.splits)
qed

lemma db_renew_keeps:
  fixes db :: image_db
  shows "rows db = rs \<Longrightarrow> map row_sig (rows (run_op (OpRenew now i u w l) db)) = map row_sig rs"
proof (rule run_op_keeps [where I = "\<lambda>d :: image_db. map row_sig (rows d) = map row_sig rs"])
  show "table_pred (\<lambda>d :: image_db. map row_sig (rows d) = map row_sig rs)" by (simp add: table_pred_def)
next
  fix f and db' :: image_db assume w: "op_write (OpRenew now i u w l) f" and m: "map row_sig (rows db') = map row_sig rs"
  have "map row_sig (rows (snd (f db'))) = map row_sig (rows db')"
    using w by cases (simp add: stmt_renew_def row_sig_def)
  with m show "map row_sig (rows (snd (f db'))) = map row_sig rs" by simp
qed simp_all

lemma finish_status_not_generating [simp]: "finish_status st \<noteq> Generating"
  by (simp add: finish_status_def)

lemma db_release_true:
  assumes "lease_db c db" "db_release_op g i w db = (True, db')"
  shows "db_holder c db i = Some (c w) \<and> db_holder c db' i = None"
proof -
  let ?g = "g\<lparr>img_id := i, img_worker_id := w, img_status := finish_status (img_status g)\<rparr>"
  note wf = lease_dbD [OF assms(1)]
  have f: "finishClaimedTask ?g db = (Inr True, db')"
    using assms(2) by (auto simp: db_release_op_def split: prod.splits sum.splits)
  note o = finishClaimedTask_outcome [OF wf [THEN conjunct2, THEN conjunct1] f, simplified]
  obtain r where r: "r \<in> set (rows db)" "held_row db i (img_user_id g) w r" using o(1) by blast
  have ri: "ir_id r = i" using r(2) by (simp add: held_row_def by_id_and_user_def)
  have none: "row_status q \<noteq> Generating" if q: "q \<in> set (rows db')" "ir_id q = i" for q
  proof -
    obtain p where p: "p \<in> set (rows db)" "q = (if held_row db i (img_user_id g) w p then set_finished ?g p else p)"
      using q(1) o(2) by auto
    then have "ir_id p = i" using q(2) by (auto split: if_splits)
    then have "p = r" using unique_row [OF wf [THEN conjunct1] r(1) p(1)] ri by simp
    then show ?thesis using p(2) r(2) by simp
  qed
  show ?thesis using held_row_holder [OF assms(1) r] db_holder_none [OF none] by simp
qed

lemma db_release_fenced:
  assumes "lease_db c db" "db_holder c db i \<noteq> Some (c w)"
  shows "rows_of_id i (snd (db_release_op g i w db)) = rows_of_id i db"
proof -
  let ?g = "g\<lparr>img_id := i, img_worker_id := w, img_status := finish_status (img_status g)\<rparr>"
  have "rows_of_id i (run_op (OpFinish ?g) db) = rows_of_id i db"
  proof (rule untouched_rows [OF assms(1)])
    fix f db' assume w: "op_write (OpFinish ?g) f" and d: "id_rows c i (rows_of_id i db) db'"
    have "\<not> held_row db' i (img_user_id g) w q" if q: "q \<in> set (rows_of_id i db')" for q
    proof -
      have "collation db' = collation db" using d assms(1) by (simp add: id_rows_def lease_db_def)
      then have "held_row db' = held_row db" by (rule guards_collation)
      moreover have "q \<in> set (rows_of_id i db)" using q d by (simp add: id_rows_def)
      then have "q \<in> set (rows db)" by (simp add: mem_rows_of_id)
      ultimately show ?thesis using held_row_holder [OF assms(1), of q i "img_user_id g" w] assms(2) by auto
    qed
    with w show "rows_of_id i (snd (f db')) = rows_of_id i db'"
      by cases (simp add: stmt_finish_def rows_of_id_no_match)
  qed simp_all
  then show ?thesis by simp
qed

lemma rows_of_id_holder: "rows_of_id i db' = rows_of_id i db \<Longrightarrow> db_holder c db' i = db_holder c db i"
  unfolding rows_of_id_def by (rule filter_id_holder)

interpretation db_lease: task_lease "lease_db c" c "db_holder c"
    "db_acquire_op now l" "db_renew_op now l u" "db_release_op g"
  for c now l u g
proof
  fix db i w assume ok: "lease_db c db"
  show "lease_db c (snd (db_acquire_op now l i w db))" "lease_db c (snd (db_renew_op now l u i w db))"
    "lease_db c (snd (db_release_op g i w db))"
    unfolding snd_db_ops by (rule run_op_lease_db [OF ok], simp)+
  show "db_holder c db i = None \<and> db_holder c db' i = Some (c w)"
    if "db_acquire_op now l i w db = (True, db')" for db' using ok that by (rule db_acquire_true)
  show "db_holder c (snd (db_acquire_op now l i w db)) i = Some k" if "db_holder c db i = Some k" for k
    using rows_of_id_holder [OF db_acquire_held [OF ok that]] that by simp
  show "db_holder c (snd (db_acquire_op now l i w db)) j = db_holder c db j" if "j \<noteq> i" for j
    unfolding snd_db_ops
    by (rule rows_of_id_holder, rule other_rows_kept [where j = i and g = "default_image\<lparr>img_id := i\<rparr>"])
      (use that in simp_all)
  show "db_holder c db i = Some (c w)" if "db_renew_op now l u i w db = (True, db')" for db'
    using ok that by (rule db_renew_true)
  show "db_holder c (snd (db_renew_op now l u i w db)) = db_holder c db"
    unfolding snd_db_ops by (rule db_holder_sig, rule db_renew_keeps) simp
  show "db_holder c db i = Some (c w) \<and> db_holder c db' i = None"
    if "db_release_op g i w db = (True, db')" for db' using ok that by (rule db_release_true)
  show "db_holder c (snd (db_release_op g i w db)) i = db_holder c db i" if "db_holder c db i \<noteq> Some (c w)"
    using rows_of_id_holder [OF db_release_fenced [OF ok that]] .
  show "db_holder c (snd (db_release_op g i w db)) j = db_holder c db j" if "j \<noteq> i" for j
    unfolding snd_db_ops
    by (rule rows_of_id_holder, rule other_rows_kept [where j = i
      and g = "g\<lparr>img_id := i, img_worker_id := w, img_status := finish_status (img_status g)\<rparr>"])
      (use that in simp_all)
qed

section \<open>Properties\<close>

fun redis_lease_run :: "int \<Rightarrow> lease_op list \<Rightarrow> redis_client \<Rightarrow> redis_client" where
  "redis_lease_run l [] c = c"
| "redis_lease_run l (Acquire i w # ops) c = redis_lease_run l ops (snd (redis_acquire_op l i w c))"
| "redis_lease_run l (Renew i w # ops) c = redis_lease_run l ops (snd (redis_renew_op l i w c))"
| "redis_lease_run l (Release i w # ops) c = redis_lease_run l ops (snd (redis_release_op i w c))"

lemma redis_lease_run_eq: "redis_lease_run l ops c = snd (redis_lease.lease_run l ops c)"
  by (induction l ops c rule: redis_lease_run.induct) (simp_all add: Let_def split_beta)

fun db_lease_run :: "time_point \<Rightarrow> int \<Rightarrow> int \<Rightarrow> image_generation \<Rightarrow> lease_op list \<Rightarrow> image_db \<Rightarrow> image_db" where
  "db_lease_run now l u g [] db = db"
| "db_lease_run now l u g (Acquire i w # ops) db = db_lease_run now l u g ops (snd (db_acquire_op now l i w db))"
| "db_lease_run now l u g (Renew i w # ops) db = db_lease_run now l u g ops (snd (db_renew_op now l u i w db))"
| "db_lease_run now l u g (Release i w # ops) db = db_lease_run now l u g ops (snd (db_release_op g i w db))"

lemma db_lease_run_eq: "db_lease_run now l u g ops db = snd (db_lease.lease_run now l u g ops db)"
  by (induction now l u g ops db rule: db_lease_run.induct) (simp_all add: Let_def split_beta)

text \<open>
  C9: a Redis lease that \<open>acquireLease\<close> granted stays with its worker
  through any sequence of acquires, renewals and releases by other workers, with any commands
  refused or answered late, until that worker releases it (while its time to live lasts); no
  other acquire of the task succeeds meanwhile.
\<close>

theorem redis_lease_is_exclusive:
  assumes "lease_keys_ok c" "redis_acquire_op l i w c = (True, c')"
    and "\<forall>w'. Release i w' \<in> set ops \<longrightarrow> w' \<noteq> w"
  shows "redis_holder (redis_lease_run l ops c') i = Some w \<and>
     \<not> fst (redis_acquire_op l i v (redis_lease_run l ops c'))"
  unfolding redis_lease_run_eq
  by (rule redis_lease.exclusive [OF assms(1,2)]) (use assms(3) in blast)

definition demo_redis :: redis_client where
  "demo_redis = \<lparr>rc_config = default_redis_config, rc_impl = True,
     rc_server = \<lparr>r_store = (\<lambda>_. None), r_now = 0, r_faults = []\<rparr>\<rparr>"

lemma demo_redis_ok: "lease_keys_ok demo_redis"
  by (simp add: lease_keys_ok_def demo_redis_def r_value_def r_live_def)

theorem redis_lease_is_exclusive_witness:
  "let (b, c') = redis_acquire_op 60 7 ''w'' demo_redis
   in b \<and> \<not> fst (redis_acquire_op 60 7 ''v'' (redis_lease_run 60 [Release 7 ''v'', Renew 7 ''w''] c'))"
proof -
  obtain c' where c: "redis_acquire_op 60 7 ''w'' demo_redis = (True, c')"
    by (simp add: redis_acquire_op_def answer_def acquireLease_def redis_or_def on_server_def demo_redis_def
        cmd_set_nx_def r_live_def)
  show ?thesis
    using redis_lease_is_exclusive [OF demo_redis_ok c, of "[Release 7 ''v'', Renew 7 ''w'']" "''v''"] c
    by simp
qed

text \<open>
  C10: the same contract holds for the rows of the repository, where the
  claim acquires, \<open>renewLease\<close> renews and the completion releases: after a claim no other claim
  of the task succeeds until the claiming worker (as the collation compares names) completes it,
  with any statements failing.
\<close>

theorem db_lease_is_exclusive:
  assumes "lease_db c db" "db_acquire_op now l i w db = (True, db')"
    and "\<forall>w'. Release i w' \<in> set ops \<longrightarrow> c w' \<noteq> c w"
  shows "db_holder c (db_lease_run now l u g ops db') i = Some (c w) \<and>
     \<not> fst (db_acquire_op now l i v (db_lease_run now l u g ops db'))"
  unfolding db_lease_run_eq
  by (rule db_lease.exclusive [OF assms(1,2)]) (use assms(3) in blast)

theorem db_lease_is_exclusive_witness:
  "let (b, db') = db_acquire_op 0 60 1 ''w'' (demo_db [demo_row 1 5 Queued])
   in b \<and> \<not> fst (db_acquire_op 0 60 1 ''v'' (db_lease_run 0 60 5 default_image [Release 1 ''v''] db'))"
proof -
  let ?db = "demo_db [demo_row 1 5 Queued]"
  have ok: "lease_db (\<lambda>s. s) ?db" by (simp add: lease_db_def wf_db_def)
  have wf: "wf_db ?db" by (simp add: wf_db_def)
  obtain db' where c: "db_acquire_op 0 60 1 ''w'' ?db = (True, db')"
    using claimTaskById_waiting [OF wf demo_db_sel(5), of "demo_row 1 5 Queued" 1 0 "''w''" 60]
    by (simp add: db_acquire_op_def)
  show ?thesis
    using db_lease_is_exclusive [OF ok c, where ops = "[Release 1 ''v'']" and v = "''v''" and u = 5
        and g = default_image] c by simp
qed

section \<open>The task queue\<close>

text \<open>The queue in the order of service: the list is pushed at its head and popped at its tail.\<close>

definition queue_of :: "redis_client \<Rightarrow> string list option" where
  "queue_of c = map_option (rev \<circ> fst) (r_list (rc_server c) (queue_key c))"

lemma queue_key_server [simp]: "queue_key (c\<lparr>rc_server := s\<rparr>) = queue_key c"
  by (simp add: queue_key_def)

lemma r_list_put_list:
  "e = None \<Longrightarrow> r_list (put_list k xs e s) k = Some (xs, None)"
  by (auto simp: r_list_def put_list_def)

definition plain_queue :: "redis_client \<Rightarrow> bool" where
  "plain_queue c \<longleftrightarrow> rc_impl c \<and> r_faults (rc_server c) = [] \<and>
     (\<exists>xs. r_list (rc_server c) (queue_key c) = Some (xs, None))"

lemma put_list_sel [simp]: "r_faults (put_list k xs e s) = r_faults s"
  by (simp add: put_list_def)

lemma enqueue_queue:
  "plain_queue c \<Longrightarrow> plain_queue (snd (enqueueTask i c)) \<and>
    queue_of (snd (enqueueTask i c)) = map_option (\<lambda>q. q @ [fmt_int i]) (queue_of c) \<and>
    fst (enqueueTask i c) = Inr ()"
  by (auto simp: plain_queue_def enqueueTask_def bindp_def on_server_def cmd_lpush_def queue_of_def r_list_put_list)

lemma dequeue_queue:
  assumes "plain_queue c" "queue_of c = Some (fmt_int i # q)" "is_int64 i"
  shows "\<exists>c'. dequeueTask c = (Inr (Some i), c') \<and> plain_queue c' \<and> queue_of c' = Some q"
proof -
  obtain xs where xs: "r_list (rc_server c) (queue_key c) = Some (xs, None)"
    and c: "rc_impl c" "r_faults (rc_server c) = []" using assms(1) by (auto simp: plain_queue_def)
  then have rev: "rev xs = fmt_int i # q" using assms(2) by (simp add: queue_of_def)
  then have xs': "xs = rev q @ [fmt_int i]" by (metis rev.simps(2) rev_rev_ident)
  show ?thesis
    using xs c assms(3) by (simp add: xs' dequeueTask_def redis_or_def bindp_def on_server_def cmd_brpop_def
        stoll_fmt_int plain_queue_def queue_of_def r_list_put_list)
qed

lemma dequeue_empty: "plain_queue c \<Longrightarrow> queue_of c = Some [] \<Longrightarrow> dequeueTask c = (Inr None, c)"
  by (auto simp: plain_queue_def queue_of_def dequeueTask_def redis_or_def bindp_def on_server_def cmd_brpop_def)

lemma lpush_all_queue:
  assumes "r_list s k = Some (xs, None)"
  shows "\<exists>s'. lpush_all k vs s = (Inr (), s') \<and> r_list s' k = Some (rev vs @ xs, None) \<and>
     r_faults s' = r_faults s"
  using assms
proof (induction vs arbitrary: xs s)
  case (Cons v vs)
  have "r_list (put_list k (v # xs) None s) k = Some (v # xs, None)" by (simp add: r_list_put_list)
  from Cons.IH [OF this] show ?case using Cons.prems by (simp add: cmd_lpush_def)
qed simp

lemma rebuild_queue:
  assumes "rc_impl c" "r_faults (rc_server c) = []"
  shows "plain_queue (snd (rebuildTaskQueue ids c)) \<and>
    queue_of (snd (rebuildTaskQueue ids c)) = Some (map fmt_int ids) \<and> fst (rebuildTaskQueue ids c) = Inr ()"
proof -
  let ?s = "r_put (queue_key c) None (rc_server c)"
  have "r_list ?s (queue_key c) = Some ([], None)" by (simp add: r_list_def)
  from lpush_all_queue [OF this, of "map fmt_int ids"]
  show ?thesis using assms
    by (auto simp: rebuildTaskQueue_def bindp_def on_server_def script_rebuild_def cmd_del_def
        plain_queue_def queue_of_def)
qed

fun drain :: "nat \<Rightarrow> redis_client \<Rightarrow> int list \<times> redis_client" where
  "drain 0 c = ([], c)"
| "drain (Suc n) c = (case dequeueTask c of
      (Inr (Some i), c') \<Rightarrow> (let (is', c'') = drain n c' in (i # is', c''))
    | (_, c') \<Rightarrow> ([], c'))"

lemma drain_queue:
  "plain_queue c \<Longrightarrow> queue_of c = Some (map fmt_int ids) \<Longrightarrow> \<forall>i\<in>set ids. is_int64 i \<Longrightarrow>
   fst (drain n c) = take n ids"
proof (induction n arbitrary: c ids)
  case (Suc n)
  show ?case
  proof (cases ids)
    case Nil
    then show ?thesis using Suc.prems dequeue_empty by simp
  next
    case (Cons i is')
    then obtain c' where "dequeueTask c = (Inr (Some i), c')" "plain_queue c'" "queue_of c' = Some (map fmt_int is')"
      using dequeue_queue [of c i "map fmt_int is'"] Suc.prems by auto
    then show ?thesis using Suc.IH [of c' is'] Suc.prems Cons by (simp add: split_beta)
  qed
qed simp

text \<open>
  C18: the task queue serves tasks in the order they were put in. A queue rebuilt
  from a list of identifiers (oldest first) and then extended by further tasks hands out exactly
  these identifiers, in that order, each once, whatever the queue held before.
\<close>

theorem queue_is_fifo:
  assumes "rc_impl c" "r_faults (rc_server c) = []" "\<forall>i\<in>set (ids @ later). is_int64 i"
  shows "fst (drain n (foldl (\<lambda>c i. snd (enqueueTask i c)) (snd (rebuildTaskQueue ids c)) later)) =
     take n (ids @ later)"
proof -
  have "plain_queue (foldl (\<lambda>c i. snd (enqueueTask i c)) c' later) \<and>
      queue_of (foldl (\<lambda>c i. snd (enqueueTask i c)) c' later) = Some (map fmt_int (xs @ later))"
    if "plain_queue c'" "queue_of c' = Some (map fmt_int xs)" for c' xs
    using that
  proof (induction later arbitrary: c' xs)
    case (Cons i later)
    from Cons.IH [of "snd (enqueueTask i c')" "xs @ [i]"] show ?case
      using enqueue_queue [OF Cons.prems(1), of i] Cons.prems(2) by simp
  qed simp
  from this [of "snd (rebuildTaskQueue ids c)" ids] rebuild_queue [OF assms(1,2), of ids]
  show ?thesis using drain_queue assms(3) by blast
qed

theorem queue_is_fifo_witness:
  "fst (drain 5 (foldl (\<lambda>c i. snd (enqueueTask i c)) (snd (rebuildTaskQueue [4, 2] demo_redis)) [9])) = [4, 2, 9]"
  using queue_is_fifo [of demo_redis "[4, 2]" "[9]" 5]
  by (simp add: demo_redis_def is_int64_def)

end
