(* ===== verification/Cache_Keys.thy ===== *)
theory Cache_Keys
  imports Task_Status Json_Model
begin

text \<open>
  The cache keys and times to live of \<open>Backend/include/services/image_cache_key.h\<close>, and the
  facts that keep the entries of different users, tasks, pages and versions apart.
\<close>

definition kNullMarker :: string where
  "kNullMarker = ''__NULL__''"

definition kListVersionNamespace :: string where
  "kListVersionNamespace = ''img:list''"

definition ttl_kMetaTerminal :: int where "ttl_kMetaTerminal = 300"
definition ttl_kMetaInflight :: int where "ttl_kMetaInflight = 5"
definition ttl_kNullMarker :: int where "ttl_kNullMarker = 30"
definition ttl_kListBase :: int where "ttl_kListBase = 60"
definition ttl_kListJitterMax :: int where "ttl_kListJitterMax = 10"

lemmas ttl_defs = ttl_kMetaTerminal_def ttl_kMetaInflight_def ttl_kNullMarker_def ttl_kListBase_def
  ttl_kListJitterMax_def

definition metaKey :: "int \<Rightarrow> int \<Rightarrow> string" where
  "metaKey userId i = ''img:meta:'' @ fmt_int userId @ CHR '':'' # fmt_int i"

definition listMyKey :: "int \<Rightarrow> int \<Rightarrow> int \<Rightarrow> int \<Rightarrow> string" where
  "listMyKey userId version page sz = ''img:list:my:'' @ fmt_int userId @ CHR '':'' #
     CHR ''v'' # fmt_int version @ CHR '':'' # CHR ''p'' # fmt_int page @ CHR '':'' # CHR ''s'' # fmt_int sz"

definition listMyStatusKey :: "int \<Rightarrow> int \<Rightarrow> task_status \<Rightarrow> int \<Rightarrow> int \<Rightarrow> string" where
  "listMyStatusKey userId version status page sz = ''img:list:status:'' @ fmt_int userId @ CHR '':'' #
     statusToString status @ CHR '':'' # CHR ''v'' # fmt_int version @ CHR '':'' #
     CHR ''p'' # fmt_int page @ CHR '':'' # CHR ''s'' # fmt_int sz"

definition key_normalizePage :: "int \<Rightarrow> int" where
  "key_normalizePage p = (if p < 0 then 0 else p)"

definition key_normalizeSize :: "int \<Rightarrow> int" where
  "key_normalizeSize s = (if s \<le> 0 then 10 else s)"

text \<open>The random source draws a number from 0 to the maximal jitter; it is the argument here.\<close>

definition listTtlWithJitter :: "int \<Rightarrow> int" where
  "listTtlWithJitter drawn = ttl_kListBase + drawn"

definition presignKey :: "string \<Rightarrow> string" where
  "presignKey storageKey = ''img:url:'' @ storageKey"

definition kPresignCacheTtlRatio :: real where
  "kPresignCacheTtlRatio = 4 / 5"

definition derivePresignTtl :: "int \<Rightarrow> int" where
  "derivePresignTtl minioExpiry =
     (if minioExpiry \<le> 0 then 0 else max 1 (trunc (of_int minioExpiry * kPresignCacheTtlRatio)))"

section \<open>Facts\<close>

lemma metaKey_inj [simp]: "metaKey u i = metaKey u' i' \<longleftrightarrow> u = u' \<and> i = i'"
  by (auto simp: metaKey_def append_sep_eq)

lemma listMyKey_inj [simp]:
  "listMyKey u v p s = listMyKey u' v' p' s' \<longleftrightarrow> u = u' \<and> v = v' \<and> p = p' \<and> s = s'"
  by (auto simp: listMyKey_def append_sep_eq)

lemma statusToString_colon [simp]: "CHR '':'' \<notin> set (statusToString s)"
  by (rule statusToString_sep)

lemma listMyStatusKey_inj [simp]:
  "listMyStatusKey u v st p s = listMyStatusKey u' v' st' p' s' \<longleftrightarrow>
     u = u' \<and> v = v' \<and> st = st' \<and> p = p' \<and> s = s'"
  by (auto simp: listMyStatusKey_def append_sep_eq)

lemma presignKey_inj [simp]: "presignKey a = presignKey b \<longleftrightarrow> a = b"
  by (simp add: presignKey_def)

text \<open>Keys of different kinds differ, and none is a version key.\<close>

lemma key_kinds [simp]:
  "metaKey u i \<noteq> listMyKey u' v p s" "listMyKey u' v p s \<noteq> metaKey u i"
  "metaKey u i \<noteq> listMyStatusKey u' v st p s" "listMyStatusKey u' v st p s \<noteq> metaKey u i"
  "metaKey u i \<noteq> presignKey k" "presignKey k \<noteq> metaKey u i"
  "listMyKey u v p s \<noteq> listMyStatusKey u' v' st p' s'" "listMyStatusKey u' v' st p' s' \<noteq> listMyKey u v p s"
  "listMyKey u v p s \<noteq> presignKey k" "presignKey k \<noteq> listMyKey u v p s"
  "listMyStatusKey u v st p s \<noteq> presignKey k" "presignKey k \<noteq> listMyStatusKey u v st p s"
  by (simp_all add: metaKey_def listMyKey_def listMyStatusKey_def presignKey_def)

lemma key_not_version [simp]:
  "\<not> starts_with (metaKey u i) ''ver:''" "\<not> starts_with (listMyKey u v p s) ''ver:''"
  "\<not> starts_with (listMyStatusKey u v st p s) ''ver:''" "\<not> starts_with (presignKey k) ''ver:''"
  by (simp_all add: starts_with_def metaKey_def listMyKey_def listMyStatusKey_def presignKey_def)

lemma derivePresignTtl_bounds:
  "derivePresignTtl e \<le> max 0 e" "0 < e \<Longrightarrow> 1 \<le> derivePresignTtl e" "1 < e \<Longrightarrow> derivePresignTtl e < e"
proof -
  have f: "trunc (of_int e * kPresignCacheTtlRatio) = (4 * e) div 5" if "0 < e"
  proof -
    have "\<lfloor>of_int (4 * e) / (of_int 5 :: real)\<rfloor> = (4 * e) div 5" by (rule floor_divide_of_int_eq)
    with that show ?thesis by (simp add: trunc_def kPresignCacheTtlRatio_def mult.commute)
  qed
  show "derivePresignTtl e \<le> max 0 e" "0 < e \<Longrightarrow> 1 \<le> derivePresignTtl e" "1 < e \<Longrightarrow> derivePresignTtl e < e"
    using f by (auto simp: derivePresignTtl_def)
qed

section \<open>Properties\<close>

text \<open>
  Two cache keys are equal only when they stand for the same kind of entry,
  the same user and task, or the same user, version, status, page and size, so no user is served
  an entry of another and no page an entry of another page; no entry is mistaken for a version
  key; and a presigned address is cached for a shorter time than it is valid.
\<close>

theorem cache_keys_separate:
  "(metaKey u i = metaKey u' i' \<longleftrightarrow> u = u' \<and> i = i') \<and>
   (listMyKey u v p s = listMyKey u' v' p' s' \<longleftrightarrow> u = u' \<and> v = v' \<and> p = p' \<and> s = s') \<and>
   (listMyStatusKey u v st p s = listMyStatusKey u' v' st' p' s' \<longleftrightarrow>
      u = u' \<and> v = v' \<and> st = st' \<and> p = p' \<and> s = s') \<and>
   (presignKey k = presignKey k' \<longleftrightarrow> k = k') \<and>
   distinct [metaKey u i, listMyKey u v p s, listMyStatusKey u v st p s, presignKey k] \<and>
   (\<not> starts_with (metaKey u i) ''ver:'' \<and> \<not> starts_with (listMyKey u v p s) ''ver:'' \<and>
    \<not> starts_with (listMyStatusKey u v st p s) ''ver:'' \<and> \<not> starts_with (presignKey k) ''ver:'') \<and>
   derivePresignTtl e \<le> max 0 e \<and> derivePresignTtl (max 2 e) < max 2 e"
  using derivePresignTtl_bounds(1) [of e] derivePresignTtl_bounds(3) [of "max 2 e"] by simp

end
