(* ===== verification/Cache_Client.thy ===== *)
theory Cache_Client
  imports Redis_Server Cache_Keys
begin

text \<open>
  The cache: the interface \<open>ICacheClient\<close> as a table of operations, its implementations
  \<open>RedisCacheClient\<close> (\<open>Backend/src/services/cache_client.cpp\<close>) and \<open>NullCacheClient\<close>, the
  counters \<open>CacheMetrics\<close> and the counting decorator \<open>MetricsCacheClient\<close>. A cache operation
  never throws; the first failure of the Redis client turns the cache off for good.
\<close>

record 'c cache_if =
  ci_isAvailable :: "'c \<Rightarrow> bool"
  ci_get :: "string \<Rightarrow> 'c \<Rightarrow> string option \<times> 'c"
  ci_setex :: "string \<Rightarrow> string \<Rightarrow> int \<Rightarrow> 'c \<Rightarrow> bool \<times> 'c"
  ci_del :: "string \<Rightarrow> 'c \<Rightarrow> bool \<times> 'c"
  ci_bumpVersion :: "string \<Rightarrow> string \<Rightarrow> 'c \<Rightarrow> int option \<times> 'c"
  ci_getVersion :: "string \<Rightarrow> string \<Rightarrow> 'c \<Rightarrow> int \<times> 'c"

section \<open>Configuration\<close>

record cache_config =
  cc_enabled :: bool
  cc_host :: string
  cc_port :: int
  cc_password :: string
  cc_db :: int
  cc_pool_size :: int
  cc_connect_timeout_ms :: int
  cc_socket_timeout_ms :: int
  cc_key_prefix :: string
  cc_version_key_ttl :: int

definition default_cache_config :: cache_config where
  "default_cache_config = \<lparr>cc_enabled = True, cc_host = ''127.0.0.1'', cc_port = 6379,
     cc_password = [], cc_db = 1, cc_pool_size = 4, cc_connect_timeout_ms = 1000,
     cc_socket_timeout_ms = 500, cc_key_prefix = ''zimage:'', cc_version_key_ttl = 86400\<rparr>"

definition clamp :: "int \<Rightarrow> int \<Rightarrow> int \<Rightarrow> int" where
  "clamp x lo hi = (if x < lo then lo else if hi < x then hi else x)"

definition parseCacheConfig :: "json \<Rightarrow> exn + cache_config" where
  "parseCacheConfig j = (let c = default_cache_config in
     bindr (jvalue as_bool j ''enabled'' (cc_enabled c)) (\<lambda>en.
     bindr (jvalue as_string j ''host'' (cc_host c)) (\<lambda>h.
     bindr (jvalue as_int32 j ''port'' (cc_port c)) (\<lambda>p.
     bindr (jvalue as_string j ''password'' (cc_password c)) (\<lambda>pw.
     bindr (jvalue as_int32 j ''db'' (cc_db c)) (\<lambda>d.
     bindr (jvalue as_int32 j ''pool_size'' (cc_pool_size c)) (\<lambda>ps.
     bindr (jvalue as_int32 j ''connect_timeout_ms'' (cc_connect_timeout_ms c)) (\<lambda>ct.
     bindr (jvalue as_int32 j ''socket_timeout_ms'' (cc_socket_timeout_ms c)) (\<lambda>st.
     bindr (jvalue as_string j ''key_prefix'' (cc_key_prefix c)) (\<lambda>kp.
     bindr (jvalue as_int64 j ''version_key_ttl_seconds'' (cc_version_key_ttl c)) (\<lambda>vt.
     Inr \<lparr>cc_enabled = en, cc_host = h, cc_port = clamp p 1 65535, cc_password = pw,
          cc_db = max 0 d, cc_pool_size = max 1 ps, cc_connect_timeout_ms = max 1 ct,
          cc_socket_timeout_ms = max 1 st, cc_key_prefix = kp, cc_version_key_ttl = max 1 vt\<rparr>)))))))))))"

section \<open>RedisCacheClient\<close>

text \<open>\<open>impl_\<close> exists exactly when the constructor reached the server; the operations check
  \<open>available_\<close> first, which implies it.\<close>

record redis_cache =
  ca_config :: cache_config
  ca_available :: bool
  ca_server :: redis_server

definition cacheKey :: "redis_cache \<Rightarrow> string \<Rightarrow> string" where
  "cacheKey c key = cc_key_prefix (ca_config c) @ key"

definition versionKey :: "redis_cache \<Rightarrow> string \<Rightarrow> string \<Rightarrow> string" where
  "versionKey c nsp identifier =
     cc_key_prefix (ca_config c) @ ''ver:'' @ nsp @ CHR '':'' # identifier"

definition redis_cache_new :: "cache_config \<Rightarrow> redis_server \<Rightarrow> redis_cache" where
  "redis_cache_new cfg s =
     (if \<not> cc_enabled cfg then \<lparr>ca_config = cfg, ca_available = False, ca_server = s\<rparr>
      else case r_exec cmd_ping s of
        (Inr _, s') \<Rightarrow> \<lparr>ca_config = cfg, ca_available = True, ca_server = s'\<rparr>
      | (Inl _, s') \<Rightarrow> \<lparr>ca_config = cfg, ca_available = False, ca_server = s'\<rparr>)"

text \<open>\<open>catch (const std::exception&)\<close>: the cache is marked unusable. The Redis client throws
  only classes derived from it, and so does \<open>std::stoll\<close>.\<close>

definition degrade :: "'a \<Rightarrow> (redis_server, 'a) prog \<Rightarrow> redis_cache \<Rightarrow> 'a \<times> redis_cache" where
  "degrade d m c =
     (if \<not> ca_available c then (d, c)
      else case m (ca_server c) of
        (Inr x, s) \<Rightarrow> (x, c\<lparr>ca_server := s\<rparr>)
      | (Inl _, s) \<Rightarrow> (d, c\<lparr>ca_server := s, ca_available := False\<rparr>))"

definition cache_get :: "string \<Rightarrow> redis_cache \<Rightarrow> string option \<times> redis_cache" where
  "cache_get key c = degrade None (r_exec (cmd_get (cacheKey c key))) c"

definition cache_setex :: "string \<Rightarrow> string \<Rightarrow> int \<Rightarrow> redis_cache \<Rightarrow> bool \<times> redis_cache" where
  "cache_setex key v ttl c =
     degrade False (bindp (r_exec (cmd_setex (cacheKey c key) ttl v)) (\<lambda>_. ret True)) c"

definition cache_del :: "string \<Rightarrow> redis_cache \<Rightarrow> bool \<times> redis_cache" where
  "cache_del key c = degrade False (bindp (r_exec (cmd_del (cacheKey c key))) (\<lambda>n. ret (n > 0))) c"

text \<open>The script of \<open>bumpVersion\<close>: INCR, then EXPIRE.\<close>

definition script_bump :: "string \<Rightarrow> int \<Rightarrow> int rcmd" where
  "script_bump k ttl s = (case cmd_incr k s of
      (Inl e, s') \<Rightarrow> (Inl e, s')
    | (Inr v, s') \<Rightarrow> (case cmd_expire k ttl s' of (Inl e, s'') \<Rightarrow> (Inl e, s'') | (Inr _, s'') \<Rightarrow> (Inr v, s'')))"

definition cache_bumpVersion :: "string \<Rightarrow> string \<Rightarrow> redis_cache \<Rightarrow> int option \<times> redis_cache" where
  "cache_bumpVersion nsp identifier c = degrade None
     (bindp (r_exec (script_bump (versionKey c nsp identifier) (cc_version_key_ttl (ca_config c))))
       (\<lambda>n. ret (Some n))) c"

definition cache_getVersion :: "string \<Rightarrow> string \<Rightarrow> redis_cache \<Rightarrow> int \<times> redis_cache" where
  "cache_getVersion nsp identifier c = degrade 0
     (bindp (r_exec (cmd_get (versionKey c nsp identifier))) (\<lambda>v. case v of
        None \<Rightarrow> ret 0
      | Some t \<Rightarrow> (case stoll t of Inl e \<Rightarrow> throw e | Inr n \<Rightarrow> ret n))) c"

definition redis_cache_if :: "redis_cache cache_if" where
  "redis_cache_if = \<lparr>ci_isAvailable = ca_available, ci_get = cache_get, ci_setex = cache_setex,
     ci_del = cache_del, ci_bumpVersion = cache_bumpVersion, ci_getVersion = cache_getVersion\<rparr>"

section \<open>NullCacheClient\<close>

definition null_cache_if :: "unit cache_if" where
  "null_cache_if = \<lparr>ci_isAvailable = (\<lambda>_. False), ci_get = (\<lambda>_ c. (None, c)),
     ci_setex = (\<lambda>_ _ _ c. (False, c)), ci_del = (\<lambda>_ c. (False, c)),
     ci_bumpVersion = (\<lambda>_ _ c. (None, c)), ci_getVersion = (\<lambda>_ _ c. (0, c))\<rparr>"

section \<open>CacheMetrics and the counting decorator\<close>

datatype cache_namespace = NsMeta | NsList | NsUrl | NsOther

definition classifyKey :: "string \<Rightarrow> cache_namespace" where
  "classifyKey key =
     (if starts_with key ''img:meta:'' then NsMeta
      else if starts_with key ''img:list:'' then NsList
      else if starts_with key ''img:url:'' then NsUrl
      else if starts_with key ''ver:img:list:'' then NsList
      else NsOther)"

fun namespaceName :: "cache_namespace \<Rightarrow> string" where
  "namespaceName NsMeta = ''meta''"
| "namespaceName NsList = ''list''"
| "namespaceName NsUrl = ''url''"
| "namespaceName NsOther = ''other''"

record cache_counters =
  cm_hits :: nat
  cm_misses :: nat
  cm_degraded :: nat

type_synonym cache_metrics = "cache_namespace \<Rightarrow> cache_counters"

definition new_cache_metrics :: cache_metrics where
  "new_cache_metrics = (\<lambda>_. \<lparr>cm_hits = 0, cm_misses = 0, cm_degraded = 0\<rparr>)"

text \<open>The counters are unsigned 64-bit numbers.\<close>

definition recordHit :: "cache_namespace \<Rightarrow> cache_metrics \<Rightarrow> cache_metrics" where
  "recordHit n m = m(n := (m n)\<lparr>cm_hits := (cm_hits (m n) + 1) mod 2 ^ 64\<rparr>)"

definition recordMiss :: "cache_namespace \<Rightarrow> cache_metrics \<Rightarrow> cache_metrics" where
  "recordMiss n m = m(n := (m n)\<lparr>cm_misses := (cm_misses (m n) + 1) mod 2 ^ 64\<rparr>)"

definition recordDegraded :: "cache_namespace \<Rightarrow> cache_metrics \<Rightarrow> cache_metrics" where
  "recordDegraded n m = m(n := (m n)\<lparr>cm_degraded := (cm_degraded (m n) + 1) mod 2 ^ 64\<rparr>)"

definition cache_metrics_toJson :: "cache_metrics \<Rightarrow> json" where
  "cache_metrics_toJson m = JObj [(''namespaces'', JObj (map (\<lambda>n. (namespaceName n,
     JObj [(''hits'', JInt (int (cm_hits (m n)))), (''misses'', JInt (int (cm_misses (m n)))),
           (''degraded'', JInt (int (cm_degraded (m n))))])) [NsMeta, NsList, NsUrl, NsOther]))]"

definition metrics_get :: "'c cache_if \<Rightarrow> string \<Rightarrow> 'c \<times> cache_metrics \<Rightarrow> string option \<times> 'c \<times> cache_metrics" where
  "metrics_get inner key cm = (case cm of (c, m) \<Rightarrow>
     (case ci_get inner key c of (res, c') \<Rightarrow>
        let n = classifyKey key
        in (res, c', if res \<noteq> None then recordHit n m
                     else if ci_isAvailable inner c' then recordMiss n m
                     else recordDegraded n m)))"

definition on_inner :: "('c \<Rightarrow> 'a \<times> 'c) \<Rightarrow> 'c \<times> cache_metrics \<Rightarrow> 'a \<times> 'c \<times> cache_metrics" where
  "on_inner f cm = (case f (fst cm) of (x, c') \<Rightarrow> (x, c', snd cm))"

definition metrics_cache_if :: "'c cache_if \<Rightarrow> ('c \<times> cache_metrics) cache_if" where
  "metrics_cache_if inner =
     \<lparr>ci_isAvailable = (\<lambda>cm. ci_isAvailable inner (fst cm)), ci_get = metrics_get inner,
      ci_setex = (\<lambda>key v ttl. on_inner (ci_setex inner key v ttl)),
      ci_del = (\<lambda>key. on_inner (ci_del inner key)),
      ci_bumpVersion = (\<lambda>nsp i. on_inner (ci_bumpVersion inner nsp i)),
      ci_getVersion = (\<lambda>nsp i. on_inner (ci_getVersion inner nsp i))\<rparr>"

end
