(* ===== verification/Cache_Laws.thy ===== *)
theory Cache_Laws
  imports Cache_Client
begin

text \<open>
  What the callers of the cache rely on, as a locale: an entry is what a get could return now;
  operations only lose entries, except that a setex may add its own; a delete removes its entry
  whether or not it reports success, because a failed command turns the cache off. The locale is
  interpreted for the Redis cache, the null cache and the counting decorator that
  \<open>Backend.cpp\<close> puts around the Redis cache. Version keys are treated at the end.
\<close>

section \<open>The contract\<close>

locale cache_contract =
  fixes ci :: "'c cache_if"
    and entry :: "'c \<Rightarrow> string \<Rightarrow> string option"
    and tick :: "nat \<Rightarrow> 'c \<Rightarrow> 'c"
  assumes get_entry: "\<not> starts_with k ''ver:'' \<Longrightarrow> ci_get ci k c = (Some v, c') \<Longrightarrow> entry c k = Some v"
    and get_keeps: "entry (snd (ci_get ci k c)) \<subseteq>\<^sub>m entry c"
    and setex_adds: "entry (snd (ci_setex ci k v ttl c)) \<subseteq>\<^sub>m (entry c)(k \<mapsto> v)"
    and del_removes: "entry (snd (ci_del ci k c)) \<subseteq>\<^sub>m (entry c)(k := None)"
    and bump_keeps: "entry (snd (ci_bumpVersion ci nsp i c)) \<subseteq>\<^sub>m entry c"
    and version_keeps: "entry (snd (ci_getVersion ci nsp i c)) \<subseteq>\<^sub>m entry c"
    and tick_keeps: "entry (tick d c) \<subseteq>\<^sub>m entry c"

datatype cache_op = CGet string | CSetex string string int | CDel string
  | CBump string string | CVersion string string | CTick nat

fun cache_step :: "'c cache_if \<Rightarrow> (nat \<Rightarrow> 'c \<Rightarrow> 'c) \<Rightarrow> cache_op \<Rightarrow> 'c \<Rightarrow> 'c" where
  "cache_step ci tick (CGet k) c = snd (ci_get ci k c)"
| "cache_step ci tick (CSetex k v ttl) c = snd (ci_setex ci k v ttl c)"
| "cache_step ci tick (CDel k) c = snd (ci_del ci k c)"
| "cache_step ci tick (CBump nsp i) c = snd (ci_bumpVersion ci nsp i c)"
| "cache_step ci tick (CVersion nsp i) c = snd (ci_getVersion ci nsp i c)"
| "cache_step ci tick (CTick d) c = tick d c"

fun cache_run :: "'c cache_if \<Rightarrow> (nat \<Rightarrow> 'c \<Rightarrow> 'c) \<Rightarrow> cache_op list \<Rightarrow> 'c \<Rightarrow> 'c" where
  "cache_run ci tick [] c = c"
| "cache_run ci tick (op # ops) c = cache_run ci tick ops (cache_step ci tick op c)"

text \<open>The values that a run stores under a key.\<close>

fun stored_values :: "string \<Rightarrow> cache_op list \<Rightarrow> string list" where
  "stored_values k [] = []"
| "stored_values k (CSetex k' v ttl # ops) = (if k' = k then v # stored_values k ops else stored_values k ops)"
| "stored_values k (op # ops) = stored_values k ops"

lemma map_leD: "m \<subseteq>\<^sub>m m' \<Longrightarrow> m x = Some y \<Longrightarrow> m' x = Some y"
  by (metis domI map_le_def)

context cache_contract
begin

lemma step_entry:
  assumes "entry (cache_step ci tick op c) k = Some v"
  shows "entry c k = Some v \<or> v \<in> set (stored_values k [op])"
proof (cases op)
  case (CSetex k' w ttl)
  then have "((entry c)(k' \<mapsto> w)) k = Some v" using assms map_leD [OF setex_adds] by simp
  then show ?thesis using CSetex by (simp split: if_splits)
next
  case (CDel k')
  then have "((entry c)(k' := None)) k = Some v" using assms map_leD [OF del_removes] by simp
  then show ?thesis by (simp split: if_splits)
qed (use assms in \<open>auto dest: map_leD [OF get_keeps] map_leD [OF bump_keeps] map_leD [OF version_keeps]
    map_leD [OF tick_keeps]\<close>)

lemma stored_Cons: "stored_values k (op # ops) = stored_values k [op] @ stored_values k ops"
  by (cases op) simp_all

lemma run_entry:
  "entry (cache_run ci tick ops c) k = Some v \<Longrightarrow> entry c k = Some v \<or> v \<in> set (stored_values k ops)"
proof (induction ops arbitrary: c)
  case (Cons op ops)
  then show ?case using step_entry [of op c k v] stored_Cons [of k op ops] by auto
qed simp

lemma got_value_was_stored:
  assumes "\<not> starts_with k ''ver:''" and g: "ci_get ci k (cache_run ci tick ops c) = (Some v, c')"
  shows "entry c k = Some v \<or> v \<in> set (stored_values k ops)"
  using get_entry [OF assms] by (rule run_entry)

lemma deleted_entry_gone:
  assumes "\<not> starts_with k ''ver:''"
    and "ci_get ci k (cache_run ci tick ops (snd (ci_del ci k c))) = (Some v, c')"
  shows "v \<in> set (stored_values k ops)"
proof -
  have "entry (snd (ci_del ci k c)) k = None"
    using map_leD [OF del_removes, of k c k] by (cases "entry (snd (ci_del ci k c)) k") auto
  with got_value_was_stored [OF assms] show ?thesis by simp
qed

text \<open>Counting the reads changes nothing of the contract.\<close>

lemma decorated:
  "cache_contract (metrics_cache_if ci) (\<lambda>cm. entry (fst cm)) (\<lambda>d cm. (tick d (fst cm), snd cm))"
proof (unfold_locales, goal_cases)
  case (1 k c v c')
  then show ?case using get_entry [of k "fst c" v]
    by (auto simp: metrics_cache_if_def metrics_get_def Let_def split: prod.splits)
next
  case (2 k c)
  then show ?case using get_keeps [of k "fst c"]
    by (auto simp: metrics_cache_if_def metrics_get_def Let_def split: prod.splits)
next
  case (3 k v ttl c)
  then show ?case using setex_adds [of k v ttl "fst c"]
    by (simp add: metrics_cache_if_def on_inner_def split_beta)
next
  case (4 k c)
  then show ?case using del_removes [of k "fst c"]
    by (simp add: metrics_cache_if_def on_inner_def split_beta)
next
  case (5 nsp i c)
  then show ?case using bump_keeps [of nsp i "fst c"]
    by (simp add: metrics_cache_if_def on_inner_def split_beta)
next
  case (6 nsp i c)
  then show ?case using version_keeps [of nsp i "fst c"]
    by (simp add: metrics_cache_if_def on_inner_def split_beta)
next
  case (7 d c)
  then show ?case using tick_keeps [of d "fst c"] by simp
qed

end

section \<open>The Redis cache keeps the contract\<close>

definition cache_entry :: "redis_cache \<Rightarrow> string \<Rightarrow> string option" where
  "cache_entry c k =
     (if ca_available c \<and> \<not> starts_with k ''ver:'' then
        (case r_value (ca_server c) (cacheKey c k) of Some (RStr v) \<Rightarrow> Some v | _ \<Rightarrow> None) else None)"

definition server_tick :: "nat \<Rightarrow> redis_server \<Rightarrow> redis_server" where
  "server_tick d s = s\<lparr>r_now := r_now s + int d\<rparr>"

definition cache_tick :: "nat \<Rightarrow> redis_cache \<Rightarrow> redis_cache" where
  "cache_tick d c = c\<lparr>ca_server := server_tick d (ca_server c)\<rparr>"

lemma degrade_cases:
  obtains "\<not> ca_available c" "degrade d m c = (d, c)"
  | x s where "ca_available c" "m (ca_server c) = (Inr x, s)" "degrade d m c = (x, c\<lparr>ca_server := s\<rparr>)"
  | s where "ca_available c" "degrade d m c = (d, c\<lparr>ca_server := s, ca_available := False\<rparr>)"
  by (cases "ca_available c"; cases "m (ca_server c)"; cases "fst (m (ca_server c))")
    (auto simp: degrade_def)

lemma cacheKey_inj [simp]: "cacheKey c k = cacheKey c k' \<longleftrightarrow> k = k'"
  by (simp add: cacheKey_def)

lemma cacheKey_upd [simp]:
  "cacheKey (c\<lparr>ca_server := s\<rparr>) = cacheKey c" "cacheKey (c\<lparr>ca_available := b\<rparr>) = cacheKey c"
  "versionKey (c\<lparr>ca_server := s\<rparr>) = versionKey c" "versionKey (c\<lparr>ca_available := b\<rparr>) = versionKey c"
  by (simp_all add: fun_eq_iff cacheKey_def versionKey_def)

lemma cacheKey_version: "\<not> starts_with k ''ver:'' \<Longrightarrow> cacheKey c k \<noteq> versionKey c nsp i"
  by (auto simp: cacheKey_def versionKey_def starts_with_def)

lemma cache_entry_off [simp]: "\<not> ca_available c \<Longrightarrow> cache_entry c = (\<lambda>_. None)"
  by (simp add: fun_eq_iff cache_entry_def)

text \<open>A step of the server that changes at most one key, seen through the entries.\<close>

lemma cache_entry_step:
  assumes "\<And>k. \<not> starts_with k ''ver:'' \<Longrightarrow> cacheKey c k \<noteq> j \<Longrightarrow> r_value s (cacheKey c k) = r_value (ca_server c) (cacheKey c k)"
    and "\<And>k. \<not> starts_with k ''ver:'' \<Longrightarrow> cacheKey c k = j \<Longrightarrow> ca_available c \<Longrightarrow>
       (case r_value s j of Some (RStr v) \<Rightarrow> upd k = Some v | _ \<Rightarrow> True)"
    and "\<And>k. \<not> starts_with k ''ver:'' \<Longrightarrow> cacheKey c k \<noteq> j \<Longrightarrow> upd k = cache_entry c k"
  shows "cache_entry (c\<lparr>ca_server := s\<rparr>) \<subseteq>\<^sub>m upd"
proof (unfold map_le_def, intro ballI)
  fix k assume "k \<in> dom (cache_entry (c\<lparr>ca_server := s\<rparr>))"
  then have k: "ca_available c" "\<not> starts_with k ''ver:''"
    by (auto simp: cache_entry_def split: if_splits)
  from \<open>k \<in> _\<close> obtain v where v: "r_value s (cacheKey c k) = Some (RStr v)"
    by (auto simp: cache_entry_def split: if_splits option.splits rvalue.splits)
  show "cache_entry (c\<lparr>ca_server := s\<rparr>) k = upd k"
  proof (cases "cacheKey c k = j")
    case True
    with assms(2) [of k] k v show ?thesis by (simp add: cache_entry_def)
  next
    case False
    with assms(1,3) [of k] k show ?thesis by (simp add: cache_entry_def)
  qed
qed

lemma same_server_entry: "r_value s = r_value (ca_server c) \<Longrightarrow> cache_entry (c\<lparr>ca_server := s\<rparr>) = cache_entry c"
  by (simp add: fun_eq_iff cache_entry_def)

lemma cmd_get_state: "snd (cmd_get k s) = s"
  by (simp add: cmd_get_def split: option.split rvalue.split)

lemma cmd_incr_other: "i \<noteq> k \<Longrightarrow> r_value (snd (cmd_incr k s)) i = r_value s i"
  by (auto simp: cmd_incr_def r_value_put split: option.split rvalue.split prod.split)

lemma cmd_expire_other: "i \<noteq> k \<Longrightarrow> r_value (snd (cmd_expire k ttl s)) i = r_value s i"
  by (auto simp: cmd_expire_def r_value_put split: option.split)

lemma script_bump_other: "i \<noteq> k \<Longrightarrow> r_value (snd (script_bump k ttl s)) i = r_value s i"
  using cmd_incr_other [of i k s] cmd_expire_other [of i k ttl "snd (cmd_incr k s)"]
  by (auto simp: script_bump_def split: prod.splits sum.splits)

lemma degrade_keeps:
  assumes "\<And>x s. m (ca_server c) = (Inr x, s) \<Longrightarrow> cache_entry (c\<lparr>ca_server := s\<rparr>) \<subseteq>\<^sub>m upd"
    and "cache_entry c \<subseteq>\<^sub>m upd \<or> ca_available c"
  shows "cache_entry (snd (degrade d m c)) \<subseteq>\<^sub>m upd"
  by (cases rule: degrade_cases [of c d m]) (use assms in \<open>auto simp: map_le_def\<close>)

interpretation rc: cache_contract redis_cache_if cache_entry cache_tick
proof (unfold_locales, goal_cases)
  case (1 k c v c')
  then have "cache_get k c = (Some v, c')" by (simp add: redis_cache_if_def)
  then show ?case using \<open>\<not> starts_with k _\<close>
    by (cases rule: degrade_cases [of c None "r_exec (cmd_get (cacheKey c k))"])
      (auto simp: cache_get_def cache_entry_def cmd_get_def dest!: r_exec_InrD split: option.splits rvalue.splits)
next
  case (2 k c)
  have "cache_entry (c\<lparr>ca_server := s\<rparr>) \<subseteq>\<^sub>m cache_entry c"
    if r: "r_exec (cmd_get (cacheKey c k)) (ca_server c) = (Inr x, s)" for x s
    using r_exec_InrD [OF r] cmd_get_state by (metis map_le_refl r_faults_sel(2) same_server_entry snd_conv)
  from degrade_keeps [where m = "r_exec (cmd_get (cacheKey c k))" and c = c and upd = "cache_entry c", OF this]
  show ?case by (simp add: redis_cache_if_def cache_get_def)
next
  case (3 k v ttl c)
  have "cache_entry (c\<lparr>ca_server := s\<rparr>) \<subseteq>\<^sub>m (cache_entry c)(k \<mapsto> v)"
    if "r_exec (cmd_setex (cacheKey c k) ttl v) (ca_server c) = (Inr x, s)" for x s
    using r_exec_InrD [OF that]
    by (intro cache_entry_step [where j = "cacheKey c k"])
      (auto simp: cmd_setex_def r_value_put split: if_splits option.splits rvalue.splits)
  then show ?case
    by (cases "ca_available c")
      (auto simp: redis_cache_if_def cache_setex_def bindp_app split: prod.splits sum.splits intro!: degrade_keeps)
next
  case (4 k c)
  have "cache_entry (c\<lparr>ca_server := s\<rparr>) \<subseteq>\<^sub>m (cache_entry c)(k := None)"
    if "r_exec (cmd_del (cacheKey c k)) (ca_server c) = (Inr x, s)" for x s
    using r_exec_InrD [OF that]
    by (intro cache_entry_step [where j = "cacheKey c k"]) (auto simp: cmd_del_def r_value_put)
  then show ?case
    by (cases "ca_available c")
      (auto simp: redis_cache_if_def cache_del_def bindp_app split: prod.splits sum.splits intro!: degrade_keeps)
next
  case (5 nsp i c)
  let ?j = "versionKey c nsp i"
  have "cache_entry (c\<lparr>ca_server := s\<rparr>) \<subseteq>\<^sub>m cache_entry c"
    if r: "r_exec (script_bump ?j ttl) (ca_server c) = (Inr x, s)" for x s ttl
  proof -
    obtain fs where "script_bump ?j ttl ((ca_server c)\<lparr>r_faults := fs\<rparr>) = (Inr x, s)"
      using r_exec_InrD [OF r] by blast
    then have "r_value s k = r_value (ca_server c) k" if "k \<noteq> ?j" for k
      using script_bump_other [OF that, of ttl "(ca_server c)\<lparr>r_faults := fs\<rparr>"] by simp
    then show ?thesis using cacheKey_version [of _ c nsp i]
      by (intro cache_entry_step [where j = ?j]) auto
  qed
  then show ?case
    by (auto simp: redis_cache_if_def cache_bumpVersion_def bindp_app split: prod.splits sum.splits intro!: degrade_keeps)
next
  case (6 nsp i c)
  let ?m = "bindp (r_exec (cmd_get (versionKey c nsp i))) (\<lambda>v. case v of
        None \<Rightarrow> ret 0 | Some t \<Rightarrow> (case stoll t of Inl e \<Rightarrow> throw e | Inr n \<Rightarrow> ret n))"
  have "cache_entry (c\<lparr>ca_server := s\<rparr>) \<subseteq>\<^sub>m cache_entry c" if r: "?m (ca_server c) = (Inr x, s)" for x s
  proof -
    obtain y where "r_exec (cmd_get (versionKey c nsp i)) (ca_server c) = (Inr y, s)"
      using r by (auto simp: bindp_app split: prod.splits sum.splits option.splits)
    from r_exec_InrD [OF this] show ?thesis
      using cmd_get_state by (metis map_le_refl r_faults_sel(2) same_server_entry snd_conv)
  qed
  then show ?case by (auto simp: redis_cache_if_def cache_getVersion_def intro!: degrade_keeps)
next
  case (7 d c)
  have "r_value (server_tick d s) k = None \<or> r_value (server_tick d s) k = r_value s k" for s k
    by (auto simp: server_tick_def r_value_def r_live_def live_at_def split: option.splits)
  note t = this [of "ca_server c"]
  have "cache_entry (cache_tick d c) k = None \<or> cache_entry (cache_tick d c) k = cache_entry c k" for k
    using t [of "cacheKey c k"] by (auto simp: cache_entry_def cache_tick_def)
  then show ?case by (metis domIff map_le_def)
qed

interpretation nc: cache_contract null_cache_if "\<lambda>_ _. None" "\<lambda>_ c. c"
  by unfold_locales (simp_all add: null_cache_if_def)

interpretation mc: cache_contract "metrics_cache_if redis_cache_if" "\<lambda>cm. cache_entry (fst cm)"
  "\<lambda>d cm. (cache_tick d (fst cm), snd cm)"
  by (rule rc.decorated)

section \<open>Version keys\<close>

lemma as_number_SomeD: "as_number t = Some n \<Longrightarrow> stoll t = Inr n"
  by (auto simp: as_number_def split: sum.splits if_splits)

lemma getVersion_value:
  assumes "cache_getVersion nsp i c = (n, c')" "ca_available c'"
  shows "c' = c\<lparr>ca_server := ca_server c'\<rparr> \<and>
     (case r_value (ca_server c) (versionKey c nsp i) of
        None \<Rightarrow> n = 0 | Some (RStr t) \<Rightarrow> stoll t = Inr n | Some _ \<Rightarrow> False)"
  using assms unfolding cache_getVersion_def
  by (cases rule: degrade_cases [of c 0 "bindp (r_exec (cmd_get (versionKey c nsp i))) (\<lambda>v. case v of
        None \<Rightarrow> ret 0 | Some t \<Rightarrow> (case stoll t of Inl e \<Rightarrow> throw e | Inr n \<Rightarrow> ret n))"])
    (auto simp: bindp_app cmd_get_def dest!: r_exec_InrD split: prod.splits sum.splits option.splits rvalue.splits)

text \<open>A version that is at least \<open>w\<close> and lives until \<open>e\<close>, in a cache that is on.\<close>

definition version_ok :: "string \<Rightarrow> int \<Rightarrow> time_point \<Rightarrow> redis_cache \<Rightarrow> bool" where
  "version_ok K w e c \<longleftrightarrow> (ca_available c \<longrightarrow> (\<exists>t e' n. r_store (ca_server c) K = Some (RStr t, Some e') \<and>
     as_number t = Some n \<and> w \<le> n \<and> e \<le> e'))"

fun plain_op :: "cache_op \<Rightarrow> bool" where
  "plain_op (CSetex k v ttl) \<longleftrightarrow> \<not> starts_with k ''ver:''"
| "plain_op (CDel k) \<longleftrightarrow> \<not> starts_with k ''ver:''"
| "plain_op op \<longleftrightarrow> True"

fun elapsed :: "cache_op \<Rightarrow> nat" where
  "elapsed (CTick d) = d"
| "elapsed op = 0"

lemma version_ok_off: "\<not> ca_available c \<Longrightarrow> version_ok K w e c"
  by (simp add: version_ok_def)

lemma version_ok_store: "r_store s K = r_store (ca_server c) K \<Longrightarrow> version_ok K w e c \<Longrightarrow> version_ok K w e (c\<lparr>ca_server := s\<rparr>)"
  by (simp add: version_ok_def)

lemma cmd_frame:
  "r_store (snd (cmd_get k s)) = r_store s" "r_now (snd (cmd_get k s)) = r_now s"
  "K \<noteq> k \<Longrightarrow> r_store (snd (cmd_setex k ttl v s)) K = r_store s K" "r_now (snd (cmd_setex k ttl v s)) = r_now s"
  "K \<noteq> k \<Longrightarrow> r_store (snd (cmd_del k s)) K = r_store s K" "r_now (snd (cmd_del k s)) = r_now s"
  "K \<noteq> k \<Longrightarrow> r_store (snd (cmd_incr k s)) K = r_store s K" "r_now (snd (cmd_incr k s)) = r_now s"
  "K \<noteq> k \<Longrightarrow> r_store (snd (cmd_expire k ttl s)) K = r_store s K" "r_now (snd (cmd_expire k ttl s)) = r_now s"
  by (auto simp: cmd_get_def cmd_setex_def cmd_del_def cmd_incr_def cmd_expire_def
      split: option.split rvalue.split prod.split)

lemma script_bump_frame:
  "K \<noteq> k \<Longrightarrow> r_store (snd (script_bump k ttl s)) K = r_store s K" "r_now (snd (script_bump k ttl s)) = r_now s"
  using cmd_frame(7) [of K k s] cmd_frame(9) [of K k ttl "snd (cmd_incr k s)"] cmd_frame(8) [of k s]
    cmd_frame(10) [of k ttl "snd (cmd_incr k s)"]
  by (auto simp: script_bump_def split: prod.splits sum.splits)

lemma r_exec_frame:
  assumes "\<And>fs. r_now (snd (f (s\<lparr>r_faults := fs\<rparr>))) = r_now s"
  shows "r_now (snd (r_exec f s)) = r_now s"
  by (cases rule: r_exec_cases [of f s]) (use assms in auto)

lemma degrade_now: "r_now (snd (m (ca_server c))) = r_now (ca_server c) \<Longrightarrow>
   r_now (ca_server (snd (degrade d m c))) = r_now (ca_server c)"
  by (cases "m (ca_server c)"; cases "fst (m (ca_server c))") (auto simp: degrade_def)

lemma bindp_ret_now: "r_now (snd (m s)) = r_now s \<Longrightarrow> (\<And>x s. snd (f x s) = s) \<Longrightarrow> r_now (snd (bindp m f s)) = r_now s"
  by (cases "m s"; cases "fst (m s)") (auto simp: bindp_def)

lemma step_now:
  "r_now (ca_server (cache_step redis_cache_if cache_tick op c)) = r_now (ca_server c) + int (elapsed op)"
  by (cases op)
    (auto simp: redis_cache_if_def cache_get_def cache_setex_def cache_del_def cache_bumpVersion_def
      cache_getVersion_def cache_tick_def server_tick_def cmd_frame script_bump_frame
      split: option.split sum.split
      intro!: degrade_now r_exec_frame bindp_ret_now)

lemma cache_config_step [simp]:
  "ca_config (snd (degrade d m c)) = ca_config c"
  by (cases rule: degrade_cases [of c d m]) auto

lemma step_config: "ca_config (cache_step redis_cache_if cache_tick op c) = ca_config c"
  by (cases op) (simp_all add: redis_cache_if_def cache_get_def cache_setex_def cache_del_def
      cache_bumpVersion_def cache_getVersion_def cache_tick_def)

text \<open>What a degraded operation leaves: an available cache ran its command.\<close>

lemma degrade_version_ok:
  assumes "version_ok K w e c"
    and "\<And>x s. m (ca_server c) = (Inr x, s) \<Longrightarrow> version_ok K w e (c\<lparr>ca_server := s\<rparr>)"
  shows "version_ok K w e (snd (degrade d m c))"
  by (cases rule: degrade_cases [of c d m]) (use assms in \<open>auto intro: version_ok_off\<close>)

lemma degrade_frame:
  assumes "version_ok K w e c" "\<And>s. r_store s = r_store (ca_server c) \<Longrightarrow> r_store (snd (m s)) K = r_store s K"
  shows "version_ok K w e (snd (degrade d (bindp (r_exec m) (\<lambda>x. ret (f x))) c))"
proof (rule degrade_version_ok [OF assms(1)])
  fix x s assume "bindp (r_exec m) (\<lambda>x. ret (f x)) (ca_server c) = (Inr x, s)"
  then obtain y where "r_exec m (ca_server c) = (Inr y, s)"
    by (auto simp: bindp_app split: prod.splits sum.splits)
  from r_exec_InrD [OF this] obtain fs where "m ((ca_server c)\<lparr>r_faults := fs\<rparr>) = (Inr y, s)" by blast
  with assms(2) [of "(ca_server c)\<lparr>r_faults := fs\<rparr>"] assms(1)
  show "version_ok K w e (c\<lparr>ca_server := s\<rparr>)" by (auto intro: version_ok_store)
qed

lemma bindp_ret_id: "bindp m (\<lambda>x. ret x) = m"
  by (rule ext) (simp add: bindp_app split: prod.splits sum.splits)

text \<open>An increment of a living number stores the next one and renews its life.\<close>

lemma script_bump_hit:
  assumes "r_store s K = Some (RStr t, Some e')" "as_number t = Some n" "r_now s < e'" "0 < ttl"
    and "script_bump K ttl s = (Inr x, s')"
  shows "x = n + 1 \<and> r_store s' K = Some (RStr (fmt_int (n + 1)), Some (r_now s + ttl * ns)) \<and> is_int64 (n + 1)"
  using assms by (auto simp: script_bump_def cmd_incr_def cmd_expire_def r_live_def split: if_splits)

lemma version_key_plain: "plain_op op \<Longrightarrow> (case op of CSetex k v ttl \<Rightarrow> cacheKey c k \<noteq> versionKey c nsp i
    | CDel k \<Rightarrow> cacheKey c k \<noteq> versionKey c nsp i | _ \<Rightarrow> True)"
  by (cases op) (simp_all add: cacheKey_version)

lemma bump_version_ok:
  assumes ok: "version_ok K w e c" and K: "K = versionKey c nsp i"
    and t: "r_now (ca_server c) < e" "0 < cc_version_key_ttl (ca_config c)"
      "e \<le> r_now (ca_server c) + cc_version_key_ttl (ca_config c) * ns"
  shows "version_ok K w e (snd (cache_bumpVersion nsp' i' c))"
proof (cases "versionKey c nsp' i' = K")
  case False
  then show ?thesis unfolding cache_bumpVersion_def
    by (intro degrade_frame ok) (simp add: script_bump_frame(1))
next
  case True
  show ?thesis unfolding cache_bumpVersion_def
  proof (rule degrade_version_ok [OF ok])
    fix x s
    assume "bindp (r_exec (script_bump (versionKey c nsp' i') (cc_version_key_ttl (ca_config c))))
        (\<lambda>n. ret (Some n)) (ca_server c) = (Inr x, s)"
    then obtain y where "r_exec (script_bump K (cc_version_key_ttl (ca_config c))) (ca_server c) = (Inr y, s)"
      using True by (auto simp: bindp_app split: prod.splits sum.splits)
    from r_exec_InrD [OF this] obtain fs
      where b: "script_bump K (cc_version_key_ttl (ca_config c)) ((ca_server c)\<lparr>r_faults := fs\<rparr>) = (Inr y, s)" by blast
    show "version_ok K w e (c\<lparr>ca_server := s\<rparr>)"
    proof (cases "ca_available c")
      case False
      then show ?thesis by (simp add: version_ok_def)
    next
      case True
      with ok obtain t e' n where h: "r_store (ca_server c) K = Some (RStr t, Some e')" "as_number t = Some n"
        "w \<le> n" "e \<le> e'" by (auto simp: version_ok_def)
      have "r_store s K = Some (RStr (fmt_int (n + 1)),
          Some (r_now (ca_server c) + cc_version_key_ttl (ca_config c) * ns)) \<and> is_int64 (n + 1)"
        using script_bump_hit [OF _ h(2) _ t(2) b, of e'] h t by simp
      with h t show ?thesis by (simp add: version_ok_def)
    qed
  qed
qed

lemma getVersion_version_ok:
  assumes "version_ok K w e c"
  shows "version_ok K w e (snd (cache_getVersion nsp i c))"
  unfolding cache_getVersion_def
proof (rule degrade_version_ok [OF assms])
  fix x s
  assume "bindp (r_exec (cmd_get (versionKey c nsp i))) (\<lambda>v. case v of None \<Rightarrow> ret 0
      | Some t \<Rightarrow> (case stoll t of Inl e \<Rightarrow> throw e | Inr n \<Rightarrow> ret n)) (ca_server c) = (Inr x, s)"
  then obtain y where "r_exec (cmd_get (versionKey c nsp i)) (ca_server c) = (Inr y, s)"
    by (auto simp: bindp_app split: prod.splits sum.splits option.splits)
  from r_exec_InrD [OF this] obtain fs where "cmd_get (versionKey c nsp i) ((ca_server c)\<lparr>r_faults := fs\<rparr>) = (Inr y, s)"
    by blast
  then have "r_store s = r_store (ca_server c)"
    using cmd_frame(1) [of "versionKey c nsp i" "(ca_server c)\<lparr>r_faults := fs\<rparr>"] by simp
  with assms show "version_ok K w e (c\<lparr>ca_server := s\<rparr>)" by (auto intro: version_ok_store)
qed

lemma step_version_ok:
  assumes ok: "version_ok K w e c" and K: "K = versionKey c nsp i" and p: "plain_op op"
    and t: "r_now (ca_server c) < e" "0 < cc_version_key_ttl (ca_config c)"
      "e \<le> r_now (ca_server c) + cc_version_key_ttl (ca_config c) * ns"
  shows "version_ok K w e (cache_step redis_cache_if cache_tick op c)"
proof (cases op)
  case (CGet k)
  have "version_ok K w e (snd (degrade None (bindp (r_exec (cmd_get (cacheKey c k))) (\<lambda>x. ret x)) c))"
    by (rule degrade_frame [OF ok]) (simp add: cmd_frame)
  then show ?thesis by (simp add: CGet redis_cache_if_def cache_get_def bindp_ret_id)
next
  case (CSetex k v ttl)
  have "cacheKey c k \<noteq> K" using version_key_plain [OF p, of c nsp i] K CSetex by simp
  then show ?thesis unfolding CSetex
    by (simp add: redis_cache_if_def cache_setex_def) (rule degrade_frame [OF ok], simp add: cmd_frame)
next
  case (CDel k)
  have "cacheKey c k \<noteq> K" using version_key_plain [OF p, of c nsp i] K CDel by simp
  then show ?thesis unfolding CDel
    by (simp add: redis_cache_if_def cache_del_def) (rule degrade_frame [OF ok], simp add: cmd_frame)
next
  case (CBump nsp' i')
  then show ?thesis using bump_version_ok [OF ok K t] by (simp add: redis_cache_if_def)
next
  case (CVersion nsp' i')
  then show ?thesis using getVersion_version_ok [OF ok] by (simp add: redis_cache_if_def)
next
  case (CTick d)
  then show ?thesis using ok by (simp add: version_ok_def cache_tick_def server_tick_def)
qed

lemma script_bump_next:
  assumes "script_bump K ttl s = (Inr x, s')" "0 < ttl"
  shows "(r_value s K = None \<and> x = 1 \<or> (\<exists>t n. r_value s K = Some (RStr t) \<and> as_number t = Some n \<and> x = n + 1)) \<and>
     is_int64 x \<and> r_store s' K = Some (RStr (fmt_int x), Some (r_now s + ttl * ns))"
proof -
  have e: "cmd_expire K ttl s1 = (Inr True, r_put K (Some (u, Some (r_now s1 + ttl * ns))) s1)"
    if "r_live s1 K = Some (u, d)" for s1 u d
    using that assms(2) by (simp add: cmd_expire_def)
  show ?thesis
  proof (cases "r_live s K")
    case None
    have "r_live (r_put K (Some (RStr (fmt_int 1), None)) s) K = Some (RStr (fmt_int 1), None)" by simp
    from e [OF this] None assms(1) show ?thesis
      by (auto simp: script_bump_def cmd_incr_def r_value_def is_int64_def)
  next
    case (Some p)
    obtain u d where p: "p = (u, d)" by (cases p)
    from Some p assms(1) obtain t n where t: "u = RStr t" "as_number t = Some n" "is_int64 (n + 1)"
      by (auto simp: script_bump_def cmd_incr_def split: rvalue.splits option.splits if_splits prod.splits)
    have "live_at (r_now s) (Some (RStr (fmt_int (n + 1)), d)) = Some (RStr (fmt_int (n + 1)), d)"
      using Some p by (cases d) (auto simp: r_live_def live_at_def split: option.splits if_splits)
    then have "r_live (r_put K (Some (RStr (fmt_int (n + 1)), d)) s) K = Some (RStr (fmt_int (n + 1)), d)" by simp
    from e [OF this] Some p t assms(1) show ?thesis
      by (auto simp: script_bump_def cmd_incr_def r_value_def)
  qed
qed

lemma getVersion_state:
  assumes "cache_getVersion nsp i c = (v, c1)" "ca_available c1"
  shows "ca_config c1 = ca_config c \<and> r_value (ca_server c1) = r_value (ca_server c)"
proof -
  have "ca_config c1 = ca_config c" using assms(1) cache_config_step
    unfolding cache_getVersion_def by (metis snd_conv)
  moreover have "r_value (ca_server c1) = r_value (ca_server c)"
    using assms unfolding cache_getVersion_def
    by (cases rule: degrade_cases [of c 0 "bindp (r_exec (cmd_get (versionKey c nsp i))) (\<lambda>v. case v of
        None \<Rightarrow> ret 0 | Some t \<Rightarrow> (case stoll t of Inl e \<Rightarrow> throw e | Inr n \<Rightarrow> ret n))"])
      (auto simp: bindp_app cmd_get_def dest!: r_exec_InrD split: prod.splits sum.splits option.splits rvalue.splits)
  ultimately show ?thesis by simp
qed

section \<open>Properties\<close>

definition counted_tick :: "nat \<Rightarrow> redis_cache \<times> cache_metrics \<Rightarrow> redis_cache \<times> cache_metrics" where
  "counted_tick d cm = (cache_tick d (fst cm), snd cm)"

text \<open>
  After an entry of the cache was deleted, whether or not the
  delete reported success, the cache serves under its key only values that were stored there
  afterwards: in any sequence of cache operations and any passing of time, with any commands
  refused by the server or run with their reply lost. (A failed command turns the cache off for
  good, so an invalidation that did not reach the server cannot lead to a stale answer.) The
  statement is about the counting cache the program runs with, the counters included.
\<close>

theorem deleted_entry_is_not_served:
  assumes "\<not> starts_with k ''ver:''"
    and "ci_get (metrics_cache_if redis_cache_if) k
      (cache_run (metrics_cache_if redis_cache_if) counted_tick ops
        (snd (ci_del (metrics_cache_if redis_cache_if) k c))) = (Some v, c')"
  shows "v \<in> set (stored_values k ops)"
proof -
  have "counted_tick = (\<lambda>d cm. (cache_tick d (fst cm), snd cm))" by (simp add: fun_eq_iff counted_tick_def)
  with assms show ?thesis using mc.deleted_entry_gone [of k ops c v c'] by simp
qed

definition demo_cache :: redis_cache where
  "demo_cache = \<lparr>ca_config = default_cache_config, ca_available = True,
     ca_server = \<lparr>r_store = (\<lambda>_. None), r_now = 0, r_faults = []\<rparr>\<rparr>"

theorem deleted_entry_is_not_served_witness:
  "fst (ci_get (metrics_cache_if redis_cache_if) ''k''
      (cache_run (metrics_cache_if redis_cache_if) counted_tick [CGet ''k'', CSetex ''k'' ''new'' 5, CTick 2]
        (snd (ci_del (metrics_cache_if redis_cache_if) ''k'' (demo_cache, new_cache_metrics))))) = Some ''new'' \<and>
   ''new'' \<in> set (stored_values ''k'' [CGet ''k'', CSetex ''k'' ''new'' 5, CTick 2])"
proof -
  let ?r = "ci_get (metrics_cache_if redis_cache_if) ''k''
      (cache_run (metrics_cache_if redis_cache_if) counted_tick [CGet ''k'', CSetex ''k'' ''new'' 5, CTick 2]
        (snd (ci_del (metrics_cache_if redis_cache_if) ''k'' (demo_cache, new_cache_metrics))))"
  have g: "fst ?r = Some ''new''"
    by (simp add: metrics_cache_if_def redis_cache_if_def metrics_get_def on_inner_def cache_get_def
        cache_del_def cache_setex_def cacheKey_def degrade_def bindp_def cmd_get_def cmd_setex_def cmd_del_def
        r_value_def r_live_def demo_cache_def default_cache_config_def counted_tick_def cache_tick_def
        server_tick_def ns_def)
  then have "?r = (Some ''new'', snd ?r)" by (metis prod.collapse)
  from deleted_entry_is_not_served [OF _ this] g show ?thesis by (simp add: starts_with_def)
qed

text \<open>
  The numbers that a run hands out for one list: those of the bumps that succeed (marked true) and
  those that are read while the cache is on (marked false), in the order of the run. A run stays
  within one life of the version key when the time to live never passes between two bumps of it.
\<close>

fun handed_out :: "string \<Rightarrow> string \<Rightarrow> cache_op list \<Rightarrow> redis_cache \<Rightarrow> (bool \<times> int) list" where
  "handed_out nsp i [] c = []"
| "handed_out nsp i (op # ops) c =
     (case op of
        CBump nsp' i' \<Rightarrow> if (nsp', i') = (nsp, i)
          then (case cache_bumpVersion nsp i c of (Some v, _) \<Rightarrow> [(True, v)] | _ \<Rightarrow> []) else []
      | CVersion nsp' i' \<Rightarrow> if (nsp', i') = (nsp, i)
          then (case cache_getVersion nsp i c of (v, c') \<Rightarrow> if ca_available c' then [(False, v)] else []) else []
      | _ \<Rightarrow> []) @ handed_out nsp i ops (cache_step redis_cache_if cache_tick op c)"

fun within_life :: "string \<Rightarrow> string \<Rightarrow> int \<Rightarrow> int \<Rightarrow> cache_op list \<Rightarrow> bool" where
  "within_life nsp i ttl left [] \<longleftrightarrow> True"
| "within_life nsp i ttl left (CTick d # ops) \<longleftrightarrow> int d < left \<and> within_life nsp i ttl (left - int d) ops"
| "within_life nsp i ttl left (CBump nsp' i' # ops) \<longleftrightarrow>
     within_life nsp i ttl (if (nsp', i') = (nsp, i) then ttl else left) ops"
| "within_life nsp i ttl left (op # ops) \<longleftrightarrow> within_life nsp i ttl left ops"

fun rising :: "int \<Rightarrow> (bool \<times> int) list \<Rightarrow> bool" where
  "rising w [] \<longleftrightarrow> True"
| "rising w ((b, v) # vs) \<longleftrightarrow> (if b then w < v else w \<le> v) \<and> rising v vs"

lemma rising_at: "rising w (us @ (b, v) # vs) \<Longrightarrow>
    (if b then w < v else w \<le> v) \<and> (\<forall>u\<in>snd ` set us. if b then u < v else u \<le> v)"
  by (induction us arbitrary: w) (fastforce split: if_splits)+

lemma bump_result:
  assumes "cache_bumpVersion nsp i c = (r, c')" "0 < cc_version_key_ttl (ca_config c)"
  shows "case r of None \<Rightarrow> \<not> ca_available c' | Some x \<Rightarrow> ca_available c \<and>
    (case r_value (ca_server c) (versionKey c nsp i) of None \<Rightarrow> x = 1
     | Some v \<Rightarrow> \<exists>t. v = RStr t \<and> as_number t = Some (x - 1)) \<and>
    version_ok (versionKey c nsp i) x (r_now (ca_server c) + cc_version_key_ttl (ca_config c) * ns) c'"
proof -
  let ?ttl = "cc_version_key_ttl (ca_config c)"
  let ?m = "bindp (r_exec (script_bump (versionKey c nsp i) ?ttl)) (\<lambda>n. ret (Some n))"
  from assms(1) have d: "degrade None ?m c = (r, c')" by (simp add: cache_bumpVersion_def)
  show ?thesis
  proof (cases rule: degrade_cases [of c None ?m])
    case (2 x s)
    then obtain y where y: "r_exec (script_bump (versionKey c nsp i) ?ttl) (ca_server c) = (Inr y, s)" "x = Some y"
      by (auto simp: bindp_app split: prod.splits sum.splits)
    from r_exec_InrD [OF y(1)] obtain fs
      where b: "script_bump (versionKey c nsp i) ?ttl ((ca_server c)\<lparr>r_faults := fs\<rparr>) = (Inr y, s)" by blast
    have "r = Some y" "c' = c\<lparr>ca_server := s\<rparr>" using d 2 y(2) by simp_all
    with script_bump_next [OF b assms(2)] 2(1) show ?thesis by (auto simp: version_ok_def)
  qed (use d in auto)
qed

lemma own_bump:
  assumes "version_ok (versionKey c nsp i) w e c" "r_now (ca_server c) < e"
    and b: "cache_bumpVersion nsp i c = (Some v, c')" "0 < cc_version_key_ttl (ca_config c)"
  shows "w < v"
proof -
  note r = bump_result [OF b]
  from assms(1) r obtain t e' m where h: "r_store (ca_server c) (versionKey c nsp i) = Some (RStr t, Some e')"
    "as_number t = Some m" "w \<le> m" "e \<le> e'" by (auto simp: version_ok_def)
  then have "r_value (ca_server c) (versionKey c nsp i) = Some (RStr t)"
    using assms(2) by (simp add: r_value_def r_live_def)
  with r h(2,3) show ?thesis by simp
qed

lemma own_read:
  assumes ok: "version_ok (versionKey c nsp i) w e c" "r_now (ca_server c) < e"
    and g: "cache_getVersion nsp i c = (v, c')" "ca_available c'"
  shows "w \<le> v \<and> version_ok (versionKey c nsp i) v e c'"
proof -
  note r = getVersion_value [OF g]
  have "ca_available c" using g by (cases "ca_available c") (auto simp: cache_getVersion_def degrade_def)
  with ok(1) obtain t e' m where h: "r_store (ca_server c) (versionKey c nsp i) = Some (RStr t, Some e')"
    "as_number t = Some m" "w \<le> m" "e \<le> e'" by (auto simp: version_ok_def)
  then have "r_value (ca_server c) (versionKey c nsp i) = Some (RStr t)"
    using ok(2) by (simp add: r_value_def r_live_def)
  then have m: "m = v" using r as_number_SomeD [OF h(2)] by simp
  with \<open>ca_available c\<close> h(1,2,4) have "version_ok (versionKey c nsp i) v e c" by (simp add: version_ok_def)
  then have "version_ok (versionKey c nsp i) v e (snd (cache_getVersion nsp i c))" by (rule getVersion_version_ok)
  with m h(3) g show ?thesis by simp
qed

lemma step_off: "\<not> ca_available c \<Longrightarrow> \<not> ca_available (cache_step redis_cache_if cache_tick op c)"
  by (cases op) (simp_all add: redis_cache_if_def cache_get_def cache_setex_def cache_del_def
      cache_bumpVersion_def cache_getVersion_def cache_tick_def degrade_def)

lemma off_hands_nothing: "\<not> ca_available c \<Longrightarrow> handed_out nsp i ops c = []"
proof (induction ops arbitrary: c)
  case (Cons op ops)
  moreover have "cache_bumpVersion nsp i c = (None, c)" "cache_getVersion nsp i c = (0, c)"
    using Cons.prems by (simp_all add: cache_bumpVersion_def cache_getVersion_def degrade_def)
  ultimately show ?case using step_off [of c op] by (simp split: cache_op.split)
qed simp

lemma numbers_rise:
  assumes "version_ok K w (r_now (ca_server c) + left) c" "K = versionKey c nsp i" "\<forall>op\<in>set ops. plain_op op"
    and "0 < left" "left \<le> cc_version_key_ttl (ca_config c) * ns" "0 < cc_version_key_ttl (ca_config c)"
    and "within_life nsp i (cc_version_key_ttl (ca_config c) * ns) left ops"
  shows "rising w (handed_out nsp i ops c)"
  using assms
proof (induction ops arbitrary: c w left)
  case (Cons op ops)
  let ?c = "cache_step redis_cache_if cache_tick op c"
  let ?ttl = "cc_version_key_ttl (ca_config c) * ns"
  have K: "K = versionKey ?c nsp i" using Cons.prems(2) step_config [of op c] by (simp add: versionKey_def)
  have ok: "version_ok K w (r_now (ca_server c) + left) ?c"
    using Cons.prems by (intro step_version_ok [of K w _ c nsp i]) auto
  have step: "rising u (handed_out nsp i ops ?c)"
    if "version_ok K u (r_now (ca_server ?c) + l) ?c" "0 < l" "l \<le> ?ttl" "within_life nsp i ?ttl l ops" for u l
    using Cons.IH [of u ?c l] K that Cons.prems(3,6) by (simp add: step_config)
  note now = step_now [of op c]
  have rest: ?case if "\<not> (\<exists>a b. op = CBump a b \<or> op = CVersion a b)"
    using that ok step [of w "left - int (elapsed op)"] now Cons.prems(4,5,7) by (cases op) simp_all
  show ?case
  proof (cases "\<exists>a b. op = CBump a b \<or> op = CVersion a b")
    case False
    then show ?thesis by (rule rest)
  next
    case True
    then consider (bump) "op = CBump nsp i" | (read) "op = CVersion nsp i"
      | (other) a b where "(a, b) \<noteq> (nsp, i)" "op = CBump a b \<or> op = CVersion a b" by blast
    then show ?thesis
    proof cases
      case bump
      obtain r c' where r: "cache_bumpVersion nsp i c = (r, c')" by force
      with bump have c': "?c = c'" by (simp add: redis_cache_if_def)
      note b = bump_result [OF r Cons.prems(6)]
      show ?thesis
      proof (cases r)
        case None
        with b r c' bump show ?thesis by (simp add: off_hands_nothing)
      next
        case (Some v)
        have "w < v" using own_bump [of c nsp i w _ v c'] Cons.prems(1,2,4,6) r Some by simp
        moreover have "rising v (handed_out nsp i ops c')"
          using step [of v ?ttl] b Some now c' bump Cons.prems(2,6,7) by (simp add: ns_def)
        ultimately show ?thesis using bump r Some c' by simp
      qed
    next
      case read
      obtain v c' where v: "cache_getVersion nsp i c = (v, c')" by force
      with read have c': "?c = c'" by (simp add: redis_cache_if_def)
      show ?thesis
      proof (cases "ca_available c'")
        case True
        note own_read [of c nsp i w _ v c']
        with True v Cons.prems(1,2,4) have "w \<le> v" "version_ok K v (r_now (ca_server c) + left) c'" by simp_all
        with step [of v left] now c' read v True Cons.prems(4,5,7) show ?thesis by simp
      qed (use read v c' in \<open>simp add: off_hands_nothing\<close>)
    next
      case other
      then show ?thesis using ok step [of w left] now Cons.prems(4,5,7) by auto
    qed
  qed
qed simp

text \<open>
  C31: a bump hands out a number that was never handed out before in the life of
  the version key: in any run that starts with reading and bumping the version of a list and in
  which the time to live never passes between two bumps, every bump that succeeds gives a number
  larger than all numbers read or given before it, and every number read is at least all before it;
  so pages cached under an old number are not served again. Bumps and reads of this and other
  lists and all operations on entries come in any order, with commands refused or their replies
  lost. A bump that fails turns the cache off, and a cache that is off serves nothing. (The time to
  live is needed: when the key expires, the numbers start again.)
\<close>

theorem bumped_version_is_new:
  assumes "0 < cc_version_key_ttl (ca_config c)" "\<forall>op\<in>set ops. plain_op op"
    and "within_life nsp i (cc_version_key_ttl (ca_config c) * ns) (cc_version_key_ttl (ca_config c) * ns) ops"
    and "handed_out nsp i (CVersion nsp i # CBump nsp i # ops) c = us @ (b, v) # vs"
  shows "(\<forall>u\<in>snd ` set us. if b then u < v else u \<le> v) \<and>
    (fst (cache_bumpVersion nsp' i' d) = None \<longrightarrow> fst (cache_get k (snd (cache_bumpVersion nsp' i' d))) = None)"
proof
  obtain n c1 where g: "cache_getVersion nsp i c = (n, c1)" by force
  obtain r c2 where b: "cache_bumpVersion nsp i c1 = (r, c2)" by force
  have steps: "cache_step redis_cache_if cache_tick (CVersion nsp i) c = c1"
    "cache_step redis_cache_if cache_tick (CBump nsp i) c1 = c2"
    using g b by (simp_all add: redis_cache_if_def)
  have cfg: "ca_config c1 = ca_config c" "ca_config c2 = ca_config c"
    using step_config [of "CVersion nsp i" c] step_config [of "CBump nsp i" c1] steps by simp_all
  have now: "r_now (ca_server c2) = r_now (ca_server c1)" using step_now [of "CBump nsp i" c1] steps by simp
  note b' = bump_result [OF b] 
  have "rising (n - 1) (handed_out nsp i (CVersion nsp i # CBump nsp i # ops) c)"
  proof (cases "ca_available c1")
    case True
    show ?thesis
    proof (cases r)
      case None
      with b' assms(1) cfg have "\<not> ca_available c2" by simp
      with g b None steps True show ?thesis by (simp add: off_hands_nothing)
    next
      case (Some x)
      have "r_value (ca_server c1) (versionKey c1 nsp i) = r_value (ca_server c) (versionKey c nsp i)"
        using getVersion_state [OF g True] by (simp add: versionKey_def)
      then have x: "n < x" "version_ok (versionKey c1 nsp i) x
          (r_now (ca_server c1) + cc_version_key_ttl (ca_config c) * ns) c2"
        using b' Some assms(1) cfg getVersion_value [OF g True] by (auto dest: as_number_SomeD split: option.splits)
      have "rising x (handed_out nsp i ops c2)"
        using assms(1-3) x(2) cfg now
        by (intro numbers_rise [of _ x c2 "cc_version_key_ttl (ca_config c) * ns" nsp i]) (simp_all add: versionKey_def ns_def)
      with g b Some steps True x(1) show ?thesis by simp
    qed
  next
    case False
    with g b steps have "handed_out nsp i (CVersion nsp i # CBump nsp i # ops) c = []"
      using off_hands_nothing [OF False, of nsp i "CBump nsp i # ops"] by simp
    then show ?thesis by simp
  qed
  with rising_at assms(4) show "\<forall>u\<in>snd ` set us. if b then u < v else u \<le> v" by simp
next
  show "fst (cache_bumpVersion nsp' i' d) = None \<longrightarrow> fst (cache_get k (snd (cache_bumpVersion nsp' i' d))) = None"
  proof
    assume "fst (cache_bumpVersion nsp' i' d) = None"
    then have "\<not> ca_available (snd (cache_bumpVersion nsp' i' d))"
      unfolding cache_bumpVersion_def
      by (cases rule: degrade_cases [of d None "bindp (r_exec (script_bump (versionKey d nsp' i')
            (cc_version_key_ttl (ca_config d)))) (\<lambda>n. ret (Some n))"])
        (auto simp: bindp_app split: prod.splits sum.splits)
    then show "fst (cache_get k (snd (cache_bumpVersion nsp' i' d))) = None"
      by (simp add: cache_get_def degrade_def)
  qed
qed

theorem bumped_version_is_new_witness:
  "let ops = [CBump kListVersionNamespace ''8'', CTick 5, CVersion kListVersionNamespace ''7'', CBump kListVersionNamespace ''7'']
   in handed_out kListVersionNamespace ''7'' (CVersion kListVersionNamespace ''7'' # CBump kListVersionNamespace ''7'' # ops) demo_cache =
      [(False, 0), (True, 1), (False, 1), (True, 2)] \<and> (\<forall>u\<in>snd ` set [(False, 0), (True, 1), (False, 1)]. u < (2 :: int))"
proof -
  let ?ops = "[CBump kListVersionNamespace ''8'', CTick 5, CVersion kListVersionNamespace ''7'', CBump kListVersionNamespace ''7'']"
  have h: "handed_out kListVersionNamespace ''7'' (CVersion kListVersionNamespace ''7'' # CBump kListVersionNamespace ''7'' # ?ops) demo_cache =
      [(False, 0), (True, 1), (False, 1)] @ (True, 2) # []"
    by (simp add: cache_getVersion_def cache_bumpVersion_def redis_cache_if_def degrade_def demo_cache_def bindp_def
        cmd_get_def script_bump_def cmd_incr_def cmd_expire_def r_value_def r_live_def versionKey_def
        default_cache_config_def cache_tick_def server_tick_def ns_def kListVersionNamespace_def stoll_fmt_int is_int64_def)
  have "0 < cc_version_key_ttl (ca_config demo_cache)" "\<forall>op\<in>set ?ops. plain_op op"
    "within_life kListVersionNamespace ''7'' (cc_version_key_ttl (ca_config demo_cache) * ns)
       (cc_version_key_ttl (ca_config demo_cache) * ns) ?ops"
    by (simp_all add: demo_cache_def default_cache_config_def ns_def)
  from bumped_version_is_new [OF this h] h show ?thesis by simp
qed

text \<open>
  Without that condition the numbers repeat: a page is cached at version 1 shortly before the
  version key expires; the next bump gives version 1 again, and the page of before the bump is
  served (the page lives for about a minute, the version key for a day).
\<close>

theorem expired_version_key_repeats:
  "let c1 = snd (cache_bumpVersion kListVersionNamespace ''7'' demo_cache);
       c2 = cache_run redis_cache_if cache_tick
              [CTick (86399 * 1000000000), CSetex (listMyKey 7 1 0 10) ''old page'' 60, CTick (2 * 1000000000)] c1;
       (r, c3) = cache_bumpVersion kListVersionNamespace ''7'' c2
   in fst (cache_getVersion kListVersionNamespace ''7'' c1) = 1 \<and> r = Some 1 \<and>
      fst (cache_getVersion kListVersionNamespace ''7'' c3) = 1 \<and>
      fst (cache_get (listMyKey 7 1 0 10) c3) = Some ''old page''"
proof -
  have "listMyKey 7 1 0 10 \<noteq> ''ver:img:list:7''" "''ver:img:list:7'' \<noteq> listMyKey 7 1 0 10"
    by (simp_all add: listMyKey_def)
  then show ?thesis
    by (simp add: cache_getVersion_def cache_bumpVersion_def cache_get_def cache_setex_def redis_cache_if_def
        degrade_def demo_cache_def bindp_def cmd_get_def cmd_setex_def script_bump_def cmd_incr_def
        cmd_expire_def r_value_def r_live_def versionKey_def cacheKey_def default_cache_config_def
        cache_tick_def server_tick_def ns_def kListVersionNamespace_def stoll_fmt_int is_int64_def)
qed

end
