(* ===== verification/Event_Hub.thy ===== *)
theory Event_Hub
  imports Image_Model
begin

text \<open>
  \<open>Backend/src/services/task_event_hub.cpp\<close>: the subscribers of task updates. A WebSocket
  connection is a number (the address of the connection object); the frames sent are kept as a
  log. A send may throw, which the code ignores, so the log holds the attempts.
\<close>

record event_hub =
  hub_subscribers :: "int \<Rightarrow> nat list option"
  hub_owners :: "nat \<Rightarrow> int option"
  hub_sent :: "(nat \<times> string) list"

definition new_hub :: event_hub where
  "new_hub = \<lparr>hub_subscribers = (\<lambda>_. None), hub_owners = (\<lambda>_. None), hub_sent = []\<rparr>"

text \<open>The connections of a user, a map from addresses to pointers, as a list without repetition.
  A null connection is \<open>None\<close>.\<close>

definition subscribers_of :: "event_hub \<Rightarrow> int \<Rightarrow> nat list" where
  "subscribers_of h u = (case hub_subscribers h u of None \<Rightarrow> [] | Some cs \<Rightarrow> cs)"

definition subscribe :: "int \<Rightarrow> nat option \<Rightarrow> event_hub \<Rightarrow> event_hub" where
  "subscribe userId connection h = (case connection of
      None \<Rightarrow> h
    | Some key \<Rightarrow> if userId \<le> 0 then h
        else h\<lparr>hub_subscribers := (hub_subscribers h)(userId \<mapsto> List.insert key (subscribers_of h userId)),
               hub_owners := (hub_owners h)(key \<mapsto> userId)\<rparr>)"

definition unsubscribe :: "nat option \<Rightarrow> event_hub \<Rightarrow> event_hub" where
  "unsubscribe connection h = (case connection of
      None \<Rightarrow> h
    | Some key \<Rightarrow> (case hub_owners h key of
          None \<Rightarrow> h
        | Some userId \<Rightarrow>
            (let h' = h\<lparr>hub_owners := (hub_owners h)(key := None)\<rparr>
             in case hub_subscribers h userId of
                  None \<Rightarrow> h'
                | Some cs \<Rightarrow> (let cs' = filter (\<lambda>c. c \<noteq> key) cs
                    in h'\<lparr>hub_subscribers := (hub_subscribers h)(userId := if cs' = [] then None else Some cs')\<rparr>))))"

definition task_updated :: "image_generation \<Rightarrow> json" where
  "task_updated g = JObj [(''type'', JStr ''image.task.updated''), (''task'', toJson g)]"

definition publishTaskUpdated :: "(json \<Rightarrow> exn + string) \<Rightarrow> image_generation \<Rightarrow> (event_hub, unit) prog" where
  "publishTaskUpdated dump g h =
     (if img_user_id g \<le> 0 \<or> subscribers_of h (img_user_id g) = [] then (Inr (), h)
      else case dump (task_updated g) of
        Inl e \<Rightarrow> (Inl e, h)
      | Inr serialized \<Rightarrow> (Inr (), h\<lparr>hub_sent := hub_sent h @ map (\<lambda>c. (c, serialized)) (subscribers_of h (img_user_id g))\<rparr>))"

section \<open>Facts\<close>

datatype hub_op = HSubscribe int nat | HUnsubscribe nat | HPublish image_generation

fun hub_step :: "(json \<Rightarrow> exn + string) \<Rightarrow> hub_op \<Rightarrow> event_hub \<Rightarrow> event_hub" where
  "hub_step dump (HSubscribe u c) h = subscribe u (Some c) h"
| "hub_step dump (HUnsubscribe c) h = unsubscribe (Some c) h"
| "hub_step dump (HPublish g) h = snd (publishTaskUpdated dump g h)"

fun hub_run :: "(json \<Rightarrow> exn + string) \<Rightarrow> hub_op list \<Rightarrow> event_hub \<Rightarrow> event_hub" where
  "hub_run dump [] h = h"
| "hub_run dump (op # ops) h = hub_run dump ops (hub_step dump op h)"

text \<open>Who listens to a user, computed from the history alone.\<close>

fun listening :: "hub_op list \<Rightarrow> nat \<Rightarrow> int option" where
  "listening [] c = None"
| "listening (op # ops) c = (case op of
      HSubscribe u c' \<Rightarrow> if c' = c \<and> 0 < u then Some u else listening ops c
    | HUnsubscribe c' \<Rightarrow> if c' = c then None else listening ops c
    | HPublish g \<Rightarrow> listening ops c)"

text \<open>A connection subscribes while it listens to nobody (the code subscribes a connection once,
  when it opens). Histories are read from the latest operation.\<close>

fun single_owner :: "hub_op list \<Rightarrow> bool" where
  "single_owner [] \<longleftrightarrow> True"
| "single_owner (op # ops) \<longleftrightarrow> single_owner ops \<and>
     (case op of HSubscribe u c \<Rightarrow> listening ops c = None \<or> listening ops c = Some u | _ \<Rightarrow> True)"

definition hub_matches :: "(nat \<Rightarrow> int option) \<Rightarrow> event_hub \<Rightarrow> bool" where
  "hub_matches f h \<longleftrightarrow> hub_owners h = f \<and>
     (\<forall>u c. c \<in> set (subscribers_of h u) \<longleftrightarrow> f c = Some u) \<and>
     (\<forall>u. hub_subscribers h u \<noteq> Some []) \<and> (\<forall>u. distinct (subscribers_of h u))"

lemma publish_keeps:
  "hub_subscribers (snd (publishTaskUpdated dump g h)) = hub_subscribers h"
  "hub_owners (snd (publishTaskUpdated dump g h)) = hub_owners h"
  by (simp_all add: publishTaskUpdated_def split: sum.split)

lemma subscribe_sel:
  "0 < u \<Longrightarrow> subscribers_of (subscribe u (Some c) h) w =
     (if w = u then List.insert c (subscribers_of h u) else subscribers_of h w)"
  "0 < u \<Longrightarrow> hub_owners (subscribe u (Some c) h) = (hub_owners h)(c \<mapsto> u)"
  "\<not> 0 < u \<Longrightarrow> subscribe u (Some c) h = h"
  "0 < u \<Longrightarrow> hub_subscribers (subscribe u (Some c) h) w =
     (if w = u then Some (List.insert c (subscribers_of h u)) else hub_subscribers h w)"
  by (simp_all add: subscribe_def subscribers_of_def)

lemma unsubscribe_sel:
  "subscribers_of (unsubscribe (Some c) h) w =
     (if hub_owners h c = Some w then filter (\<lambda>x. x \<noteq> c) (subscribers_of h w) else subscribers_of h w)"
  "hub_owners (unsubscribe (Some c) h) = (hub_owners h)(c := None)"
  "hub_subscribers h w \<noteq> Some [] \<Longrightarrow> hub_subscribers (unsubscribe (Some c) h) w \<noteq> Some []"
  by (auto simp: unsubscribe_def Let_def subscribers_of_def fun_eq_iff split: option.splits)

lemma matches_subscribe:
  assumes "hub_matches f h" "f c = None \<or> f c = Some u"
  shows "hub_matches (if 0 < u then f(c \<mapsto> u) else f) (subscribe u (Some c) h)"
proof (cases "0 < u")
  case True
  have "List.insert c xs \<noteq> []" for xs :: "nat list" by (auto simp: List.insert_def)
  with True assms show ?thesis by (auto simp: hub_matches_def subscribe_sel)
qed (use assms in \<open>simp add: subscribe_sel\<close>)

lemma matches_unsubscribe:
  "hub_matches f h \<Longrightarrow> hub_matches (f(c := None)) (unsubscribe (Some c) h)"
  by (auto simp: hub_matches_def unsubscribe_sel)

lemma hub_run_snoc [simp]: "hub_run dump (ops @ [op]) h = hub_step dump op (hub_run dump ops h)"
  by (induction ops arbitrary: h) simp_all

lemma run_matches:
  "single_owner (rev ops) \<Longrightarrow> hub_matches (listening (rev ops)) (hub_run dump ops new_hub)"
proof (induction ops rule: rev_induct)
  case Nil
  then show ?case by (simp add: hub_matches_def new_hub_def subscribers_of_def fun_eq_iff)
next
  case (snoc op ops)
  then have IH: "hub_matches (listening (rev ops)) (hub_run dump ops new_hub)" by simp
  show ?case
  proof (cases op)
    case (HSubscribe u c)
    have "listening (rev (ops @ [op])) = (if 0 < u then (listening (rev ops))(c \<mapsto> u) else listening (rev ops))"
      by (auto simp: fun_eq_iff HSubscribe)
    with matches_subscribe [OF IH, of c u] snoc.prems show ?thesis by (simp add: HSubscribe)
  next
    case (HUnsubscribe c)
    have "listening (rev (ops @ [op])) = (listening (rev ops))(c := None)"
      by (auto simp: fun_eq_iff HUnsubscribe)
    with matches_unsubscribe [OF IH, of c] show ?thesis by (metis HUnsubscribe hub_run_snoc hub_step.simps(2))
  next
    case (HPublish g)
    have "listening (rev (ops @ [op])) = listening (rev ops)" by (simp add: fun_eq_iff HPublish)
    with IH show ?thesis by (simp add: HPublish hub_matches_def publish_keeps subscribers_of_def)
  qed
qed

section \<open>Properties\<close>

text \<open>
  Who receives a task update. After any history in which a
  connection listens to one user at a time, an update of a task is sent, once each, to exactly the
  connections that have subscribed to the owner of the task and not unsubscribed since; in
  particular no connection receives a task of another user.
\<close>

theorem updates_reach_subscribers:
  assumes "single_owner (rev ops)" "0 < img_user_id g" "dump (task_updated g) = Inr t"
    and "h = hub_run dump ops new_hub"
  shows "\<exists>cs. hub_sent (snd (publishTaskUpdated dump g h)) = hub_sent h @ map (\<lambda>c. (c, t)) cs \<and>
     distinct cs \<and> (\<forall>c. c \<in> set cs \<longleftrightarrow> listening (rev ops) c = Some (img_user_id g))"
proof (intro exI conjI)
  have m: "hub_matches (listening (rev ops)) h" using run_matches assms(1,4) by simp
  show "hub_sent (snd (publishTaskUpdated dump g h)) =
      hub_sent h @ map (\<lambda>c. (c, t)) (subscribers_of h (img_user_id g))"
    using assms(2,3) by (simp add: publishTaskUpdated_def)
  show "distinct (subscribers_of h (img_user_id g))"
    "\<forall>c. c \<in> set (subscribers_of h (img_user_id g)) \<longleftrightarrow> listening (rev ops) c = Some (img_user_id g)"
    using m by (auto simp: hub_matches_def)
qed

theorem updates_reach_subscribers_witness:
  "\<exists>cs. hub_sent (snd (publishTaskUpdated (\<lambda>_. Inr ''t'') (default_image\<lparr>img_user_id := 5\<rparr>)
      (hub_run (\<lambda>_. Inr ''t'') [HSubscribe 5 1, HSubscribe 6 2, HSubscribe 5 3, HUnsubscribe 1] new_hub))) =
      map (\<lambda>c. (c, ''t'')) cs \<and> set cs = {3}"
proof -
  let ?ops = "[HSubscribe 5 1, HSubscribe 6 2, HSubscribe 5 3, HUnsubscribe 1]"
  let ?h = "hub_run (\<lambda>_. Inr ''t'') ?ops new_hub"
  have s: "hub_sent ?h = []" by (simp add: new_hub_def subscribe_def unsubscribe_def Let_def)
  from updates_reach_subscribers [of ?ops "default_image\<lparr>img_user_id := 5\<rparr>" "\<lambda>_. Inr ''t''" "''t''" ?h]
  obtain cs where cs: "hub_sent (snd (publishTaskUpdated (\<lambda>_. Inr ''t'') (default_image\<lparr>img_user_id := 5\<rparr>) ?h)) =
      hub_sent ?h @ map (\<lambda>c. (c, ''t'')) cs" "\<forall>c. c \<in> set cs \<longleftrightarrow> listening (rev ?ops) c = Some 5" by auto
  have "set cs = {3}" unfolding set_eq_iff using cs(2) by simp
  with cs(1) s show ?thesis by auto
qed

text \<open>
  A connection that subscribes for a second user without unsubscribing stays a subscriber of the
  first one for good: unsubscribing it removes it only from its last user.
\<close>

theorem second_subscription_is_left_behind:
  "subscribers_of (hub_run dump [HSubscribe 5 1, HSubscribe 6 1, HUnsubscribe 1] new_hub) 5 = [1]"
  by (simp add: new_hub_def subscribe_def unsubscribe_def subscribers_of_def Let_def)

end
