(* ===== verification/Metrics.thy ===== *)
theory Metrics
  imports Task_Status Json_Model
begin

text \<open>
  \<open>Backend/src/services/metrics_registry.cpp\<close>: the duration histograms, the task counters and
  the gauges of the program, and their text form for Prometheus. A \<open>double\<close> is a real number and
  is printed with six significant digits, as an output stream does.
\<close>

definition nl :: string where "nl = [char_of (10 :: nat)]"
definition dq :: string where "dq = [char_of (34 :: nat)]"
definition backslash :: char where "backslash = char_of (92 :: nat)"

section \<open>Printing a double\<close>

text \<open>The decimal exponent of a positive number: the number of digits of its integer part, or of
  the rounded-down reciprocal.\<close>

definition dec_exp :: "real \<Rightarrow> int" where
  "dec_exp x = (if 1 \<le> x then int (length (fmt_nat (nat \<lfloor>x\<rfloor>))) - 1
     else - int (length (fmt_nat (nat (\<lceil>1 / x\<rceil> - 1)))))"

definition strip_zeros :: "string \<Rightarrow> string" where
  "strip_zeros s = rev (dropWhile (\<lambda>c. c = CHR ''0'') (rev s))"

definition with_fraction :: "string \<Rightarrow> string \<Rightarrow> string" where
  "with_fraction whole digits = (let f = strip_zeros digits in if f = [] then whole else whole @ CHR ''.'' # f)"

definition pow10 :: "int \<Rightarrow> real" where
  "pow10 e = (if 0 \<le> e then 10 ^ nat e else 1 / 10 ^ nat (- e))"

text \<open>The digits are rounded to nearest, ties to even.\<close>

definition round_even :: "real \<Rightarrow> int" where
  "round_even x = (let f = \<lfloor>x\<rfloor>; d = x - of_int f in
     if d < 1 / 2 then f else if 1 / 2 < d then f + 1 else if even f then f else f + 1)"

definition fmt_pos :: "real \<Rightarrow> string" where
  "fmt_pos x =
     (let e0 = dec_exp x;
          m0 = round_even (x * pow10 (5 - e0));
          (m, e) = (if m0 = 1000000 then (100000, e0 + 1) else (m0, e0));
          ds = fmt_nat (nat m)
      in if e < - 4 \<or> 6 \<le> e then
           with_fraction (take 1 ds) (drop 1 ds) @ CHR ''e'' #
             (if e < 0 then CHR ''-'' else CHR ''+'') #
             (let n = fmt_nat (nat \<bar>e\<bar>) in if length n < 2 then CHR ''0'' # n else n)
         else if 0 \<le> e then with_fraction (take (nat (e + 1)) ds) (drop (nat (e + 1)) ds)
         else with_fraction ''0'' (replicate (nat (- e - 1)) (CHR ''0'') @ ds))"

definition fmt_double :: "real \<Rightarrow> string" where
  "fmt_double x = (if x = 0 then ''0'' else if x < 0 then CHR ''-'' # fmt_pos (- x) else fmt_pos x)"

section \<open>The registry\<close>

definition kDurationBuckets :: "real list" where
  "kDurationBuckets = [1 / 10, 1 / 2, 1, 2, 5, 10, 30, 60]"

definition escapeLabelValue :: "string \<Rightarrow> string" where
  "escapeLabelValue v = concat (map (\<lambda>ch. if ch = backslash \<or> [ch] = dq then [backslash, ch] else [ch]) v)"

definition statusLabel :: "int \<Rightarrow> string" where
  "statusLabel statusCode = fmt_int (if statusCode \<le> 0 then 0 else statusCode)"

definition label_pair :: "string \<Rightarrow> string \<Rightarrow> string" where
  "label_pair endpoint status = ''endpoint='' @ dq @ endpoint @ dq @ '',status='' @ dq @ status @ dq"

definition requestLabels :: "string \<Rightarrow> int \<Rightarrow> string" where
  "requestLabels endpoint statusCode = label_pair (escapeLabelValue endpoint) (statusLabel statusCode)"

definition modelServiceLabels :: "string \<Rightarrow> string \<Rightarrow> string" where
  "modelServiceLabels endpoint status = label_pair (escapeLabelValue endpoint) (escapeLabelValue status)"

record histogram =
  h_buckets :: "nat list"
  h_count :: nat
  h_sum :: real

text \<open>\<open>std::map\<close> keeps its keys in the order of their bytes.\<close>

fun string_less :: "string \<Rightarrow> string \<Rightarrow> bool" where
  "string_less s [] \<longleftrightarrow> False"
| "string_less [] (d # t) \<longleftrightarrow> True"
| "string_less (c # s) (d # t) \<longleftrightarrow> cbyte c < cbyte d \<or> c = d \<and> string_less s t"

fun omap_update :: "string \<Rightarrow> ('v option \<Rightarrow> 'v) \<Rightarrow> (string \<times> 'v) list \<Rightarrow> (string \<times> 'v) list" where
  "omap_update k f [] = [(k, f None)]"
| "omap_update k f ((k', v) # m) =
     (if k = k' then (k', f (Some v)) # m
      else if string_less k k' then (k, f None) # (k', v) # m
      else (k', v) # omap_update k f m)"

record metrics_registry =
  mr_requests :: "(string \<times> histogram) list"
  mr_model_calls :: "(string \<times> histogram) list"
  mr_tasks :: "(string \<times> nat) list"
  mr_queue_depth :: int
  mr_db_active :: int
  mr_db_idle :: int
  mr_db_configured :: int

definition new_registry :: metrics_registry where
  "new_registry = \<lparr>mr_requests = [], mr_model_calls = [], mr_tasks = [], mr_queue_depth = 0,
     mr_db_active = 0, mr_db_idle = 0, mr_db_configured = 0\<rparr>"

text \<open>\<open>++\<close> on a \<open>uint64_t\<close>.\<close>

definition uint64_inc :: "nat \<Rightarrow> nat" where
  "uint64_inc n = (n + 1) mod 2 ^ 64"

definition empty_histogram :: histogram where
  "empty_histogram = \<lparr>h_buckets = replicate (length kDurationBuckets) 0, h_count = 0, h_sum = 0\<rparr>"

text \<open>The index that \<open>lower_bound\<close> finds: of the first bound that is not below the value.\<close>

definition bucket_index :: "real \<Rightarrow> nat" where
  "bucket_index s = length (takeWhile (\<lambda>b. b < s) kDurationBuckets)"

definition observe_in :: "real \<Rightarrow> histogram \<Rightarrow> histogram" where
  "observe_in seconds h =
     (let safeSeconds = max 0 seconds; i = bucket_index safeSeconds
      in h\<lparr>h_buckets := (if i < length kDurationBuckets
                          then (h_buckets h)[i := uint64_inc (h_buckets h ! i)] else h_buckets h),
           h_count := uint64_inc (h_count h),
           h_sum := h_sum h + safeSeconds\<rparr>)"

definition observeHistogram :: "string \<Rightarrow> real \<Rightarrow> (string \<times> histogram) list \<Rightarrow> (string \<times> histogram) list" where
  "observeHistogram key seconds =
     omap_update key (\<lambda>h. observe_in seconds (case h of None \<Rightarrow> empty_histogram | Some h \<Rightarrow> h))"

definition observeRequest :: "string \<Rightarrow> int \<Rightarrow> real \<Rightarrow> metrics_registry \<Rightarrow> metrics_registry" where
  "observeRequest endpoint statusCode seconds r =
     r\<lparr>mr_requests := observeHistogram (requestLabels endpoint statusCode) seconds (mr_requests r)\<rparr>"

definition observeModelServiceCall :: "string \<Rightarrow> string \<Rightarrow> real \<Rightarrow> metrics_registry \<Rightarrow> metrics_registry" where
  "observeModelServiceCall endpoint status seconds r =
     r\<lparr>mr_model_calls := observeHistogram (modelServiceLabels endpoint status) seconds (mr_model_calls r)\<rparr>"

definition recordTaskStatus :: "task_status \<Rightarrow> metrics_registry \<Rightarrow> metrics_registry" where
  "recordTaskStatus st r =
     r\<lparr>mr_tasks := omap_update (statusToString st) (\<lambda>n. uint64_inc (case n of None \<Rightarrow> 0 | Some n \<Rightarrow> n)) (mr_tasks r)\<rparr>"

definition incrementWorkerQueueDepth :: "int \<Rightarrow> metrics_registry \<Rightarrow> metrics_registry" where
  "incrementWorkerQueueDepth delta r = r\<lparr>mr_queue_depth := max 0 (int64_of (mr_queue_depth r + max 0 delta))\<rparr>"

definition decrementWorkerQueueDepth :: "int \<Rightarrow> metrics_registry \<Rightarrow> metrics_registry" where
  "decrementWorkerQueueDepth delta r = r\<lparr>mr_queue_depth := max 0 (mr_queue_depth r - max 0 delta)\<rparr>"

definition setWorkerQueueDepth :: "int \<Rightarrow> metrics_registry \<Rightarrow> metrics_registry" where
  "setWorkerQueueDepth depth r = r\<lparr>mr_queue_depth := max 0 depth\<rparr>"

definition setDbPoolStats :: "int \<Rightarrow> int \<Rightarrow> metrics_registry \<Rightarrow> metrics_registry" where
  "setDbPoolStats activeConnections idleConnections r =
     r\<lparr>mr_db_active := max 0 activeConnections, mr_db_idle := max 0 idleConnections\<rparr>"

definition setDbPoolCapacity :: "int \<Rightarrow> metrics_registry \<Rightarrow> metrics_registry" where
  "setDbPoolCapacity configuredConnections r = r\<lparr>mr_db_configured := max 0 configuredConnections\<rparr>"

definition resetForTests :: "metrics_registry \<Rightarrow> metrics_registry" where
  "resetForTests r = new_registry"

section \<open>The text form\<close>

text \<open>The running sums of the buckets, as the loop prints them.\<close>

fun cumulate :: "nat \<Rightarrow> nat list \<Rightarrow> nat list" where
  "cumulate acc [] = []"
| "cumulate acc (b # bs) = (let c = (acc + b) mod 2 ^ 64 in c # cumulate c bs)"

definition bucket_line :: "string \<Rightarrow> string \<Rightarrow> string \<Rightarrow> nat \<Rightarrow> string" where
  "bucket_line name labels le n =
     name @ ''_bucket{'' @ labels @ '',le='' @ dq @ le @ dq @ ''} '' @ fmt_nat n @ nl"

definition render_one :: "string \<Rightarrow> string \<times> histogram \<Rightarrow> string" where
  "render_one name lh = (case lh of (labels, h) \<Rightarrow>
     concat (map (\<lambda>(b, c). bucket_line name labels (fmt_double b) c) (zip kDurationBuckets (cumulate 0 (h_buckets h))))
     @ bucket_line name labels ''+Inf'' (h_count h)
     @ name @ ''_sum{'' @ labels @ ''} '' @ fmt_double (h_sum h) @ nl
     @ name @ ''_count{'' @ labels @ ''} '' @ fmt_nat (h_count h) @ nl)"

definition renderHistogram :: "string \<Rightarrow> (string \<times> histogram) list \<Rightarrow> string" where
  "renderHistogram name hs = concat (map (render_one name) hs)"

definition help_type :: "string \<Rightarrow> string \<Rightarrow> string \<Rightarrow> string" where
  "help_type name help kind = ''# HELP '' @ name @ '' '' @ help @ nl @ ''# TYPE '' @ name @ '' '' @ kind @ nl"

definition render_gauge :: "string \<Rightarrow> string \<Rightarrow> int \<Rightarrow> string" where
  "render_gauge name help v = help_type name help ''gauge'' @ name @ '' '' @ fmt_int v @ nl"

definition renderPrometheus :: "metrics_registry \<Rightarrow> string" where
  "renderPrometheus r =
     help_type ''image_request_duration_seconds'' ''Backend request latency by handler and status.'' ''histogram''
     @ renderHistogram ''image_request_duration_seconds'' (mr_requests r)
     @ help_type ''image_task_total'' ''Image task state transition counter.'' ''counter''
     @ concat (map (\<lambda>(st, n). ''image_task_total{status='' @ dq @ escapeLabelValue st @ dq @ ''} '' @ fmt_nat n @ nl) (mr_tasks r))
     @ render_gauge ''worker_queue_depth'' ''Approximate image worker queue depth.'' (mr_queue_depth r)
     @ render_gauge ''db_pool_active_connections'' ''Active database connections known to Backend.'' (mr_db_active r)
     @ render_gauge ''db_pool_idle'' ''Idle database connections known to Backend.'' (mr_db_idle r)
     @ render_gauge ''db_pool_configured_connections'' ''Configured database connection budget per Backend replica.'' (mr_db_configured r)
     @ help_type ''model_service_call_duration_seconds'' ''Backend outbound model-service call latency.'' ''histogram''
     @ renderHistogram ''model_service_call_duration_seconds'' (mr_model_calls r)"

section \<open>Facts\<close>

text \<open>The escaping is undone by reading it back, so two label values never share a text.\<close>

fun unescape :: "string \<Rightarrow> string" where
  "unescape (c # d # s) = (if c = backslash then d # unescape s else c # unescape (d # s))"
| "unescape s = s"

lemma escape_simps [simp]:
  "escapeLabelValue [] = []"
  "escapeLabelValue (c # v) =
     (if c = backslash \<or> [c] = dq then backslash # c # escapeLabelValue v else c # escapeLabelValue v)"
  by (simp_all add: escapeLabelValue_def)

lemma unescape_plain: "c \<noteq> backslash \<Longrightarrow> unescape (c # s) = c # unescape s"
  by (cases s) simp_all

lemma unescape_escape: "unescape (escapeLabelValue v) = v"
  by (induction v) (simp_all add: unescape_plain)

lemma escape_inj [simp]: "escapeLabelValue v = escapeLabelValue w \<longleftrightarrow> v = w"
  using unescape_escape by metis

lemma cumulate_sum:
  "acc + sum_list bs < 2 ^ 64 \<Longrightarrow> length (cumulate acc bs) = length bs \<and>
   (\<forall>i<length bs. cumulate acc bs ! i = acc + sum_list (take (Suc i) bs))"
proof (induction bs arbitrary: acc)
  case (Cons b bs)
  then have "acc + b < 2 ^ 64" "(acc + b) + sum_list bs < 2 ^ 64" by simp_all
  with Cons.IH [of "acc + b"] show ?case by (auto simp: Let_def nth_Cons split: nat.split)
qed simp

definition observe_all :: "real list \<Rightarrow> histogram" where
  "observe_all xs = foldl (\<lambda>h x. observe_in x h) empty_histogram xs"

lemma bucket_index_iff:
  "i < length kDurationBuckets \<Longrightarrow> bucket_index s \<le> i \<longleftrightarrow> s \<le> kDurationBuckets ! i"
proof -
  assume i: "i < length kDurationBuckets"
  have sorted: "sorted kDurationBuckets" by (simp add: kDurationBuckets_def)
  show ?thesis
  proof
    assume le: "bucket_index s \<le> i"
    then have "bucket_index s < length kDurationBuckets" using i by simp
    then have "\<not> kDurationBuckets ! bucket_index s < s"
      unfolding bucket_index_def by (rule nth_length_takeWhile)
    moreover have "kDurationBuckets ! bucket_index s \<le> kDurationBuckets ! i"
      using sorted le i by (rule sorted_nth_mono)
    ultimately show "s \<le> kDurationBuckets ! i" by linarith
  next
    assume s: "s \<le> kDurationBuckets ! i"
    show "bucket_index s \<le> i"
    proof (rule ccontr)
      assume "\<not> bucket_index s \<le> i"
      then have "i < length (takeWhile (\<lambda>b. b < s) kDurationBuckets)" by (simp add: bucket_index_def)
      then have "kDurationBuckets ! i < s"
        using nth_mem set_takeWhileD takeWhile_nth by metis
      with s show False by simp
    qed
  qed
qed

lemma sum_take_update:
  "i < length bs \<Longrightarrow> sum_list (take m (bs[i := Suc (bs ! i)])) = sum_list (take m bs) + (if i < m then 1 else 0 :: nat)"
proof (induction bs arbitrary: i m)
  case (Cons b bs)
  then show ?case by (cases i; cases m) auto
qed simp

text \<open>After fewer than \<open>2 ^ 64\<close> observations no counter has wrapped.\<close>

lemma observe_all_buckets:
  assumes "length xs < 2 ^ 64"
  shows "length (h_buckets (observe_all xs)) = 8 \<and> h_count (observe_all xs) = length xs \<and>
     (\<forall>m. sum_list (take m (h_buckets (observe_all xs))) =
        length (filter (\<lambda>x. bucket_index (max 0 x) < min m 8) xs))"
  using assms
proof (induction xs rule: rev_induct)
  case Nil
  have "sum_list (take m (replicate n (0::nat))) = 0" for m n
    by (simp add: take_replicate sum_list_replicate)
  moreover have "length kDurationBuckets = 8" by (simp add: kDurationBuckets_def)
  ultimately show ?case
    by (simp add: observe_all_def empty_histogram_def del: sum_list_eq_0_iff)
next
  case (snoc x xs)
  let ?h = "observe_all xs" and ?i = "bucket_index (max 0 x)"
  have h: "observe_all (xs @ [x]) = observe_in x ?h" by (simp add: observe_all_def)
  from snoc have IH: "length (h_buckets ?h) = 8" "h_count ?h = length xs"
    "\<And>m. sum_list (take m (h_buckets ?h)) = length (filter (\<lambda>x. bucket_index (max 0 x) < min m 8) xs)" by auto
  have len: "length kDurationBuckets = 8" by (simp add: kDurationBuckets_def)
  have cnt: "uint64_inc (h_count ?h) = length xs + 1" using snoc.prems IH(2) by (simp add: uint64_inc_def)
  show ?case
  proof (cases "?i < 8")
    case False
    then show ?thesis using IH cnt by (simp add: h observe_in_def Let_def len)
  next
    case True
    have "h_buckets ?h ! ?i \<le> sum_list (h_buckets ?h)" using True IH(1) by (intro member_le_sum_list) simp_all
    also have "\<dots> \<le> length xs" using IH(3) [of 8] IH(1) by (simp add: length_filter_le)
    finally have "uint64_inc (h_buckets ?h ! ?i) = Suc (h_buckets ?h ! ?i)"
      using snoc.prems by (simp add: uint64_inc_def)
    then show ?thesis using IH True cnt
      by (simp add: h observe_in_def Let_def len sum_take_update)
  qed
qed

section \<open>Properties\<close>

text \<open>
  What the histogram of a series of durations prints. The line of a
  bucket shows how many durations were at most its bound (a negative one counting as zero), the
  \<open>+Inf\<close> line and the count show how many there were, and the sum is the sum of the durations;
  so the printed counts grow with the bounds and none exceeds the total.
\<close>

theorem histogram_is_cumulative:
  assumes "length xs < 2 ^ 64"
  shows "cumulate 0 (h_buckets (observe_all xs)) =
       map (\<lambda>b. length (filter (\<lambda>x. max 0 x \<le> b) xs)) kDurationBuckets \<and>
     h_count (observe_all xs) = length xs \<and> h_sum (observe_all xs) = sum_list (map (max 0) xs) \<and>
     sorted (cumulate 0 (h_buckets (observe_all xs)) @ [h_count (observe_all xs)])"
proof -
  note b = observe_all_buckets [OF assms]
  have len: "length kDurationBuckets = 8" by (simp add: kDurationBuckets_def)
  have "sum_list (h_buckets (observe_all xs)) \<le> length xs"
    using b [THEN conjunct2, THEN conjunct2, rule_format, of 8] b by (simp add: length_filter_le)
  then have "0 + sum_list (h_buckets (observe_all xs)) < 2 ^ 64" using assms by simp
  note c = cumulate_sum [OF this]
  have cum: "cumulate 0 (h_buckets (observe_all xs)) =
       map (\<lambda>b. length (filter (\<lambda>x. max 0 x \<le> b) xs)) kDurationBuckets"
  proof (rule nth_equalityI)
    show "length (cumulate 0 (h_buckets (observe_all xs))) =
        length (map (\<lambda>b. length (filter (\<lambda>x. max 0 x \<le> b) xs)) kDurationBuckets)" using b c len by simp
    fix i assume "i < length (cumulate 0 (h_buckets (observe_all xs)))"
    then have i: "i < 8" using b c by simp
    then have "cumulate 0 (h_buckets (observe_all xs)) ! i =
        length (filter (\<lambda>x. bucket_index (max 0 x) \<le> i) xs)"
      using b c by (simp add: less_Suc_eq_le min_def)
    then show "cumulate 0 (h_buckets (observe_all xs)) ! i =
        map (\<lambda>b. length (filter (\<lambda>x. max 0 x \<le> b) xs)) kDurationBuckets ! i"
      using i len by (simp add: bucket_index_iff)
  qed
  have sum: "h_sum (observe_all xs) = sum_list (map (max 0) xs)"
    by (induction xs rule: rev_induct) (simp_all add: observe_all_def empty_histogram_def observe_in_def Let_def)
  have mono: "length (filter (\<lambda>x. max 0 x \<le> b) xs) \<le> length (filter (\<lambda>x. max 0 x \<le> b') xs)" if "b \<le> b'" for b b' :: real
    using that by (induction xs) auto
  have "sorted (map (\<lambda>b. length (filter (\<lambda>x. max 0 x \<le> b) xs)) kDurationBuckets)"
    unfolding sorted_map
  proof (rule sorted_wrt_mono_rel [rotated])
    show "sorted kDurationBuckets" by (simp add: kDurationBuckets_def)
  qed (rule mono)
  with cum sum b show ?thesis by (auto simp: sorted_append length_filter_le)
qed

theorem histogram_is_cumulative_witness:
  "cumulate 0 (h_buckets (observe_all [3, 1 / 10, - 1, 100])) = [2, 2, 2, 2, 3, 3, 3, 3]"
  using histogram_is_cumulative [of "[3, 1 / 10, - 1, 100]"] by (simp add: kDurationBuckets_def)

end
