(* ===== verification/Object_Store.thy ===== *)
theory Object_Store
  imports Json_Model
begin

text \<open>
  Generated images: \<open>Backend/src/services/minio_client.cpp\<close> and
  \<open>Backend/src/models/image_storage.cpp\<close>. The MinIO server is a bucket of objects; each request
  may be refused or lose its reply. Parsing of the endpoint and computing a presigned address are
  the MinIO library's and stay parameters.
\<close>

record minio_config =
  mc_endpoint :: string
  mc_access_key :: string
  mc_secret_key :: string
  mc_bucket :: string
  mc_region :: string
  mc_presign_expiry_seconds :: int

definition default_minio_config :: minio_config where
  "default_minio_config = \<lparr>mc_endpoint = [], mc_access_key = [], mc_secret_key = [], mc_bucket = [],
     mc_region = ''us-east-1'', mc_presign_expiry_seconds = 3600\<rparr>"

text \<open>A block of assignments under one \<open>try\<close>: when one throws, the ones before it stay.\<close>

fun try_steps :: "('a \<Rightarrow> exn + 'a) list \<Rightarrow> 'a \<Rightarrow> 'a" where
  "try_steps [] x = x"
| "try_steps (f # fs) x = (case f x of Inl e \<Rightarrow> x | Inr y \<Rightarrow> try_steps fs y)"

definition minio_fields :: "json \<Rightarrow> (minio_config \<Rightarrow> exn + minio_config) list" where
  "minio_fields m =
     [\<lambda>c. bindr (jvalue as_string m ''endpoint'' (mc_endpoint c)) (\<lambda>v. Inr (c\<lparr>mc_endpoint := v\<rparr>)),
      \<lambda>c. bindr (jvalue as_string m ''access_key'' (mc_access_key c)) (\<lambda>v. Inr (c\<lparr>mc_access_key := v\<rparr>)),
      \<lambda>c. bindr (jvalue as_string m ''secret_key'' (mc_secret_key c)) (\<lambda>v. Inr (c\<lparr>mc_secret_key := v\<rparr>)),
      \<lambda>c. bindr (jvalue as_string m ''bucket'' (mc_bucket c)) (\<lambda>v. Inr (c\<lparr>mc_bucket := v\<rparr>)),
      \<lambda>c. bindr (jvalue as_string m ''region'' (mc_region c)) (\<lambda>v. Inr (c\<lparr>mc_region := v\<rparr>)),
      \<lambda>c. bindr (jvalue as_int32 m ''presign_expiry_seconds'' (mc_presign_expiry_seconds c))
            (\<lambda>v. Inr (c\<lparr>mc_presign_expiry_seconds := v\<rparr>))]"

definition load_minio_config :: "exn + json \<Rightarrow> minio_config" where
  "load_minio_config config = (case config of
      Inl e \<Rightarrow> default_minio_config
    | Inr j \<Rightarrow> (case jfind j ''minio'' of
          Some m \<Rightarrow> if is_object m then try_steps (minio_fields m) default_minio_config else default_minio_config
        | None \<Rightarrow> default_minio_config))"

text \<open>\<open>url_path\<close> is the library's URL parser, reduced to the path it finds.\<close>

definition buildBaseUrl :: "(string \<Rightarrow> string option) \<Rightarrow> minio_config \<Rightarrow> exn + unit" where
  "buildBaseUrl url_path c =
     (if mc_endpoint c = [] then Inl (StdExn ''MinIO endpoint is empty'')
      else case url_path (mc_endpoint c) of
        None \<Rightarrow> Inl (StdExn (''invalid MinIO endpoint: '' @ mc_endpoint c))
      | Some path \<Rightarrow> if path \<noteq> [] \<and> path \<noteq> ''/''
          then Inl (StdExn (''MinIO endpoint must not include a path: '' @ mc_endpoint c)) else Inr ())"

definition buildProvider :: "minio_config \<Rightarrow> exn + unit" where
  "buildProvider c =
     (if mc_access_key c = [] then Inl (StdExn ''MinIO access key is empty'')
      else if mc_secret_key c = [] then Inl (StdExn ''MinIO secret key is empty'') else Inr ())"

definition drop_slashes :: "string \<Rightarrow> string" where
  "drop_slashes s = rev (dropWhile (\<lambda>c. c = CHR ''/'') (rev s))"

definition minio_new :: "(string \<Rightarrow> string option) \<Rightarrow> minio_config \<Rightarrow> exn + minio_config" where
  "minio_new url_path cfg = (let c = cfg\<lparr>mc_endpoint := drop_slashes (mc_endpoint cfg)\<rparr> in
     if mc_bucket c = [] then Inl (StdExn ''MinIO bucket is empty'')
     else bindr (buildBaseUrl url_path c) (\<lambda>_. bindr (buildProvider c) (\<lambda>_. Inr c)))"

section \<open>The bucket\<close>

datatype store_fault = StoreRuns | StoreRefused | StoreReplyLost

record object_store =
  os_exists :: bool
  os_objects :: "string \<Rightarrow> (string \<times> string) option"
  os_faults :: "store_fault list"

text \<open>One request to the server: the result is missing when the request failed or its reply was
  lost. A failing request of the server itself (no such bucket, no such object) is in \<open>f\<close>.\<close>

definition os_exec :: "(object_store \<Rightarrow> 'a option \<times> object_store) \<Rightarrow> object_store \<Rightarrow> 'a option \<times> object_store" where
  "os_exec f s = (case os_faults s of
      [] \<Rightarrow> f s
    | StoreRuns # fs \<Rightarrow> f (s\<lparr>os_faults := fs\<rparr>)
    | StoreRefused # fs \<Rightarrow> (None, s\<lparr>os_faults := fs\<rparr>)
    | StoreReplyLost # fs \<Rightarrow> (None, snd (f (s\<lparr>os_faults := fs\<rparr>))))"

definition putObject :: "string \<Rightarrow> string \<Rightarrow> string \<Rightarrow> object_store \<Rightarrow> bool \<times> object_store" where
  "putObject key data contentType s =
     (case os_exec (\<lambda>s. if os_exists s
          then (Some (), s\<lparr>os_objects := (os_objects s)(key \<mapsto> (data, contentType))\<rparr>) else (None, s)) s of
        (r, s') \<Rightarrow> (r \<noteq> None, s'))"

definition deleteObject :: "string \<Rightarrow> object_store \<Rightarrow> bool \<times> object_store" where
  "deleteObject key s =
     (case os_exec (\<lambda>s. if os_exists s then (Some (), s\<lparr>os_objects := (os_objects s)(key := None)\<rparr>) else (None, s)) s of
        (r, s') \<Rightarrow> (r \<noteq> None, s'))"

definition getObject :: "string \<Rightarrow> object_store \<Rightarrow> string option \<times> object_store" where
  "getObject key = os_exec (\<lambda>s. (if os_exists s then map_option fst (os_objects s key) else None, s))"

text \<open>\<open>presign\<close> is the library's signer; it needs no request.\<close>

definition presignGetUrl :: "(string \<Rightarrow> string \<Rightarrow> int \<Rightarrow> string option) \<Rightarrow> minio_config \<Rightarrow> string \<Rightarrow> int \<Rightarrow> exn + string" where
  "presignGetUrl presign c key expirySeconds =
     (case presign (mc_bucket c) key (if expirySeconds > 0 then expirySeconds else mc_presign_expiry_seconds c) of
        None \<Rightarrow> Inl (StdExn ''failed to generate MinIO presigned URL: '') | Some url \<Rightarrow> Inr url)"

definition ensureBucketExists :: "object_store \<Rightarrow> bool \<times> object_store" where
  "ensureBucketExists s = (case os_exec (\<lambda>s. (Some (os_exists s), s)) s of
      (None, s') \<Rightarrow> (False, s')
    | (Some True, s') \<Rightarrow> (True, s')
    | (Some False, s') \<Rightarrow> (case os_exec (\<lambda>s. (Some (), s\<lparr>os_exists := True\<rparr>)) s' of (r, s'') \<Rightarrow> (r \<noteq> None, s'')))"

section \<open>ImageStorage\<close>

text \<open>\<open>minioClient()\<close>: a static client, built at the first use; a constructor that throws is tried
  again at the next use, so the client is a function of the configuration.\<close>

record storage_env =
  se_config :: "exn + json"
  se_url_path :: "string \<Rightarrow> string option"
  se_presign :: "string \<Rightarrow> string \<Rightarrow> int \<Rightarrow> string option"

definition minioClient :: "storage_env \<Rightarrow> exn + minio_config" where
  "minioClient e = minio_new (se_url_path e) (load_minio_config (se_config e))"

definition sanitizeKeyPart :: "string \<Rightarrow> string" where
  "sanitizeKeyPart v = (let s = map (\<lambda>ch. if is_alnum ch \<or> ch = CHR ''-'' \<or> ch = CHR ''_'' then ch else CHR ''_'') v
     in if s = [] then ''unknown'' else s)"

definition image_ext :: "string \<Rightarrow> string" where
  "image_ext contentType =
     (if contains_str contentType ''jpeg'' \<or> contains_str contentType ''jpg'' then ''jpg''
      else if contains_str contentType ''webp'' then ''webp'' else ''png'')"

definition object_key :: "int \<Rightarrow> string \<Rightarrow> string \<Rightarrow> string" where
  "object_key userId safeRequestId ext =
     ''images/'' @ fmt_int userId @ CHR ''/'' # safeRequestId @ CHR ''.'' # ext"

definition storage_store :: "storage_env \<Rightarrow> int \<Rightarrow> string \<Rightarrow> string \<Rightarrow> string \<Rightarrow> (object_store, string) prog" where
  "storage_store e userId requestId rawBytes contentType s =
     (if userId \<le> 0 then (Inl (StdExn ''userId must be positive''), s)
      else if rawBytes = [] then (Inl (StdExn ''rawBytes is empty''), s)
      else let objectKey = object_key userId (sanitizeKeyPart requestId) (image_ext contentType) in
        case minioClient e of
          Inl ex \<Rightarrow> (Inl ex, s)
        | Inr c \<Rightarrow> (case putObject objectKey rawBytes contentType s of
              (ok, s') \<Rightarrow> if ok then (Inr objectKey, s')
                else (Inl (StdExn (''failed to upload image to MinIO: '' @ objectKey)), s')))"

definition storage_getBytes :: "storage_env \<Rightarrow> string \<Rightarrow> (object_store, string option) prog" where
  "storage_getBytes e storageKey s =
     (if storageKey = [] then (Inr None, s)
      else case minioClient e of
        Inl ex \<Rightarrow> (Inl ex, s)
      | Inr c \<Rightarrow> (case getObject storageKey s of (r, s') \<Rightarrow> (Inr r, s')))"

definition storage_presignUrl :: "storage_env \<Rightarrow> string \<Rightarrow> exn + string" where
  "storage_presignUrl e storageKey = bindr (minioClient e) (\<lambda>c. presignGetUrl (se_presign e) c storageKey 0)"

definition storage_remove :: "storage_env \<Rightarrow> string \<Rightarrow> (object_store, bool) prog" where
  "storage_remove e storageKey s =
     (if storageKey = [] then (Inr False, s)
      else case minioClient e of
        Inl ex \<Rightarrow> (Inl ex, s)
      | Inr c \<Rightarrow> (case deleteObject storageKey s of (r, s') \<Rightarrow> (Inr r, s')))"

definition contentTypeForKey :: "string \<Rightarrow> string" where
  "contentTypeForKey storageKey =
     (if ends_with storageKey ''.jpg'' \<or> ends_with storageKey ''.jpeg'' then ''image/jpeg''
      else if ends_with storageKey ''.webp'' then ''image/webp'' else ''image/png'')"

section \<open>Facts\<close>

lemma os_exec_cases:
  obtains fs where "os_exec f s = f (s\<lparr>os_faults := fs\<rparr>)"
  | fs where "os_exec f s = (None, s\<lparr>os_faults := fs\<rparr>)"
  | fs where "os_exec f s = (None, snd (f (s\<lparr>os_faults := fs\<rparr>)))"
proof (cases "os_faults s")
  case Nil
  then have "s = s\<lparr>os_faults := []\<rparr>" by simp
  with Nil that(1) [of "[]"] show ?thesis by (simp add: os_exec_def)
next
  case (Cons x fs)
  then show ?thesis using that by (cases x) (auto simp: os_exec_def)
qed

lemma put_other: "k \<noteq> key \<Longrightarrow> os_objects (snd (putObject key d ct s)) k = os_objects s k"
  by (cases rule: os_exec_cases [of "\<lambda>s. if os_exists s
      then (Some (), s\<lparr>os_objects := (os_objects s)(key \<mapsto> (d, ct))\<rparr>) else (None, s)" s])
    (auto simp: putObject_def)

lemma put_true: "putObject key d ct s = (True, s') \<Longrightarrow> os_objects s' key = Some (d, ct) \<and> os_exists s'"
  by (cases rule: os_exec_cases [of "\<lambda>s. if os_exists s
      then (Some (), s\<lparr>os_objects := (os_objects s)(key \<mapsto> (d, ct))\<rparr>) else (None, s)" s])
    (auto simp: putObject_def split: if_splits)

lemma delete_other: "k \<noteq> key \<Longrightarrow> os_objects (snd (deleteObject key s)) k = os_objects s k"
  by (cases rule: os_exec_cases [of "\<lambda>s. if os_exists s
      then (Some (), s\<lparr>os_objects := (os_objects s)(key := None)\<rparr>) else (None, s)" s])
    (auto simp: deleteObject_def)

lemma get_Some: "getObject key s = (Some d, s') \<Longrightarrow> \<exists>ct. os_objects s key = Some (d, ct)"
  by (cases rule: os_exec_cases [of "\<lambda>s. (if os_exists s then map_option fst (os_objects s key) else None, s)" s])
    (auto simp: getObject_def split: if_splits)

lemma get_quiet: "os_faults s = [] \<Longrightarrow> os_exists s \<Longrightarrow> getObject key s = (map_option fst (os_objects s key), s)"
  by (simp add: getObject_def os_exec_def)

lemma sanitizeKeyPart_chars:
  "c \<in> set (sanitizeKeyPart v) \<Longrightarrow> is_alnum c \<or> c = CHR ''-'' \<or> c = CHR ''_''"
proof -
  have "list_all is_alnum ''unknown''" by code_simp
  then show "c \<in> set (sanitizeKeyPart v) \<Longrightarrow> is_alnum c \<or> c = CHR ''-'' \<or> c = CHR ''_''"
    by (auto simp: sanitizeKeyPart_def Let_def list_all_iff split: if_splits)
qed

lemma sanitizeKeyPart_sep: "CHR ''.'' \<notin> set (sanitizeKeyPart v)" "CHR ''/'' \<notin> set (sanitizeKeyPart v)"
proof -
  have "\<not> is_alnum (CHR ''.'')" "\<not> is_alnum (CHR ''/'')" by code_simp+
  then show "CHR ''.'' \<notin> set (sanitizeKeyPart v)" "CHR ''/'' \<notin> set (sanitizeKeyPart v)"
    using sanitizeKeyPart_chars [of "CHR ''.''" v] sanitizeKeyPart_chars [of "CHR ''/''" v] by auto
qed

lemma sanitizeKeyPart_id:
  "v \<noteq> [] \<Longrightarrow> \<forall>c\<in>set v. is_alnum c \<or> c = CHR ''-'' \<or> c = CHR ''_'' \<Longrightarrow> sanitizeKeyPart v = v"
  by (simp add: sanitizeKeyPart_def Let_def map_idI)

lemma object_key_inj:
  "object_key u (sanitizeKeyPart r) x = object_key u' (sanitizeKeyPart r') x' \<longleftrightarrow>
     u = u' \<and> sanitizeKeyPart r = sanitizeKeyPart r' \<and> x = x'"
  by (auto simp: object_key_def append_sep_eq sanitizeKeyPart_sep)

lemma image_ext_png [simp]: "image_ext ''image/png'' = ''png''"
  by code_simp

lemma storage_store_Inr:
  assumes "storage_store e u r d ct s = (Inr key, s')"
  shows "key = object_key u (sanitizeKeyPart r) (image_ext ct) \<and> d \<noteq> [] \<and> os_objects s' key = Some (d, ct) \<and>
     os_exists s' \<and> (\<exists>c. minioClient e = Inr c)"
  using assms put_true
  by (auto simp: storage_store_def Let_def split: if_splits sum.splits prod.splits)

section \<open>Properties\<close>

text \<open>
  When a store succeeds, the object is under a key that stands for
  the user, the cleaned request identifier and the kind of image, so two users never share an
  object and two identifiers that need no cleaning do not either; reading the key gives back the
  bytes; the other objects are as before; and a store that fails leaves the other objects alone
  too. Requests may be refused or lose their reply.
\<close>

theorem stored_image_is_read_back:
  assumes "storage_store e u r d ct s = (res, s')"
  shows "(\<forall>k. k \<noteq> object_key u (sanitizeKeyPart r) (image_ext ct) \<longrightarrow> os_objects s' k = os_objects s k) \<and>
     (\<forall>key. res = Inr key \<longrightarrow> key = object_key u (sanitizeKeyPart r) (image_ext ct) \<and> key \<noteq> [] \<and> d \<noteq> [] \<and>
        os_objects s' key = Some (d, ct) \<and>
        (os_faults s' = [] \<longrightarrow> storage_getBytes e key s' = (Inr (Some d), s')) \<and>
        (\<forall>u' r' ct'. object_key u' (sanitizeKeyPart r') (image_ext ct') = key \<longrightarrow>
           u' = u \<and> sanitizeKeyPart r' = sanitizeKeyPart r))"
proof (cases "u \<le> 0 \<or> d = []")
  case True
  then have "s' = s \<and> (\<exists>ex. res = Inl ex)" using assms by (auto simp: storage_store_def split: if_splits)
  then show ?thesis by auto
next
  case False
  let ?k = "object_key u (sanitizeKeyPart r) (image_ext ct)"
  show ?thesis
  proof (cases "minioClient e")
    case (Inl ex)
    then show ?thesis using assms False by (auto simp: storage_store_def Let_def)
  next
    case (Inr c)
    obtain b t where p: "putObject ?k d ct s = (b, t)" by fastforce
    have t: "s' = t" and res: "res = (if b then Inr ?k else Inl (StdExn (''failed to upload image to MinIO: '' @ ?k)))"
      using assms False Inr p by (auto simp: storage_store_def Let_def split: if_splits)
    have ne: "?k \<noteq> []" by (simp add: object_key_def)
    have other: "\<forall>k. k \<noteq> ?k \<longrightarrow> os_objects s' k = os_objects s k" using put_other [of _ ?k d ct s] p t by simp
    show ?thesis
    proof (cases b)
      case False
      with other res show ?thesis by simp
    next
      case True
      then have "os_objects s' ?k = Some (d, ct) \<and> os_exists s'" using put_true [of ?k d ct s t] p t by simp
      with other res True ne False Inr get_quiet [of s' ?k] object_key_inj \<open>\<not> (u \<le> 0 \<or> d = [])\<close>
      show ?thesis by (auto simp: storage_getBytes_def)
    qed
  qed
qed

definition demo_storage :: storage_env where
  "demo_storage = \<lparr>se_config = Inr (JObj [(''minio'', JObj [(''endpoint'', JStr ''http://m''),
       (''access_key'', JStr ''a''), (''secret_key'', JStr ''s''), (''bucket'', JStr ''b'')])]),
     se_url_path = (\<lambda>_. Some []), se_presign = (\<lambda>b k x. Some (b @ k))\<rparr>"

definition demo_objects :: object_store where
  "demo_objects = \<lparr>os_exists = True, os_objects = (\<lambda>_. None), os_faults = []\<rparr>"

lemma demo_minioClient [simp]:
  "minioClient demo_storage = Inr \<lparr>mc_endpoint = ''http://m'', mc_access_key = ''a'', mc_secret_key = ''s'',
     mc_bucket = ''b'', mc_region = ''us-east-1'', mc_presign_expiry_seconds = 3600\<rparr>"
  by (simp add: demo_storage_def minioClient_def load_minio_config_def minio_fields_def default_minio_config_def
      minio_new_def buildBaseUrl_def buildProvider_def drop_slashes_def Let_def)

theorem stored_image_is_read_back_witness:
  "\<exists>key. fst (storage_store demo_storage 7 ''req-1'' ''bytes'' ''image/png'' demo_objects) = Inr key \<and>
     fst (storage_getBytes demo_storage key
       (snd (storage_store demo_storage 7 ''req-1'' ''bytes'' ''image/png'' demo_objects))) = Inr (Some ''bytes'')"
proof -
  let ?r = "storage_store demo_storage 7 ''req-1'' ''bytes'' ''image/png'' demo_objects"
  have k: "fst ?r = Inr (object_key 7 (sanitizeKeyPart ''req-1'') (image_ext ''image/png''))" "os_faults (snd ?r) = []"
    by (simp_all add: storage_store_def putObject_def os_exec_def demo_objects_def Let_def)
  have r: "?r = (fst ?r, snd ?r)" by simp
  show ?thesis
    using stored_image_is_read_back [OF r] k by (intro exI [of _ "object_key 7 (sanitizeKeyPart ''req-1'') (image_ext ''image/png'')"]) simp
qed

end
