(* ===== verification/Http_Client.thy ===== *)
theory Http_Client
  imports Errors
begin

text \<open>
  \<open>Backend/src/services/client.cpp\<close>: the HTTP client of the model service, over the client of the
  drogon framework. What a request meets on the network is not in this repository: the answers to
  come are a list in the state (\<open>drogon_answer\<close>, one per request, with every outcome the code
  distinguishes), and the requests made are logged.
\<close>

record parsed_url =
  pu_origin :: string
  pu_target :: string

text \<open>\<open>std::string::find\<close>.\<close>

fun find_sub :: "string \<Rightarrow> string \<Rightarrow> nat option" where
  "find_sub p [] = (if p = [] then Some 0 else None)"
| "find_sub p (c # s) = (if starts_with (c # s) p then Some 0 else map_option Suc (find_sub p s))"

definition parseUrl :: "string \<Rightarrow> parsed_url option" where
  "parseUrl url = (case find_sub ''://'' url of
      None \<Rightarrow> None
    | Some schemePos \<Rightarrow>
        (let authorityStart = schemePos + 3;
             parsed = (case find_sub ''/'' (drop authorityStart url) of
                None \<Rightarrow> \<lparr>pu_origin = url, pu_target = ''/''\<rparr>
              | Some p \<Rightarrow> (let pathStart = authorityStart + p; target = drop pathStart url
                          in \<lparr>pu_origin = take pathStart url, pu_target = (if target = [] then ''/'' else target)\<rparr>))
         in if pu_origin parsed = [] then None else Some parsed))"

text \<open>The header lines become pairs; a line without a colon or with an empty name is skipped.\<close>

definition header_pair :: "string \<Rightarrow> (string \<times> string) option" where
  "header_pair raw = (case find_sub '':'' raw of
      None \<Rightarrow> None
    | Some p \<Rightarrow> (let key = trim (take p raw); v = trim (drop (p + 1) raw)
               in if key = [] then None else Some (key, v)))"

definition applyHeaders :: "string list \<Rightarrow> (string \<times> string) list" where
  "applyHeaders headers = List.map_filter header_pair headers"

definition isRedirectStatus :: "int \<Rightarrow> bool" where
  "isRedirectStatus st \<longleftrightarrow> st = 301 \<or> st = 302 \<or> st = 303 \<or> st = 307 \<or> st = 308"

definition resolveRedirectUrl :: "parsed_url \<Rightarrow> string \<Rightarrow> string" where
  "resolveRedirectUrl current location =
     (if location = [] then []
      else if starts_with location ''http://'' \<or> starts_with location ''https://'' then location
      else if hd location = CHR ''/'' then pu_origin current @ location
      else pu_origin current @ ''/'' @ location)"

section \<open>One request\<close>

datatype http_method = HttpGet | HttpPost

record http_request =
  rq_method :: http_method
  rq_origin :: string
  rq_target :: string
  rq_body :: "string option"
  rq_headers :: "(string \<times> string) list"
  rq_timeout :: real

text \<open>A response has a status, a body and a \<open>Location\<close> header (empty when missing).\<close>

datatype drogon_answer = NoClient | RequestFailed int | RequestThrew string | NoResponse
  | Response int string string

record http_env =
  ne_answers :: "drogon_answer list"
  ne_sent :: "http_request list"

record send_envelope =
  sv_http :: http_result
  sv_location :: "string option"

definition http_failure :: "int \<Rightarrow> string \<Rightarrow> http_result" where
  "http_failure st m = \<lparr>hr_status_code = 0, hr_body = [], hr_failure = Some \<lparr>he_status_code = st, he_message = m\<rparr>\<rparr>"

definition sendOnce :: "parsed_url \<Rightarrow> http_method \<Rightarrow> string option \<Rightarrow> string list \<Rightarrow> int \<Rightarrow> http_env \<Rightarrow>
    send_envelope \<times> http_env" where
  "sendOnce parsed method payload headers timeoutSeconds ne =
     (let a = (case ne_answers ne of [] \<Rightarrow> NoResponse | a # _ \<Rightarrow> a);
          ne1 = ne\<lparr>ne_answers := tl (ne_answers ne)\<rparr>;
          req = \<lparr>rq_method = method, rq_origin = pu_origin parsed, rq_target = pu_target parsed,
                 rq_body = payload, rq_headers = applyHeaders headers,
                 rq_timeout = (if timeoutSeconds > 0 then of_int timeoutSeconds else 0)\<rparr>;
          ne2 = ne1\<lparr>ne_sent := ne_sent ne1 @ [req]\<rparr>;
          failed = (\<lambda>m. \<lparr>sv_http = http_failure 0 m, sv_location = None\<rparr>)
      in case a of
          NoClient \<Rightarrow> (failed ''failed to initialize drogon http client'', ne1)
        | RequestFailed r \<Rightarrow> (failed (''request failed, req_result='' @ fmt_int r), ne2)
        | RequestThrew m \<Rightarrow> (failed (''request exception: '' @ m), ne2)
        | NoResponse \<Rightarrow> (failed ''request failed, empty response'', ne2)
        | Response st body loc \<Rightarrow>
            (\<lparr>sv_http = \<lparr>hr_status_code = st, hr_body = body, hr_failure = None\<rparr>, sv_location = Some loc\<rparr>, ne2))"

section \<open>The client\<close>

definition toExpectedBody :: "http_result \<Rightarrow> http_error + string" where
  "toExpectedBody r = (case hr_failure r of
      Some f \<Rightarrow> Inl f
    | None \<Rightarrow> if 200 \<le> hr_status_code r \<and> hr_status_code r < 300 then Inr (hr_body r)
        else Inl \<lparr>he_status_code = hr_status_code r, he_message = ''http status '' @ fmt_int (hr_status_code r)\<rparr>)"

definition kMaxRedirects :: nat where
  "kMaxRedirects = 5"

text \<open>The loop counts redirects up to the limit; here the argument counts the ones left.\<close>

fun get_loop :: "nat \<Rightarrow> string \<Rightarrow> int \<Rightarrow> string list \<Rightarrow> bool \<Rightarrow> http_env \<Rightarrow> http_result \<times> http_env" where
  "get_loop redirects_left currentUrl timeoutSeconds headers followRedirects ne =
     (case parseUrl currentUrl of
        None \<Rightarrow> (http_failure 0 (''invalid url: '' @ currentUrl), ne)
      | Some parsed \<Rightarrow>
          (case sendOnce parsed HttpGet None headers timeoutSeconds ne of (envelope, ne') \<Rightarrow>
             (case sv_location envelope of
                None \<Rightarrow> (sv_http envelope, ne')
              | Some location \<Rightarrow>
                  if \<not> followRedirects \<or> \<not> isRedirectStatus (hr_status_code (sv_http envelope))
                  then (sv_http envelope, ne')
                  else (case redirects_left of
                      0 \<Rightarrow> ((sv_http envelope)\<lparr>hr_failure := Some \<lparr>he_status_code = hr_status_code (sv_http envelope),
                              he_message = ''too many redirects''\<rparr>\<rparr>, ne')
                    | Suc n \<Rightarrow> (let nextUrl = resolveRedirectUrl parsed location in
                        if nextUrl = [] then
                          ((sv_http envelope)\<lparr>hr_failure := Some \<lparr>he_status_code = hr_status_code (sv_http envelope),
                              he_message = ''redirect response missing Location header''\<rparr>\<rparr>, ne')
                        else get_loop n nextUrl timeoutSeconds headers followRedirects ne')))))"

declare get_loop.simps [simp del]

definition http_get :: "string \<Rightarrow> int \<Rightarrow> string list \<Rightarrow> bool \<Rightarrow> http_env \<Rightarrow> http_result \<times> http_env" where
  "http_get url timeoutSeconds headers followRedirects =
     get_loop kMaxRedirects url timeoutSeconds headers followRedirects"

definition postJson :: "string \<Rightarrow> int \<Rightarrow> string \<Rightarrow> string list \<Rightarrow> http_env \<Rightarrow> http_result \<times> http_env" where
  "postJson url timeoutSeconds payload headers ne = (case parseUrl url of
      None \<Rightarrow> (http_failure 0 (''invalid url: '' @ url), ne)
    | Some parsed \<Rightarrow> (case sendOnce parsed HttpPost (Some payload) headers timeoutSeconds ne of
        (envelope, ne') \<Rightarrow> (sv_http envelope, ne')))"

section \<open>Facts\<close>

text \<open>What one request adds to the log.\<close>

lemma sendOnce_sent:
  "\<exists>rs. ne_sent (snd (sendOnce p m b hs t ne)) = ne_sent ne @ rs \<and> length rs \<le> 1 \<and>
     (\<forall>r\<in>set rs. rq_method r = m \<and> rq_headers r = applyHeaders hs \<and> rq_origin r = pu_origin p)"
  by (auto simp: sendOnce_def Let_def split: drogon_answer.split list.split)

lemma sendOnce_result:
  "sv_location (fst (sendOnce p m b hs t ne)) = None \<longleftrightarrow> hr_failure (sv_http (fst (sendOnce p m b hs t ne))) \<noteq> None"
  by (auto simp: sendOnce_def Let_def http_failure_def split: drogon_answer.split list.split)

lemma get_loop_sent:
  "\<exists>rs. ne_sent (snd (get_loop n url t hs f ne)) = ne_sent ne @ rs \<and> length rs \<le> n + 1 \<and>
     (f \<or> length rs \<le> 1) \<and> (\<forall>r\<in>set rs. rq_method r = HttpGet \<and> rq_headers r = applyHeaders hs)"
proof (induction n url t hs f ne rule: get_loop.induct)
  case (1 n url t hs f ne)
  show ?case
  proof (cases "parseUrl url")
    case None
    then show ?thesis by (simp add: get_loop.simps)
  next
    case (Some p)
    obtain e ne' where e: "sendOnce p HttpGet None hs t ne = (e, ne')" by fastforce
    obtain rs where rs: "ne_sent ne' = ne_sent ne @ rs" "length rs \<le> 1"
      "\<forall>r\<in>set rs. rq_method r = HttpGet \<and> rq_headers r = applyHeaders hs"
      using sendOnce_sent [of p HttpGet None hs t ne] e by auto
    show ?thesis
    proof (cases "\<exists>loc m. sv_location e = Some loc \<and> f \<and> isRedirectStatus (hr_status_code (sv_http e)) \<and>
        n = Suc m \<and> resolveRedirectUrl p loc \<noteq> []")
      case False
      then have "snd (get_loop n url t hs f ne) = ne'"
        by (subst get_loop.simps) (auto simp: Some e Let_def split: option.split nat.split)
      with rs show ?thesis by auto
    next
      case True
      then obtain loc m where l: "sv_location e = Some loc" "f" "isRedirectStatus (hr_status_code (sv_http e))"
        "n = Suc m" "resolveRedirectUrl p loc \<noteq> []" by blast
      then have g: "get_loop n url t hs f ne = get_loop m (resolveRedirectUrl p loc) t hs f ne'"
        by (subst get_loop.simps) (simp add: Some e Let_def)
      from 1 [OF Some e [symmetric] l(1) _ l(4) refl l(5)] l
      obtain rs' where "ne_sent (snd (get_loop m (resolveRedirectUrl p loc) t hs f ne')) = ne_sent ne' @ rs'"
        "length rs' \<le> m + 1" "\<forall>r\<in>set rs'. rq_method r = HttpGet \<and> rq_headers r = applyHeaders hs" by auto
      with g rs l show ?thesis by (intro exI [of _ "rs @ rs'"]) auto
    qed
  qed
qed

lemma get_loop_result:
  "hr_failure (fst (get_loop n url t hs True ne)) = None \<Longrightarrow>
     \<not> isRedirectStatus (hr_status_code (fst (get_loop n url t hs True ne)))"
proof (induction n arbitrary: url ne)
  case 0
  then show ?case
    using sendOnce_result [of "the (parseUrl url)" HttpGet None hs t ne]
    by (auto simp: get_loop.simps http_failure_def split: option.splits prod.splits if_splits)
next
  case (Suc n)
  then show ?case
    using sendOnce_result [of "the (parseUrl url)" HttpGet None hs t ne]
    by (subst get_loop.simps, subst (asm) get_loop.simps [of "Suc n"])
      (auto simp: http_failure_def Let_def split: option.splits prod.splits if_splits)
qed

section \<open>Properties\<close>

text \<open>
  C32: a GET always ends, after at most six requests (one without following
  redirects), each with the same headers; when it follows redirects and reports no failure, the
  response is not a redirect; and only a status from 200 to 299 without a failure yields a body.
\<close>

theorem http_get_is_bounded:
  "(\<exists>rs. ne_sent (snd (http_get url t hs f ne)) = ne_sent ne @ rs \<and> length rs \<le> (if f then 6 else 1) \<and>
      (\<forall>r\<in>set rs. rq_method r = HttpGet \<and> rq_headers r = applyHeaders hs)) \<and>
   (f \<and> hr_failure (fst (http_get url t hs f ne)) = None \<longrightarrow>
      \<not> isRedirectStatus (hr_status_code (fst (http_get url t hs f ne)))) \<and>
   (toExpectedBody r = Inr b \<longleftrightarrow>
      hr_failure r = None \<and> 200 \<le> hr_status_code r \<and> hr_status_code r < 300 \<and> b = hr_body r)"
proof (intro conjI impI)
  show "\<exists>rs. ne_sent (snd (http_get url t hs f ne)) = ne_sent ne @ rs \<and> length rs \<le> (if f then 6 else 1) \<and>
      (\<forall>r\<in>set rs. rq_method r = HttpGet \<and> rq_headers r = applyHeaders hs)"
    using get_loop_sent [of kMaxRedirects url t hs f ne] by (auto simp: http_get_def kMaxRedirects_def)
  show "\<not> isRedirectStatus (hr_status_code (fst (http_get url t hs f ne)))"
    if "f \<and> hr_failure (fst (http_get url t hs f ne)) = None"
    using get_loop_result [of kMaxRedirects url t hs ne] that by (cases f) (simp_all add: http_get_def)
  show "toExpectedBody r = Inr b \<longleftrightarrow>
      hr_failure r = None \<and> 200 \<le> hr_status_code r \<and> hr_status_code r < 300 \<and> b = hr_body r"
    by (auto simp: toExpectedBody_def split: option.splits)
qed

theorem http_get_is_bounded_witness:
  "\<not> isRedirectStatus (hr_status_code (fst (http_get ''http://m/a'' 5 [] True
      \<lparr>ne_answers = [Response 302 [] ''/b'', Response 200 ''ok'' []], ne_sent = []\<rparr>)))"
proof -
  let ?ne = "\<lparr>ne_answers = [Response 302 [] ''/b'', Response 200 ''ok'' []], ne_sent = []\<rparr>"
  have "hr_failure (fst (http_get ''http://m/a'' 5 [] True ?ne)) = None"
    by (simp add: http_get_def kMaxRedirects_def get_loop.simps parseUrl_def starts_with_def sendOnce_def
        Let_def isRedirectStatus_def resolveRedirectUrl_def numeral_eq_Suc)
  then show ?thesis
    using http_get_is_bounded [of "''http://m/a''" 5 "[]" True ?ne] by blast
qed

end
