(* ===== verification/World.thy ===== *)
theory World
  imports Image_Repo Redis_Client Cache_Client Event_Hub Metrics Object_Store Http_Client
begin

text \<open>
  The state that the services share: the database, the Redis server of the queue, the cache, the
  subscribers, the metrics, the object store, the network and the clock; and what the program
  gets from outside as constants: its configuration, the JSON library, the cache implementation
  it was given and the signer of the object store. An operation of a component is lifted to a
  program over the whole state.
\<close>

text \<open>What the engine has started: \<open>start_once\<close>, the workers by name, the lease scanner.\<close>

record engine_state =
  en_started :: bool
  en_workers :: "string list"
  en_scanner :: bool

record 'c world =
  w_db :: image_db
  w_redis :: redis_client
  w_cache :: 'c
  w_hub :: event_hub
  w_metrics :: metrics_registry
  w_objects :: object_store
  w_http :: http_env
  w_engine :: engine_state
  w_now :: time_point
  w_ticks :: "nat list"

text \<open>\<open>x_config\<close> is what \<open>backend::cachedConfig()\<close> gives or throws; \<open>x_presign_ttl\<close> is the
  process-wide setting of \<open>setPresignTtl\<close>.\<close>

record 'c externals =
  x_config :: "exn + json"
  x_dump :: "json \<Rightarrow> exn + string"
  x_parse :: "string \<Rightarrow> exn + json"
  x_url_path :: "string \<Rightarrow> string option"
  x_presign :: "string \<Rightarrow> string \<Rightarrow> int \<Rightarrow> string option"
  x_cache :: "'c cache_if"
  x_presign_ttl :: int

definition x_storage :: "('c, 'x) externals_scheme \<Rightarrow> storage_env" where
  "x_storage x = \<lparr>se_config = x_config x, se_url_path = x_url_path x, se_presign = x_presign x\<rparr>"

section \<open>Lifting\<close>

definition on_db :: "(image_db \<Rightarrow> 'a \<times> image_db) \<Rightarrow> ('c world, 'a) prog" where
  "on_db f w = (case f (w_db w) of (r, db) \<Rightarrow> (Inr r, w\<lparr>w_db := db\<rparr>))"

definition on_redis :: "(redis_client, 'a) prog \<Rightarrow> ('c world, 'a) prog" where
  "on_redis f w = (case f (w_redis w) of (r, c) \<Rightarrow> (r, w\<lparr>w_redis := c\<rparr>))"

definition on_cache :: "('c \<Rightarrow> 'a \<times> 'c) \<Rightarrow> ('c world, 'a) prog" where
  "on_cache f w = (case f (w_cache w) of (r, c) \<Rightarrow> (Inr r, w\<lparr>w_cache := c\<rparr>))"

definition on_hub :: "(event_hub, 'a) prog \<Rightarrow> ('c world, 'a) prog" where
  "on_hub f w = (case f (w_hub w) of (r, h) \<Rightarrow> (r, w\<lparr>w_hub := h\<rparr>))"

definition on_metrics :: "(metrics_registry \<Rightarrow> metrics_registry) \<Rightarrow> ('c world, unit) prog" where
  "on_metrics f w = (Inr (), w\<lparr>w_metrics := f (w_metrics w)\<rparr>)"

definition on_objects :: "(object_store, 'a) prog \<Rightarrow> ('c world, 'a) prog" where
  "on_objects f w = (case f (w_objects w) of (r, s) \<Rightarrow> (r, w\<lparr>w_objects := s\<rparr>))"

definition on_http :: "(http_env \<Rightarrow> 'a \<times> http_env) \<Rightarrow> ('c world, 'a) prog" where
  "on_http f w = (case f (w_http w) of (r, n) \<Rightarrow> (Inr r, w\<lparr>w_http := n\<rparr>))"

definition on_engine :: "(engine_state \<Rightarrow> 'a \<times> engine_state) \<Rightarrow> ('c world, 'a) prog" where
  "on_engine f w = (case f (w_engine w) of (r, en) \<Rightarrow> (Inr r, w\<lparr>w_engine := en\<rparr>))"

text \<open>A reading of the clock; time passes between readings.\<close>

definition clock :: "('c world, time_point) prog" where
  "clock w = (let t = w_now w + (case w_ticks w of [] \<Rightarrow> 0 | d # _ \<Rightarrow> int d)
     in (Inr t, w\<lparr>w_now := t, w_ticks := tl (w_ticks w)\<rparr>))"

text \<open>A pure step that may throw.\<close>

definition lift_sum :: "exn + 'a \<Rightarrow> ('s, 'a) prog" where
  "lift_sum r = (case r of Inl e \<Rightarrow> throw e | Inr x \<Rightarrow> ret x)"

text \<open>\<open>catch (const std::exception&)\<close> and \<open>catch (\<dots>)\<close>.\<close>

definition catch_std :: "('s, 'a) prog \<Rightarrow> (exn \<Rightarrow> ('s, 'a) prog) \<Rightarrow> ('s, 'a) prog" where
  "catch_std m h s = (case m s of
      (Inl e, s') \<Rightarrow> if is_std_exn e then h e s' else (Inl e, s')
    | (Inr x, s') \<Rightarrow> (Inr x, s'))"

definition catch_all :: "('s, 'a) prog \<Rightarrow> (exn \<Rightarrow> ('s, 'a) prog) \<Rightarrow> ('s, 'a) prog" where
  "catch_all m h s = (case m s of (Inl e, s') \<Rightarrow> h e s' | (Inr x, s') \<Rightarrow> (Inr x, s'))"

section \<open>Facts\<close>

lemma clock_result: "\<exists>t t' ts. clock w = (Inr t, w\<lparr>w_now := t', w_ticks := ts\<rparr>)"
  by (simp add: clock_def Let_def) blast

text \<open>A program that leaves a part of the state alone.\<close>

definition leaves :: "('s \<Rightarrow> 'p) \<Rightarrow> ('s, 'a) prog \<Rightarrow> bool" where
  "leaves part m \<longleftrightarrow> (\<forall>s. part (snd (m s)) = part s)"

named_theorems leaves_intros \<open>rules that a program leaves a part of the state alone\<close>

lemma leavesI: "(\<And>s. part (snd (m s)) = part s) \<Longrightarrow> leaves part m"
  by (simp add: leaves_def)

lemma leavesD: "leaves part m \<Longrightarrow> part (snd (m s)) = part s"
  by (simp add: leaves_def)

lemma leaves_run: "leaves part m \<Longrightarrow> m s = (r, s') \<Longrightarrow> part s' = part s"
  by (metis leaves_def snd_conv)

lemma leaves_ret [leaves_intros]: "leaves part (ret x)"
  by (simp add: leaves_def)

lemma leaves_throw [leaves_intros]: "leaves part (throw e)"
  by (simp add: leaves_def)

lemma leaves_lift_sum [leaves_intros]: "leaves part (lift_sum r)"
  by (cases r) (simp_all add: lift_sum_def leaves_def)

lemma leaves_bindp [leaves_intros]:
  assumes "leaves part m" "\<And>x. leaves part (k x)"
  shows "leaves part (bindp m k)"
proof (rule leavesI)
  fix s
  obtain r s' where m: "m s = (r, s')" by fastforce
  with assms(1) have "part s' = part s" by (rule leaves_run)
  then show "part (snd (bindp m k s)) = part s"
    using m leavesD [OF assms(2)] by (cases r) simp_all
qed

lemma leaves_catch_std [leaves_intros]:
  assumes "leaves part m" "\<And>e. leaves part (h e)"
  shows "leaves part (catch_std m h)"
proof (rule leavesI)
  fix s
  obtain r s' where m: "m s = (r, s')" by fastforce
  with assms(1) have "part s' = part s" by (rule leaves_run)
  then show "part (snd (catch_std m h s)) = part s"
    using m leavesD [OF assms(2)] by (cases r) (simp_all add: catch_std_def)
qed

lemma leaves_catch_all [leaves_intros]:
  assumes "leaves part m" "\<And>e. leaves part (h e)"
  shows "leaves part (catch_all m h)"
proof (rule leavesI)
  fix s
  obtain r s' where m: "m s = (r, s')" by fastforce
  with assms(1) have "part s' = part s" by (rule leaves_run)
  then show "part (snd (catch_all m h s)) = part s"
    using m leavesD [OF assms(2)] by (cases r) (simp_all add: catch_all_def)
qed

lemma leaves_if [leaves_intros]: "(b \<Longrightarrow> leaves part m) \<Longrightarrow> (\<not> b \<Longrightarrow> leaves part n) \<Longrightarrow> leaves part (if b then m else n)"
  by simp

lemma leaves_bool [leaves_intros]:
  "leaves part m \<Longrightarrow> leaves part n \<Longrightarrow> leaves part (case b of True \<Rightarrow> m | False \<Rightarrow> n)"
  by (cases b) simp_all

lemma leaves_option [leaves_intros]:
  "leaves part m \<Longrightarrow> (\<And>x. leaves part (k x)) \<Longrightarrow> leaves part (case v of None \<Rightarrow> m | Some x \<Rightarrow> k x)"
  by (cases v) simp_all

lemma leaves_sum [leaves_intros]:
  "(\<And>x. leaves part (h x)) \<Longrightarrow> (\<And>x. leaves part (k x)) \<Longrightarrow> leaves part (case v of Inl x \<Rightarrow> h x | Inr x \<Rightarrow> k x)"
  by (cases v) simp_all

lemma leaves_prod [leaves_intros]:
  "(\<And>x y. leaves part (k x y)) \<Longrightarrow> leaves part (case v of (x, y) \<Rightarrow> k x y)"
  by (cases v) simp

lemma leaves_Let [leaves_intros]: "leaves part (f x) \<Longrightarrow> leaves part (Let x f)"
  by (simp add: Let_def)

text \<open>Which lift touches which part.\<close>

lemma on_other [leaves_intros]:
  "leaves w_redis (on_db f1)" "leaves w_cache (on_db f1)" "leaves w_hub (on_db f1)" "leaves w_metrics (on_db f1)" "leaves w_objects (on_db f1)" "leaves w_http (on_db f1)" "leaves w_engine (on_db f1)" "leaves w_now (on_db f1)"
  "leaves w_db (on_redis f2)" "leaves w_cache (on_redis f2)" "leaves w_hub (on_redis f2)" "leaves w_metrics (on_redis f2)" "leaves w_objects (on_redis f2)" "leaves w_http (on_redis f2)" "leaves w_engine (on_redis f2)" "leaves w_now (on_redis f2)"
  "leaves w_db (on_cache f3)" "leaves w_redis (on_cache f3)" "leaves w_hub (on_cache f3)" "leaves w_metrics (on_cache f3)" "leaves w_objects (on_cache f3)" "leaves w_http (on_cache f3)" "leaves w_engine (on_cache f3)" "leaves w_now (on_cache f3)"
  "leaves w_db (on_hub f4)" "leaves w_redis (on_hub f4)" "leaves w_cache (on_hub f4)" "leaves w_metrics (on_hub f4)" "leaves w_objects (on_hub f4)" "leaves w_http (on_hub f4)" "leaves w_engine (on_hub f4)" "leaves w_now (on_hub f4)"
  "leaves w_db (on_metrics f5)" "leaves w_redis (on_metrics f5)" "leaves w_cache (on_metrics f5)" "leaves w_hub (on_metrics f5)" "leaves w_objects (on_metrics f5)" "leaves w_http (on_metrics f5)" "leaves w_engine (on_metrics f5)" "leaves w_now (on_metrics f5)"
  "leaves w_db (on_objects f6)" "leaves w_redis (on_objects f6)" "leaves w_cache (on_objects f6)" "leaves w_hub (on_objects f6)" "leaves w_metrics (on_objects f6)" "leaves w_http (on_objects f6)" "leaves w_engine (on_objects f6)" "leaves w_now (on_objects f6)"
  "leaves w_db (on_http f7)" "leaves w_redis (on_http f7)" "leaves w_cache (on_http f7)" "leaves w_hub (on_http f7)" "leaves w_metrics (on_http f7)" "leaves w_objects (on_http f7)" "leaves w_engine (on_http f7)" "leaves w_now (on_http f7)"
  "leaves w_db (on_engine f8)" "leaves w_redis (on_engine f8)" "leaves w_cache (on_engine f8)" "leaves w_hub (on_engine f8)" "leaves w_metrics (on_engine f8)" "leaves w_objects (on_engine f8)" "leaves w_http (on_engine f8)" "leaves w_now (on_engine f8)"
  "leaves w_db clock" "leaves w_redis clock" "leaves w_cache clock" "leaves w_hub clock" "leaves w_metrics clock" "leaves w_objects clock" "leaves w_http clock" "leaves w_engine clock"
  by (auto simp: leaves_def on_db_def on_redis_def on_cache_def on_hub_def on_metrics_def on_objects_def
      on_http_def on_engine_def clock_def Let_def split: prod.split)

lemma catch_simps [simp]:
  "m s = (Inr x, s') \<Longrightarrow> catch_std m h s = (Inr x, s')"
  "m s = (Inl e, s') \<Longrightarrow> is_std_exn e \<Longrightarrow> catch_std m h s = h e s'"
  "m s = (Inr x, s') \<Longrightarrow> catch_all m h s = (Inr x, s')"
  "m s = (Inl e, s') \<Longrightarrow> catch_all m h s = h e s'"
  by (simp_all add: catch_std_def catch_all_def)

lemma lift_sum_app [simp]: "lift_sum r s = (r, s)"
  by (cases r) (simp_all add: lift_sum_def)

text \<open>A program that returns from every state.\<close>

definition returns :: "('s, 'a) prog \<Rightarrow> bool" where
  "returns m \<longleftrightarrow> (\<forall>s. \<exists>x s'. m s = (Inr x, s'))"

named_theorems returns_intros \<open>rules that a program never throws\<close>

lemma returnsD: "returns m \<Longrightarrow> \<exists>x s'. m s = (Inr x, s')"
  by (simp add: returns_def)

lemma returns_ret [returns_intros]: "returns (ret x)"
  by (simp add: returns_def)

lemma returns_bindp [returns_intros]:
  assumes "returns m" "\<And>x. returns (k x)"
  shows "returns (bindp m k)"
  unfolding returns_def
proof
  fix s
  obtain x s' where "m s = (Inr x, s')" using returnsD [OF assms(1)] by blast
  then show "\<exists>y t. bindp m k s = (Inr y, t)" using returnsD [OF assms(2)] by simp
qed

lemma returns_catch_all [returns_intros]: "(\<And>e. returns (h e)) \<Longrightarrow> returns (catch_all m h)"
  unfolding returns_def catch_all_def by (auto split: prod.split sum.split)

lemma returns_catch_std:
  assumes "\<And>s e s'. m s = (Inl e, s') \<Longrightarrow> is_std_exn e" "\<And>e. returns (h e)"
  shows "returns (catch_std m h)"
  unfolding returns_def
proof
  fix s
  obtain r s' where m: "m s = (r, s')" by fastforce
  show "\<exists>x t. catch_std m h s = (Inr x, t)"
  proof (cases r)
    case (Inl e)
    with assms(1) m have "is_std_exn e" by blast
    with m Inl returnsD [OF assms(2)] show ?thesis by simp
  qed (use m in simp)
qed

lemma returns_on [returns_intros]:
  "returns (on_db f)" "returns (on_cache g)" "returns (on_metrics h)" "returns (on_http i)" "returns clock" "returns (on_engine j)"
  by (auto simp: returns_def on_engine_def on_db_def on_cache_def on_metrics_def on_http_def clock_def Let_def split: prod.split)

lemma returns_if [returns_intros]: "(b \<Longrightarrow> returns m) \<Longrightarrow> (\<not> b \<Longrightarrow> returns n) \<Longrightarrow> returns (if b then m else n)"
  by simp

lemma returns_bool [returns_intros]:
  "returns m \<Longrightarrow> returns n \<Longrightarrow> returns (case b of True \<Rightarrow> m | False \<Rightarrow> n)"
  by (cases b) simp_all

lemma returns_option [returns_intros]:
  "returns m \<Longrightarrow> (\<And>x. returns (k x)) \<Longrightarrow> returns (case v of None \<Rightarrow> m | Some x \<Rightarrow> k x)"
  by (cases v) simp_all

lemma returns_sum [returns_intros]:
  "(\<And>x. returns (h x)) \<Longrightarrow> (\<And>x. returns (k x)) \<Longrightarrow> returns (case v of Inl x \<Rightarrow> h x | Inr x \<Rightarrow> k x)"
  by (cases v) simp_all

lemma returns_Let [returns_intros]: "returns (f x) \<Longrightarrow> returns (Let x f)"
  by (simp add: Let_def)

text \<open>A program whose results have a property.\<close>

definition gives :: "('a \<Rightarrow> bool) \<Rightarrow> ('s, 'a) prog \<Rightarrow> bool" where
  "gives P m \<longleftrightarrow> (\<forall>s x s'. m s = (Inr x, s') \<longrightarrow> P x)"

named_theorems gives_intros \<open>rules for the property of a result\<close>

lemma givesI: "(\<And>s x s'. m s = (Inr x, s') \<Longrightarrow> P x) \<Longrightarrow> gives P m"
  by (simp add: gives_def)

lemma givesD: "gives P m \<Longrightarrow> m s = (Inr x, s') \<Longrightarrow> P x"
  unfolding gives_def by blast

lemma gives_any: "gives (\<lambda>_. True) m"
  by (simp add: gives_def)

lemma gives_ret [gives_intros]: "P x \<Longrightarrow> gives P (ret x)"
  by (simp add: gives_def)

lemma gives_throw [gives_intros]: "gives P (throw e)"
  by (simp add: gives_def)

lemma gives_bindp:
  assumes "gives Q m" "\<And>x. Q x \<Longrightarrow> gives P (k x)"
  shows "gives P (bindp m k)"
proof (rule givesI)
  fix s y t assume b: "bindp m k s = (Inr y, t)"
  obtain r s' where m: "m s = (r, s')" by fastforce
  with b obtain x where x: "r = Inr x" "k x s' = (Inr y, t)" by (cases r) auto
  with m have "Q x" using givesD [OF assms(1)] by simp
  then show "P y" using givesD [OF assms(2)] x(2) by blast
qed

lemma gives_bindp_any: "(\<And>x. gives P (k x)) \<Longrightarrow> gives P (bindp m k)"
  by (rule gives_bindp [OF gives_any])

lemma gives_catch_std: "gives P m \<Longrightarrow> (\<And>e. gives P (h e)) \<Longrightarrow> gives P (catch_std m h)"
  by (auto simp: gives_def catch_std_def split: prod.splits sum.splits if_splits)

lemma gives_catch_all: "gives P m \<Longrightarrow> (\<And>e. gives P (h e)) \<Longrightarrow> gives P (catch_all m h)"
  by (auto simp: gives_def catch_all_def split: prod.splits sum.splits)

lemma gives_if [gives_intros]: "(b \<Longrightarrow> gives P m) \<Longrightarrow> (\<not> b \<Longrightarrow> gives P n) \<Longrightarrow> gives P (if b then m else n)"
  by simp

lemma gives_option [gives_intros]:
  "(v = None \<Longrightarrow> gives P m) \<Longrightarrow> (\<And>x. v = Some x \<Longrightarrow> gives P (k x)) \<Longrightarrow> gives P (case v of None \<Rightarrow> m | Some x \<Rightarrow> k x)"
  by (cases v) simp_all

lemma gives_sum [gives_intros]:
  "(\<And>x. v = Inl x \<Longrightarrow> gives P (h x)) \<Longrightarrow> (\<And>x. v = Inr x \<Longrightarrow> gives P (k x)) \<Longrightarrow>
     gives P (case v of Inl x \<Rightarrow> h x | Inr x \<Rightarrow> k x)"
  by (cases v) simp_all

lemma gives_Let [gives_intros]: "gives P (f x) \<Longrightarrow> gives P (Let x f)"
  by (simp add: Let_def)

end
