(* ===== verification/Request_Id.thy ===== *)
theory Request_Id
  imports Prelude Text
begin

unbundle bit_operations_syntax

text \<open>
  \<open>Backend/src/utils/request_id.cpp\<close>: the trace identifiers that travel in the header
  \<open>X-Request-Id\<close>, and the identifiers that \<open>image_service.cpp\<close> makes for tasks. The random
  source is an argument: the two 64-bit numbers drawn.
\<close>

definition isAllowedChar :: "char \<Rightarrow> bool" where
  "isAllowedChar c \<longleftrightarrow> is_upper c \<or> is_lower c \<or> is_digit c \<or> c = CHR ''.'' \<or> c = CHR ''_'' \<or>
     c = CHR '':'' \<or> c = CHR ''-''"

definition kTraceIdMaxLength :: nat where
  "kTraceIdMaxLength = 128"

definition format_trace_id :: "64 word \<Rightarrow> 64 word \<Rightarrow> string" where
  "format_trace_id hi lo =
     fmt_hex_pad 8 (unat (ucast (drop_bit 32 hi) :: 32 word)) @ ''-'' @
     fmt_hex_pad 4 (unat (ucast (drop_bit 16 hi AND 0xFFFF) :: 32 word)) @ ''-'' @
     fmt_hex_pad 4 (unat (ucast (hi AND 0xFFFF) :: 32 word)) @ ''-'' @
     fmt_hex_pad 4 (unat (ucast (drop_bit 48 lo) :: 32 word)) @ ''-'' @
     fmt_hex_pad 12 (unat (lo AND 0xFFFFFFFFFFFF))"

definition generateRequestId :: "64 word \<Rightarrow> 64 word \<Rightarrow> string" where
  "generateRequestId hi lo =
     format_trace_id ((hi AND 0xFFFFFFFFFFFF0FFF) OR 0x0000000000004000)
       ((lo AND 0x3FFFFFFFFFFFFFFF) OR 0x8000000000000000)"

text \<open>The ends are cut while the byte is at most a blank.\<close>

definition is_blank_byte :: "char \<Rightarrow> bool" where
  "is_blank_byte c \<longleftrightarrow> cbyte c \<le> 32"

definition sanitizeRequestId :: "string \<Rightarrow> string" where
  "sanitizeRequestId raw =
     (let trimmed = rev (dropWhile is_blank_byte (rev (dropWhile is_blank_byte raw)))
      in if trimmed = [] \<or> length trimmed > kTraceIdMaxLength then []
         else if list_all isAllowedChar trimmed then trimmed else [])"

section \<open>Facts\<close>

lemma hex_char_alnum: "d < 16 \<Longrightarrow> is_alnum (hex_char d)"
  by (simp add: hex_char_def is_alnum_def is_digit_def is_lower_def cbyte_char_of)

lemma fmt_hex_alnum: "c \<in> set (fmt_hex n) \<Longrightarrow> is_alnum c"
proof (induction n rule: fmt_hex.induct)
  case (1 n)
  then show ?case
    by (cases "n < 16") (auto simp: fmt_hex.simps [of n] intro: hex_char_alnum)
qed

lemma fmt_hex_allowed: "c \<in> set (fmt_hex n) \<Longrightarrow> isAllowedChar c"
  using fmt_hex_alnum [of c n] by (auto simp: is_alnum_def isAllowedChar_def)

lemma fmt_hex_pad_allowed: "c \<in> set (fmt_hex_pad w n) \<Longrightarrow> isAllowedChar c"
  by (auto simp: fmt_hex_pad_def isAllowedChar_def is_digit_def cbyte_def dest: fmt_hex_allowed)

lemma fmt_hex_length: "n < 16 ^ Suc w \<Longrightarrow> length (fmt_hex n) \<le> Suc w"
proof (induction w arbitrary: n)
  case 0
  then show ?case by (simp add: fmt_hex.simps)
next
  case (Suc w)
  show ?case
  proof (cases "n < 16")
    case False
    have "n div 16 < 16 ^ Suc w" using Suc.prems by (simp add: less_mult_imp_div_less mult.commute)
    with Suc.IH False show ?thesis by (simp add: fmt_hex.simps [of n])
  qed (simp add: fmt_hex.simps)
qed

lemma fmt_hex_pad_length: "0 < w \<Longrightarrow> n < 16 ^ w \<Longrightarrow> length (fmt_hex_pad w n) = w"
  using fmt_hex_length [of n "w - 1"] by (simp add: fmt_hex_pad_def)

lemma isAllowedChar_not_blank: "isAllowedChar c \<Longrightarrow> \<not> is_blank_byte c"
  by (auto simp: isAllowedChar_def is_blank_byte_def is_upper_def is_lower_def is_digit_def cbyte_def)

lemma strip_none: "\<forall>c\<in>set s. \<not> is_blank_byte c \<Longrightarrow> rev (dropWhile is_blank_byte (rev (dropWhile is_blank_byte s))) = s"
proof -
  assume a: "\<forall>c\<in>set s. \<not> is_blank_byte c"
  then have "dropWhile is_blank_byte s = s" "dropWhile is_blank_byte (rev s) = rev s"
    by (auto simp: dropWhile_eq_self_iff hd_rev dest: hd_in_set last_in_set)
  then show ?thesis by simp
qed

lemma sanitize_id: "s \<noteq> [] \<Longrightarrow> length s \<le> 128 \<Longrightarrow> \<forall>c\<in>set s. isAllowedChar c \<Longrightarrow> sanitizeRequestId s = s"
  using isAllowedChar_not_blank strip_none [of s]
  by (auto simp: sanitizeRequestId_def Let_def kTraceIdMaxLength_def list_all_iff)

lemma sanitize_result: "sanitizeRequestId s \<noteq> [] \<Longrightarrow>
    length (sanitizeRequestId s) \<le> 128 \<and> (\<forall>c\<in>set (sanitizeRequestId s). isAllowedChar c)"
  by (auto simp: sanitizeRequestId_def Let_def kTraceIdMaxLength_def list_all_iff split: if_splits)

lemma unat_bounds:
  "unat (ucast (x AND 0xFFFF :: 64 word) :: 32 word) < 16 ^ 4"
  "unat (y :: 32 word) < 16 ^ 8"
  "unat (ucast (drop_bit 48 x) :: 32 word) < 16 ^ 4"
  "unat (x AND 0xFFFFFFFFFFFF :: 64 word) < 16 ^ 12"
proof -
  have a: "x AND 0xFFFF = take_bit 16 x" by (simp add: take_bit_eq_mask mask_eq_exp_minus_1)
  show "unat (ucast (x AND 0xFFFF :: 64 word) :: 32 word) < 16 ^ 4"
    unfolding a by transfer (simp add: take_bit_take_bit nat_take_bit_eq take_bit_eq_mod)
  show "unat (y :: 32 word) < 16 ^ 8" using unsigned_less [of y, where 'a = nat] by simp
  show "unat (ucast (drop_bit 48 x) :: 32 word) < 16 ^ 4"
  proof -
    have "unat (drop_bit 48 x) = unat x div 2 ^ 48" 
      unfolding unat_drop_bit_eq by (rule drop_bit_eq_div)
    also have "\<dots> < 2 ^ 16"
      using unsigned_less [of x, where 'a = nat] by (simp add: less_mult_imp_div_less)
    finally have "unat (drop_bit 48 x) < 2 ^ 16" .
    moreover have "unat (ucast (drop_bit 48 x) :: 32 word) \<le> unat (drop_bit 48 x)"
      by (simp add: unsigned_ucast_eq take_bit_eq_mod)
    ultimately show ?thesis by simp
  qed
  have b: "x AND 0xFFFFFFFFFFFF = take_bit 48 x" by (simp add: take_bit_eq_mask mask_eq_exp_minus_1)
  show "unat (x AND 0xFFFFFFFFFFFF :: 64 word) < 16 ^ 12"
    unfolding b by transfer (simp add: take_bit_take_bit nat_take_bit_eq take_bit_eq_mod)
qed

lemma format_length: "length (format_trace_id hi lo) = 36"
proof -
  have "length (fmt_hex_pad 8 (unat (ucast (drop_bit 32 hi) :: 32 word))) = 8"
    "length (fmt_hex_pad 4 (unat (ucast (drop_bit 16 hi AND 0xFFFF) :: 32 word))) = 4"
    "length (fmt_hex_pad 4 (unat (ucast (hi AND 0xFFFF) :: 32 word))) = 4"
    "length (fmt_hex_pad 4 (unat (ucast (drop_bit 48 lo) :: 32 word))) = 4"
    "length (fmt_hex_pad 12 (unat (lo AND 0xFFFFFFFFFFFF))) = 12"
    by (rule fmt_hex_pad_length, simp, rule unat_bounds)+
  then show ?thesis unfolding format_trace_id_def by (simp only: length_append list.size)
qed

lemma format_allowed: "\<forall>c\<in>set (format_trace_id hi lo). isAllowedChar c"
proof -
  have "isAllowedChar (CHR ''-'')" by (simp add: isAllowedChar_def)
  moreover have "\<And>c w n. c \<in> set (fmt_hex_pad w n) \<Longrightarrow> isAllowedChar c" by (rule fmt_hex_pad_allowed)
  ultimately show ?thesis unfolding format_trace_id_def set_append by (metis UnE empty_iff insertE list.set)
qed

section \<open>Properties\<close>

text \<open>
  An identifier that passed \<open>sanitizeRequestId\<close> has at most 128
  characters, each a letter, a digit or one of four punctuation marks (so none ends a header line
  or a log line), and passing it again changes nothing; an identifier that \<open>generateRequestId\<close>
  makes from any two random numbers has 36 characters and passes unchanged.
\<close>

theorem request_ids_are_safe:
  "length (sanitizeRequestId s) \<le> 128 \<and> list_all isAllowedChar (sanitizeRequestId s) \<and>
   sanitizeRequestId (sanitizeRequestId s) = sanitizeRequestId s \<and>
   length (generateRequestId hi lo) = 36 \<and>
   sanitizeRequestId (generateRequestId hi lo) = generateRequestId hi lo"
proof -
  have "length (sanitizeRequestId s) \<le> 128 \<and> (\<forall>c\<in>set (sanitizeRequestId s). isAllowedChar c)"
    using sanitize_result [of s] by (cases "sanitizeRequestId s = []") auto
  moreover have "sanitizeRequestId [] = []" by (simp add: sanitizeRequestId_def)
  ultimately have s: "length (sanitizeRequestId s) \<le> 128 \<and> list_all isAllowedChar (sanitizeRequestId s) \<and>
      sanitizeRequestId (sanitizeRequestId s) = sanitizeRequestId s"
    using sanitize_id [of "sanitizeRequestId s"] by (cases "sanitizeRequestId s = []") (auto simp: list_all_iff)
  have l: "length (generateRequestId hi lo) = 36"
    unfolding generateRequestId_def by (rule format_length)
  have "\<forall>c\<in>set (generateRequestId hi lo). isAllowedChar c"
    unfolding generateRequestId_def by (rule format_allowed)
  with l have "sanitizeRequestId (generateRequestId hi lo) = generateRequestId hi lo"
    by (intro sanitize_id) auto
  with s l show ?thesis by simp
qed

end
