(* ===== verification/Health_Gate.thy ===== *)
theory Health_Gate
  imports Image_Model
begin

text \<open>
  \<open>Backend/src/services/model_health_gate.cpp\<close>: whether a claimed task goes on, goes back to the
  queue or fails, given what the model service reports.
\<close>

record health_result =
  hl_status :: string
  hl_model_loaded :: bool
  hl_active_kind :: string
  hl_active_generations :: int
  hl_max_concurrent_generations :: int
  hl_detail :: string

definition default_health :: health_result where
  "default_health = \<lparr>hl_status = ''unhealthy'', hl_model_loaded = False, hl_active_kind = ''none'',
     hl_active_generations = 0, hl_max_concurrent_generations = 0, hl_detail = []\<rparr>"

datatype gate_action = Proceed | Defer | Fail

record gate_decision =
  gd_action :: gate_action
  gd_backoff :: int
  gd_failure_code :: string
  gd_message :: string

definition proceed_decision :: gate_decision where
  "proceed_decision = \<lparr>gd_action = Proceed, gd_backoff = 0, gd_failure_code = [], gd_message = []\<rparr>"

definition kMaxModelHealthAttempts :: int where "kMaxModelHealthAttempts = 10"
definition kUnhealthyBackoff :: int where "kUnhealthyBackoff = 5"
definition kLoadingBackoff :: int where "kLoadingBackoff = 30"

definition hasExceededAttemptBudget :: "int \<Rightarrow> bool" where
  "hasExceededAttemptBudget retryCount \<longleftrightarrow> retryCount \<ge> kMaxModelHealthAttempts - 1"

definition healthMessage :: "health_result \<Rightarrow> string \<Rightarrow> string" where
  "healthMessage health reason =
     (if hl_detail health \<noteq> [] then reason @ '': '' @ hl_detail health else reason)"

definition deferOrFail :: "health_result \<Rightarrow> int \<Rightarrow> int \<Rightarrow> string \<Rightarrow> gate_decision" where
  "deferOrFail health retryCount backoff reason =
     (if hasExceededAttemptBudget retryCount then
        \<lparr>gd_action = Fail, gd_backoff = 0, gd_failure_code = kModelServiceUnavailable,
         gd_message = healthMessage health ''model service unavailable''\<rparr>
      else \<lparr>gd_action = Defer, gd_backoff = backoff, gd_failure_code = kModelServiceUnavailable,
         gd_message = healthMessage health reason\<rparr>)"

definition busyGenerationConflicts :: "health_result \<Rightarrow> bool" where
  "busyGenerationConflicts health =
     (let activeKind = lower (hl_active_kind health) in
      if activeKind = [] \<or> activeKind = ''none'' then False
      else if \<not> (hl_max_concurrent_generations health > 0) then True
      else hl_active_generations health \<ge> hl_max_concurrent_generations health)"

definition decideForGenerate :: "health_result \<Rightarrow> int \<Rightarrow> gate_decision" where
  "decideForGenerate health retryCount =
     (let status = lower (hl_status health) in
      if status = ''healthy'' \<or> status = ''ok'' \<or> status = ''success'' then proceed_decision
      else if status = ''loading'' then
        deferOrFail health retryCount kLoadingBackoff ''model service is loading''
      else if status = ''busy'' then
        (if \<not> busyGenerationConflicts health then proceed_decision
         else deferOrFail health retryCount kUnhealthyBackoff ''model service is busy'')
      else deferOrFail health retryCount kUnhealthyBackoff ''model service is unhealthy'')"

section \<open>Facts\<close>

text \<open>What the gate calls a service that can take the task.\<close>

definition can_generate :: "health_result \<Rightarrow> bool" where
  "can_generate h \<longleftrightarrow> lower (hl_status h) \<in> {''healthy'', ''ok'', ''success''} \<or>
     lower (hl_status h) = ''busy'' \<and> \<not> busyGenerationConflicts h"

lemma decide_action:
  "gd_action (decideForGenerate h n) =
     (if can_generate h then Proceed else if n \<ge> 9 then Fail else Defer)"
  by (auto simp: decideForGenerate_def can_generate_def Let_def proceed_decision_def deferOrFail_def
      hasExceededAttemptBudget_def kMaxModelHealthAttempts_def)

lemma decide_fields:
  "gd_failure_code (decideForGenerate h n) = (if can_generate h then [] else kModelServiceUnavailable)"
  "gd_action (decideForGenerate h n) = Defer \<Longrightarrow> gd_backoff (decideForGenerate h n) \<in> {5, 30}"
  "gd_action (decideForGenerate h n) \<noteq> Defer \<Longrightarrow> gd_backoff (decideForGenerate h n) = 0"
  by (auto simp: decideForGenerate_def can_generate_def Let_def proceed_decision_def deferOrFail_def
      kUnhealthyBackoff_def kLoadingBackoff_def split: if_splits)

text \<open>A task that the gate sees again and again, with one retry counted per deferral: the number
  of deferrals before it goes on or fails.\<close>

fun deferrals :: "health_result list \<Rightarrow> int \<Rightarrow> nat \<times> gate_action" where
  "deferrals [] n = (0, Defer)"
| "deferrals (h # hs) n = (case gd_action (decideForGenerate h n) of
      Defer \<Rightarrow> (Suc (fst (deferrals hs (n + 1))), snd (deferrals hs (n + 1)))
    | a \<Rightarrow> (0, a))"

lemma deferrals_bound: "0 \<le> n \<Longrightarrow> n + int (fst (deferrals hs n)) \<le> max n 9"
proof (induction hs arbitrary: n)
  case (Cons h hs)
  show ?case using Cons.IH [of "n + 1"] Cons.prems
    by (cases "can_generate h"; cases "n \<ge> 9") (simp_all add: decide_action)
qed simp

lemma deferrals_decided: "0 \<le> n \<Longrightarrow> 10 - n \<le> int (length hs) \<Longrightarrow> hs \<noteq> [] \<Longrightarrow> snd (deferrals hs n) \<noteq> Defer"
proof (induction hs arbitrary: n)
  case (Cons h hs)
  show ?case
  proof (cases "gd_action (decideForGenerate h n)")
    case Defer
    then have "n < 9" by (simp add: decide_action split: if_splits)
    then have "hs \<noteq> []" "10 - (n + 1) \<le> int (length hs)" using Cons.prems by auto
    then show ?thesis using Cons.IH [of "n + 1"] Cons.prems Defer by simp
  qed simp_all
qed simp

section \<open>Properties\<close>

text \<open>
  The gate lets a task go on exactly when the service reports itself
  healthy, or busy without the capacity used up, in any letter case; otherwise it defers a task that
  has been retried fewer than nine times and fails it at nine. A task seen again and again is
  therefore decided, to go on or to fail, after at most nine deferrals, whatever the service
  reports.
\<close>

theorem gate_bounds_deferrals:
  assumes "0 \<le> n" "10 \<le> length hs"
  shows "gd_action (decideForGenerate h n) = (if can_generate h then Proceed else if n \<ge> 9 then Fail else Defer) \<and>
     fst (deferrals hs n) \<le> 9 \<and> snd (deferrals hs n) \<noteq> Defer"
proof -
  have "hs \<noteq> []" using assms(2) by auto
  moreover have "fst (deferrals hs n) \<le> 9"
    using deferrals_bound [OF assms(1), of hs] assms(1) by linarith
  ultimately show ?thesis using decide_action deferrals_decided [OF assms(1), of hs] assms by auto
qed

theorem gate_bounds_deferrals_witness:
  "snd (deferrals (replicate 10 default_health) 0) = Fail \<and>
   fst (deferrals (replicate 10 (default_health\<lparr>hl_status := ''loading''\<rparr>)) 0) \<le> 9"
proof -
  have l: "length (replicate 10 default_health) = 10"
    "length (replicate 10 (default_health\<lparr>hl_status := ''loading''\<rparr>)) = 10" by simp_all
  have "\<not> can_generate default_health" by (simp add: can_generate_def default_health_def lower_def to_lower_def is_upper_def cbyte_def)
  then have "snd (deferrals (replicate k default_health) n) \<noteq> Proceed" for k n
    by (induction k arbitrary: n) (auto simp: decide_action)
  then have "snd (deferrals (replicate 10 default_health) 0) \<noteq> Proceed" .
  moreover have "snd (deferrals (replicate 10 default_health) 0) \<noteq> Defer"
    using gate_bounds_deferrals [of 0 "replicate 10 default_health" default_health] l by simp
  ultimately have "snd (deferrals (replicate 10 default_health) 0) = Fail"
    by (cases "snd (deferrals (replicate 10 default_health) 0)") simp_all
  with gate_bounds_deferrals [of 0 "replicate 10 (default_health\<lparr>hl_status := ''loading''\<rparr>)" default_health] l
  show ?thesis by simp
qed

end
