(* ===== verification/Generation_Client.thy ===== *)
theory Generation_Client
  imports World Request_Id Health_Gate
begin

text \<open>
  \<open>Backend/src/services/generation_client.cpp\<close>: one generation call of the model service, from
  the request to the stored image, and the health check. Local variables that a \<open>try\<close> block
  assigns keep what was assigned before an exception, as in the code.
\<close>

definition service_code :: "http_result \<Rightarrow> string" where
  "service_code raw = (if hr_failure raw \<noteq> None then ''error'' else fmt_int (hr_status_code raw))"

text \<open>The duration of a call in seconds.\<close>

definition seconds_between :: "time_point \<Rightarrow> time_point \<Rightarrow> real" where
  "seconds_between a b = of_int (b - a) / of_int ns"

definition timed_http :: "string \<Rightarrow> (http_env \<Rightarrow> http_result \<times> http_env) \<Rightarrow> ('c world, http_result) prog" where
  "timed_http endpoint call =
     bindp clock (\<lambda>startedAt.
     bindp (on_http call) (\<lambda>raw.
     bindp clock (\<lambda>now.
     bindp (on_metrics (observeModelServiceCall endpoint (service_code raw) (seconds_between startedAt now)))
       (\<lambda>_. ret raw))))"

definition downloadImageBytes :: "string \<Rightarrow> int \<Rightarrow> ('c world, string) prog" where
  "downloadImageBytes url timeoutSeconds =
     bindp (timed_http ''/temp'' (http_get url timeoutSeconds [] True)) (\<lambda>raw.
       case toExpectedBody raw of Inl e \<Rightarrow> ret [] | Inr body \<Rightarrow> ret body)"

definition getStringField :: "json \<Rightarrow> string \<Rightarrow> string option" where
  "getStringField j key = (case jfind j key of Some (JStr s) \<Rightarrow> Some s | _ \<Rightarrow> None)"

definition is_http_url :: "string \<Rightarrow> bool" where
  "is_http_url u \<longleftrightarrow> starts_with u ''http://'' \<or> starts_with u ''https://''"

definition remote_payload :: "json \<Rightarrow> json" where
  "remote_payload j = (case jfind j ''data'' of Some d \<Rightarrow> if is_object d then d else j | None \<Rightarrow> j)"

definition merged_status :: "json \<Rightarrow> image_generation \<Rightarrow> task_status \<Rightarrow> task_status" where
  "merged_status payload remote current =
     (case getStringField payload ''status'' of
        Some raw \<Rightarrow> if normalizeTaskStatus raw \<noteq> Unknown then normalizeTaskStatus raw else current
      | None \<Rightarrow> if img_status remote \<noteq> Unknown then img_status remote else current)"

definition mergeRemoteResult :: "json \<Rightarrow> image_generation \<Rightarrow> image_generation" where
  "mergeRemoteResult remoteJson g0 =
     (let payload = remote_payload remoteJson;
          remote = fromJson payload;
          g1 = (if img_request_id remote \<noteq> [] then g0\<lparr>img_request_id := img_request_id remote\<rparr> else g0);
          g2 = g1\<lparr>img_status := merged_status payload remote (img_status g1)\<rparr>;
          g3 = (if img_image_url remote \<noteq> [] then g2\<lparr>img_image_url := img_image_url remote\<rparr> else g2);
          g4 = (if img_error_message remote \<noteq> [] then g3\<lparr>img_error_message := img_error_message remote\<rparr> else g3);
          g5 = (if img_generation_time remote > 0 then g4\<lparr>img_generation_time := img_generation_time remote\<rparr> else g4);
          g6 = (if img_image_url g5 = [] then
                  g5\<lparr>img_image_url := (case getStringField payload ''image_url'' of Some u \<Rightarrow> u
                     | None \<Rightarrow> (case getStringField payload ''url'' of Some u \<Rightarrow> u | None \<Rightarrow> []))\<rparr>
                else g5)
      in if img_image_url g6 = [] then
           (case getStringField payload ''image'' of
              Some im \<Rightarrow> if is_http_url im then g6\<lparr>img_image_url := im\<rparr> else g6
            | None \<Rightarrow> g6)
         else g6)"

definition persistGeneratedImage :: "storage_env \<Rightarrow> image_generation \<Rightarrow> ('c world, image_generation) prog" where
  "persistGeneratedImage se g =
     (if img_status g \<noteq> Success then ret g
      else if img_image_bytes g = [] then
        bindp clock (\<lambda>now. ret (g\<lparr>img_status := Failed, img_failure_code := kMissingImagePayload,
          img_error_message := ''generation succeeded but image binary is missing'', img_completed_at := Some now\<rparr>))
      else catch_std
        (bindp (on_objects (storage_store se (img_user_id g) (img_request_id g) (img_image_bytes g) ''image/png'')) (\<lambda>key.
           ret (g\<lparr>img_storage_key := key, img_image_url := ''/api/images/'' @ fmt_int (img_id g) @ ''/binary'',
                  img_image_bytes := []\<rparr>)))
        (\<lambda>ex. bindp clock (\<lambda>now. ret (g\<lparr>img_status := Failed, img_failure_code := kStorageWriteFailed,
           img_error_message := ''generation succeeded but failed to store image: '' @ what ex,
           img_completed_at := Some now, img_storage_key := [], img_image_bytes := [], img_image_url := []\<rparr>))))"

definition markHttpRequestFailed :: "image_generation \<Rightarrow> service_error \<Rightarrow> image_generation" where
  "markHttpRequestFailed g e = g\<lparr>img_status := Failed, img_failure_code := kPythonServiceRequestFailed,
     img_error_message := se_message e\<rparr>"

section \<open>The generation call\<close>

text \<open>\<open>config.at(key)\<close> throws when the member is missing.\<close>

definition jat :: "json \<Rightarrow> string \<Rightarrow> exn + json" where
  "jat j k = (case jfind j k of Some v \<Rightarrow> Inr v | None \<Rightarrow> Inl (StdExn ''out_of_range''))"

text \<open>The address and time-out, and the exception that ended the reading, if any.\<close>

definition service_settings :: "exn + json \<Rightarrow> string \<times> int \<times> exn option" where
  "service_settings config =
     (case bindr config (\<lambda>j. bindr (jat j ''python_service'') (\<lambda>sc. bindr (jat sc ''url'') (\<lambda>u.
         bindr (as_string u) (\<lambda>url. Inr (sc, url))))) of
        Inl e \<Rightarrow> ([], 900, Some e)
      | Inr (sc, url) \<Rightarrow> (case jvalue as_int32 sc ''timeout_seconds'' 900 of
            Inl e \<Rightarrow> (url, 900, Some e) | Inr t \<Rightarrow> (url, t, None)))"

definition model_payload :: "image_generation \<Rightarrow> json" where
  "model_payload g = JObj ([(''prompt'', JStr (img_prompt g)), (''negative_prompt'', JStr (img_negative_prompt g)),
     (''num_steps'', JInt (img_num_steps g)), (''height'', JInt (img_height g)),
     (''width'', JInt (img_width g)), (''request_id'', JStr (img_request_id g))]
     @ (case img_seed g of Some n \<Rightarrow> [(''seed'', JInt n)] | None \<Rightarrow> []))"

definition trace_headers :: "image_generation \<Rightarrow> string list" where
  "trace_headers g = (let traceId = sanitizeRequestId (img_request_id g)
     in if traceId = [] then [] else [''X-Request-Id: '' @ traceId])"

definition request_generation :: "('c, 'x) externals_scheme \<Rightarrow> string \<Rightarrow> int \<Rightarrow> image_generation \<Rightarrow>
    ('c world, image_generation) prog" where
  "request_generation x serviceUrl timeoutSeconds g =
     bindp (lift_sum (x_dump x (model_payload g))) (\<lambda>body.
     bindp (timed_http ''/generate'' (postJson (serviceUrl @ ''/generate'') timeoutSeconds body (trace_headers g))) (\<lambda>raw.
       case toExpectedBody raw of
         Inl e \<Rightarrow> ret (markHttpRequestFailed g (mapHttpError e))
       | Inr response \<Rightarrow>
           if response = [] then
             ret (g\<lparr>img_status := Failed, img_failure_code := kPythonServiceEmptyResponse,
                    img_error_message := ''python service returned empty response''\<rparr>)
           else (case x_parse x response of
               Inr remoteJson \<Rightarrow> ret (mergeRemoteResult remoteJson g)
             | Inl _ \<Rightarrow> ret (g\<lparr>img_status := Failed, img_failure_code := kPythonServiceInvalidJson,
                    img_error_message := ''python service returned invalid json''\<rparr>))))"

definition python_exception :: "image_generation \<Rightarrow> exn \<Rightarrow> image_generation" where
  "python_exception g ex =
     (if is_std_exn ex then g\<lparr>img_status := Failed, img_failure_code := kPythonServiceException,
        img_error_message := ''python service exception: '' @ what ex\<rparr>
      else g\<lparr>img_status := Failed, img_failure_code := kPythonServiceUnknownException,
        img_error_message := ''python service unknown exception''\<rparr>)"

definition fetch_image :: "string \<Rightarrow> int \<Rightarrow> image_generation \<Rightarrow> ('c world, image_generation) prog" where
  "fetch_image serviceUrl timeoutSeconds g =
     (if img_image_url g = [] then ret g
      else let url = (if \<not> is_http_url (img_image_url g) \<and> serviceUrl \<noteq> [] \<and> starts_with (img_image_url g) ''/''
             then serviceUrl @ img_image_url g else img_image_url g)
        in bindp (downloadImageBytes url timeoutSeconds) (\<lambda>bytes.
             ret (g\<lparr>img_image_url := url, img_image_bytes := bytes\<rparr>)))"

definition settle_status :: "image_generation \<Rightarrow> image_generation" where
  "settle_status g =
     (let g1 = (if img_image_bytes g \<noteq> [] \<and> img_status g \<noteq> Failed
                then g\<lparr>img_status := Success, img_failure_code := [], img_error_message := []\<rparr> else g)
      in if img_status g1 \<in> {Unknown, Pending, Queued, Generating} then
           g1\<lparr>img_status := Failed, img_failure_code := kMissingImagePayload,
              img_error_message := (if img_error_message g1 = [] then ''model result did not include image data''
                                    else img_error_message g1)\<rparr>
         else g1)"

definition generate :: "('c, 'x) externals_scheme \<Rightarrow> image_generation \<Rightarrow> ('c world, image_generation) prog" where
  "generate x g =
     (case service_settings (x_config x) of (serviceUrl, timeoutSeconds, failure) \<Rightarrow>
      bindp (catch_all
          (case failure of Some e \<Rightarrow> throw e | None \<Rightarrow> request_generation x serviceUrl timeoutSeconds g)
          (\<lambda>ex. ret (python_exception g ex))) (\<lambda>g1.
      bindp (fetch_image serviceUrl timeoutSeconds g1) (\<lambda>g2.
      let g3 = settle_status g2 in
      bindp (if isTerminal (img_status g3) then bindp clock (\<lambda>now. ret (g3\<lparr>img_completed_at := Some now\<rparr>)) else ret g3)
        (persistGeneratedImage (x_storage x)))))"

definition cleanupOrphanedStoredImage :: "storage_env \<Rightarrow> image_generation \<Rightarrow> ('c world, unit) prog" where
  "cleanupOrphanedStoredImage se g =
     (if img_storage_key g = [] then ret ()
      else catch_all (bindp (on_objects (storage_remove se (img_storage_key g))) (\<lambda>_. ret ())) (\<lambda>_. ret ()))"

section \<open>The health check\<close>

definition unhealthy :: "string \<Rightarrow> health_result \<Rightarrow> health_result" where
  "unhealthy detail r = r\<lparr>hl_status := ''unhealthy'', hl_detail := detail\<rparr>"

text \<open>The members are read in turn; one of a wrong type ends the reading.\<close>

definition health_of_json :: "json \<Rightarrow> health_result" where
  "health_of_json j =
     (case jvalue as_string j ''status'' [] of
        Inl e \<Rightarrow> unhealthy (what e) default_health
      | Inr st \<Rightarrow> (let remoteStatus = lower st in case jvalue as_bool j ''model_loaded'' False of
        Inl e \<Rightarrow> unhealthy (what e) default_health
      | Inr ml \<Rightarrow> (let r1 = default_health\<lparr>hl_model_loaded := ml\<rparr> in case jvalue as_string j ''active_kind'' ''none'' of
        Inl e \<Rightarrow> unhealthy (what e) r1
      | Inr ak \<Rightarrow> (let r2 = r1\<lparr>hl_active_kind := (if lower ak = [] then ''none'' else lower ak)\<rparr> in
          case jvalue as_int32 j ''active_generations'' 0 of
        Inl e \<Rightarrow> unhealthy (what e) r2
      | Inr ag \<Rightarrow> (let r3 = r2\<lparr>hl_active_generations := max 0 ag\<rparr> in case jvalue as_int32 j ''max_concurrent_generations'' 0 of
        Inl e \<Rightarrow> unhealthy (what e) r3
      | Inr mg \<Rightarrow> r3\<lparr>hl_max_concurrent_generations := max 0 mg,
          hl_status := (if remoteStatus \<in> {''healthy'', ''ok'', ''success''} then ''healthy''
                        else if remoteStatus \<in> {''busy'', ''loading'', ''unhealthy''} then remoteStatus
                        else if ml then ''healthy'' else ''unhealthy''),
          hl_detail := remoteStatus\<rparr>)))))"

definition health_settings :: "exn + json \<Rightarrow> exn + string \<times> int" where
  "health_settings config =
     bindr config (\<lambda>j. bindr (jat j ''python_service'') (\<lambda>sc. bindr (jat sc ''url'') (\<lambda>u. bindr (as_string u) (\<lambda>url.
       bindr (jvalue as_int32 sc ''timeout_seconds'' 30) (\<lambda>t. Inr (url, min (if t \<le> 0 then 5 else t) 10))))))"

definition checkHealth :: "('c, 'x) externals_scheme \<Rightarrow> ('c world, health_result) prog" where
  "checkHealth x = catch_std
     (bindp (lift_sum (health_settings (x_config x))) (\<lambda>(serviceUrl, timeoutSeconds).
      bindp (timed_http ''/health'' (http_get (serviceUrl @ ''/health'') timeoutSeconds [] False)) (\<lambda>raw.
        case toExpectedBody raw of
          Inl e \<Rightarrow> ret (unhealthy (se_message (mapHttpError e)) default_health)
        | Inr response \<Rightarrow> if response = [] then ret (unhealthy ''empty response body'' default_health)
            else (case x_parse x response of
                Inl _ \<Rightarrow> ret (unhealthy ''invalid json response'' default_health)
              | Inr j \<Rightarrow> ret (health_of_json j)))))
     (\<lambda>ex. ret (unhealthy (what ex) default_health))"

section \<open>Facts\<close>

lemma returns_timed_http [returns_intros]: "returns (timed_http ep call)"
  unfolding timed_http_def by (intro returns_intros)

lemma leaves_timed_http [leaves_intros]:
  "leaves w_db (timed_http ep call)" "leaves w_redis (timed_http ep call)" "leaves w_cache (timed_http ep call)"
  "leaves w_hub (timed_http ep call)" "leaves w_objects (timed_http ep call)" "leaves w_engine (timed_http ep call)"
  unfolding timed_http_def by (intro leaves_intros)+

lemma returns_download [returns_intros]: "returns (downloadImageBytes u t)"
  unfolding downloadImageBytes_def by (intro returns_intros)

lemma leaves_download [leaves_intros]:
  "leaves w_db (downloadImageBytes u t)" "leaves w_redis (downloadImageBytes u t)" "leaves w_cache (downloadImageBytes u t)"
  "leaves w_hub (downloadImageBytes u t)" "leaves w_objects (downloadImageBytes u t)" "leaves w_engine (downloadImageBytes u t)"
  unfolding downloadImageBytes_def by (intro leaves_intros)+

lemma returns_fetch [returns_intros]: "returns (fetch_image s t g)"
  unfolding fetch_image_def by (intro returns_intros)

text \<open>The storage throws only what \<open>catch (const std::exception&)\<close> catches.\<close>

lemma minioClient_exn: "minioClient e = Inl ex \<Longrightarrow> is_std_exn ex"
  by (auto simp: minioClient_def minio_new_def buildBaseUrl_def buildProvider_def Let_def bindr_def
      split: if_splits option.splits sum.splits)

lemma storage_store_exn: "storage_store se u r d ct s = (Inl ex, s') \<Longrightarrow> is_std_exn ex"
  by (auto simp: storage_store_def Let_def dest: minioClient_exn split: if_splits sum.splits prod.splits)

lemma store_step_exn:
  "bindp (on_objects (storage_store se u r d ct)) (\<lambda>key. ret (f key)) w = (Inl ex, w') \<Longrightarrow> is_std_exn ex"
  by (auto simp: bindp_def on_objects_def split: prod.splits sum.splits dest: storage_store_exn)

lemma returns_persist [returns_intros]: "returns (persistGeneratedImage se g)"
  unfolding persistGeneratedImage_def
  by (intro returns_intros returns_catch_std) (erule store_step_exn)

lemma returns_generate: "returns (generate x g)"
  unfolding generate_def by (auto intro!: returns_intros split: prod.split)

text \<open>The parts of a task record that a generation never changes.\<close>

definition same_task :: "image_generation \<Rightarrow> image_generation \<Rightarrow> bool" where
  "same_task g g' \<longleftrightarrow> img_id g' = img_id g \<and> img_user_id g' = img_user_id g \<and>
     img_worker_id g' = img_worker_id g \<and> img_retry_count g' = img_retry_count g \<and>
     img_max_retries g' = img_max_retries g \<and> img_prompt g' = img_prompt g"

lemma same_task_refl [simp]: "same_task g g"
  by (simp add: same_task_def)

lemma same_task_trans: "same_task a b \<Longrightarrow> same_task b c \<Longrightarrow> same_task a c"
  by (simp add: same_task_def)

lemma same_task_upd [simp]:
  "same_task g (g'\<lparr>img_status := a1\<rparr>) = same_task g g'" "same_task g (g'\<lparr>img_failure_code := a2\<rparr>) = same_task g g'"
  "same_task g (g'\<lparr>img_error_message := a3\<rparr>) = same_task g g'" "same_task g (g'\<lparr>img_image_url := a4\<rparr>) = same_task g g'"
  "same_task g (g'\<lparr>img_image_bytes := a5\<rparr>) = same_task g g'" "same_task g (g'\<lparr>img_completed_at := a6\<rparr>) = same_task g g'"
  "same_task g (g'\<lparr>img_storage_key := a7\<rparr>) = same_task g g'" "same_task g (g'\<lparr>img_request_id := a8\<rparr>) = same_task g g'"
  "same_task g (g'\<lparr>img_generation_time := a9\<rparr>) = same_task g g'"
  by (simp_all add: same_task_def)

lemma same_task_merge [simp]: "same_task g (mergeRemoteResult j g)"
  by (simp add: mergeRemoteResult_def Let_def split: option.split)

lemma same_task_failed [simp]:
  "same_task g (markHttpRequestFailed g e)" "same_task g (python_exception g ex)" "same_task g (settle_status g') = same_task g g'"
  by (simp_all add: markHttpRequestFailed_def python_exception_def settle_status_def Let_def)

lemma gives_request: "gives (same_task g) (request_generation x u t g)"
  unfolding request_generation_def by (intro gives_bindp_any gives_intros) simp_all

lemma gives_call:
  "gives (same_task g) (catch_all (case failure of Some e \<Rightarrow> throw e | None \<Rightarrow> request_generation x u t g)
     (\<lambda>ex. ret (python_exception g ex)))"
  by (intro gives_catch_all gives_intros gives_request) simp

lemma gives_fetch: "gives (same_task g) (fetch_image u t g)"
  unfolding fetch_image_def by (intro gives_bindp_any gives_intros) simp_all

lemma settle_status_cases:
  "isTerminal (img_status (settle_status g))"
  "img_status (settle_status g) = Success \<Longrightarrow> img_image_bytes (settle_status g) \<noteq> [] \<Longrightarrow>
     img_failure_code (settle_status g) = [] \<and> img_error_message (settle_status g) = []"
  by (cases "img_status g"; auto simp: settle_status_def Let_def)+

definition settled_result :: "object_store \<Rightarrow> image_generation \<Rightarrow> bool" where
  "settled_result os g \<longleftrightarrow> isTerminal (img_status g) \<and> img_completed_at g \<noteq> None \<and>
     (img_status g = Success \<longrightarrow> img_failure_code g = [] \<and> img_error_message g = [] \<and> img_image_bytes g = [] \<and>
        img_image_url g = ''/api/images/'' @ fmt_int (img_id g) @ ''/binary'' \<and>
        img_storage_key g = object_key (img_user_id g) (sanitizeKeyPart (img_request_id g)) ''png'' \<and>
        (\<exists>d. d \<noteq> [] \<and> os_objects os (img_storage_key g) = Some (d, ''image/png'')))"

lemma persist_result:
  assumes p: "persistGeneratedImage se g w = (Inr g', w')" and t: "isTerminal (img_status g)"
    and c: "img_completed_at g \<noteq> None"
    and s: "img_status g = Success \<Longrightarrow> img_image_bytes g \<noteq> [] \<Longrightarrow> img_failure_code g = [] \<and> img_error_message g = []"
  shows "same_task g g' \<and> settled_result (w_objects w') g'"
proof (cases "img_status g = Success \<and> img_image_bytes g \<noteq> []")
  case False
  then show ?thesis
    using p t c by (auto simp: persistGeneratedImage_def bindp_app clock_def Let_def settled_result_def split: if_splits)
next
  case True
  obtain res os where st: "storage_store se (img_user_id g) (img_request_id g) (img_image_bytes g) ''image/png'' (w_objects w) = (res, os)"
    by fastforce
  show ?thesis
  proof (cases res)
    case (Inl ex)
    with st have "is_std_exn ex" using storage_store_exn by blast
    with True Inl st p show ?thesis
      by (auto simp: persistGeneratedImage_def bindp_app on_objects_def catch_std_def clock_def Let_def settled_result_def)
  next
    case (Inr key)
    from storage_store_Inr [OF st [unfolded Inr], unfolded image_ext_png]
    have k: "key = object_key (img_user_id g) (sanitizeKeyPart (img_request_id g)) ''png''"
      "os_objects os key = Some (img_image_bytes g, ''image/png'')" by blast+
    with True Inr st p s c show ?thesis
      by (auto simp: persistGeneratedImage_def bindp_app on_objects_def catch_std_def settled_result_def same_task_def)
  qed
qed

lemma leaves_persist [leaves_intros]:
  "leaves w_db (persistGeneratedImage se g)" "leaves w_redis (persistGeneratedImage se g)"
  "leaves w_cache (persistGeneratedImage se g)" "leaves w_hub (persistGeneratedImage se g)" "leaves w_engine (persistGeneratedImage se g)"
  unfolding persistGeneratedImage_def by (intro leaves_intros)+

lemma leaves_generate [leaves_intros]:
  "leaves w_db (generate x g)" "leaves w_redis (generate x g)" "leaves w_cache (generate x g)" "leaves w_hub (generate x g)"
  "leaves w_engine (generate x g)"
  unfolding generate_def request_generation_def fetch_image_def by (intro leaves_intros)+

lemma leaves_checkHealth [leaves_intros]:
  "leaves w_db (checkHealth x)" "leaves w_redis (checkHealth x)" "leaves w_cache (checkHealth x)"
  "leaves w_hub (checkHealth x)" "leaves w_objects (checkHealth x)" "leaves w_engine (checkHealth x)"
  unfolding checkHealth_def by (intro leaves_intros)+

section \<open>Requests sent\<close>

definition sends :: "(http_request \<Rightarrow> bool) \<Rightarrow> ('c world, 'a) prog \<Rightarrow> bool" where
  "sends Q m \<longleftrightarrow> (\<forall>w. \<exists>rs. ne_sent (w_http (snd (m w))) = ne_sent (w_http w) @ rs \<and> (\<forall>r\<in>set rs. Q r))"

named_theorems sends_intros \<open>rules for the requests a program sends\<close>

lemma sendsI: "(\<And>w. \<exists>rs. ne_sent (w_http (snd (m w))) = ne_sent (w_http w) @ rs \<and> (\<forall>r\<in>set rs. Q r)) \<Longrightarrow> sends Q m"
  by (simp add: sends_def)

lemma sendsD: "sends Q m \<Longrightarrow> m w = (r, w') \<Longrightarrow> \<exists>rs. ne_sent (w_http w') = ne_sent (w_http w) @ rs \<and> (\<forall>r\<in>set rs. Q r)"
  by (metis sends_def snd_conv)

lemma sends_leaves: "leaves w_http m \<Longrightarrow> sends Q m"
  by (rule sendsI) (simp add: leavesD)

lemma sends_bindp [sends_intros]:
  assumes "sends Q m" "\<And>x. sends Q (k x)"
  shows "sends Q (bindp m k)"
proof (rule sendsI)
  fix w
  obtain r w' where m: "m w = (r, w')" by fastforce
  obtain rs where rs: "ne_sent (w_http w') = ne_sent (w_http w) @ rs" "\<forall>r\<in>set rs. Q r"
    using sendsD [OF assms(1) m] by blast
  show "\<exists>rs. ne_sent (w_http (snd (bindp m k w))) = ne_sent (w_http w) @ rs \<and> (\<forall>r\<in>set rs. Q r)"
  proof (cases r)
    case (Inl e)
    then show ?thesis using m rs by auto
  next
    case (Inr x)
    obtain rs' where "ne_sent (w_http (snd (k x w'))) = ne_sent (w_http w') @ rs'" "\<forall>r\<in>set rs'. Q r"
      using sendsD [OF assms(2) [of x], of w'] by (metis prod.collapse)
    then show ?thesis using m Inr rs by (intro exI [of _ "rs @ rs'"]) auto
  qed
qed

lemma sends_catch_all [sends_intros]:
  assumes "sends Q m" "\<And>e. leaves w_http (h e)"
  shows "sends Q (catch_all m h)"
proof (rule sendsI)
  fix w
  obtain r w' where m: "m w = (r, w')" by fastforce
  with sendsD [OF assms(1) m] leavesD [OF assms(2)]
  show "\<exists>rs. ne_sent (w_http (snd (catch_all m h w))) = ne_sent (w_http w) @ rs \<and> (\<forall>r\<in>set rs. Q r)"
    by (cases r) simp_all
qed

lemma sends_case [sends_intros]:
  "(\<And>e. sends Q (h e)) \<Longrightarrow> (\<And>x. sends Q (k x)) \<Longrightarrow> sends Q (case v of Inl e \<Rightarrow> h e | Inr x \<Rightarrow> k x)"
  "sends Q m \<Longrightarrow> (\<And>x. sends Q (k' x)) \<Longrightarrow> sends Q (case ov of None \<Rightarrow> m | Some x \<Rightarrow> k' x)"
  "(b \<Longrightarrow> sends Q m) \<Longrightarrow> (\<not> b \<Longrightarrow> sends Q n) \<Longrightarrow> sends Q (if b then m else n)"
  "sends Q (f y) \<Longrightarrow> sends Q (Let y f)"
  by (simp_all split: sum.split option.split add: Let_def)

lemma sends_plain [sends_intros]:
  "sends Q (ret x)" "sends Q (throw e)" "sends Q (lift_sum v)" "sends Q (persistGeneratedImage se g)"
  "sends Q clock"
proof -
  show "sends Q (ret x)" "sends Q (throw e)" "sends Q (lift_sum v)" "sends Q clock"
    by (rule sends_leaves, intro leaves_intros)+
  show "sends Q (persistGeneratedImage se g)"
    by (rule sends_leaves, unfold persistGeneratedImage_def, intro leaves_intros)
qed

lemma sends_timed_http:
  assumes "\<And>ne. \<exists>rs. ne_sent (snd (call ne)) = ne_sent ne @ rs \<and> (\<forall>r\<in>set rs. Q r)"
  shows "sends Q (timed_http ep call :: ('w world, http_result) prog)"
  unfolding timed_http_def
proof (intro sends_intros)
  show "sends Q (on_http call :: ('w world, http_result) prog)"
  proof (rule sendsI)
    fix w :: "'w world"
    obtain r ne' where "call (w_http w) = (r, ne')" by fastforce
    with assms [of "w_http w"]
    show "\<exists>rs. ne_sent (w_http (snd (on_http call w))) = ne_sent (w_http w) @ rs \<and> (\<forall>r\<in>set rs. Q r)"
      by (simp add: on_http_def)
  qed
qed (rule sends_leaves, intro leaves_intros)+

text \<open>The header lines that the client adds are the trace identifier or nothing.\<close>

definition safe_headers :: "http_request \<Rightarrow> bool" where
  "safe_headers r \<longleftrightarrow> rq_headers r = [] \<or>
     (\<exists>t. rq_headers r = [(''X-Request-Id'', t)] \<and> length t \<le> 128 \<and> list_all isAllowedChar t)"

lemma get_sends: "sends safe_headers (timed_http ep (http_get u t [] f))"
proof (rule sends_timed_http)
  fix ne
  show "\<exists>rs. ne_sent (snd (http_get u t [] f ne)) = ne_sent ne @ rs \<and> (\<forall>r\<in>set rs. safe_headers r)"
    using get_loop_sent [of kMaxRedirects u t "[]" f ne]
    by (auto simp: http_get_def safe_headers_def applyHeaders_def map_filter_def)
qed

lemma trace_header_pair:
  assumes "t \<noteq> []" "\<forall>c\<in>set t. isAllowedChar c"
  shows "header_pair (''X-Request-Id: '' @ t) = Some (''X-Request-Id'', t)"
proof -
  have f: "find_sub '':'' (''X-Request-Id: '' @ t) = Some 12" by (simp add: starts_with_def)
  have sp: "\<not> is_space c" if "isAllowedChar c" for c
    using isAllowedChar_not_blank [OF that] by (auto simp: is_blank_byte_def is_space_def)
  have tr: "trim t = t" by (rule trim_id) (use assms sp hd_in_set last_in_set in blast)
  have "trim (CHR '' '' # t) = trim t" by (simp add: trim_def is_space_def cbyte_def)
  moreover have "trim ''X-Request-Id'' = ''X-Request-Id''" by code_simp
  moreover have "take 12 (''X-Request-Id: '' @ t) = ''X-Request-Id''" "drop 13 (''X-Request-Id: '' @ t) = CHR '' '' # t"
    by (simp_all add: numeral_eq_Suc)
  ultimately show ?thesis unfolding header_pair_def f using tr by simp
qed

lemma applyHeaders_one: "header_pair h = Some p \<Longrightarrow> applyHeaders [h] = [p]"
  by (simp add: applyHeaders_def map_filter_def)

lemma trace_headers_safe: "applyHeaders (trace_headers g) = [] \<or>
    (\<exists>t. applyHeaders (trace_headers g) = [(''X-Request-Id'', t)] \<and> length t \<le> 128 \<and> list_all isAllowedChar t)"
proof (cases "sanitizeRequestId (img_request_id g) = []")
  case True
  then show ?thesis by (simp add: trace_headers_def applyHeaders_def map_filter_def)
next
  case False
  note r = sanitize_result [OF this]
  then have "applyHeaders (trace_headers g) = [(''X-Request-Id'', sanitizeRequestId (img_request_id g))]"
    using False applyHeaders_one [OF trace_header_pair] unfolding trace_headers_def Let_def by simp
  with r show ?thesis by (simp add: list_all_iff)
qed

lemma post_sends: "sends safe_headers (timed_http ep (postJson u t b (trace_headers g)))"
proof (rule sends_timed_http)
  fix ne
  show "\<exists>rs. ne_sent (snd (postJson u t b (trace_headers g) ne)) = ne_sent ne @ rs \<and> (\<forall>r\<in>set rs. safe_headers r)"
  proof (cases "parseUrl u")
    case (Some p)
    from sendOnce_sent [of p HttpPost "Some b" "trace_headers g" t ne]
    obtain rs where "ne_sent (snd (sendOnce p HttpPost (Some b) (trace_headers g) t ne)) = ne_sent ne @ rs"
      "\<forall>r\<in>set rs. rq_headers r = applyHeaders (trace_headers g)" by blast
    with Some trace_headers_safe [of g] show ?thesis
      by (auto simp: postJson_def safe_headers_def split: prod.split)
  qed (simp add: postJson_def)
qed

lemma sends_generate: "sends safe_headers (generate x g)"
  unfolding generate_def request_generation_def fetch_image_def downloadImageBytes_def
  by (auto intro!: sends_intros post_sends get_sends intro: leaves_intros split: prod.split)

section \<open>Properties\<close>

text \<open>
  C30: a generation call always returns, whatever the model service, the network,
  the configuration and the object store do, and it changes no state but the store, the metrics
  and the network. The record it returns is the same task, ended (success, failed, cancelled or
  timeout) with a completion time; when it says success, an image that is not empty is in the store
  under the key of the record, the failure fields are empty and the address is the program's own.
\<close>

theorem generation_settles:
  "\<exists>g' w'. generate x g w = (Inr g', w') \<and> same_task g g' \<and> settled_result (w_objects w') g' \<and>
     w_db w' = w_db w \<and> w_redis w' = w_redis w \<and> w_cache w' = w_cache w \<and> w_hub w' = w_hub w"
proof -
  obtain u t failure where st: "service_settings (x_config x) = (u, t, failure)" by (cases "service_settings (x_config x)") auto
  let ?call = "catch_all (case failure of Some e \<Rightarrow> throw e | None \<Rightarrow> request_generation x u t g) (\<lambda>ex. ret (python_exception g ex))"
  have "returns ?call" by (intro returns_intros)
  then obtain g1 w1 where c1: "?call w = (Inr g1, w1)" by (blast dest: returnsD [of ?call w])
  obtain g2 w2 where c2: "fetch_image u t g1 w1 = (Inr g2, w2)" using returnsD [OF returns_fetch] by blast
  define g3 where "g3 = settle_status g2"
  obtain now w3 where c3: "clock w2 = (Inr now, w3)" using returnsD [OF returns_on(5)] by blast
  let ?g4 = "g3\<lparr>img_completed_at := Some now\<rparr>"
  obtain g5 w5 where c5: "persistGeneratedImage (x_storage x) ?g4 w3 = (Inr g5, w5)"
    using returnsD [OF returns_persist] by blast
  have t3: "isTerminal (img_status g3)" unfolding g3_def by (rule settle_status_cases)
  have run: "generate x g w = (Inr g5, w5)"
    by (simp add: generate_def st bindp_app c1 c2 g3_def [symmetric] Let_def t3 c3 c5)
  have same: "same_task g g1" "same_task g1 g2"
    using givesD [OF gives_call c1] givesD [OF gives_fetch c2] by simp_all
  have p: "same_task ?g4 g5 \<and> settled_result (w_objects w5) g5"
  proof (rule persist_result [OF c5])
    show "img_failure_code ?g4 = [] \<and> img_error_message ?g4 = []"
      if "img_status ?g4 = Success" "img_image_bytes ?g4 \<noteq> []"
      using that settle_status_cases(2) [of g2] by (simp add: g3_def)
  qed (use t3 in simp_all)
  have "same_task g ?g4" using same by (auto simp: g3_def intro: same_task_trans)
  then have "same_task g g5" using p same_task_trans by blast
  moreover have "w_db w5 = w_db w" "w_redis w5 = w_redis w" "w_cache w5 = w_cache w" "w_hub w5 = w_hub w"
    using leaves_run [OF leaves_generate(1) run] leaves_run [OF leaves_generate(2) run]
      leaves_run [OF leaves_generate(3) run] leaves_run [OF leaves_generate(4) run] by simp_all
  ultimately show ?thesis using run p by blast
qed

text \<open>
  C33: every request that a generation call sends carries no header of the
  client's own, or exactly the trace identifier, of at most 128 safe characters, whatever request
  identifier the task has: no line break of a stored identifier reaches a header.
\<close>

theorem outbound_headers_are_safe:
  "\<exists>rs. ne_sent (w_http (snd (generate x g w))) = ne_sent (w_http w) @ rs \<and>
     list_all (\<lambda>r. rq_headers r = [] \<or>
       (\<exists>t. rq_headers r = [(''X-Request-Id'', t)] \<and> length t \<le> 128 \<and> list_all isAllowedChar t)) rs"
  using sendsD [OF sends_generate, of x g w] by (auto simp: list_all_iff safe_headers_def) (metis prod.collapse)

end
