(* ===== verification/Task_Engine.thy ===== *)
theory Task_Engine
  imports Generation_Client
begin

text \<open>
  \<open>Backend/src/services/task_engine.cpp\<close>: the queue of tasks, the workers that claim and run them,
  the keeper that renews the lease of a running task, and the scanner that takes tasks back whose
  worker died. A loop of the code is given by its body: one round of a worker, of a keeper or of
  the scanner is a program over the shared state; the threads run these rounds in any order. The
  engine uses the cache it was given; a wait is a passing of time.
\<close>

record engine_config =
  tc_workers :: int
  tc_poll_interval_ms :: int
  tc_lease_seconds :: int
  tc_max_retries :: int
  tc_worker_prefix :: string

definition default_engine_config :: engine_config where
  "default_engine_config = \<lparr>tc_workers = 1, tc_poll_interval_ms = 500, tc_lease_seconds = 900,
     tc_max_retries = 3, tc_worker_prefix = ''backend-worker''\<rparr>"

definition engine_fields :: "json \<Rightarrow> (engine_config \<Rightarrow> exn + engine_config) list" where
  "engine_fields j =
     [\<lambda>c. bindr (jvalue as_int32 j ''workers'' (tc_workers c)) (\<lambda>v. Inr (c\<lparr>tc_workers := max 0 v\<rparr>)),
      \<lambda>c. bindr (jvalue as_int32 j ''poll_interval_ms'' (tc_poll_interval_ms c)) (\<lambda>v. Inr (c\<lparr>tc_poll_interval_ms := max 100 v\<rparr>)),
      \<lambda>c. bindr (jvalue as_int64 j ''lease_seconds'' (tc_lease_seconds c)) (\<lambda>v. Inr (c\<lparr>tc_lease_seconds := max 30 v\<rparr>)),
      \<lambda>c. bindr (jvalue as_int32 j ''max_retries'' (tc_max_retries c)) (\<lambda>v. Inr (c\<lparr>tc_max_retries := max 0 v\<rparr>)),
      \<lambda>c. bindr (jvalue as_string j ''worker_prefix'' (tc_worker_prefix c)) (\<lambda>v. Inr (c\<lparr>tc_worker_prefix := v\<rparr>))]"

definition loadTaskEngineConfig :: "exn + json \<Rightarrow> engine_config" where
  "loadTaskEngineConfig config = (case config of
      Inl e \<Rightarrow> default_engine_config
    | Inr j \<Rightarrow> (case jfind j ''task_engine'' of
          Some m \<Rightarrow> if is_object m then try_steps (engine_fields m) default_engine_config else default_engine_config
        | None \<Rightarrow> default_engine_config))"

definition leaseRenewInterval :: "int \<Rightarrow> int" where
  "leaseRenewInterval leaseSeconds = max 1 (leaseSeconds div 2)"

section \<open>Shared steps\<close>

definition invalidateAllForTask :: "('c, 'x) externals_scheme \<Rightarrow> int \<Rightarrow> int \<Rightarrow> ('c world, unit) prog" where
  "invalidateAllForTask x userId i =
     bindp (on_cache (ci_del (x_cache x) (metaKey userId i))) (\<lambda>_.
     bindp (on_cache (ci_bumpVersion (x_cache x) kListVersionNamespace (fmt_int userId))) (\<lambda>_. ret ()))"

text \<open>\<open>if (r.isAvailable()) \<dots>\<close>.\<close>

definition when_redis :: "('c world, 'a) prog \<Rightarrow> ('c world, 'a) prog \<Rightarrow> ('c world, 'a) prog" where
  "when_redis m n w = (if redis_isAvailable (w_redis w) then m w else n w)"

definition releaseRedisLease :: "int \<Rightarrow> string \<Rightarrow> ('c world, unit) prog" where
  "releaseRedisLease taskId workerId =
     catch_all (when_redis (bindp (on_redis (releaseLease taskId workerId)) (\<lambda>_. ret ())) (ret ())) (\<lambda>_. ret ())"

text \<open>The fallback path wakes the workers that wait for the database.\<close>

definition engine_enqueue :: "int \<Rightarrow> ('c world, unit) prog" where
  "engine_enqueue taskId =
     bindp (catch_all
         (when_redis (bindp (on_redis (enqueueTask taskId)) (\<lambda>_.
            bindp (on_metrics (incrementWorkerQueueDepth 1)) (\<lambda>_. ret True))) (ret False))
         (\<lambda>_. ret False)) (\<lambda>done.
       if done then ret () else on_metrics (incrementWorkerQueueDepth 1))"

definition publish :: "('c, 'x) externals_scheme \<Rightarrow> image_generation \<Rightarrow> ('c world, unit) prog" where
  "publish x g = on_hub (publishTaskUpdated (x_dump x) g)"

text \<open>A repository operation with the clock reading it makes.\<close>

definition timed_db :: "(time_point \<Rightarrow> image_db \<Rightarrow> 'a \<times> image_db) \<Rightarrow> ('c world, 'a) prog" where
  "timed_db f = bindp clock (\<lambda>now. on_db (f now))"

definition record_status :: "task_status \<Rightarrow> ('c world, unit) prog" where
  "record_status st = on_metrics (recordTaskStatus st)"

section \<open>The lease keeper\<close>

text \<open>One round, a second after the last one: \<open>None\<close> ends the loop, \<open>Some t\<close> is the time of the
  next renewal.\<close>

definition keeper_round :: "engine_config \<Rightarrow> image_generation \<Rightarrow> string \<Rightarrow> time_point \<Rightarrow> ('c world, time_point option) prog" where
  "keeper_round cfg task workerId nextRenewal = bindp clock (\<lambda>now.
     if now < nextRenewal then ret (Some nextRenewal)
     else bindp (catch_all
            (when_redis (bindp (on_redis (redis_renewLease (img_id task) workerId (tc_lease_seconds cfg))) (\<lambda>_. ret ())) (ret ()))
            (\<lambda>_. ret ())) (\<lambda>_.
          bindp (timed_db (\<lambda>t. renewLease t (img_id task) (img_user_id task) workerId (tc_lease_seconds cfg))) (\<lambda>renewed.
            case renewed of
              Inr False \<Rightarrow> ret None
            | _ \<Rightarrow> ret (Some (now + leaseRenewInterval (tc_lease_seconds cfg) * ns)))))"

section \<open>The health gate\<close>

definition gate_failed :: "image_generation \<Rightarrow> gate_decision \<Rightarrow> time_point \<Rightarrow> image_generation" where
  "gate_failed task d now = task\<lparr>img_status := Failed, img_failure_code := gd_failure_code d,
     img_error_message := gd_message d, img_completed_at := Some now\<rparr>"

definition gate_deferred :: "image_generation \<Rightarrow> gate_decision \<Rightarrow> image_generation" where
  "gate_deferred task d = task\<lparr>img_status := Queued, img_retry_count := int32_of (img_retry_count task + 1),
     img_failure_code := gd_failure_code d, img_error_message := gd_message d, img_worker_id := [],
     img_started_at := None, img_lease_expires_at := None\<rparr>"

definition gate_fail :: "('c, 'x) externals_scheme \<Rightarrow> image_generation \<Rightarrow> string \<Rightarrow> gate_decision \<Rightarrow> ('c world, unit) prog" where
  "gate_fail x task workerId d = bindp clock (\<lambda>now. let task' = gate_failed task d now in
     bindp (record_status (img_status task')) (\<lambda>_.
     bindp (on_db (finishClaimedTask task')) (\<lambda>finished.
     bindp (releaseRedisLease (img_id task') workerId) (\<lambda>_.
     bindp (invalidateAllForTask x (img_user_id task') (img_id task')) (\<lambda>_.
       case finished of
         Inr True \<Rightarrow> publish x (task'\<lparr>img_worker_id := [], img_lease_expires_at := None\<rparr>)
       | _ \<Rightarrow> ret ())))))"

definition gate_defer :: "('c, 'x) externals_scheme \<Rightarrow> image_generation \<Rightarrow> string \<Rightarrow> gate_decision \<Rightarrow> ('c world, unit) prog" where
  "gate_defer x task workerId d =
     bindp (on_db (deferClaimedTaskForModelHealth (img_id task) (img_user_id task) workerId
        (gd_failure_code d) (gd_message d))) (\<lambda>deferred.
     bindp (releaseRedisLease (img_id task) workerId) (\<lambda>_.
       case deferred of
         Inr True \<Rightarrow> (let task' = gate_deferred task d in
           bindp (record_status (img_status task')) (\<lambda>_.
           bindp (invalidateAllForTask x (img_user_id task') (img_id task')) (\<lambda>_.
           bindp (publish x task') (\<lambda>_. engine_enqueue (img_id task')))))
       | _ \<Rightarrow> ret ()))"

definition applyModelHealthGate :: "('c, 'x) externals_scheme \<Rightarrow> image_generation \<Rightarrow> string \<Rightarrow> ('c world, bool) prog" where
  "applyModelHealthGate x task workerId = bindp (checkHealth x) (\<lambda>health.
     let decision = decideForGenerate health (img_retry_count task) in
     case gd_action decision of
       Proceed \<Rightarrow> ret True
     | Fail \<Rightarrow> bindp (gate_fail x task workerId decision) (\<lambda>_. ret False)
     | Defer \<Rightarrow> bindp (gate_defer x task workerId decision) (\<lambda>_. ret False))"

section \<open>A worker\<close>

text \<open>The keeper runs beside \<open>generate\<close>: its rounds are interleaved with the other threads.\<close>

definition processClaimedTask :: "('c, 'x) externals_scheme \<Rightarrow> image_generation \<Rightarrow> string \<Rightarrow> ('c world, unit) prog" where
  "processClaimedTask x task workerId =
     bindp (invalidateAllForTask x (img_user_id task) (img_id task)) (\<lambda>_.
     bindp (on_metrics (decrementWorkerQueueDepth 1)) (\<lambda>_.
     bindp (record_status Generating) (\<lambda>_.
     bindp (publish x task) (\<lambda>_.
     bindp (applyModelHealthGate x task workerId) (\<lambda>go_on.
       if \<not> go_on then ret ()
       else bindp (generate x task) (\<lambda>result.
            bindp (on_db (finishClaimedTask result)) (\<lambda>finishedResult.
            bindp (releaseRedisLease (img_id task) workerId) (\<lambda>_.
              case finishedResult of
                Inr True \<Rightarrow>
                  bindp (record_status (img_status result)) (\<lambda>_.
                  bindp (invalidateAllForTask x (img_user_id task) (img_id task)) (\<lambda>_.
                    publish x result))
              | _ \<Rightarrow> cleanupOrphanedStoredImage (x_storage x) result))))))))"

definition worker_body :: "('c, 'x) externals_scheme \<Rightarrow> engine_config \<Rightarrow> string \<Rightarrow> ('c world, unit) prog" where
  "worker_body x cfg workerId = when_redis
     (bindp (on_redis dequeueTask) (\<lambda>taskId. case taskId of
        None \<Rightarrow> ret ()
      | Some i \<Rightarrow> bindp (on_redis (acquireLease i workerId (tc_lease_seconds cfg))) (\<lambda>acquired.
          if \<not> acquired then ret ()
          else bindp (timed_db (\<lambda>now. claimTaskById now i workerId (tc_lease_seconds cfg))) (\<lambda>task. case task of
            Inl e \<Rightarrow> bindp (on_redis (releaseLease i workerId)) (\<lambda>_. ret ())
          | Inr None \<Rightarrow> bindp (on_redis (releaseLease i workerId)) (\<lambda>_. ret ())
          | Inr (Some t) \<Rightarrow> processClaimedTask x t workerId))))
     (bindp (timed_db (\<lambda>now. claimNextTask now workerId (tc_lease_seconds cfg))) (\<lambda>task. case task of
        Inr (Some t) \<Rightarrow> processClaimedTask x t workerId
      | _ \<Rightarrow> ret ()))"

text \<open>The loop catches everything and goes on.\<close>

definition worker_round :: "('c, 'x) externals_scheme \<Rightarrow> engine_config \<Rightarrow> string \<Rightarrow> ('c world, unit) prog" where
  "worker_round x cfg workerId = catch_all (worker_body x cfg workerId) (\<lambda>_. ret ())"

section \<open>The lease scanner\<close>

definition recoverOrphanedTasks :: "('c world, unit) prog" where
  "recoverOrphanedTasks = catch_std
     (when_redis (bindp (on_db findQueuedTaskIds) (\<lambda>ids. case ids of
        Inl e \<Rightarrow> ret ()
      | Inr is \<Rightarrow> bindp (on_redis (rebuildTaskQueue is)) (\<lambda>_.
          on_metrics (setWorkerQueueDepth (int (length is)))))) (ret ()))
     (\<lambda>_. ret ())"

fun take_back :: "('c, 'x) externals_scheme \<Rightarrow> expired_lease list \<Rightarrow> ('c world, unit) prog" where
  "take_back x [] = ret ()"
| "take_back x (t # ts) =
     bindp (invalidateAllForTask x (el_user_id t) (el_id t)) (\<lambda>_.
     bindp (if el_requeue t then engine_enqueue (el_id t) else ret ()) (\<lambda>_. take_back x ts))"

definition scanner_round :: "('c, 'x) externals_scheme \<Rightarrow> ('c world, unit) prog" where
  "scanner_round x =
     bindp (catch_std
        (bindp clock (\<lambda>now. bindp clock (\<lambda>now'. bindp (on_db (expireLeasesReturningExpired now now')) (\<lambda>expired.
           case expired of Inl e \<Rightarrow> ret () | Inr ts \<Rightarrow> take_back x ts))))
        (\<lambda>_. ret ())) (\<lambda>_. recoverOrphanedTasks)"

section \<open>Starting\<close>

definition worker_name :: "engine_config \<Rightarrow> nat \<Rightarrow> string" where
  "worker_name cfg i = tc_worker_prefix cfg @ CHR ''-'' # fmt_nat (i + 1)"

definition start_threads :: "engine_config \<Rightarrow> engine_state \<Rightarrow> unit \<times> engine_state" where
  "start_threads cfg en = ((), en\<lparr>en_workers := map (worker_name cfg) [0..<nat (tc_workers cfg)], en_scanner := True\<rparr>)"

text \<open>\<open>std::call_once\<close>: the flag is set when the body returns; a body that throws runs again.\<close>

definition engine_bootstrap :: "engine_config \<Rightarrow> ('c world, unit) prog" where
  "engine_bootstrap cfg =
     bindp (on_engine (\<lambda>en. (en_started en, en))) (\<lambda>started.
       if started then ret ()
       else bindp (if tc_workers cfg \<le> 0 then ret ()
           else bindp recoverOrphanedTasks (\<lambda>_. on_engine (start_threads cfg)))
         (\<lambda>_. on_engine (\<lambda>en. ((), en\<lparr>en_started := True\<rparr>))))"

text \<open>\<open>TaskEngine::enqueue\<close> starts the engine first.\<close>

definition TaskEngine_enqueue :: "engine_config \<Rightarrow> int \<Rightarrow> ('c world, unit) prog" where
  "TaskEngine_enqueue cfg taskId = bindp (engine_bootstrap cfg) (\<lambda>_. engine_enqueue taskId)"

end
