(* ===== verification/Rate_Limiter.thy ===== *)
theory Rate_Limiter
  imports Redis_Client
begin

text \<open>
  \<open>Backend/src/services/rate_limiter.cpp\<close>: the configuration and the token bucket. The bucket of
  a key lives in a Redis hash with two numbers, the tokens and the time of the last request in
  milliseconds; the script reads, refills, takes a token and writes them back in one step. Lua
  numbers are doubles and travel as text that reads back exactly; here they are real numbers.
\<close>

record rate_config =
  rl_enabled :: bool
  rl_fail_open :: bool
  rl_trust_proxy :: bool
  rl_max_active_tasks_per_user :: int
  rl_user_create_capacity :: int
  rl_user_create_window :: int
  rl_auth_ip_capacity :: int
  rl_auth_ip_window :: int
  rl_key_prefix :: string
  rl_redis :: redis_config

definition default_rate_config :: rate_config where
  "default_rate_config = \<lparr>rl_enabled = True, rl_fail_open = True, rl_trust_proxy = False,
     rl_max_active_tasks_per_user = 3, rl_user_create_capacity = 10, rl_user_create_window = 60,
     rl_auth_ip_capacity = 5, rl_auth_ip_window = 60, rl_key_prefix = ''zimage:rate:'',
     rl_redis = default_redis_config\<rparr>"

definition cap_socket_timeout :: "redis_config \<Rightarrow> redis_config" where
  "cap_socket_timeout r = r\<lparr>rc_socket_timeout_ms := min (rc_socket_timeout_ms r) 500\<rparr>"

definition parseRateLimitConfig :: "json \<Rightarrow> redis_config \<Rightarrow> exn + rate_config" where
  "parseRateLimitConfig j redisConfig = (let c = default_rate_config in
     if \<not> is_object j then Inr (c\<lparr>rl_redis := cap_socket_timeout redisConfig\<rparr>)
     else
     bindr (jvalue as_bool j ''enabled'' (rl_enabled c)) (\<lambda>en.
     bindr (jvalue as_bool j ''fail_open'' (rl_fail_open c)) (\<lambda>fo.
     bindr (jvalue as_bool j ''trust_proxy'' (rl_trust_proxy c)) (\<lambda>tp.
     bindr (jvalue as_int32 j ''max_active_tasks_per_user'' (rl_max_active_tasks_per_user c)) (\<lambda>ma.
     bindr (jvalue as_int32 j ''user_create_capacity'' (rl_user_create_capacity c)) (\<lambda>uc.
     bindr (jvalue as_int64 j ''user_create_window_seconds'' (rl_user_create_window c)) (\<lambda>uw.
     bindr (jvalue as_int32 j ''auth_ip_capacity'' (rl_auth_ip_capacity c)) (\<lambda>ac.
     bindr (jvalue as_int64 j ''auth_ip_window_seconds'' (rl_auth_ip_window c)) (\<lambda>aw.
     bindr (jvalue as_string j ''key_prefix'' (rl_key_prefix c)) (\<lambda>kp.
     Inr \<lparr>rl_enabled = en, rl_fail_open = fo, rl_trust_proxy = tp,
          rl_max_active_tasks_per_user = max 0 ma, rl_user_create_capacity = max 0 uc,
          rl_user_create_window = max 1 uw, rl_auth_ip_capacity = max 0 ac,
          rl_auth_ip_window = max 1 aw,
          rl_key_prefix = (if ends_with kp '':'' then kp else kp @ '':''),
          rl_redis = cap_socket_timeout redisConfig\<rparr>))))))))))"

definition loadRateLimitConfig :: "json \<Rightarrow> exn + rate_config" where
  "loadRateLimitConfig j =
     bindr (case jfind j ''redis'' of
         Some r \<Rightarrow> if is_object r then parseRedisConfig r else Inr default_redis_config
       | None \<Rightarrow> Inr default_redis_config) (\<lambda>redisConfig.
     parseRateLimitConfig (case jfind j ''rate_limit'' of Some r \<Rightarrow> r | None \<Rightarrow> JObj []) redisConfig)"

definition rate_userKey :: "int \<Rightarrow> rate_config \<Rightarrow> string" where
  "rate_userKey userId c = rl_key_prefix c @ ''user:'' @ fmt_int userId"

definition rate_ipKey :: "string \<Rightarrow> rate_config \<Rightarrow> string" where
  "rate_ipKey ip c = rl_key_prefix c @ ''ip:'' @ (if ip = [] then ''unknown'' else ip)"

section \<open>The bucket on the server\<close>

text \<open>A bucket: its tokens, the time of its last request in milliseconds, and when it expires on
  the server (in seconds). \<open>bs_script\<close> says whether the server has the script in its cache.\<close>

record bucket_server =
  bs_buckets :: "string \<Rightarrow> (real \<times> int \<times> int) option"
  bs_now :: int
  bs_script :: bool
  bs_faults :: "cmd_fault list"

definition bs_exec :: "(bucket_server \<Rightarrow> (exn + 'a) \<times> bucket_server) \<Rightarrow> (bucket_server, 'a) prog" where
  "bs_exec f s = (case bs_faults s of
      [] \<Rightarrow> f s
    | CmdRuns # fs \<Rightarrow> f (s\<lparr>bs_faults := fs\<rparr>)
    | CmdRefused e # fs \<Rightarrow> (Inl e, s\<lparr>bs_faults := fs\<rparr>)
    | CmdReplyLost e # fs \<Rightarrow> (Inl e, snd (f (s\<lparr>bs_faults := fs\<rparr>))))"

definition live_bucket :: "bucket_server \<Rightarrow> string \<Rightarrow> (real \<times> int) option" where
  "live_bucket s key = (case bs_buckets s key of
      None \<Rightarrow> None | Some (tokens, refreshed_at, e) \<Rightarrow> if e \<le> bs_now s then None else Some (tokens, refreshed_at))"

definition refilled :: "int \<Rightarrow> int \<Rightarrow> int \<Rightarrow> (real \<times> int) option \<Rightarrow> real" where
  "refilled capacity window_ms now_ms b =
     (let (tokens, refreshed_at) = (case b of None \<Rightarrow> (of_int capacity, now_ms) | Some tr \<Rightarrow> tr);
          elapsed = max 0 (now_ms - refreshed_at)
      in min (of_int capacity) (tokens + of_int elapsed * of_int capacity / of_int window_ms))"

definition token_bucket_script :: "string \<Rightarrow> int \<Rightarrow> int \<Rightarrow> int \<Rightarrow> int \<Rightarrow> bucket_server \<Rightarrow> (exn + int) \<times> bucket_server" where
  "token_bucket_script key capacity window_ms now_ms ttl_seconds s =
     (let tokens = refilled capacity window_ms now_ms (live_bucket s key);
          allowed = (if tokens \<ge> 1 then 1 else 0)
      in (Inr allowed, s\<lparr>bs_buckets := (bs_buckets s)(key \<mapsto> (tokens - of_int allowed, now_ms, bs_now s + ttl_seconds))\<rparr>))"

definition cmd_evalsha :: "string \<Rightarrow> int \<Rightarrow> int \<Rightarrow> int \<Rightarrow> int \<Rightarrow> bucket_server \<Rightarrow> (exn + int) \<times> bucket_server" where
  "cmd_evalsha key capacity window_ms now_ms ttl s =
     (if bs_script s then token_bucket_script key capacity window_ms now_ms ttl s
      else (Inl (RedisError ''NOSCRIPT No matching script. Please use EVAL.''), s))"

definition cmd_script_load :: "bucket_server \<Rightarrow> (exn + unit) \<times> bucket_server" where
  "cmd_script_load s = (Inr (), s\<lparr>bs_script := True\<rparr>)"

section \<open>The limiter\<close>

record rate_limiter =
  lm_config :: rate_config
  lm_impl :: bool
  lm_available :: bool
  lm_server :: bucket_server

definition looksLikeNoScript :: "exn \<Rightarrow> bool" where
  "looksLikeNoScript e \<longleftrightarrow> contains_str (what e) ''NOSCRIPT'' \<or> contains_str (what e) ''No matching script''"

definition on_bucket :: "(bucket_server \<Rightarrow> (exn + 'a) \<times> bucket_server) \<Rightarrow> (rate_limiter, 'a) prog" where
  "on_bucket f l = (case bs_exec f (lm_server l) of (r, s) \<Rightarrow> (r, l\<lparr>lm_server := s\<rparr>))"

text \<open>The constructor: it connects, pings and loads the script.\<close>

definition limiter_new :: "rate_config \<Rightarrow> bucket_server \<Rightarrow> rate_limiter" where
  "limiter_new cfg s = (let l = \<lparr>lm_config = cfg, lm_impl = False, lm_available = False, lm_server = s\<rparr> in
     if \<not> rl_enabled cfg \<or> \<not> rc_enabled (rl_redis cfg) then l
     else case bindp (on_bucket (\<lambda>s. (Inr (), s))) (\<lambda>_. on_bucket cmd_script_load) (l\<lparr>lm_impl := True\<rparr>) of
        (Inl e, l') \<Rightarrow> l'\<lparr>lm_impl := False, lm_available := False\<rparr>
      | (Inr _, l') \<Rightarrow> l'\<lparr>lm_available := True\<rparr>)"

definition limiter_isAvailable :: "rate_limiter \<Rightarrow> bool" where
  "limiter_isAvailable l \<longleftrightarrow> lm_available l \<and> lm_impl l"

definition evalTokenBucket :: "string \<Rightarrow> int \<Rightarrow> int \<Rightarrow> int \<Rightarrow> (rate_limiter, int) prog" where
  "evalTokenBucket key capacity window now_ms l =
     (let call = on_bucket (cmd_evalsha key capacity (window * 1000) now_ms (max 1 (window * 2)))
      in case call l of
           (Inl e, l') \<Rightarrow> if is_redis_exn e \<and> looksLikeNoScript e
             then bindp (on_bucket cmd_script_load) (\<lambda>_. call) l' else (Inl e, l')
         | (Inr n, l') \<Rightarrow> (Inr n, l'))"

definition limiter_unavailable :: "service_error" where
  "limiter_unavailable = mk_error 503 ''rate_limiter_unavailable'' ''rate limiter is unavailable''"

definition tryAcquire :: "string \<Rightarrow> int \<Rightarrow> int \<Rightarrow> int \<Rightarrow> rate_limiter \<Rightarrow> (service_error + unit) \<times> rate_limiter" where
  "tryAcquire key capacity window now_ms l =
     (if \<not> rl_enabled (lm_config l) \<or> capacity \<le> 0 \<or> window \<le> 0 then (Inr (), l)
      else if \<not> limiter_isAvailable l then
        (if rl_fail_open (lm_config l) then Inr () else Inl limiter_unavailable, l)
      else case evalTokenBucket key capacity window now_ms l of
          (Inr allowed, l') \<Rightarrow> (if allowed = 1 then Inr () else Inl (tooManyRequests ''rate_limit_exceeded'' ''too many requests''), l')
        | (Inl e, l') \<Rightarrow> (if rl_fail_open (lm_config l') then Inr () else Inl limiter_unavailable, l'\<lparr>lm_available := False\<rparr>))"

datatype any_limiter = NullRateLimiter | RedisTokenBucketLimiter rate_limiter

definition makeLimiter :: "rate_config \<Rightarrow> bucket_server \<Rightarrow> any_limiter" where
  "makeLimiter cfg s = (if \<not> rl_enabled cfg \<or> \<not> rc_enabled (rl_redis cfg) then NullRateLimiter
     else RedisTokenBucketLimiter (limiter_new cfg s))"

fun limiter_tryAcquire :: "string \<Rightarrow> int \<Rightarrow> int \<Rightarrow> int \<Rightarrow> any_limiter \<Rightarrow> (service_error + unit) \<times> any_limiter" where
  "limiter_tryAcquire key capacity window now_ms NullRateLimiter = (Inr (), NullRateLimiter)"
| "limiter_tryAcquire key capacity window now_ms (RedisTokenBucketLimiter l) =
     (case tryAcquire key capacity window now_ms l of (r, l') \<Rightarrow> (r, RedisTokenBucketLimiter l'))"

text \<open>\<open>configureDefaultRateLimiter\<close>: the process-wide configuration and limiter.\<close>

definition configureDefaultRateLimiter :: "json \<Rightarrow> bucket_server \<Rightarrow> exn + rate_config \<times> any_limiter" where
  "configureDefaultRateLimiter j s = bindr (loadRateLimitConfig j) (\<lambda>cfg. Inr (cfg, makeLimiter cfg s))"

section \<open>Facts\<close>

lemma bs_exec_quiet [simp]: "bs_faults s = [] \<Longrightarrow> bs_exec f s = f s"
  by (simp add: bs_exec_def)

text \<open>A limiter whose server answers; a request arrives when the server's clock shows its time.\<close>

definition ready :: "rate_limiter \<Rightarrow> bool" where
  "ready l \<longleftrightarrow> rl_enabled (lm_config l) \<and> limiter_isAvailable l \<and> bs_script (lm_server l) \<and> bs_faults (lm_server l) = []"

definition at_time :: "int \<Rightarrow> rate_limiter \<Rightarrow> rate_limiter" where
  "at_time t l = l\<lparr>lm_server := (lm_server l)\<lparr>bs_now := t div 1000\<rparr>\<rparr>"

fun serve :: "(string \<Rightarrow> int) \<Rightarrow> (string \<Rightarrow> int) \<Rightarrow> (string \<times> int) list \<Rightarrow> rate_limiter \<Rightarrow> (string \<times> bool) list" where
  "serve cap win [] l = []"
| "serve cap win ((k, t) # rs) l =
     (k, fst (tryAcquire k (cap k) (win k) t (at_time t l)) = Inr ())
       # serve cap win rs (snd (tryAcquire k (cap k) (win k) t (at_time t l)))"

definition granted :: "string \<Rightarrow> (string \<times> bool) list \<Rightarrow> nat" where
  "granted k rs = length (filter (\<lambda>(q, ok). q = k \<and> ok) rs)"

lemma granted_simps [simp]:
  "granted k [] = 0" "granted k ((q, ok) # rs) = (if q = k \<and> ok then 1 else 0) + granted k rs"
  by (simp_all add: granted_def)

lemma tryAcquire_ready:
  fixes k :: string and t :: int
  assumes "ready l" "0 < c" "0 < w"
  defines "tokens \<equiv> refilled c (w * 1000) t (live_bucket (lm_server l) k)"
  shows "tryAcquire k c w t l =
     (if tokens \<ge> 1 then Inr () else Inl (tooManyRequests ''rate_limit_exceeded'' ''too many requests''),
      l\<lparr>lm_server := (lm_server l)\<lparr>bs_buckets := (bs_buckets (lm_server l))
        (k \<mapsto> (tokens - (if tokens \<ge> 1 then 1 else 0), t, bs_now (lm_server l) + w * 2))\<rparr>\<rparr>)"
  using assms by (simp add: tryAcquire_def ready_def evalTokenBucket_def on_bucket_def cmd_evalsha_def
      token_bucket_script_def Let_def max_def)

lemma ready_at_time [simp]: "ready (at_time t l) = ready l"
  by (simp add: ready_def at_time_def limiter_isAvailable_def)

lemma live_bucket_at:
  "live_bucket (lm_server (at_time t l)) k = (case bs_buckets (lm_server l) k of
      None \<Rightarrow> None | Some (tokens, refreshed_at, e) \<Rightarrow> if e \<le> t div 1000 then None else Some (tokens, refreshed_at))"
  by (simp add: live_bucket_def at_time_def split: option.split)

lemma ready_step: "ready l \<Longrightarrow> ready (l\<lparr>lm_server := (lm_server l)\<lparr>bs_buckets := b\<rparr>\<rparr>)"
  by (simp add: ready_def limiter_isAvailable_def)

text \<open>What a bucket can hold at a later time.\<close>

definition level :: "string \<Rightarrow> int \<Rightarrow> int \<Rightarrow> rate_limiter \<Rightarrow> int \<Rightarrow> real" where
  "level k c w l t = refilled c (w * 1000) t (live_bucket (lm_server (at_time t l)) k)"

definition supplies :: "string \<Rightarrow> int \<Rightarrow> int \<Rightarrow> rate_limiter \<Rightarrow> real \<Rightarrow> int \<Rightarrow> bool" where
  "supplies k c w l x t0 \<longleftrightarrow> 0 \<le> x \<and>
     (\<forall>t\<ge>t0. 0 \<le> level k c w l t \<and> level k c w l t \<le> x + of_int (t - t0) * of_int c / of_int (w * 1000))"

lemma level_unchanged:
  "bs_buckets (lm_server l') k = bs_buckets (lm_server l) k \<Longrightarrow> level k c w l' = level k c w l"
  by (simp add: fun_eq_iff level_def live_bucket_at)

text \<open>Whatever a bucket went through, the cap leaves at most the capacity in it.\<close>

definition holds_no_debt :: "rate_limiter \<Rightarrow> string \<Rightarrow> bool" where
  "holds_no_debt l k \<longleftrightarrow> (case bs_buckets (lm_server l) k of None \<Rightarrow> True | Some (tokens, _) \<Rightarrow> 0 \<le> tokens)"

lemma supplies_capped:
  assumes "0 < c" "0 < w" "holds_no_debt l k"
  shows "supplies k c w l (of_int c) t0"
  unfolding supplies_def
proof (intro conjI allI impI)
  fix t assume t: "t0 \<le> t"
  have "0 \<le> (of_int (t - t0) * of_int c / of_int (w * 1000) :: real)" using assms(1,2) t by simp
  moreover have "level k c w l t \<le> of_int c"
    by (simp add: level_def refilled_def split: prod.split)
  ultimately show "level k c w l t \<le> of_int c + of_int (t - t0) * of_int c / of_int (w * 1000)" by simp
  show "0 \<le> level k c w l t"
    using assms by (auto simp: level_def refilled_def live_bucket_at holds_no_debt_def split: option.splits)
qed (use assms(1) in simp)

lemma supplies_bucket:
  assumes "0 < c" "0 < w" "0 \<le> tokens" "bs_buckets (lm_server l) k = Some (tokens, t0, t0 div 1000 + w * 2)"
  shows "supplies k c w l tokens t0"
  unfolding supplies_def
proof (intro conjI allI impI)
  fix t assume t: "t0 \<le> t"
  let ?r = "of_int (t - t0) * of_int c / of_int (w * 1000) :: real"
  have r: "0 \<le> ?r" using assms(1,2) t by simp
  show "0 \<le> level k c w l t"
    using assms r t by (auto simp: level_def live_bucket_at refilled_def)
  show "level k c w l t \<le> tokens + ?r"
  proof (cases "t0 div 1000 + w * 2 \<le> t div 1000")
    case True
    have "t0 div 1000 * 1000 + t0 mod 1000 = t0" "t0 mod 1000 < 1000" "t div 1000 * 1000 + t mod 1000 = t" "0 \<le> t mod 1000"
      by simp_all
    with True assms(2) have "w * 1000 \<le> t - t0" by linarith
    then have "(of_int (w * 1000) :: real) \<le> of_int (t - t0)" by (simp only: of_int_le_iff)
    then have "of_int c * of_int (w * 1000) \<le> (of_int (t - t0) * of_int c :: real)"
      using mult_left_mono [of "of_int (w * 1000)" "of_int (t - t0)" "of_int c :: real"] assms(1) by (simp add: mult.commute)
    then have "of_int c \<le> ?r" using assms(2) by (simp add: pos_le_divide_eq)
    then show ?thesis
      using True assms by (simp add: level_def live_bucket_at refilled_def)
  next
    case False
    then show ?thesis
      using assms t by (simp add: level_def live_bucket_at refilled_def)
  qed
qed (rule assms(3))

lemma spent: "n \<le> T - G + B \<Longrightarrow> A + B = C \<Longrightarrow> N = G + n \<Longrightarrow> T \<le> x + A \<Longrightarrow> N \<le> x + C" for n T G A B C N x :: real
  by simp

lemma serve_bound:
  assumes "ready l" "0 < cap k" "0 < win k" "supplies k (cap k) (win k) l x t0" "sorted (t0 # map snd rs)"
    and "\<forall>q. 0 < cap q \<and> 0 < win q"
  shows "real (granted k (serve cap win rs l)) \<le>
     x + of_int (last (t0 # map snd rs) - t0) * of_int (cap k) / of_int (win k * 1000)"
  using assms(1,4,5)
proof (induction rs arbitrary: l x t0)
  case Nil
  then show ?case by (simp add: supplies_def)
next
  case (Cons req rs)
  obtain q t where req: "req = (q, t)" by fastforce
  have t: "t0 \<le> t" and srt: "sorted (t # map snd rs)" "sorted (t0 # map snd (req # rs))" and srt': "sorted (t0 # map snd rs)"
    using Cons.prems(3) req by auto
  let ?tok = "refilled (cap q) (win q * 1000) t (live_bucket (lm_server (at_time t l)) q)"
  let ?g = "if ?tok \<ge> 1 then 1 else 0 :: real"
  define l' where "l' = (at_time t l)\<lparr>lm_server := (lm_server (at_time t l))\<lparr>bs_buckets := (bs_buckets (lm_server l))
      (q \<mapsto> (?tok - ?g, t, t div 1000 + win q * 2))\<rparr>\<rparr>"
  have step: "tryAcquire q (cap q) (win q) t (at_time t l) =
      (if ?tok \<ge> 1 then Inr () else Inl (tooManyRequests ''rate_limit_exceeded'' ''too many requests''), l')"
    using tryAcquire_ready [of "at_time t l" "cap q" "win q" q t, unfolded ready_at_time, OF Cons.prems(1)] assms(6)
    by (simp add: l'_def at_time_def [of t l])
  have l': "ready l'" "bs_buckets (lm_server l') = (bs_buckets (lm_server l))(q \<mapsto> (?tok - ?g, t, t div 1000 + win q * 2))"
    using Cons.prems(1) by (simp_all add: l'_def at_time_def ready_def limiter_isAvailable_def)
  let ?R = "\<lambda>t. of_int t * of_int (cap k) / of_int (win k * 1000) :: real"
  show ?case
  proof (cases "q = k")
    case False
    then have "supplies k (cap k) (win k) l' x t0"
      using Cons.prems(2) level_unchanged [of l' k l] l'(2) by (simp add: supplies_def)
    from Cons.IH [OF l'(1) this srt'] have "real (granted k (serve cap win rs l')) \<le> x + ?R (last (t0 # map snd rs) - t0)" .
    moreover have "?R (last (t0 # map snd rs) - t0) \<le> ?R (last (t # map snd rs) - t0)"
      using t assms(2,3) by (cases rs) simp_all
    ultimately show ?thesis using False step by (simp add: req)
  next
    case True
    have lev: "0 \<le> ?tok" "?tok \<le> x + ?R (t - t0)"
      using Cons.prems(2) t unfolding supplies_def level_def True by blast+
    have "supplies k (cap k) (win k) l' (?tok - ?g) t"
      by (rule supplies_bucket) (use assms(2,3) lev l'(2) True in auto)
    from Cons.IH [OF l'(1) this srt(1)]
    have "real (granted k (serve cap win rs l')) \<le> ?tok - ?g + ?R (last (t # map snd rs) - t)" .
    moreover have "?R a + ?R b = ?R (a + b)" for a b by (simp add: add_divide_distrib distrib_right)
    from this [of "t - t0" "last (t # map snd rs) - t"]
    have "?R (t - t0) + ?R (last (t # map snd rs) - t) = ?R (last (t # map snd rs) - t0)" by simp
    moreover have "real (granted k (serve cap win (req # rs) l)) = ?g + real (granted k (serve cap win rs l'))"
      using True step by (simp add: req)
    moreover note lev(2)
    ultimately have "real (granted k (serve cap win (req # rs) l)) \<le> x + ?R (last (t # map snd rs) - t0)"
      by (rule spent)
    then show ?thesis by (simp add: req)
  qed
qed

section \<open>Properties\<close>

text \<open>
  C19: the token bucket bounds what a key may do in any stretch of time, whatever
  the bucket went through and however long the key was idle before. Over any sequence of requests for
  any keys, in the order of their times, the requests granted to one key are at most the capacity
  plus the tokens that refill between the first and the last request; the expiry of the bucket on
  the server grants nothing extra. (The server answers.)
\<close>

theorem rate_limit_bounds:
  assumes "ready l" "holds_no_debt l k" "sorted (t0 # map snd rs)" "\<forall>q. 0 < cap q \<and> 0 < win q"
  shows "real (granted k (serve cap win rs l)) \<le>
     of_int (cap k) + of_int (last (t0 # map snd rs) - t0) * of_int (cap k) / of_int (win k * 1000)"
proof (rule serve_bound)
  show "supplies k (cap k) (win k) l (of_int (cap k)) t0"
    using assms(2,4) by (intro supplies_capped) auto
qed (use assms in auto)

definition demo_limiter :: rate_limiter where
  "demo_limiter = limiter_new default_rate_config \<lparr>bs_buckets = (\<lambda>_. None), bs_now = 0, bs_script = False, bs_faults = []\<rparr>"

lemma demo_limiter_ready: "ready demo_limiter \<and> holds_no_debt demo_limiter k"
  by (simp add: holds_no_debt_def demo_limiter_def limiter_new_def ready_def limiter_isAvailable_def default_rate_config_def
      default_redis_config_def on_bucket_def cmd_script_load_def bindp_def Let_def)

theorem rate_limit_bounds_witness:
  "real (granted ''a'' (serve (\<lambda>_. 1) (\<lambda>_. 60) [(''a'', 0), (''b'', 1), (''a'', 2), (''a'', 60002)] demo_limiter)) \<le> 2.1"
  using rate_limit_bounds [of demo_limiter "''a''" 0 "[(''a'', 0), (''b'', 1), (''a'', 2), (''a'', 60002)]" "\<lambda>_. 1" "\<lambda>_. 60"]
    demo_limiter_ready by simp

text \<open>A limiter that fails open refuses only a request over the limit, and one error switches it
  off for good: nothing sets \<open>available_\<close> again.\<close>

theorem limiter_never_comes_back:
  assumes "rl_enabled (lm_config l)" "0 < c" "0 < w" "limiter_isAvailable l"
    and "bs_script (lm_server l)" "bs_faults (lm_server l) = [CmdRefused (RedisTimeout ''timeout'')]" "rl_fail_open (lm_config l)"
  shows "let l' = snd (tryAcquire k c w t l) in fst (tryAcquire k c w t l) = Inr () \<and>
     (\<forall>k' c' w' t'. tryAcquire k' c' w' t' l' = (Inr (), l'))"
proof -
  have "\<not> looksLikeNoScript (RedisTimeout ''timeout'')" by code_simp
  then show ?thesis
    using assms by (simp add: tryAcquire_def evalTokenBucket_def on_bucket_def bs_exec_def Let_def limiter_isAvailable_def)
qed

end
