(* ===== verification/Image_Service.thy ===== *)
theory Image_Service
  imports Task_Engine Rate_Limiter
begin

text \<open>
  \<open>Backend/src/services/image_service.cpp\<close>: what a signed-in user can do with image tasks. Each
  operation is a program over the shared state with a service error or a result; an exception that
  leaves it is the caller's. The service uses the repository, the storage, the cache it was given,
  the event hub and the task engine. Random draws are arguments.
\<close>

section \<open>Requests\<close>

text \<open>\<open>std::format("img-{}-{:x}", millis, rand)\<close>.\<close>

definition buildRequestId :: "time_point \<Rightarrow> 64 word \<Rightarrow> string" where
  "buildRequestId now rand = ''img-'' @ fmt_int (now div 1000000) @ CHR ''-'' # fmt_hex (unat rand)"

definition kPromptMinLength :: nat where "kPromptMinLength = 3"
definition kPromptMaxLength :: nat where "kPromptMaxLength = 1000"
definition kNegativePromptMaxLength :: nat where "kNegativePromptMaxLength = 500"
definition kMinImageSize :: int where "kMinImageSize = 512"
definition kMaxImageSize :: int where "kMaxImageSize = 2048"
definition kImageSizeStep :: int where "kImageSizeStep = 64"
definition kMinNumSteps :: int where "kMinNumSteps = 1"
definition kMaxNumSteps :: int where "kMaxNumSteps = 50"
definition kMaxRequestIdLength :: nat where "kMaxRequestIdLength = 64"

lemmas request_limits = kPromptMinLength_def kPromptMaxLength_def kNegativePromptMaxLength_def kMinImageSize_def
  kMaxImageSize_def kImageSizeStep_def kMinNumSteps_def kMaxNumSteps_def kMaxRequestIdLength_def

definition isValidRequestId :: "string \<Rightarrow> bool" where
  "isValidRequestId s \<longleftrightarrow> s \<noteq> [] \<and> length s \<le> kMaxRequestIdLength \<and> is_alnum (hd s) \<and>
     list_all (\<lambda>c. is_alnum c \<or> c = CHR ''_'' \<or> c = CHR ''-'') s"

definition trimmed_request :: "image_generation \<Rightarrow> image_generation" where
  "trimmed_request g = g\<lparr>img_prompt := trim (img_prompt g), img_negative_prompt := trim (img_negative_prompt g),
     img_request_id := trim (img_request_id g)\<rparr>"

definition bad_size :: "int \<Rightarrow> bool" where
  "bad_size n \<longleftrightarrow> n < kMinImageSize \<or> n > kMaxImageSize \<or> n mod kImageSizeStep \<noteq> 0"

text \<open>The checks on a trimmed record, in their order.\<close>

definition request_error :: "image_generation \<Rightarrow> service_error option" where
  "request_error g =
     (if img_request_id g \<noteq> [] \<and> \<not> isValidRequestId (img_request_id g) then
        Some (mk_error 400 ''invalid_request_id'' ''request_id must match ^[A-Za-z0-9][A-Za-z0-9_-]{0,63}$'')
      else if img_prompt g = [] then Some (mk_error 400 ''prompt_required'' ''prompt is required'')
      else if length (img_prompt g) < kPromptMinLength \<or> length (img_prompt g) > kPromptMaxLength then
        Some (mk_error 400 ''invalid_prompt_length'' (''prompt length must be between '' @ fmt_nat kPromptMinLength @
          '' and '' @ fmt_nat kPromptMaxLength @ '' characters''))
      else if length (img_negative_prompt g) > kNegativePromptMaxLength then
        Some (mk_error 400 ''invalid_negative_prompt_length'' (''negative_prompt must be at most '' @
          fmt_nat kNegativePromptMaxLength @ '' characters''))
      else if img_num_steps g < kMinNumSteps \<or> img_num_steps g > kMaxNumSteps then
        Some (mk_error 400 ''invalid_num_steps'' (''num_steps must be between '' @ fmt_int kMinNumSteps @ '' and '' @
          fmt_int kMaxNumSteps))
      else if bad_size (img_width g) then
        Some (mk_error 400 ''invalid_width'' (''width must be between '' @ fmt_int kMinImageSize @ '' and '' @
          fmt_int kMaxImageSize @ '' and a multiple of '' @ fmt_int kImageSizeStep))
      else if bad_size (img_height g) then
        Some (mk_error 400 ''invalid_height'' (''height must be between '' @ fmt_int kMinImageSize @ '' and '' @
          fmt_int kMaxImageSize @ '' and a multiple of '' @ fmt_int kImageSizeStep))
      else (case img_seed g of
          Some n \<Rightarrow> if n < 0 then Some (mk_error 400 ''invalid_seed'' ''seed must be >= 0'') else None
        | None \<Rightarrow> None))"

definition validateGenerationParams :: "image_generation \<Rightarrow> service_error option \<times> image_generation" where
  "validateGenerationParams g = (let g' = trimmed_request g in (request_error g', g'))"

definition maxActiveTasksPerUser :: "exn + json \<Rightarrow> int" where
  "maxActiveTasksPerUser config = (case bindr config loadRateLimitConfig of
      Inl e \<Rightarrow> rl_max_active_tasks_per_user default_rate_config
    | Inr c \<Rightarrow> rl_max_active_tasks_per_user c)"

section \<open>Addresses and the cache\<close>

definition presignWithCache :: "('c, 'x) externals_scheme \<Rightarrow> string \<Rightarrow> ('c world, string) prog" where
  "presignWithCache x storageKey =
     (if storageKey = [] then ret []
      else if x_presign_ttl x \<le> 0 then lift_sum (storage_presignUrl (x_storage x) storageKey)
      else bindp (on_cache (ci_get (x_cache x) (presignKey storageKey))) (\<lambda>cached. case cached of
          Some url \<Rightarrow> ret url
        | None \<Rightarrow> bindp (lift_sum (storage_presignUrl (x_storage x) storageKey)) (\<lambda>url.
            bindp (if url = [] then ret False
                   else on_cache (ci_setex (x_cache x) (presignKey storageKey) url (x_presign_ttl x))) (\<lambda>_. ret url))))"

fun presignListImagesInPlace :: "('c, 'x) externals_scheme \<Rightarrow> image_generation list \<Rightarrow>
    ('c world, image_generation list) prog" where
  "presignListImagesInPlace x [] = ret []"
| "presignListImagesInPlace x (g # gs) =
     bindp (if img_storage_key g = [] then ret g
            else catch_all (bindp (presignWithCache x (img_storage_key g)) (\<lambda>url. ret (g\<lparr>img_image_url := url\<rparr>)))
              (\<lambda>_. ret g)) (\<lambda>g'.
     bindp (presignListImagesInPlace x gs) (\<lambda>gs'. ret (g' # gs')))"

definition presignInPlace :: "('c, 'x) externals_scheme \<Rightarrow> image_generation \<Rightarrow> ('c world, image_generation) prog" where
  "presignInPlace x g = catch_std
     (bindp (presignWithCache x (img_storage_key g)) (\<lambda>url. ret (g\<lparr>img_image_url := url\<rparr>))) (\<lambda>_. ret g)"

definition cacheable :: "image_generation \<Rightarrow> image_generation" where
  "cacheable g = g\<lparr>img_image_bytes := [], img_image_url := []\<rparr>"

definition writeToCache :: "('c, 'x) externals_scheme \<Rightarrow> string \<Rightarrow> image_generation \<Rightarrow> ('c world, unit) prog" where
  "writeToCache x key g = catch_std
     (bindp (lift_sum (x_dump x (toJson (cacheable g)))) (\<lambda>s.
      bindp (on_cache (ci_setex (x_cache x) key s
        (if isTerminal (img_status g) then ttl_kMetaTerminal else ttl_kMetaInflight))) (\<lambda>_. ret ())))
     (\<lambda>_. ret ())"

record image_list =
  il_content :: "image_generation list"
  il_total :: int

definition list_json :: "image_list \<Rightarrow> json" where
  "list_json r = JObj [(''total_elements'', JInt (il_total r)),
     (''content'', JArr (map (toJson \<circ> cacheable) (il_content r)))]"

definition writeListCache :: "('c, 'x) externals_scheme \<Rightarrow> int \<Rightarrow> string \<Rightarrow> image_list \<Rightarrow> ('c world, unit) prog" where
  "writeListCache x drawn key r = catch_std
     (bindp (lift_sum (x_dump x (list_json r))) (\<lambda>s.
      bindp (on_cache (ci_setex (x_cache x) key s (listTtlWithJitter drawn))) (\<lambda>_. ret ())))
     (\<lambda>_. ret ())"

definition invalidateListCacheFor :: "('c, 'x) externals_scheme \<Rightarrow> int \<Rightarrow> ('c world, unit) prog" where
  "invalidateListCacheFor x userId =
     bindp (on_cache (ci_bumpVersion (x_cache x) kListVersionNamespace (fmt_int userId))) (\<lambda>_. ret ())"

section \<open>Errors\<close>

definition with_detail :: "string \<Rightarrow> json \<Rightarrow> service_error \<Rightarrow> service_error" where
  "with_detail k v e = e\<lparr>se_details := jput k v (se_details e)\<rparr>"

definition with_status :: "task_status \<Rightarrow> service_error \<Rightarrow> service_error" where
  "with_status st = with_detail ''status'' (JStr (statusToString st))"

text \<open>\<open>repo_->findByIdAndUserId(id, userId)\<close> with its error and its null.\<close>

definition with_task :: "int \<Rightarrow> int \<Rightarrow> service_error \<Rightarrow> (image_generation \<Rightarrow> ('c world, service_error + 'b) prog) \<Rightarrow>
    ('c world, service_error + 'b) prog" where
  "with_task userId i missing k =
     bindp (timed_db (\<lambda>now. findByIdAndUserId now i userId)) (\<lambda>r. repo_ok r (\<lambda>current. case current of
        None \<Rightarrow> deny missing | Some g \<Rightarrow> k g))"

section \<open>Creating a task\<close>

definition new_task :: "int \<Rightarrow> time_point \<Rightarrow> string \<Rightarrow> image_generation \<Rightarrow> image_generation" where
  "new_task userId now requestId g = g\<lparr>img_user_id := userId, img_created_at := now, img_request_id := requestId,
     img_status := Queued, img_error_message := [], img_completed_at := None, img_image_url := [],
     img_image_bytes := [], img_generation_time := 0\<rparr>"

definition quota_check :: "('c, 'x) externals_scheme \<Rightarrow> int \<Rightarrow> bool \<Rightarrow> ('c world, service_error + unit) prog" where
  "quota_check x userId isAdmin = (let maxActive = maxActiveTasksPerUser (x_config x) in
     if \<not> isAdmin \<and> maxActive > 0 then
       bindp (on_db (countActiveTasksByUserId userId)) (\<lambda>r. repo_ok r (\<lambda>activeTasks.
         if activeTasks \<ge> maxActive then
           deny (with_detail ''activeTasks'' (JInt activeTasks) (with_detail ''maxActiveTasks'' (JInt maxActive)
             (tooManyRequests ''too_many_active_tasks''
               (''too many active image tasks, limit is '' @ fmt_int maxActive))))
         else ret (Inr ())))
     else ret (Inr ()))"

text \<open>What follows the insertion; an exception here becomes an error although the row is stored.\<close>

definition announce :: "('c, 'x) externals_scheme \<Rightarrow> int \<Rightarrow> image_generation \<Rightarrow> ('c world, service_error + image_generation) prog" where
  "announce x userId g = catch_std
     (bindp (publish x g) (\<lambda>_.
      bindp (writeToCache x (metaKey userId (img_id g)) g) (\<lambda>_.
      bindp (invalidateListCacheFor x userId) (\<lambda>_.
      bindp (TaskEngine_enqueue (loadTaskEngineConfig (x_config x)) (img_id g)) (\<lambda>_. ret (Inr g))))))
     (\<lambda>_. deny (mk_error 500 ''image_task_enqueue_failed'' ''failed to enqueue image task''))"

definition insert_task :: "('c, 'x) externals_scheme \<Rightarrow> int \<Rightarrow> image_generation \<Rightarrow> ('c world, service_error + image_generation) prog" where
  "insert_task x userId g =
     bindp (timed_db (\<lambda>now. findByRequestIdAndUserId now (img_request_id g) userId)) (\<lambda>r. repo_ok r (\<lambda>existing.
       case existing of
         Some old \<Rightarrow> ret (Inr old)
       | None \<Rightarrow> bindp (timed_db (\<lambda>now. repo_insert now g)) (\<lambda>r. repo_ok r (\<lambda>insertedId.
           bindp (record_status (img_status g)) (\<lambda>_. announce x userId (g\<lparr>img_id := insertedId\<rparr>))))))"

definition svc_create :: "('c, 'x) externals_scheme \<Rightarrow> 64 word \<Rightarrow> int \<Rightarrow> json \<Rightarrow> bool \<Rightarrow>
    ('c world, service_error + image_generation) prog" where
  "svc_create x rand userId payload isAdmin =
     (if userId \<le> 0 then deny unauthorized
      else case validateGenerationParams (fromJson payload) of
          (Some e, g) \<Rightarrow> deny e
        | (None, g) \<Rightarrow> bindp (quota_check x userId isAdmin) (\<lambda>q. case q of
            Inl e \<Rightarrow> deny e
          | Inr _ \<Rightarrow> bindp clock (\<lambda>now.
              bindp (if img_request_id g = [] then bindp clock (\<lambda>t. ret (buildRequestId t rand)) else ret (img_request_id g))
                (\<lambda>rid. insert_task x userId (new_task userId now rid g)))))"

section \<open>Lists\<close>

text \<open>The elements a range-for over a JSON value visits; \<open>content\<close> is \<open>[]\<close> when it is missing.\<close>

fun json_items :: "json \<Rightarrow> json list" where
  "json_items (JArr js) = js"
| "json_items (JObj kvs) = map snd kvs"
| "json_items JNull = []"
| "json_items j = [j]"

definition parse_list :: "('c, 'x) externals_scheme \<Rightarrow> string \<Rightarrow> exn + image_list" where
  "parse_list x s =
     bindr (x_parse x s) (\<lambda>j.
     bindr (jvalue as_int64 j ''total_elements'' 0) (\<lambda>n.
     bindr (jvalue Inr j ''content'' (JArr [])) (\<lambda>c.
     Inr \<lparr>il_content = map fromJson (json_items c), il_total = n\<rparr>)))"

text \<open>The cached list, or none; a value that does not parse is evicted.\<close>

definition list_from_cache :: "('c, 'x) externals_scheme \<Rightarrow> string \<Rightarrow> ('c world, image_list option) prog" where
  "list_from_cache x key = bindp (on_cache (ci_get (x_cache x) key)) (\<lambda>cached. case cached of
      None \<Rightarrow> ret None
    | Some s \<Rightarrow> catch_std
        (bindp (lift_sum (parse_list x s)) (\<lambda>l.
         bindp (presignListImagesInPlace x (il_content l)) (\<lambda>gs. ret (Some (l\<lparr>il_content := gs\<rparr>)))))
        (\<lambda>_. bindp (on_cache (ci_del (x_cache x) key)) (\<lambda>_. ret None)))"

definition list_from_repo :: "('c, 'x) externals_scheme \<Rightarrow> int \<Rightarrow> string \<Rightarrow> (time_point \<Rightarrow> image_db \<Rightarrow> (repo_error + image_page) \<times> image_db) \<Rightarrow>
    ('c world, service_error + image_list) prog" where
  "list_from_repo x drawn key query = bindp (timed_db query) (\<lambda>r. repo_ok r (\<lambda>pg.
     let l = \<lparr>il_content = page_content pg, il_total = page_total pg\<rparr> in
     bindp (writeListCache x drawn key l) (\<lambda>_.
     bindp (presignListImagesInPlace x (il_content l)) (\<lambda>gs. ret (Inr (l\<lparr>il_content := gs\<rparr>))))))"

definition svc_listMy :: "('c, 'x) externals_scheme \<Rightarrow> int \<Rightarrow> int \<Rightarrow> int \<Rightarrow> int \<Rightarrow> ('c world, service_error + image_list) prog" where
  "svc_listMy x drawn userId page sz =
     (if userId \<le> 0 then deny unauthorized
      else let p = key_normalizePage page; z = key_normalizeSize sz in
        bindp (on_cache (ci_getVersion (x_cache x) kListVersionNamespace (fmt_int userId))) (\<lambda>version.
        let key = listMyKey userId version p z in
        bindp (list_from_cache x key) (\<lambda>hit. case hit of
            Some l \<Rightarrow> ret (Inr l)
          | None \<Rightarrow> list_from_repo x drawn key (\<lambda>now. findByUserId now userId p z))))"

definition svc_listMyByStatus :: "('c, 'x) externals_scheme \<Rightarrow> int \<Rightarrow> int \<Rightarrow> string \<Rightarrow> int \<Rightarrow> int \<Rightarrow>
    ('c world, service_error + image_list) prog" where
  "svc_listMyByStatus x drawn userId status page sz =
     (if userId \<le> 0 then deny unauthorized
      else let target = normalizeTaskStatus status; p = key_normalizePage page; z = key_normalizeSize sz in
        bindp (on_cache (ci_getVersion (x_cache x) kListVersionNamespace (fmt_int userId))) (\<lambda>version.
        let key = listMyStatusKey userId version target p z in
        bindp (list_from_cache x key) (\<lambda>hit. case hit of
            Some l \<Rightarrow> ret (Inr l)
          | None \<Rightarrow> list_from_repo x drawn key (\<lambda>now. findByUserIdAndStatus now userId target p z))))"

section \<open>One task\<close>

definition image_not_found :: service_error where
  "image_not_found = mk_error 404 ''image_not_found'' ''image not found''"

definition task_not_found :: service_error where
  "task_not_found = mk_error 404 ''task_not_found'' ''task not found''"

text \<open>A cached record: missing, known to be absent, or an image.\<close>

datatype cached_image = CacheMiss | CachedAbsent | CachedImage image_generation

definition image_from_cache :: "('c, 'x) externals_scheme \<Rightarrow> string \<Rightarrow> bool \<Rightarrow> ('c world, cached_image) prog" where
  "image_from_cache x key includeImagePayload = bindp (on_cache (ci_get (x_cache x) key)) (\<lambda>cached. case cached of
      None \<Rightarrow> ret CacheMiss
    | Some s \<Rightarrow> if s = kNullMarker then ret CachedAbsent
        else catch_std
          (bindp (lift_sum (x_parse x s)) (\<lambda>j. let g = fromJson j in
           bindp (if includeImagePayload \<and> img_storage_key g \<noteq> [] then presignInPlace x g else ret g) (\<lambda>g'. ret (CachedImage g'))))
          (\<lambda>_. bindp (on_cache (ci_del (x_cache x) key)) (\<lambda>_. ret CacheMiss)))"

definition image_from_repo :: "('c, 'x) externals_scheme \<Rightarrow> string \<Rightarrow> int \<Rightarrow> int \<Rightarrow> bool \<Rightarrow> ('c world, service_error + image_generation) prog" where
  "image_from_repo x key userId i includeImagePayload =
     bindp (timed_db (\<lambda>now. findByIdAndUserId now i userId)) (\<lambda>r. repo_ok r (\<lambda>found. case found of
         None \<Rightarrow> bindp (on_cache (ci_setex (x_cache x) key kNullMarker ttl_kNullMarker)) (\<lambda>_. deny image_not_found)
       | Some g \<Rightarrow> bindp (writeToCache x key g) (\<lambda>_.
           bindp (if includeImagePayload \<and> img_storage_key g \<noteq> [] then presignInPlace x g else ret g) (\<lambda>g'. ret (Inr g')))))"

definition svc_getById :: "('c, 'x) externals_scheme \<Rightarrow> int \<Rightarrow> int \<Rightarrow> bool \<Rightarrow> ('c world, service_error + image_generation) prog" where
  "svc_getById x userId i includeImagePayload =
     (if userId \<le> 0 then deny unauthorized
      else let key = metaKey userId i in
        bindp (image_from_cache x key includeImagePayload) (\<lambda>c. case c of
            CachedAbsent \<Rightarrow> deny image_not_found
          | CachedImage g \<Rightarrow> ret (Inr g)
          | CacheMiss \<Rightarrow> image_from_repo x key userId i includeImagePayload))"

text \<open>After a cancellation the task leaves the queue, whatever Redis answers.\<close>

definition forget_in_redis :: "int \<Rightarrow> ('c world, unit) prog" where
  "forget_in_redis i = catch_all
     (when_redis (bindp (on_redis (removeFromQueue i)) (\<lambda>_. bindp (on_redis (forceReleaseLease i)) (\<lambda>_. ret ()))) (ret ()))
     (\<lambda>_. ret ())"

definition svc_cancelById :: "('c, 'x) externals_scheme \<Rightarrow> int \<Rightarrow> int \<Rightarrow> ('c world, service_error + image_generation) prog" where
  "svc_cancelById x userId i =
     (if userId \<le> 0 then deny unauthorized
      else with_task userId i task_not_found (\<lambda>current.
        if \<not> canCancel (img_status current) then
          deny (with_status (img_status current)
            (mk_error 400 ''task_cancel_not_allowed'' ''task is already completed and cannot be cancelled''))
        else bindp (timed_db (\<lambda>now. cancelByIdAndUserId now i userId)) (\<lambda>r. repo_ok r (\<lambda>updated. case updated of
            None \<Rightarrow> deny (mk_error 409 ''task_cancel_conflict'' ''task cannot be canceled'')
          | Some g \<Rightarrow> catch_std
              (bindp (forget_in_redis i) (\<lambda>_.
               bindp (publish x g) (\<lambda>_.
               bindp (record_status (img_status g)) (\<lambda>_.
               bindp (on_cache (ci_del (x_cache x) (metaKey userId i))) (\<lambda>_.
               bindp (invalidateListCacheFor x userId) (\<lambda>_. ret (Inr g)))))))
              (\<lambda>_. deny (mk_error 500 ''task_cancel_failed'' ''failed to cancel task''))))))"

definition svc_retryById :: "('c, 'x) externals_scheme \<Rightarrow> int \<Rightarrow> int \<Rightarrow> ('c world, service_error + image_generation) prog" where
  "svc_retryById x userId i =
     (if userId \<le> 0 then deny unauthorized
      else with_task userId i task_not_found (\<lambda>current.
        if \<not> canRetry (img_status current) (img_retry_count current) (img_max_retries current) then
          deny (with_detail ''maxRetries'' (JInt (img_max_retries current))
            (with_detail ''retryCount'' (JInt (img_retry_count current)) (with_status (img_status current)
              (mk_error 409 ''task_retry_not_allowed'' ''only failed, timeout or canceled tasks can be retried''))))
        else bindp (timed_db (\<lambda>now. retryByIdAndUserId now i userId)) (\<lambda>r. repo_ok r (\<lambda>updated. case updated of
            None \<Rightarrow> deny (mk_error 409 ''task_retry_conflict'' ''task cannot be retried'')
          | Some g \<Rightarrow> catch_std
              (bindp (publish x g) (\<lambda>_.
               bindp (record_status (img_status g)) (\<lambda>_.
               bindp (on_cache (ci_del (x_cache x) (metaKey userId i))) (\<lambda>_.
               bindp (invalidateListCacheFor x userId) (\<lambda>_.
               bindp (TaskEngine_enqueue (loadTaskEngineConfig (x_config x)) i) (\<lambda>_. ret (Inr g)))))))
              (\<lambda>_. deny (mk_error 500 ''task_retry_failed'' ''failed to retry task''))))))"

record image_binary =
  ib_body :: string
  ib_content_type :: string

definition svc_getBinaryById :: "('c, 'x) externals_scheme \<Rightarrow> int \<Rightarrow> int \<Rightarrow> ('c world, service_error + image_binary) prog" where
  "svc_getBinaryById x userId i =
     (if userId \<le> 0 then deny unauthorized
      else with_task userId i image_not_found (\<lambda>g.
        if \<not> canReturnBinary (img_status g) (img_storage_key g) then
          deny (with_status (img_status g) (mk_error 409 ''image_binary_not_ready'' ''image binary is not ready''))
        else catch_std
          (bindp (on_objects (storage_getBytes (x_storage x) (img_storage_key g))) (\<lambda>bytes. case bytes of
              None \<Rightarrow> deny (with_detail ''storageKey'' (JStr (img_storage_key g))
                (mk_error 500 ''image_storage_read_failed'' ''failed to load image binary''))
            | Some b \<Rightarrow> ret (Inr \<lparr>ib_body = b, ib_content_type = contentTypeForKey (img_storage_key g)\<rparr>)))
          (\<lambda>_. deny (mk_error 500 ''image_storage_read_failed'' ''failed to load image binary''))))"

definition svc_deleteById :: "('c, 'x) externals_scheme \<Rightarrow> int \<Rightarrow> int \<Rightarrow> ('c world, service_error + unit) prog" where
  "svc_deleteById x userId i =
     (if userId \<le> 0 then deny unauthorized
      else with_task userId i image_not_found (\<lambda>g.
        if \<not> canDelete (img_status g) then
          deny (with_status (img_status g) (mk_error 400 ''task_delete_not_allowed'' ''only completed tasks can be deleted''))
        else bindp (on_db (deleteByIdAndUserId i userId)) (\<lambda>r. repo_ok r (\<lambda>deleted.
          if \<not> deleted then deny (mk_error 409 ''task_delete_conflict'' ''task cannot be deleted in its current state'')
          else catch_std
            (bindp (if img_storage_key g = [] then ret ()
                    else catch_std (bindp (on_objects (storage_remove (x_storage x) (img_storage_key g))) (\<lambda>_. ret ())) (\<lambda>_. ret ())) (\<lambda>_.
             bindp (on_cache (ci_del (x_cache x) (metaKey userId i))) (\<lambda>_.
             bindp (if img_storage_key g = [] then ret False
                    else on_cache (ci_del (x_cache x) (presignKey (img_storage_key g)))) (\<lambda>_.
             bindp (invalidateListCacheFor x userId) (\<lambda>_. ret (Inr ()))))))
            (\<lambda>_. deny (mk_error 500 ''image_delete_failed'' ''failed to delete image''))))))"

text \<open>The start: \<open>setPresignTtl\<close> and \<open>bootstrapWorkers\<close>, which the process calls before it serves
  requests. The cache that \<open>setDefaultCache\<close> installs is \<open>x_cache\<close>.\<close>

definition setPresignTtl :: "int \<Rightarrow> ('c, 'x) externals_scheme \<Rightarrow> ('c, 'x) externals_scheme" where
  "setPresignTtl ttl x = x\<lparr>x_presign_ttl := ttl\<rparr>"

definition bootstrapWorkers :: "('c, 'x) externals_scheme \<Rightarrow> ('c world, unit) prog" where
  "bootstrapWorkers x = engine_bootstrap (loadTaskEngineConfig (x_config x))"

definition svc_checkHealth :: "('c, 'x) externals_scheme \<Rightarrow> ('c world, health_result) prog" where
  "svc_checkHealth x = checkHealth x"

end
