(* ===== verification/World_Facts.thy ===== *)
theory World_Facts
  imports World Image_Repo_Facts
begin

text \<open>
  How a program over the shared state treats the table of tasks: it changes the database by a
  sequence of repository operations, each of an allowed kind. What every repository operation of
  the kind keeps is then kept by the program, whatever statements fail.
\<close>

definition db_by :: "(repo_op \<Rightarrow> bool) \<Rightarrow> ('c world, 'a) prog \<Rightarrow> bool" where
  "db_by P m \<longleftrightarrow> (\<forall>w. \<exists>ops. list_all P ops \<and> w_db (snd (m w)) = run_ops ops (w_db w))"

named_theorems db_by_intros \<open>rules for the repository operations of a program\<close>

lemma run_ops_append: "run_ops (xs @ ys) db = run_ops ys (run_ops xs db)"
  by (induction xs arbitrary: db) simp_all

lemma db_byI: "(\<And>w. \<exists>ops. list_all P ops \<and> w_db (snd (m w)) = run_ops ops (w_db w)) \<Longrightarrow> db_by P m"
  by (simp add: db_by_def)

lemma db_byD: "db_by P m \<Longrightarrow> m w = (r, w') \<Longrightarrow> \<exists>ops. list_all P ops \<and> w_db w' = run_ops ops (w_db w)"
  by (metis db_by_def snd_conv)

lemma db_byE:
  assumes "db_by P m" "m w = (r, w')"
  obtains ops where "list_all P ops" "w_db w' = run_ops ops (w_db w)"
  using db_byD [OF assms] by blast

lemma db_by_leaves: "leaves w_db m \<Longrightarrow> db_by P m"
  by (rule db_byI, rule exI [of _ "[]"]) (simp add: leaves_def)

lemma db_by_op: "(\<And>db. snd (f db) = run_op op db) \<Longrightarrow> P op \<Longrightarrow> db_by P (on_db f)"
  by (rule db_byI, rule exI [of _ "[op]"]) (simp add: on_db_def split_beta)

lemma db_by_mono: "db_by P m \<Longrightarrow> (\<And>op. P op \<Longrightarrow> Q op) \<Longrightarrow> db_by Q m"
  unfolding db_by_def by (metis (mono_tags, lifting) list.pred_mono_strong)

text \<open>Any use of the result of a part is allowed: the continuation is bounded for every result.\<close>

lemma db_by_seq:
  assumes "db_by P m" "m w = (r, w')" "\<And>w'. w' = snd (m w) \<Longrightarrow> \<exists>ops. list_all P ops \<and> w_db (t w') = run_ops ops (w_db w')"
  shows "\<exists>ops. list_all P ops \<and> w_db (t w') = run_ops ops (w_db w)"
proof -
  obtain xs where "list_all P xs" "w_db w' = run_ops xs (w_db w)" using db_byE [OF assms(1,2)] .
  moreover obtain ys where "list_all P ys" "w_db (t w') = run_ops ys (w_db w')"
    using assms(3) [of w'] assms(2) by auto
  ultimately have "list_all P (xs @ ys) \<and> w_db (t w') = run_ops (xs @ ys) (w_db w)"
    by (simp add: run_ops_append)
  then show ?thesis by blast
qed

lemma db_by_bindp [db_by_intros]:
  assumes "db_by P m" "\<And>x. db_by P (k x)"
  shows "db_by P (bindp m k)"
proof (rule db_byI)
  fix w
  obtain r w' where m: "m w = (r, w')" by fastforce
  show "\<exists>ops. list_all P ops \<and> w_db (snd (bindp m k w)) = run_ops ops (w_db w)"
  proof (cases r)
    case (Inl e)
    then show ?thesis using m db_byD [OF assms(1) m] by simp
  next
    case (Inr x)
    have "\<exists>ops. list_all P ops \<and> w_db (snd (k x w')) = run_ops ops (w_db w)"
      by (rule db_by_seq [OF assms(1) m, of "\<lambda>w. snd (k x w)"]) (use assms(2) in \<open>simp add: db_by_def\<close>)
    then show ?thesis using m Inr by simp
  qed
qed

lemma db_by_catch_std [db_by_intros]:
  assumes "db_by P m" "\<And>e. db_by P (h e)"
  shows "db_by P (catch_std m h)"
proof (rule db_byI)
  fix w
  obtain r w' where m: "m w = (r, w')" by fastforce
  have h: "\<exists>ops. list_all P ops \<and> w_db (snd (h e w')) = run_ops ops (w_db w)" for e
    by (rule db_by_seq [OF assms(1) m, of "\<lambda>w. snd (h e w)"]) (use assms(2) in \<open>simp add: db_by_def\<close>)
  from db_byD [OF assms(1) m] h m show "\<exists>ops. list_all P ops \<and> w_db (snd (catch_std m h w)) = run_ops ops (w_db w)"
    by (cases r) (auto simp: catch_std_def)
qed

lemma db_by_catch_all [db_by_intros]:
  assumes "db_by P m" "\<And>e. db_by P (h e)"
  shows "db_by P (catch_all m h)"
proof (rule db_byI)
  fix w
  obtain r w' where m: "m w = (r, w')" by fastforce
  have h: "\<exists>ops. list_all P ops \<and> w_db (snd (h e w')) = run_ops ops (w_db w)" for e
    by (rule db_by_seq [OF assms(1) m, of "\<lambda>w. snd (h e w)"]) (use assms(2) in \<open>simp add: db_by_def\<close>)
  from db_byD [OF assms(1) m] h m show "\<exists>ops. list_all P ops \<and> w_db (snd (catch_all m h w)) = run_ops ops (w_db w)"
    by (cases r) (auto simp: catch_all_def)
qed

lemma db_by_if [db_by_intros]: "(b \<Longrightarrow> db_by P m) \<Longrightarrow> (\<not> b \<Longrightarrow> db_by P n) \<Longrightarrow> db_by P (if b then m else n)"
  by simp

lemma db_by_bool [db_by_intros]:
  "db_by P m \<Longrightarrow> db_by P n \<Longrightarrow> db_by P (case b of True \<Rightarrow> m | False \<Rightarrow> n)"
  by (cases b) simp_all

lemma db_by_option [db_by_intros]:
  "(v = None \<Longrightarrow> db_by P m) \<Longrightarrow> (\<And>x. v = Some x \<Longrightarrow> db_by P (k x)) \<Longrightarrow> db_by P (case v of None \<Rightarrow> m | Some x \<Rightarrow> k x)"
  by (cases v) simp_all

lemma db_by_sum [db_by_intros]:
  "(\<And>x. v = Inl x \<Longrightarrow> db_by P (h x)) \<Longrightarrow> (\<And>x. v = Inr x \<Longrightarrow> db_by P (k x)) \<Longrightarrow>
     db_by P (case v of Inl x \<Rightarrow> h x | Inr x \<Rightarrow> k x)"
  by (cases v) simp_all

lemma db_by_prod [db_by_intros]:
  "(\<And>x y. db_by P (k x y)) \<Longrightarrow> db_by P (case v of (x, y) \<Rightarrow> k x y)"
  by (cases v) simp

lemma db_by_Let [db_by_intros]: "db_by P (f x) \<Longrightarrow> db_by P (Let x f)"
  by (simp add: Let_def)

lemma db_by_plain [db_by_intros]:
  "db_by P (ret x)" "db_by P (throw e)" "db_by P (lift_sum r)" "db_by P (on_redis f2)" "db_by P (on_cache f3)"
  "db_by P (on_hub f4)" "db_by P (on_metrics f5)" "db_by P (on_objects f6)" "db_by P (on_http f7)"
  "db_by P (on_engine f8)" "db_by P clock"
  by (rule db_by_leaves, intro leaves_intros)+

lemma db_by_repo [db_by_intros]:
  "P (OpInsert t g) \<Longrightarrow> db_by P (on_db (repo_insert t g))"
  "P (OpPage t u p s) \<Longrightarrow> db_by P (on_db (findByUserId t u p s))"
  "P (OpPageStatus t u st p s) \<Longrightarrow> db_by P (on_db (findByUserIdAndStatus t u st p s))"
  "P (OpFind t i u) \<Longrightarrow> db_by P (on_db (findByIdAndUserId t i u))"
  "P (OpFindRequest t q u) \<Longrightarrow> db_by P (on_db (findByRequestIdAndUserId t q u))"
  "P (OpCount u) \<Longrightarrow> db_by P (on_db (countActiveTasksByUserId u))"
  "P (OpDelete i u) \<Longrightarrow> db_by P (on_db (deleteByIdAndUserId i u))"
  "P (OpClaimNext t v l) \<Longrightarrow> db_by P (on_db (claimNextTask t v l))"
  "P (OpClaim t i v l) \<Longrightarrow> db_by P (on_db (claimTaskById t i v l))"
  "P OpQueuedIds \<Longrightarrow> db_by P (on_db findQueuedTaskIds)"
  "P (OpRenew t i u v l) \<Longrightarrow> db_by P (on_db (renewLease t i u v l))"
  "P (OpFinish g) \<Longrightarrow> db_by P (on_db (finishClaimedTask g))"
  "P (OpDefer i u v c m) \<Longrightarrow> db_by P (on_db (deferClaimedTaskForModelHealth i u v c m))"
  "P (OpCancel t i u) \<Longrightarrow> db_by P (on_db (cancelByIdAndUserId t i u))"
  "P (OpRetry t i u) \<Longrightarrow> db_by P (on_db (retryByIdAndUserId t i u))"
  "P (OpExpireReport t t') \<Longrightarrow> db_by P (on_db (expireLeasesReturningExpired t t'))"
  by (rule db_by_op, rule run_op.simps [symmetric], assumption)+

text \<open>What the allowed operations keep, the program keeps.\<close>

lemma db_by_keeps:
  assumes "db_by P m" "\<And>op db. P op \<Longrightarrow> I db \<Longrightarrow> I (run_op op db)" "I (w_db w)"
  shows "I (w_db (snd (m w)))"
proof -
  obtain ops where ops: "list_all P ops" "w_db (snd (m w)) = run_ops ops (w_db w)"
    using assms(1) by (auto simp: db_by_def)
  have "I (run_ops ops db)" if "I db" for db
    using ops(1) that assms(2) by (induction ops arbitrary: db) simp_all
  then show ?thesis using ops(2) assms(3) by simp
qed

section \<open>A concrete state\<close>

definition demo_x :: "unit externals" where
  "demo_x = \<lparr>x_config = Inl (StdExn ''no configuration''), x_dump = (\<lambda>_. Inr ''{}''),
     x_parse = (\<lambda>_. Inl (StdExn ''parse_error'')), x_url_path = (\<lambda>_. None), x_presign = (\<lambda>_ _ _. None),
     x_cache = null_cache_if, x_presign_ttl = 3600\<rparr>"

definition demo_world :: "image_db \<Rightarrow> redis_client \<Rightarrow> unit world" where
  "demo_world db c = \<lparr>w_db = db, w_redis = c, w_cache = (), w_hub = new_hub, w_metrics = new_registry,
     w_objects = demo_objects, w_http = \<lparr>ne_answers = [], ne_sent = []\<rparr>,
     w_engine = \<lparr>en_started = False, en_workers = [], en_scanner = False\<rparr>, w_now = 0, w_ticks = []\<rparr>"

lemma demo_world_sel [simp]:
  "w_db (demo_world db c) = db" "w_redis (demo_world db c) = c" "w_now (demo_world db c) = 0"
  "x_config demo_x = Inl (StdExn ''no configuration'')" "x_dump demo_x j = Inr ''{}''"
  by (simp_all add: demo_world_def demo_x_def)

end
