(* ===== verification/Json_Text.thy ===== *)
theory Json_Text
  imports Event_Hub
begin

text \<open>
  When the serialiser of the JSON library answers: \<open>dump\<close> throws on a text that is not UTF-8 and on
  nothing else. The condition is named here as a law of the parameter, with UTF-8 as the table of
  RFC 3629, and it is shown which records the code prints meet it.
\<close>

section \<open>UTF-8\<close>

definition tail_byte :: "char \<Rightarrow> bool" where
  "tail_byte c \<longleftrightarrow> 128 \<le> cbyte c \<and> cbyte c < 192"

fun utf8 :: "string \<Rightarrow> bool" where
  "utf8 [] \<longleftrightarrow> True"
| "utf8 (a # s) \<longleftrightarrow>
     (if cbyte a < 128 then utf8 s
      else if 194 \<le> cbyte a \<and> cbyte a < 224 then (case s of b # r \<Rightarrow> tail_byte b \<and> utf8 r | _ \<Rightarrow> False)
      else if 224 \<le> cbyte a \<and> cbyte a < 240 then (case s of
          b # c # r \<Rightarrow> tail_byte b \<and> tail_byte c \<and> (cbyte a = 224 \<longrightarrow> 160 \<le> cbyte b) \<and> (cbyte a = 237 \<longrightarrow> cbyte b < 160) \<and> utf8 r
        | _ \<Rightarrow> False)
      else if 240 \<le> cbyte a \<and> cbyte a < 245 then (case s of
          b # c # d # r \<Rightarrow> tail_byte b \<and> tail_byte c \<and> tail_byte d \<and>
            (cbyte a = 240 \<longrightarrow> 144 \<le> cbyte b) \<and> (cbyte a = 244 \<longrightarrow> cbyte b < 144) \<and> utf8 r
        | _ \<Rightarrow> False)
      else False)"

fun utf8_json :: "json \<Rightarrow> bool" where
  "utf8_json (JStr s) \<longleftrightarrow> utf8 s"
| "utf8_json (JArr js) \<longleftrightarrow> list_all utf8_json js"
| "utf8_json (JObj kvs) \<longleftrightarrow> list_all (\<lambda>kv. utf8 (fst kv) \<and> utf8_json (snd kv)) kvs"
| "utf8_json _ \<longleftrightarrow> True"

definition writes_utf8 :: "(json \<Rightarrow> exn + string) \<Rightarrow> bool" where
  "writes_utf8 dump \<longleftrightarrow> (\<forall>j. utf8_json j \<longrightarrow> (\<exists>t. dump j = Inr t))"

lemma writes_utf8D: "writes_utf8 dump \<Longrightarrow> utf8_json j \<Longrightarrow> \<exists>t. dump j = Inr t"
  by (simp add: writes_utf8_def)

text \<open>Texts of seven-bit bytes.\<close>

definition ascii :: "string \<Rightarrow> bool" where
  "ascii s \<longleftrightarrow> list_all (\<lambda>c. cbyte c < 128) s"

lemma ascii_simps [simp]:
  "ascii []" "ascii (c # s) \<longleftrightarrow> cbyte c < 128 \<and> ascii s" "ascii (s @ t) \<longleftrightarrow> ascii s \<and> ascii t"
  by (simp_all add: ascii_def)

lemma ascii_utf8: "ascii s \<Longrightarrow> utf8 s"
  by (induction s) simp_all

lemma ascii_digits [simp]: "ascii (fmt_int_pad w n)"
  unfolding ascii_def list_all_iff by (auto dest!: fmt_int_pad_digits simp: is_digit_def)

lemma ascii_time [simp]: "ascii (toDbString t)"
  by (simp add: toDbString_def Let_def cbyte_def)

lemma ascii_status [simp]: "ascii (statusToString s)"
  by (cases s) (simp_all add: cbyte_def)

section \<open>Task updates\<close>

definition image_texts :: "image_generation \<Rightarrow> string list" where
  "image_texts g = [img_request_id g, img_prompt g, img_negative_prompt g, img_failure_code g, img_worker_id g,
     img_image_url g, img_error_message g, img_thumbnail_url g, img_storage_key g, img_image_bytes g]"

lemma utf8_keys:
  "list_all ascii [''type'', ''task'', ''image.task.updated'', ''id'', ''taskId'', ''userId'', ''requestId'', ''prompt'',
     ''negativePrompt'', ''numSteps'', ''height'', ''width'', ''status'', ''retryCount'', ''maxRetries'', ''failureCode'',
     ''workerId'', ''imageUrl'', ''errorMessage'', ''generationTime'', ''createdAt'', ''thumbnailUrl'', ''storageKey'',
     ''imageBytes'', ''seed'', ''startedAt'', ''completedAt'', ''cancelledAt'', ''leaseExpiresAt'']"
  by (simp add: cbyte_def)

lemma task_updated_utf8: "list_all utf8 (image_texts g) \<Longrightarrow> utf8_json (task_updated g)"
  using utf8_keys
  by (auto simp del: ascii_simps utf8.simps simp: task_updated_def toJson_def putOptionalTime_def image_texts_def ascii_utf8
      split: option.split)

end
