(* ===== verification/Task_Engine_Facts.thy ===== *)
theory Task_Engine_Facts
  imports Task_Engine World_Facts Image_Repo_Leases Task_Lease Json_Text
begin

text \<open>
  What the engine guarantees: a worker that has claimed a task leaves it ended or queued, a round
  of the scanner leaves every waiting task in the queue and no expired lease, a keeper that
  renews in time keeps the lease alive, and whatever the threads do they change the table by the
  operations of the repository only.
\<close>

section \<open>The parts of the state a step touches\<close>

lemma leaves_when_redis [leaves_intros]:
  "leaves p m \<Longrightarrow> leaves p n \<Longrightarrow> leaves p (when_redis m n)"
  by (simp add: leaves_def when_redis_def)

lemma returns_when_redis [returns_intros]: "returns m \<Longrightarrow> returns n \<Longrightarrow> returns (when_redis m n)"
  by (simp add: returns_def when_redis_def)

lemma db_by_when_redis [db_by_intros]: "db_by P m \<Longrightarrow> db_by P n \<Longrightarrow> db_by P (when_redis m n)"
  by (simp add: db_by_def when_redis_def)

named_theorems engine_defs \<open>definitions of the shared steps of the engine\<close>

lemmas [engine_defs] = invalidateAllForTask_def releaseRedisLease_def engine_enqueue_def publish_def record_status_def

text \<open>The database and the object store: only the repository and the storage touch them.\<close>

definition stored :: "'c world \<Rightarrow> image_db \<times> object_store" where
  "stored w = (w_db w, w_objects w)"

lemma leaves_stored: "leaves w_db m \<Longrightarrow> leaves w_objects m \<Longrightarrow> leaves stored m"
  by (simp add: leaves_def stored_def)

lemma steps_leave [leaves_intros]:
  "leaves w_db (invalidateAllForTask x u i)" "leaves w_objects (invalidateAllForTask x u i)" "leaves w_redis (invalidateAllForTask x u i)"
  "leaves w_db (releaseRedisLease i v)" "leaves w_objects (releaseRedisLease i v)"
  "leaves w_db (engine_enqueue i)" "leaves w_objects (engine_enqueue i)"
  "leaves w_db (publish x g)" "leaves w_objects (publish x g)" "leaves w_redis (publish x g)"
  "leaves w_db (record_status st)" "leaves w_objects (record_status st)" "leaves w_redis (record_status st)"
  unfolding engine_defs by (intro leaves_intros)+

lemma leaves_cleanup [leaves_intros]: "leaves w_db (cleanupOrphanedStoredImage se g)"
  unfolding cleanupOrphanedStoredImage_def by (intro leaves_intros)

lemma steps_return [returns_intros]:
  "returns (invalidateAllForTask x u i)" "returns (releaseRedisLease i v)" "returns (engine_enqueue i)" "returns (record_status st)"
  unfolding engine_defs by (intro returns_intros)+

lemma returns_publish: "x_dump x (task_updated g) = Inr s \<Longrightarrow> returns (publish x g)"
  by (auto simp: returns_def publish_def on_hub_def publishTaskUpdated_def)

lemma type_error_std [simp]: "is_std_exn type_error"
  by (simp add: type_error_def)

lemma jat_std: "jat j k = Inl e \<Longrightarrow> is_std_exn e"
  by (auto simp: jat_def split: option.splits)

lemma as_std: "as_string j = Inl e \<Longrightarrow> is_std_exn e" "as_int32 j = Inl e \<Longrightarrow> is_std_exn e"
  by (cases j; auto)+

lemma jvalue_std: "(\<And>j. f j = Inl e \<Longrightarrow> is_std_exn e) \<Longrightarrow> jvalue f j k d = Inl e \<Longrightarrow> is_std_exn e"
  by (cases j) (auto split: option.splits)

lemma jvalue_int_std: "jvalue as_int32 j k d = Inl e \<Longrightarrow> is_std_exn e"
  by (rule jvalue_std [OF as_std(2)])

lemma settings_std: "health_settings c = Inl e \<Longrightarrow> (\<And>e. c = Inl e \<Longrightarrow> is_std_exn e) \<Longrightarrow> is_std_exn e"
  by (cases c) (auto simp: health_settings_def bindr_def split: sum.splits dest: jat_std as_std jvalue_int_std)

lemma returns_checkHealth:
  assumes "\<And>e. x_config x = Inl e \<Longrightarrow> is_std_exn e"
  shows "returns (checkHealth x :: ('c world, _) prog)"
proof -
  define ask :: "string \<times> int \<Rightarrow> ('c world, health_result) prog" where "ask = (\<lambda>(u, t).
      bindp (timed_http ''/health'' (http_get (u @ ''/health'') t [] False)) (\<lambda>raw.
        case toExpectedBody raw of
          Inl e \<Rightarrow> ret (unhealthy (se_message (mapHttpError e)) default_health)
        | Inr response \<Rightarrow> if response = [] then ret (unhealthy ''empty response body'' default_health)
            else (case x_parse x response of
                Inl _ \<Rightarrow> ret (unhealthy ''invalid json response'' default_health)
              | Inr j \<Rightarrow> ret (health_of_json j))))"
  have r: "\<exists>h w'. ask ut w = (Inr h, w')" for ut w
  proof -
    have "returns (ask ut)" unfolding ask_def by (cases ut) (simp, intro returns_intros)
    then show ?thesis by (rule returnsD)
  qed
  have "is_std_exn e" if "bindp (lift_sum (health_settings (x_config x))) ask w = (Inl e, w')" for w e w'
    using that r settings_std [OF _ assms] by (cases "health_settings (x_config x)") (auto simp: bindp_app, metis old.sum.distinct(1) prod.inject)
  then show ?thesis
    unfolding checkHealth_def ask_def [symmetric] by (intro returns_catch_std returns_ret) blast
qed

text \<open>A first step that returns and leaves a part alone can be run.\<close>

lemma step_first:
  assumes "returns m" "leaves p m" "\<And>x v. p v = p w \<Longrightarrow> Q (k x v)"
  shows "Q (bindp m k w)"
proof -
  obtain x v where m: "m w = (Inr x, v)" using returnsD [OF assms(1)] by blast
  with assms(2) have "p v = p w" by (rule leaves_run)
  with m assms(3) show ?thesis by simp
qed

section \<open>A claimed task is settled\<close>

text \<open>What the worker leaves of the row it had claimed, with the store as it is then.\<close>

definition settled_row :: "object_store \<Rightarrow> image_row \<Rightarrow> image_row \<Rightarrow> bool" where
  "settled_row os r r' \<longleftrightarrow> ir_id r' = ir_id r \<and> ir_user_id r' = ir_user_id r \<and>
     ir_worker_id r' = None \<and> ir_lease_expires_at r' = None \<and>
     (row_status r' = Queued \<and> ir_retry_count r' = ir_retry_count r + 1 \<or>
      isTerminal (row_status r') \<and> ir_retry_count r' = ir_retry_count r) \<and>
     (row_status r' = Success \<longrightarrow> (\<exists>k d. ir_storage_key r' = Some k \<and> d \<noteq> [] \<and>
        os_objects os k = Some (d, ''image/png'')))"

definition settled_table :: "image_row \<Rightarrow> image_db \<Rightarrow> image_db \<times> object_store \<Rightarrow> bool" where
  "settled_table r db st \<longleftrightarrow> (case st of (db', os) \<Rightarrow>
     \<exists>f. settled_row os r (f r) \<and> rows db' = map (\<lambda>q. if ir_id q = ir_id r then f q else q) (rows db))"

lemma held_rows:
  assumes "wf_db db" "r \<in> set (rows db)" "held_row db i u v r" "q \<in> set (rows db)"
  shows "held_row db i u v q \<longleftrightarrow> ir_id q = ir_id r"
proof
  assume "held_row db i u v q"
  then show "ir_id q = ir_id r" using assms(3) by (simp add: held_row_def by_id_and_user_def)
next
  assume "ir_id q = ir_id r"
  with assms have "q = r" by (auto simp: wf_db_def dest: inj_onD distinct_map [THEN iffD1])
  with assms(3) show "held_row db i u v q" by simp
qed

lemma map_held:
  assumes "wf_db db" "r \<in> set (rows db)" "held_row db i u v r"
  shows "map (\<lambda>q. if held_row db i u v q then f q else q) (rows db) =
     map (\<lambda>q. if ir_id q = ir_id r then f q else q) (rows db)"
  using held_rows [OF assms] by simp

lemma held_key: "held_row db i u v r \<Longrightarrow> ir_id r = i \<and> ir_user_id r = u"
  by (simp add: held_row_def by_id_and_user_def)

lemma finish_quiet:
  assumes "wf_db db" "quiet db" "r \<in> set (rows db)" "held_row db (img_id g) (img_user_id g) (img_worker_id g) r"
  shows "\<exists>db'. finishClaimedTask g db = (Inr True, db') \<and>
     rows db' = map (\<lambda>q. if ir_id q = ir_id r then set_finished g q else q) (rows db)"
proof -
  obtain b db' where f: "finishClaimedTask g db = (Inr b, db')"
    by (simp add: finishClaimedTask_def quiet_bind [OF assms(2)] repoInvoke_Inr)
  from finishClaimedTask_outcome [OF quiet_ready [OF assms(2)] f] assms(3,4) map_held [OF assms(1,3,4)] f
  show ?thesis by auto
qed

lemma defer_quiet:
  assumes "wf_db db" "quiet db" "r \<in> set (rows db)" "held_row db i u v r"
  shows "\<exists>b db'. deferClaimedTaskForModelHealth i u v c m db = (Inr b, db') \<and>
     rows db' = map (\<lambda>q. if ir_id q = ir_id r then set_deferred c m q else q) (rows db)"
  using map_held [OF assms(1,3,4), of "set_deferred c m"]
  by (simp add: deferClaimedTaskForModelHealth_def quiet_bind [OF assms(2)] repoInvoke_Inr stmt_defer_def)

lemma settled_after:
  "settled_table r db (stored v) \<Longrightarrow> leaves stored m \<Longrightarrow> settled_table r db (stored (snd (m v)))"
  by (simp add: leaves_def)

lemma on_db_bind: "f (w_db w) = (y, db') \<Longrightarrow> bindp (on_db f) k w = k y (w\<lparr>w_db := db'\<rparr>)"
  by (simp add: on_db_def bindp_def)

lemma stored_upd [simp]: "stored (w\<lparr>w_db := db'\<rparr>) = (db', w_objects w)"
  by (simp add: stored_def)

lemma stored_db: "stored v = stored w \<Longrightarrow> w_db v = w_db w \<and> w_objects v = w_objects w"
  by (simp add: stored_def)

lemma settled_finished:
  assumes "isTerminal (img_status g)" "rows db' = map (\<lambda>q. if ir_id q = ir_id r then set_finished g q else q) (rows db)"
    and "img_status g = Success \<Longrightarrow> \<exists>d. d \<noteq> [] \<and> os_objects os (img_storage_key g) = Some (d, ''image/png'')"
  shows "settled_table r db (db', os)"
proof -
  have "ir_storage_key (set_finished g r) = Some (img_storage_key g)" by (simp add: set_finished_def)
  then have "settled_row os r (set_finished g r)" using assms(1,3) by (simp add: settled_row_def)
  then show ?thesis using assms(2) by (auto simp: settled_table_def)
qed

lemma settled_deferred:
  "rows db' = map (\<lambda>q. if ir_id q = ir_id r then set_deferred c m q else q) (rows db) \<Longrightarrow> settled_table r db (db', os)"
  unfolding settled_table_def by (auto simp: settled_row_def intro!: exI [of _ "set_deferred c m"])

lemma leaves_tail [leaves_intros]:
  "leaves stored (record_status st)" "leaves stored (invalidateAllForTask x u i)" "leaves stored (publish x g)"
  "leaves stored (releaseRedisLease i v)" "leaves stored (engine_enqueue i)" "leaves stored clock" "leaves stored (on_metrics h)"
  by (rule leaves_stored; intro leaves_intros)+

definition holds_row :: "'c world \<Rightarrow> image_row \<Rightarrow> image_generation \<Rightarrow> bool" where
  "holds_row w r g \<longleftrightarrow> wf_db (w_db w) \<and> quiet (w_db w) \<and> r \<in> set (rows (w_db w)) \<and>
     held_row (w_db w) (img_id g) (img_user_id g) (img_worker_id g) r"

lemma finish_then:
  assumes h: "holds_row w r g" and t: "isTerminal (img_status g)"
    and s: "img_status g = Success \<Longrightarrow> \<exists>d. d \<noteq> [] \<and> os_objects (w_objects w) (img_storage_key g) = Some (d, ''image/png'')"
    and k: "leaves stored (k (Inr True))"
  shows "settled_table r (w_db w) (stored (snd (bindp (on_db (finishClaimedTask g)) k w)))"
proof -
  obtain db' where f: "finishClaimedTask g (w_db w) = (Inr True, db')"
    and rows: "rows db' = map (\<lambda>q. if ir_id q = ir_id r then set_finished g q else q) (rows (w_db w))"
    using finish_quiet [of "w_db w" r g] h by (auto simp: holds_row_def)
  have "settled_table r (w_db w) (stored (w\<lparr>w_db := db'\<rparr>))"
    using settled_finished [OF t rows s] by simp
  then show ?thesis
    unfolding on_db_bind [of "finishClaimedTask g" w, OF f] by (rule settled_after) (rule k)
qed

lemma holds_row_stored: "stored v = stored w \<Longrightarrow> holds_row v r g = holds_row w r g"
  by (simp add: holds_row_def stored_def)

lemma stored_step:
  assumes "returns m" "leaves stored m"
    and "\<And>x v. stored v = stored w \<Longrightarrow> settled_table r db (stored (snd (k x v)))"
  shows "settled_table r db (stored (snd (bindp m k w)))"
  by (rule step_first [OF assms(1,2), where Q = "\<lambda>rw. settled_table r db (stored (snd rw))"]) (rule assms(3))

lemma gate_fail_settles:
  assumes h: "holds_row w r t"
  shows "settled_table r (w_db w) (stored (snd (gate_fail x t v d w)))"
proof -
  show ?thesis
    unfolding gate_fail_def Let_def
  proof (rule stored_step [OF returns_on(5) leaves_tail(6)], rule stored_step [OF steps_return(4) leaves_tail(1)])
    fix now y and w1 w2 :: "'a world"
    assume "stored w1 = stored w" "stored w2 = stored w1"
    then have s: "stored w2 = stored w" by simp
    let ?t = "gate_failed t d now"
    have "holds_row w2 r ?t" using h holds_row_stored [OF s] by (simp add: holds_row_def gate_failed_def)
    from finish_then [OF this, where k = "\<lambda>finished. bindp (releaseRedisLease (img_id ?t) v) (\<lambda>_.
        bindp (invalidateAllForTask x (img_user_id ?t) (img_id ?t)) (\<lambda>_. case finished of
            Inr True \<Rightarrow> publish x (?t\<lparr>img_worker_id := [], img_lease_expires_at := None\<rparr>) | _ \<Rightarrow> ret ()))"]
    show "settled_table r (w_db w) (stored (snd (bindp (on_db (finishClaimedTask ?t)) (\<lambda>finished.
        bindp (releaseRedisLease (img_id ?t) v) (\<lambda>_. bindp (invalidateAllForTask x (img_user_id ?t) (img_id ?t)) (\<lambda>_.
          case finished of Inr True \<Rightarrow> publish x (?t\<lparr>img_worker_id := [], img_lease_expires_at := None\<rparr>) | _ \<Rightarrow> ret ()))) w2)))"
      using stored_db [OF s] by (auto simp: gate_failed_def intro!: leaves_intros)
  qed
qed

lemma gate_defer_settles:
  assumes h: "holds_row w r t" and v: "img_worker_id t = v"
  shows "settled_table r (w_db w) (stored (snd (gate_defer x t v d w)))"
proof -
  obtain b db' where f: "deferClaimedTaskForModelHealth (img_id t) (img_user_id t) v (gd_failure_code d) (gd_message d) (w_db w) = (Inr b, db')"
    and rows: "rows db' = map (\<lambda>q. if ir_id q = ir_id r then set_deferred (gd_failure_code d) (gd_message d) q else q) (rows (w_db w))"
    using defer_quiet [of "w_db w" r "img_id t" "img_user_id t" v "gd_failure_code d" "gd_message d"] h v
    by (auto simp: holds_row_def)
  have "settled_table r (w_db w) (stored (w\<lparr>w_db := db'\<rparr>))"
    using settled_deferred [OF rows] by simp
  then show ?thesis
    unfolding gate_defer_def on_db_bind [of "deferClaimedTaskForModelHealth _ _ _ _ _" w, OF f]
    by (rule settled_after) (intro leaves_intros)
qed

lemma gate_outcome:
  assumes h: "holds_row w r t" and v: "img_worker_id t = v" and c: "\<forall>e. x_config x = Inl e \<longrightarrow> is_std_exn e"
  shows "(\<exists>w'. applyModelHealthGate x t v w = (Inr True, w') \<and> stored w' = stored w) \<or>
     fst (applyModelHealthGate x t v w) \<noteq> Inr True \<and>
     settled_table r (w_db w) (stored (snd (applyModelHealthGate x t v w)))"
proof -
  obtain hl w1 where ch: "checkHealth x w = (Inr hl, w1)" using returnsD [OF returns_checkHealth] c by blast
  have s: "stored w1 = stored w"
    by (rule leaves_run [of stored "checkHealth x" w, OF _ ch]) (rule leaves_stored; intro leaves_intros)
  let ?d = "decideForGenerate hl (img_retry_count t)"
  have h1: "holds_row w1 r t" using h holds_row_stored [OF s] by simp
  have sub: "fst (bindp m (\<lambda>_. ret False) u) \<noteq> Inr True \<and> snd (bindp m (\<lambda>_. ret False) u) = snd (m u)"
    for m :: "('a world, unit) prog" and u by (cases "m u"; cases "fst (m u)") auto
  show ?thesis
    using gate_fail_settles [OF h1, of x v ?d] gate_defer_settles [OF h1 v, of x ?d] s stored_db [OF s] sub
    by (cases "gd_action ?d") (auto simp: applyModelHealthGate_def ch Let_def)
qed

lemma process_settles:
  assumes h: "holds_row w r t" and v: "img_worker_id t = v" and c: "\<forall>e. x_config x = Inl e \<longrightarrow> is_std_exn e"
    and d: "x_dump x (task_updated t) = Inr txt'"
  shows "settled_table r (w_db w) (stored (snd (processClaimedTask x t v w)))"
  unfolding processClaimedTask_def
proof (rule stored_step [OF steps_return(1) leaves_tail(2)], rule stored_step [OF returns_on(3) leaves_tail(7)],
    rule stored_step [OF steps_return(4) leaves_tail(1)], rule stored_step [OF returns_publish [OF d] leaves_tail(3)])
  fix w1 w2 w3 w4 :: "'a world"
  assume "stored w1 = stored w" "stored w2 = stored w1" "stored w3 = stored w2" "stored w4 = stored w3"
  then have s: "stored w4 = stored w" by simp
  define rest where "rest = (\<lambda>go_on. if \<not> go_on then ret () else bindp (generate x t) (\<lambda>result.
      bindp (on_db (finishClaimedTask result)) (\<lambda>finishedResult. bindp (releaseRedisLease (img_id t) v) (\<lambda>_.
        case finishedResult of Inl e \<Rightarrow> cleanupOrphanedStoredImage (x_storage x) result
        | Inr True \<Rightarrow> bindp (record_status (img_status result)) (\<lambda>_.
            bindp (invalidateAllForTask x (img_user_id t) (img_id t)) (\<lambda>_. publish x result))
        | Inr False \<Rightarrow> cleanupOrphanedStoredImage (x_storage x) result))) :: ('a world, unit) prog)"
  have h4: "holds_row w4 r t" using h holds_row_stored [OF s] by simp
  have "settled_table r (w_db w) (stored (snd (bindp (applyModelHealthGate x t v) rest w4)))"
    using gate_outcome [OF h4 v c]
  proof (elim disjE exE conjE)
    fix w5 assume g: "applyModelHealthGate x t v w4 = (Inr True, w5)" and "stored w5 = stored w4"
    with s have s5: "stored w5 = stored w" by simp
    obtain g' w6 where gen: "generate x t w5 = (Inr g', w6)" "same_task t g'" "settled_result (w_objects w6) g'"
      "w_db w6 = w_db w5" using generation_settles [of x t w5] by blast
    then have h6: "holds_row w6 r g'" and db: "w_db w6 = w_db w"
      using h v stored_db [OF s5] by (simp_all add: holds_row_def same_task_def)
    have "settled_table r (w_db w6) (stored (snd (bindp (on_db (finishClaimedTask g')) (\<lambda>finishedResult.
        bindp (releaseRedisLease (img_id t) v) (\<lambda>_. case finishedResult of
            Inl e \<Rightarrow> cleanupOrphanedStoredImage (x_storage x) g'
          | Inr True \<Rightarrow> bindp (record_status (img_status g')) (\<lambda>_.
              bindp (invalidateAllForTask x (img_user_id t) (img_id t)) (\<lambda>_. publish x g'))
          | Inr False \<Rightarrow> cleanupOrphanedStoredImage (x_storage x) g')) w6)))"
      using gen(3) by (intro finish_then [OF h6]) (auto simp: settled_result_def intro!: leaves_intros)
    then show ?thesis using g gen(1) db by (simp add: rest_def)
  next
    assume n: "fst (applyModelHealthGate x t v w4) \<noteq> Inr True"
      and st: "settled_table r (w_db w4) (stored (snd (applyModelHealthGate x t v w4)))"
    obtain res w5 where g: "applyModelHealthGate x t v w4 = (res, w5)" by fastforce
    with n st stored_db [OF s] show ?thesis by (cases res) (auto simp: rest_def)
  qed
  then show "settled_table r (w_db w) (stored (snd (bindp (applyModelHealthGate x t v) (\<lambda>go_on. if \<not> go_on then ret () else bindp (generate x t) (\<lambda>result.
      bindp (on_db (finishClaimedTask result)) (\<lambda>finishedResult. bindp (releaseRedisLease (img_id t) v) (\<lambda>_.
        case finishedResult of Inl e \<Rightarrow> cleanupOrphanedStoredImage (x_storage x) result
        | Inr True \<Rightarrow> bindp (record_status (img_status result)) (\<lambda>_.
            bindp (invalidateAllForTask x (img_user_id t) (img_id t)) (\<lambda>_. publish x result))
        | Inr False \<Rightarrow> cleanupOrphanedStoredImage (x_storage x) result)))) w4)))"
    by (simp add: rest_def)
qed

text \<open>A claim makes the worker hold the row. Identifiers are columns of 64 bits.\<close>

definition bigint_rows :: "image_db \<Rightarrow> bool" where
  "bigint_rows db \<longleftrightarrow> (\<forall>r\<in>set (rows db). is_int64 (ir_id r) \<and> is_int64 (ir_user_id r))"

definition holds_nothing :: "string \<Rightarrow> image_db \<Rightarrow> bool" where
  "holds_nothing v db \<longleftrightarrow> (\<forall>r\<in>set (rows db). row_status r = Generating \<longrightarrow> \<not> text_eq db (ir_worker_id r) v)"

definition claimed :: "string \<Rightarrow> image_generation \<Rightarrow> image_db \<Rightarrow> image_db \<Rightarrow> image_row \<Rightarrow> bool" where
  "claimed v t db db' r \<longleftrightarrow> wf_db db' \<and> quiet db' \<and> collation db' = collation db \<and> r \<in> set (rows db') \<and>
     img_worker_id t = v \<and> held_row db' (img_id t) (img_user_id t) v r \<and>
     (\<exists>now n e. \<exists>q\<in>set (rows db). t = image_of now (set_claimed v n e q)) \<and>
     (\<forall>q\<in>set (rows db'). ir_id q \<noteq> ir_id r \<longrightarrow> q \<in> set (rows db))"

lemma claimed_update:
  assumes wf: "wf_db db" "quiet db" and r: "r \<in> set (rows db)" "is_int64 (ir_id r)" "is_int64 (ir_user_id r)"
    and db': "db' = snd (sql_update (\<lambda>q. ir_id q = ir_id r) (set_claimed v n e) db)"
  shows "claimed v (image_of now (set_claimed v n e r)) db db' (set_claimed v n e r)"
proof -
  have "0 \<le> ir_id r" "0 \<le> ir_user_id r" using wf(1) r(1) by (auto simp: wf_db_def wf_row_def)
  moreover have "set_claimed v n e r \<in> set (rows db')" unfolding db' sql_update_sel mem_map_upd using r(1) by blast
  moreover have "wf_db db'" unfolding db' by (rule wf_db_update [OF wf(1)]) simp
  moreover have "quiet db'" "collation db' = collation db" using wf(2) by (simp_all add: db')
  moreover have "q \<in> set (rows db)" if "q \<in> set (rows db')" "ir_id q \<noteq> ir_id r" for q
    using that unfolding db' sql_update_sel mem_map_upd by auto
  moreover have "\<exists>now' n' e'. \<exists>q\<in>set (rows db). image_of now (set_claimed v n e r) = image_of now' (set_claimed v n' e' q)"
    using r(1) by blast
  ultimately show ?thesis
    using r(2,3) by (simp add: claimed_def image_of_sel held_row_def by_id_and_user_def text_eq_def getStringOrEmpty_def)
qed

lemma claim_by_id_claims:
  assumes wf: "wf_db db" "quiet db" "bigint_rows db" and c: "claimTaskById now i v l db = (Inr (Some t), db')"
  shows "\<exists>r. claimed v t db db' r"
proof -
  obtain r where r: "r \<in> set (rows db)" "ir_id r = i" "row_status r \<in> {Queued, Pending}"
    using claimTaskById_SomeD [OF wf(1) quiet_ready [OF wf(2)] c] by blast
  let ?n = "time_t_of now" and ?e = "time_t_of (expires_at now l)"
  have c': "t = image_of now (set_claimed v ?n ?e r)" "db' = snd (stmt_claim_by_id i v ?n ?e db)"
    using claimTaskById_waiting [OF wf(1,2) r] c by auto
  have "map (\<lambda>q. if ir_id q = i \<and> waiting_row db q then set_claimed v ?n ?e q else q) (rows db) =
      map (\<lambda>q. if ir_id q = i then set_claimed v ?n ?e q else q) (rows db)"
    using unique_row [OF wf(1) r(1)] r(2,3) sql_guards(1) [OF wf(1) wf_rowD [OF wf(1) r(1)]] by auto
  then have "db' = snd (sql_update (\<lambda>q. ir_id q = ir_id r) (set_claimed v ?n ?e) db)"
    using r(2) by (simp add: c'(2) stmt_claim_by_id_def sql_update_def)
  from claimed_update [OF wf(1,2) r(1) _ _ this, of now] c'(1) r(1) wf(3) show ?thesis
    by (auto simp: bigint_rows_def)
qed

lemma claimable_changes:
  assumes "wf_db db" "t \<in> set (rows db)" "claimable db (time_t_of now) t"
  shows "set_claimed v (time_t_of now) (time_t_of (expires_at now l)) t \<noteq> t"
proof -
  have "time_t_of now \<le> time_t_of (expires_at now l)"
    by (rule time_t_of_mono) (simp add: expires_at_def lease_seconds_def ns_def)
  then have "row_status t \<noteq> Generating \<or> ir_lease_expires_at t \<noteq> Some (time_t_of (expires_at now l))"
    using claimable_iff [OF assms(1,2)] assms(3) by (auto simp: time_less_def)
  then show ?thesis by (metis setter_status(1) setter_lease(2))
qed

lemma claim_next_claims:
  assumes wf: "wf_db db" "quiet db" "bigint_rows db" and free: "holds_nothing v db"
    and c: "claimNextTask now v l db = (Inr (Some t), db')"
  shows "\<exists>r. claimed v t db db' r"
proof -
  let ?n = "time_t_of now" and ?e = "time_t_of (expires_at now l)"
  obtain r where o: "oldest (claimable db ?n) db = Some r"
    using claimNextTask_InrD [OF quiet_ready [OF wf(2)] c] by blast
  then have r: "r \<in> set (rows db)" "claimable db ?n r" using wf_oldest by blast+
  have only: "\<forall>q\<in>set (rows db). ir_id q \<noteq> ir_id r \<longrightarrow> text_eq db (ir_worker_id q) v \<longrightarrow>
      text_eq db (ir_status q) ''generating'' \<longrightarrow> ir_lease_expires_at q \<noteq> Some ?e"
    using free sql_guards(5) [OF wf(1) wf_rowD [OF wf(1)]] by (auto simp: holds_nothing_def)
  have "t = image_of now (set_claimed v ?n ?e r)" "db' = snd (stmt_claim_next v ?n ?e db)"
    using claimNextTask_claims [OF wf(1,2) o only claimable_changes [OF wf(1) r]] c by auto
  moreover from this(2) have "db' = snd (sql_update (\<lambda>q. ir_id q = ir_id r) (set_claimed v ?n ?e) db)"
    by (simp add: stmt_claim_next_def o)
  ultimately show ?thesis
    using claimed_update [OF wf(1,2) r(1), of db' v ?n ?e now] r(1) wf(3) by (auto simp: bigint_rows_def)
qed

text \<open>The texts of the table are UTF-8, as its columns are, so a claimed task prints.\<close>

definition row_texts :: "image_row \<Rightarrow> string option list" where
  "row_texts r = [ir_request_id r, ir_prompt r, ir_negative_prompt r, ir_failure_code r, ir_worker_id r, ir_image_url r,
     ir_error_message r, ir_thumbnail_url r, ir_storage_key r]"

definition utf8_rows :: "image_db \<Rightarrow> bool" where
  "utf8_rows db \<longleftrightarrow> list_all (\<lambda>r. list_all (pred_option utf8) (row_texts r)) (rows db)"

lemma pred_getString: "pred_option utf8 c \<Longrightarrow> utf8 (getStringOrEmpty c)"
  by (cases c) (simp_all add: getStringOrEmpty_def)

lemma image_of_utf8:
  assumes "list_all (pred_option utf8) (row_texts r)" "0 \<le> ir_id r" "0 \<le> ir_user_id r"
  shows "list_all utf8 (image_texts (image_of now r))"
proof -
  have "list_all utf8 (map getStringOrEmpty (row_texts r) @ [[]])"
    using assms(1) by (auto simp: list_all_iff pred_getString)
  then show ?thesis
    using assms(2,3) by (simp add: image_texts_def row_texts_def image_of_def rowToImageGeneration_def get_uint64_def)
qed

lemma claimed_prints:
  assumes "claimed v t db db' r" "wf_db db" "utf8_rows db" "utf8 v"
  shows "utf8_json (task_updated t)"
proof -
  obtain now n e q where q: "q \<in> set (rows db)" "t = image_of now (set_claimed v n e q)"
    using assms(1) by (auto simp: claimed_def)
  have "0 \<le> ir_id q" "0 \<le> ir_user_id q" using assms(2) q(1) by (auto simp: wf_db_def wf_row_def)
  moreover have "list_all (pred_option utf8) (row_texts (set_claimed v n e q))"
    using assms(3,4) q(1) by (auto simp: utf8_rows_def list_all_iff row_texts_def set_claimed_def)
  ultimately show ?thesis
    unfolding q(2) by (intro task_updated_utf8 image_of_utf8) simp_all
qed

text \<open>Whoever claimed a task and processes it holds nothing afterwards.\<close>

lemma settled_holds_nothing:
  assumes c: "claimed v t db db' r" and free: "holds_nothing v db" and s: "settled_table r db' (db'', os)"
    and col: "collation db'' = collation db'"
  shows "holds_nothing v db''"
proof -
  obtain f where f: "settled_row os r (f r)" and rows: "rows db'' = map (\<lambda>q. if ir_id q = ir_id r then f q else q) (rows db')"
    using s by (auto simp: settled_table_def)
  have te: "text_eq db'' = text_eq db" using c col by (intro guards_collation) (simp add: claimed_def)
  show ?thesis
    unfolding holds_nothing_def
  proof (intro ballI impI)
    fix q assume "q \<in> set (rows db'')" and g: "row_status q = Generating"
    then obtain q0 where q0: "q0 \<in> set (rows db')" "q = (if ir_id q0 = ir_id r then f q0 else q0)"
      by (auto simp: rows)
    show "\<not> text_eq db'' (ir_worker_id q) v"
    proof (cases "ir_id q0 = ir_id r")
      case True
      have "wf_db db'" "r \<in> set (rows db')" using c by (simp_all add: claimed_def)
      then have "q0 = r" using unique_row q0(1) True by blast
      with q0 f show ?thesis by (simp add: settled_row_def text_eq_def)
    next
      case False
      with c q0 have "q0 \<in> set (rows db)" by (auto simp: claimed_def)
      with free g q0 False show ?thesis by (simp add: holds_nothing_def te)
    qed
  qed
qed

lemma claim_by_id_cases:
  assumes wf: "wf_db db" "quiet db" "bigint_rows db" and free: "holds_nothing v db"
    and c: "claimTaskById now i v l db = (res, db')"
  shows "(\<exists>t r. res = Inr (Some t) \<and> claimed v t db db' r) \<or> (\<forall>t. res \<noteq> Inr (Some t)) \<and> holds_nothing v db'"
proof (cases "\<exists>r\<in>set (rows db). ir_id r = i \<and> row_status r \<in> {Queued, Pending}")
  case True
  then obtain t db0 where "claimTaskById now i v l db = (Inr (Some t), db0)"
    using claimTaskById_waiting [OF wf(1,2)] by blast
  with c have r: "res = Inr (Some t)" by simp
  with claim_by_id_claims [OF wf c [unfolded r]] show ?thesis by blast
next
  case False
  then have "\<forall>r\<in>set (rows db). \<not> (ir_id r = i \<and> waiting_row db r)"
    using sql_guards(1) [OF wf(1) wf_rowD [OF wf(1)]] by blast
  from update_nothing [OF this] have "fst (stmt_claim_by_id i v n e db) = 0" "rows (snd (stmt_claim_by_id i v n e db)) = rows db"
    "collation (snd (stmt_claim_by_id i v n e db)) = collation db" for n e by (simp_all add: stmt_claim_by_id_def)
  then have "res = Inr None" "rows db' = rows db" "collation db' = collation db"
    using c by (auto simp: claimTaskById_def Let_def quiet_bind [OF wf(2)])
  then show ?thesis using free guards_collation(1) [of db' db] by (simp add: holds_nothing_def)
qed

lemma claim_next_cases:
  assumes wf: "wf_db db" "quiet db" "bigint_rows db" and free: "holds_nothing v db"
    and c: "claimNextTask now v l db = (res, db')"
  shows "(\<exists>t r. res = Inr (Some t) \<and> claimed v t db db' r) \<or> (\<forall>t. res \<noteq> Inr (Some t)) \<and> holds_nothing v db'"
proof (cases "oldest (claimable db (time_t_of now)) db")
  case None
  then have "res = Inr None" "db' = db"
    using c by (auto simp: claimNextTask_def Let_def quiet_bind [OF wf(2)] stmt_claim_next_def)
  with free show ?thesis by simp
next
  case (Some r)
  then have r: "r \<in> set (rows db)" "claimable db (time_t_of now) r" using wf_oldest by blast+
  have only: "\<forall>q\<in>set (rows db). ir_id q \<noteq> ir_id r \<longrightarrow> text_eq db (ir_worker_id q) v \<longrightarrow>
      text_eq db (ir_status q) ''generating'' \<longrightarrow> ir_lease_expires_at q \<noteq> Some (time_t_of (expires_at now l))"
    using free sql_guards(5) [OF wf(1) wf_rowD [OF wf(1)]] by (auto simp: holds_nothing_def)
  obtain t db0 where "claimNextTask now v l db = (Inr (Some t), db0)"
    using claimNextTask_claims [OF wf(1,2) Some only claimable_changes [OF wf(1) r]] by blast
  with c have r: "res = Inr (Some t)" by simp
  with claim_next_claims [OF wf free c [unfolded r]] show ?thesis by blast
qed

section \<open>What the threads do to the table\<close>

fun engine_op :: "repo_op \<Rightarrow> bool" where
  "engine_op (OpClaimNext now v l) = True"
| "engine_op (OpClaim now i v l) = True"
| "engine_op OpQueuedIds = True"
| "engine_op (OpRenew now i u v l) = True"
| "engine_op (OpFinish g) = True"
| "engine_op (OpDefer i u v c m) = True"
| "engine_op (OpExpireReport now now') = True"
| "engine_op _ = False"

lemma db_by_timed [db_by_intros]:
  assumes "\<And>t. db_by P (on_db (f t) :: ('c world, 'a) prog)"
  shows "db_by P (timed_db f :: ('c world, 'a) prog)"
  unfolding timed_db_def by (intro db_by_intros assms)

lemma db_by_steps [db_by_intros]:
  "db_by P (invalidateAllForTask x u i)" "db_by P (releaseRedisLease i v)" "db_by P (engine_enqueue i)"
  "db_by P (publish x g)" "db_by P (record_status st)" "db_by P (generate x g)" "db_by P (checkHealth x)"
  "db_by P (cleanupOrphanedStoredImage se g)"
  by (rule db_by_leaves, intro leaves_intros)+

lemma db_by_process [db_by_intros]: "db_by engine_op (processClaimedTask x t v)"
  unfolding processClaimedTask_def applyModelHealthGate_def gate_fail_def gate_defer_def Let_def
  by (intro db_by_intros; simp split: gate_action.split; intro conjI impI db_by_intros; simp)

lemma db_by_worker [db_by_intros]: "db_by engine_op (worker_round x cfg v)"
  unfolding worker_round_def worker_body_def by (intro db_by_intros; simp)

lemma db_by_keeper [db_by_intros]: "db_by engine_op (keeper_round cfg t v next)"
  unfolding keeper_round_def by (intro db_by_intros; simp)

lemma db_by_recover [db_by_intros]: "db_by engine_op recoverOrphanedTasks"
  unfolding recoverOrphanedTasks_def by (intro db_by_intros; simp)

lemma db_by_take_back [db_by_intros]: "db_by P (take_back x ts)"
proof (induction ts)
  case (Cons t ts)
  show ?case unfolding take_back.simps by (intro db_by_intros Cons.IH)
qed (simp only: take_back.simps db_by_plain)

lemma db_by_scanner [db_by_intros]: "db_by engine_op (scanner_round x)"
  unfolding scanner_round_def by (intro db_by_intros; simp)

lemma table_pred_collation: "table_pred (\<lambda>db. collation db = c)"
  by (auto simp: table_pred_def with_faults_def)

lemma run_op_collation: "collation (run_op op db) = collation db"
  by (rule run_op_keeps [OF table_pred_collation]) (auto simp: collation_write sql_insert_def elim!: op_write.cases)

section \<open>Properties\<close>

lemma any_step:
  assumes "leaves w_db m" "P (w_db w)" "\<And>y u. w_db u = w_db w \<Longrightarrow> P (w_db (snd (k y u)))"
  shows "P (w_db (snd (bindp m k w)))"
proof -
  obtain res u where m: "m w = (res, u)" by fastforce
  with assms(1) have "w_db u = w_db w" by (rule leaves_run)
  with m assms(2,3) show ?thesis by (cases res) simp_all
qed

lemma claimed_then_free:
  assumes c: "claimed v t db (w_db w) r" and free: "holds_nothing v db"
    and e: "\<forall>e. x_config x = Inl e \<longrightarrow> is_std_exn e" and d: "x_dump x (task_updated t) = Inr s"
  shows "holds_nothing v (w_db (snd (processClaimedTask x t v w)))"
proof -
  have "holds_row w r t" and v: "img_worker_id t = v" using c by (auto simp: claimed_def holds_row_def)
  from process_settles [OF this e d] obtain db'' os where
    st: "stored (snd (processClaimedTask x t v w)) = (db'', os)" and s: "settled_table r (w_db w) (db'', os)"
    by (metis surj_pair)
  have "collation (w_db (snd (processClaimedTask x t v w))) = collation (w_db w)"
    by (rule db_by_keeps [OF db_by_process]) (simp_all add: run_op_collation)
  then have "collation db'' = collation (w_db w)" using st by (simp add: stored_def)
  from settled_holds_nothing [OF c free s this] show ?thesis using st by (simp add: stored_def)
qed

lemma timed_db_app: "\<exists>now u'. timed_db f u = (Inr (fst (f now (w_db u))), u') \<and> w_db u' = snd (f now (w_db u))"
proof -
  obtain t t' ts where "clock u = (Inr t, u\<lparr>w_now := t', w_ticks := ts\<rparr>)" using clock_result by blast
  then show ?thesis by (intro exI [of _ t]) (simp add: timed_db_def on_db_def split: prod.split)
qed

lemma claim_step:
  assumes f: "\<And>now res db'. f now (w_db u) = (res, db') \<Longrightarrow>
      (\<exists>t r. res = Inr (Some t) \<and> claimed v t (w_db u) db' r) \<or> (\<forall>t. res \<noteq> Inr (Some t)) \<and> holds_nothing v db'"
    and k: "\<And>t r u'. claimed v t (w_db u) (w_db u') r \<Longrightarrow> holds_nothing v (w_db (snd (k (Inr (Some t)) u')))"
    and k': "\<And>res. \<forall>t. res \<noteq> Inr (Some t) \<Longrightarrow> leaves w_db (k res)"
  shows "holds_nothing v (w_db (snd (bindp (timed_db f) k u)))"
proof -
  obtain now u' where t: "timed_db f u = (Inr (fst (f now (w_db u))), u')" "w_db u' = snd (f now (w_db u))"
    using timed_db_app [of f u] by blast
  obtain res db' where r: "f now (w_db u) = (res, db')" by fastforce
  from f [OF r] show ?thesis
  proof (elim disjE exE conjE)
    fix s q assume "res = Inr (Some s)" "claimed v s (w_db u) db' q"
    with k [of s u' q] t r show ?thesis by simp
  next
    assume "\<forall>t. res \<noteq> Inr (Some t)" "holds_nothing v db'"
    with leavesD [OF k'] t r show ?thesis by simp
  qed
qed

text \<open>
  C5: a worker never keeps a task. If it holds no task, then after one round
  of its loop it holds none again, whichever task it was given, whether the queue in Redis is
  used or the table, and whatever Redis, the model service, the object store, the cache and the
  subscribers answer or fail to answer: the task it took has ended or is back in the queue. The
  database answers during the round (otherwise the lease scanner takes the task back), and it holds
  texts in UTF-8, the character set of its columns; the JSON library prints every value whose texts
  are UTF-8.
\<close>

theorem worker_settles_its_task:
  assumes db: "wf_db (w_db w)" "quiet (w_db w)" "bigint_rows (w_db w)" and free: "holds_nothing v (w_db w)"
    and e: "\<forall>e. x_config x = Inl e \<longrightarrow> is_std_exn e"
    and d: "writes_utf8 (x_dump x)" "utf8_rows (w_db w)" "utf8 v"
  shows "holds_nothing v (w_db (snd (worker_round x cfg v w)))"
proof -
  note w = db free
  have after: "holds_nothing v (w_db (snd (processClaimedTask x t v u)))"
    if "w_db u0 = w_db w" "claimed v t (w_db u0) (w_db u) r" for t u u0 r
  proof -
    from claimed_prints [OF that(2)] that(1) db(1) d(2,3) have "utf8_json (task_updated t)" by simp
    from writes_utf8D [OF d(1) this] obtain s where "x_dump x (task_updated t) = Inr s" by blast
    from claimed_then_free [OF _ _ e this] that free show ?thesis by simp
  qed
  have by_id: "holds_nothing v (w_db (snd (bindp (timed_db (\<lambda>now. claimTaskById now i v l)) (\<lambda>task. case task of
        Inl e \<Rightarrow> bindp (on_redis (releaseLease i v)) (\<lambda>_. ret ())
      | Inr None \<Rightarrow> bindp (on_redis (releaseLease i v)) (\<lambda>_. ret ())
      | Inr (Some t) \<Rightarrow> processClaimedTask x t v) u)))" if u: "w_db u = w_db w" for i l u
  proof (rule claim_step)
    show "(\<exists>t r. res = Inr (Some t) \<and> claimed v t (w_db u) db' r) \<or> (\<forall>t. res \<noteq> Inr (Some t)) \<and> holds_nothing v db'"
      if "claimTaskById now i v l (w_db u) = (res, db')" for now res db'
      using claim_by_id_cases that w unfolding u by blast
  qed (auto simp: after [OF u] intro!: leaves_intros split: sum.split option.split)
  have next_one: "holds_nothing v (w_db (snd (bindp (timed_db (\<lambda>now. claimNextTask now v l)) (\<lambda>task. case task of
        Inr (Some t) \<Rightarrow> processClaimedTask x t v | _ \<Rightarrow> ret ()) w)))" for l
  proof (rule claim_step)
    show "(\<exists>t r. res = Inr (Some t) \<and> claimed v t (w_db w) db' r) \<or> (\<forall>t. res \<noteq> Inr (Some t)) \<and> holds_nothing v db'"
      if "claimNextTask now v l (w_db w) = (res, db')" for now res db'
      using claim_next_cases that w by blast
  qed (auto simp: after intro!: leaves_intros split: sum.split option.split)
  have "holds_nothing v (w_db (snd (worker_body x cfg v w)))"
  proof (cases "redis_isAvailable (w_redis w)")
    case True
    have "holds_nothing v (w_db (snd (bindp (on_redis dequeueTask) (\<lambda>taskId. case taskId of
        None \<Rightarrow> ret ()
      | Some i \<Rightarrow> bindp (on_redis (acquireLease i v (tc_lease_seconds cfg))) (\<lambda>acquired.
          if \<not> acquired then ret ()
          else bindp (timed_db (\<lambda>now. claimTaskById now i v (tc_lease_seconds cfg))) (\<lambda>task. case task of
            Inl e \<Rightarrow> bindp (on_redis (releaseLease i v)) (\<lambda>_. ret ())
          | Inr None \<Rightarrow> bindp (on_redis (releaseLease i v)) (\<lambda>_. ret ())
          | Inr (Some t) \<Rightarrow> processClaimedTask x t v))) w)))"
    proof (rule any_step [OF on_other(9), of "holds_nothing v", OF free], goal_cases)
      case (1 y u)
      show ?case
      proof (cases y)
        case (Some i)
        have "holds_nothing v (w_db (snd (bindp (on_redis (acquireLease i v (tc_lease_seconds cfg))) (\<lambda>acquired.
          if \<not> acquired then ret ()
          else bindp (timed_db (\<lambda>now. claimTaskById now i v (tc_lease_seconds cfg))) (\<lambda>task. case task of
            Inl e \<Rightarrow> bindp (on_redis (releaseLease i v)) (\<lambda>_. ret ())
          | Inr None \<Rightarrow> bindp (on_redis (releaseLease i v)) (\<lambda>_. ret ())
          | Inr (Some t) \<Rightarrow> processClaimedTask x t v)) u)))"
          by (rule any_step [OF on_other(9), of "holds_nothing v"]) (use free by_id 1 in auto)
        then show ?thesis using Some by simp
      qed (use free 1 in simp)
    qed
    with True show ?thesis by (simp add: worker_body_def when_redis_def)
  qed (simp add: worker_body_def when_redis_def next_one)
  then show ?thesis
    by (cases "worker_body x cfg v w"; cases "fst (worker_body x cfg v w)") (auto simp: worker_round_def catch_all_def)
qed

text \<open>A library that throws on every text that is not UTF-8.\<close>

definition strict_x :: "unit externals" where
  "strict_x = demo_x\<lparr>x_dump := (\<lambda>j. if utf8_json j then Inr ''{}'' else Inl (StdExn ''type_error.316''))\<rparr>"

theorem worker_settles_its_task_witness:
  "holds_nothing ''w'' (w_db (snd (worker_round strict_x default_engine_config ''w''
     (demo_world (demo_db [demo_row 1 5 Queued]) (demo_redis\<lparr>rc_impl := False\<rparr>)))))"
proof (rule worker_settles_its_task)
  show "writes_utf8 (x_dump strict_x)" by (simp add: writes_utf8_def strict_x_def)
  show "utf8 ''w''" by (simp add: cbyte_def)
  show "utf8_rows (w_db (demo_world (demo_db [demo_row 1 5 Queued]) (demo_redis\<lparr>rc_impl := False\<rparr>)))"
    by (simp add: utf8_rows_def row_texts_def demo_row_def image_values_def default_image_def cbyte_def)
qed (auto simp: wf_db_def bigint_rows_def is_int64_def holds_nothing_def strict_x_def)

section \<open>The lease scanner\<close>

lemma collect_ids_Inr:
  "\<forall>r\<in>set rs. 0 \<le> ir_id r \<and> is_int64 (ir_id r) \<Longrightarrow> collect_ids rs = Inr (map ir_id rs)"
  by (induction rs) (simp_all add: get_uint64_def)

lemma collect_expired_returns:
  "\<forall>r\<in>set rs. 0 \<le> ir_id r \<and> 0 \<le> ir_user_id r \<Longrightarrow> \<exists>ls. collect_expired b rs = Inr ls"
  by (induction rs) (auto simp: get_uint64_def)

definition waiting_ids :: "image_db \<Rightarrow> int list" where
  "waiting_ids db = map ir_id (sort_key (\<lambda>r. (ir_created_at r, ir_id r))
     (filter (\<lambda>r. row_status r \<in> {Queued, Pending}) (rows db)))"

lemma wf_distinct: "wf_db db \<Longrightarrow> distinct (map ir_id (rows db))"
  by (simp add: wf_db_def)

lemma wf_ids: "wf_db db \<Longrightarrow> r \<in> set (rows db) \<Longrightarrow> 0 \<le> ir_id r \<and> 0 \<le> ir_user_id r"
  by (auto simp: wf_db_def wf_row_def)

lemma queued_ids_quiet:
  assumes "wf_db db" "quiet db" "bigint_rows db"
  shows "findQueuedTaskIds db = (Inr (waiting_ids db), db)"
proof -
  have f: "filter (waiting_row db) (rows db) = filter (\<lambda>r. row_status r \<in> {Queued, Pending}) (rows db)"
    using sql_guards(1) [OF assms(1) wf_rowD [OF assms(1)]] by (intro filter_cong) auto
  have "collect_ids (sort_key (\<lambda>r. (ir_created_at r, ir_id r)) (filter (\<lambda>r. row_status r \<in> {Queued, Pending}) (rows db))) = Inr (waiting_ids db)"
    unfolding waiting_ids_def
    by (rule collect_ids_Inr) (use wf_ids [OF assms(1)] assms(3) in \<open>auto simp: bigint_rows_def\<close>)
  then show ?thesis by (simp add: findQueuedTaskIds_def quiet_bind [OF assms(2)] f)
qed

lemma expire_quiet:
  assumes "wf_db db" "quiet db"
  shows "\<exists>ls db'. expireLeasesReturningExpired now now' db = (Inr ls, db') \<and> quiet db'"
proof -
  have "\<exists>ls. collect_expired b (filter p (rows db)) = Inr ls" for b p
    by (rule collect_expired_returns) (use wf_ids [OF assms(1)] in auto)
  then obtain ls1 ls2 where "collect_expired True (filter (to_requeue db (time_t_of now)) (rows db)) = Inr ls1"
    "collect_expired False (filter (to_timeout db (time_t_of now)) (rows db)) = Inr ls2"
    by blast
  then show ?thesis
    using assms(2) by (simp add: expireLeasesReturningExpired_def repoInvoke_def bindp_app Let_def select_where_def sql_select_def
        expireLeasesUnsafe_def exec_quiet stmt_requeue_def stmt_timeout_def)
qed

lemma expire_rows:
  assumes "wf_db db" "quiet db" "expireLeasesReturningExpired now now' db = (Inr ls, db')"
  shows "wf_db db' \<and> collation db' = collation db \<and> rows db' = map (expired db (time_t_of now')) (rows db)"
proof -
  obtain fs n where e: "expireLeasesUnsafe now' (with_faults db fs) = (Inr n, db')"
    using expireReport_InrD [OF quiet_ready [OF assms(2)] assms(3)] by metis
  have "wf_db (with_faults db fs)" using assms(1) by simp
  from expireLeasesUnsafe_outcome [OF this e] show ?thesis by (simp add: expired_def)
qed

definition redis_up :: "'c world \<Rightarrow> bool" where
  "redis_up w \<longleftrightarrow> redis_isAvailable (w_redis w) \<and> r_faults (rc_server (w_redis w)) = []"

lemma enqueue_up: "redis_up w \<Longrightarrow> redis_up (snd (engine_enqueue i w))"
  by (auto simp: redis_up_def engine_enqueue_def bindp_def catch_all_def when_redis_def on_redis_def enqueueTask_def
      on_server_def on_metrics_def redis_isAvailable_def cmd_lpush_def split: option.splits prod.splits)

lemma invalidate_up: "redis_up w \<Longrightarrow> redis_up (snd (invalidateAllForTask x u i w))"
  using leavesD [OF steps_leave(3), of x u i w] by (simp add: redis_up_def)

lemma take_back_up: "redis_up w \<Longrightarrow> \<exists>w'. take_back x ts w = (Inr (), w') \<and> redis_up w' \<and> w_db w' = w_db w"
proof (induction ts arbitrary: w)
  case (Cons t ts)
  obtain w1 where w1: "invalidateAllForTask x (el_user_id t) (el_id t) w = (Inr (), w1)" "w_db w1 = w_db w" "redis_up w1"
    using returnsD [OF steps_return(1)] invalidate_up [OF Cons.prems] leavesD [OF steps_leave(1)]
    by (metis (full_types) old.unit.exhaust snd_conv)
  obtain w2 where w2: "(if el_requeue t then engine_enqueue (el_id t) else ret ()) w1 = (Inr (), w2)" "w_db w2 = w_db w" "redis_up w2"
  proof (cases "el_requeue t")
    case True
    obtain w2 where "engine_enqueue (el_id t) w1 = (Inr (), w2)"
      using returnsD [OF steps_return(3), of "el_id t" w1] by auto
    with True enqueue_up [OF w1(3), of "el_id t"] leavesD [OF steps_leave(6), of "el_id t" w1] w1(2) that show ?thesis by simp
  qed (use w1 that in simp)
  from Cons.IH [OF w2(3)] w1 w2 show ?case by simp
qed simp

lemma recover_queue:
  assumes "wf_db (w_db w)" "quiet (w_db w)" "bigint_rows (w_db w)" "redis_up w"
  shows "\<exists>w'. recoverOrphanedTasks w = (Inr (), w') \<and> w_db w' = w_db w \<and>
     queue_of (w_redis w') = Some (map fmt_int (waiting_ids (w_db w)))"
proof -
  obtain c where c: "rebuildTaskQueue (waiting_ids (w_db w)) (w_redis w) = (Inr (), c)"
    "queue_of c = Some (map fmt_int (waiting_ids (w_db w)))"
    using rebuild_queue [of "w_redis w" "waiting_ids (w_db w)"] assms(4)
    by (metis prod.collapse redis_up_def redis_isAvailable_def)
  then show ?thesis
    using assms(4) queued_ids_quiet [OF assms(1-3)]
    by (simp add: recoverOrphanedTasks_def when_redis_def redis_up_def on_db_def bindp_app on_redis_def on_metrics_def catch_std_def)
qed

text \<open>
  C6: one round of the lease scanner repairs the state, whatever was in the queue
  before and whatever threads died: afterwards no task is left generating with a lease that had
  ended when the round began, every waiting task is in the queue exactly once, oldest first, and
  the queue holds nothing else. (The database and Redis answer.)
\<close>

theorem scanner_recovers:
  assumes db: "wf_db (w_db w)" "quiet (w_db w)" "bigint_rows (w_db w)" and up: "redis_up w"
  shows "\<exists>w'. scanner_round x w = (Inr (), w') \<and>
     queue_of (w_redis w') = Some (map fmt_int (waiting_ids (w_db w'))) \<and> distinct (waiting_ids (w_db w')) \<and>
     set (waiting_ids (w_db w')) = ir_id ` {r \<in> set (rows (w_db w')). row_status r \<in> {Queued, Pending}} \<and>
     (\<forall>r\<in>set (rows (w_db w')). row_status r = Generating \<longrightarrow> \<not> time_less (ir_lease_expires_at r) (time_t_of (w_now w)))"
proof -
  obtain t1 u1 where c1: "clock w = (Inr t1, u1)" "w_db u1 = w_db w" "w_redis u1 = w_redis w" "w_now w \<le> t1" "w_now u1 = t1"
    by (simp add: clock_def Let_def split: list.split) 
  obtain t2 u2 where c2: "clock u1 = (Inr t2, u2)" "w_db u2 = w_db w" "w_redis u2 = w_redis w" "w_now w \<le> t2"
    using c1 by (simp add: clock_def Let_def split: list.splits)
  obtain ls db' where e: "expireLeasesReturningExpired t1 t2 (w_db w) = (Inr ls, db')" "quiet db'"
    using expire_quiet [OF db(1,2)] by blast
  note r = expire_rows [OF db(1,2) e(1)]
  let ?u3 = "u2\<lparr>w_db := db'\<rparr>"
  have "redis_up ?u3" using up c2(3) by (simp add: redis_up_def)
  then obtain u4 where u4: "take_back x ls ?u3 = (Inr (), u4)" "redis_up u4" "w_db u4 = db'"
    using take_back_up by fastforce
  have "bigint_rows db'" using db(3) r by (auto simp: bigint_rows_def expired_def)
  with recover_queue [of u4] u4 r e(2) obtain w' where w': "recoverOrphanedTasks u4 = (Inr (), w')" "w_db w' = db'"
    "queue_of (w_redis w') = Some (map fmt_int (waiting_ids db'))" by auto
  have run: "scanner_round x w = (Inr (), w')"
    using c1(1) c2(1,2) e(1) u4(1) w'(1) by (simp add: scanner_round_def bindp_app catch_std_def on_db_def)
  have "distinct (map ir_id (rows db'))" using r wf_distinct by blast
  then have d: "distinct (waiting_ids db')"
    unfolding waiting_ids_def by (simp add: distinct_map inj_on_def)
  have "\<not> time_less (ir_lease_expires_at q) (time_t_of (w_now w))" if "q \<in> set (rows db')" "row_status q = Generating" for q
  proof
    assume tl: "time_less (ir_lease_expires_at q) (time_t_of (w_now w))"
    have rows: "rows db' = map (expired (w_db w) (time_t_of t2)) (rows (w_db w))" using r by blast
    have "q \<in> expired (w_db w) (time_t_of t2) ` set (rows (w_db w))" using that(1) by (simp add: rows)
    then obtain q0 where q0: "q0 \<in> set (rows (w_db w))" "q = expired (w_db w) (time_t_of t2) q0" by blast
    have "time_t_of (w_now w) \<le> time_t_of t2" by (rule time_t_of_mono) (rule c2(4))
    with tl have "time_less (ir_lease_expires_at q) (time_t_of t2)" by (auto simp: time_less_def split: option.splits)
    moreover have "row_status q0 = Generating" "q = q0"
      using that(2) q0 by (auto simp: expired_def split: if_splits)
    ultimately have "lease_over (w_db w) (time_t_of t2) q0"
      using sql_guards(5) [OF db(1) wf_rowD [OF db(1) q0(1)]] by (auto simp: lease_over_def time_less_def split: option.splits)
    then have "row_status (expired (w_db w) (time_t_of t2) q0) \<noteq> Generating"
      by (auto simp: expired_def expiry_guards)
    with q0(2) that(2) show False by simp
  qed
  with run w' d show ?thesis by (auto simp: waiting_ids_def)
qed

theorem scanner_recovers_witness:
  "\<exists>w'. scanner_round demo_x (demo_world (demo_db [set_claimed ''w'' (- 70) (- 10) (demo_row 1 5 Queued), demo_row 2 6 Pending]) demo_redis) = (Inr (), w') \<and>
     queue_of (w_redis w') = Some (map fmt_int (waiting_ids (w_db w')))"
proof -
  let ?db = "demo_db [set_claimed ''w'' (- 70) (- 10) (demo_row 1 5 Queued), demo_row 2 6 Pending]"
  have "wf_db ?db" by (rule wf_demo_db) simp_all
  moreover have "redis_up (demo_world ?db demo_redis)"
    by (simp add: redis_up_def redis_isAvailable_def demo_redis_def default_redis_config_def)
  ultimately show ?thesis
    using scanner_recovers [of "demo_world ?db demo_redis" demo_x] by (simp add: bigint_rows_def is_int64_def) blast
qed

section \<open>The lease keeper\<close>

lemma try_steps_keep:
  assumes "P c" "\<And>f c c'. f \<in> set fs \<Longrightarrow> P c \<Longrightarrow> f c = Inr c' \<Longrightarrow> P c'"
  shows "P (try_steps fs c)"
  using assms
proof (induction fs arbitrary: c)
  case (Cons f fs)
  show ?case
  proof (cases "f c")
    case (Inr c')
    have "P c'" using Cons.prems Inr by (meson list.set_intros(1))
    then show ?thesis using Cons.IH [of c'] Cons.prems(2) Inr by auto
  qed (use Cons.prems(1) in simp)
qed simp

lemma time_t_of_add: "time_t_of (t + s * ns) = time_t_of t + s"
  by (simp add: time_t_of_def ns_def)

lemma loaded_config:
  "30 \<le> tc_lease_seconds (loadTaskEngineConfig j) \<and> 100 \<le> tc_poll_interval_ms (loadTaskEngineConfig j) \<and>
   0 \<le> tc_workers (loadTaskEngineConfig j)"
proof -
  let ?P = "\<lambda>c. 30 \<le> tc_lease_seconds c \<and> 100 \<le> tc_poll_interval_ms c \<and> 0 \<le> tc_workers c"
  have d: "?P default_engine_config" by (simp add: default_engine_config_def)
  have "?P (try_steps (engine_fields m) default_engine_config)" for m
    by (rule try_steps_keep [of ?P, OF d]) (auto simp: engine_fields_def bindr_def split: sum.splits)
  with d show ?thesis by (simp add: loadTaskEngineConfig_def split: sum.split option.split)
qed

text \<open>
  C34: the keeper of a running task keeps the task from being taken away. With
  the configuration as the program loads it, a round that comes when the next renewal is due (and
  finds the database) moves the end of the lease past the time the following renewal is due by at
  least ten seconds; so a lease scan at any time up to then leaves the row alone, and no other
  worker can claim it from the table.
\<close>

theorem keeper_keeps_the_lease:
  assumes cfg: "cfg = loadTaskEngineConfig j" and due: "due \<le> w_now w"
    and db: "wf_db (w_db w)" "quiet (w_db w)" "r \<in> set (rows (w_db w))"
    and held: "held_row (w_db w) (img_id t) (img_user_id t) v r"
    and old: "\<forall>e. ir_lease_expires_at r = Some e \<longrightarrow> e < time_t_of (w_now w) + tc_lease_seconds cfg"
  shows "\<exists>due' w'. keeper_round cfg t v due w = (Inr (Some due'), w') \<and>
     (\<exists>r'\<in>set (rows (w_db w')). ir_id r' = ir_id r \<and> ir_worker_id r' = ir_worker_id r \<and> row_status r' = Generating \<and>
        (\<forall>s. s \<le> due' + 10 * ns \<longrightarrow> \<not> lease_over (w_db w') (time_t_of s) r' \<and> \<not> claimable (w_db w') (time_t_of s) r'))"
proof -
  let ?L = "tc_lease_seconds cfg"
  have L: "30 \<le> ?L" using loaded_config cfg by blast
  obtain now w1 where c1: "clock w = (Inr now, w1)" "w_db w1 = w_db w" "w_now w \<le> now" "w_now w1 = now"
    by (simp add: clock_def Let_def split: list.split)
  define m where "m = (catch_all (when_redis (bindp (on_redis (redis_renewLease (img_id t) v ?L)) (\<lambda>_. ret ())) (ret ()))
      (\<lambda>_. ret ()) :: ('a world, unit) prog)"
  have m: "returns m" "leaves w_db m" "leaves w_now m" unfolding m_def by (intro returns_intros leaves_intros)+
  obtain w2 where c2: "m w1 = (Inr (), w2)" "w_db w2 = w_db w" "w_now w2 = now"
    using returnsD [OF m(1), of w1] leaves_run [OF m(2)] leaves_run [OF m(3)] c1(2,4) by (metis (full_types) old.unit.exhaust)
  obtain now' w3 where c3: "clock w2 = (Inr now', w3)" "w_db w3 = w_db w" "now \<le> now'"
    using c2(2,3) by (simp add: clock_def Let_def split: list.split)
  let ?e = "time_t_of (expires_at now' ?L)"
  have e: "?e = time_t_of now' + ?L" using L by (simp add: expires_at_def lease_seconds_def time_t_of_add)
  let ?st = "stmt_renew (img_id t) (img_user_id t) v ?e"
  have mono: "time_t_of (w_now w) \<le> time_t_of now'" by (rule time_t_of_mono) (use c1(3) c3(3) in simp)
  have ne: "r\<lparr>ir_lease_expires_at := Some ?e\<rparr> \<noteq> r"
  proof
    assume "r\<lparr>ir_lease_expires_at := Some ?e\<rparr> = r"
    then have "ir_lease_expires_at r = Some ?e" by (metis image_row.select_convs(24) image_row.surjective image_row.update_convs(24))
    with old e mono show False by simp
  qed
  have pos: "0 < fst (?st (w_db w))"
    unfolding stmt_renew_def fst_sql_update_pos using db(3) held ne by blast
  have rn: "renewLease now' (img_id t) (img_user_id t) v ?L (w_db w) = (Inr True, snd (?st (w_db w)))"
    using pos by (simp add: renewLease_def quiet_bind [OF db(2)])
  let ?due = "now + leaseRenewInterval ?L * ns" and ?w' = "w3\<lparr>w_db := snd (?st (w_db w))\<rparr>"
  let ?r = "r\<lparr>ir_lease_expires_at := Some ?e\<rparr>"
  have run: "keeper_round cfg t v due w = (Inr (Some ?due), ?w')"
    using c1 c2 c3 rn due by (simp add: keeper_round_def bindp_app m_def [symmetric] timed_db_def on_db_def)
  have g: "row_status r = Generating"
    using held sql_guards(5) [OF db(1) wf_rowD [OF db(1,3)]] by (simp add: held_row_def)
  have mem: "?r \<in> set (rows (w_db ?w'))"
    using db(3) held by (auto simp: stmt_renew_def sql_update_sel)
  have wf: "wf_db (w_db ?w')" using wf_db_update [OF db(1)] by (simp add: stmt_renew_def)
  have no: "\<not> time_less (Some ?e) (time_t_of s)" if "s \<le> ?due + 10 * ns" for s
  proof -
    have "time_t_of s \<le> time_t_of (now + (leaseRenewInterval ?L + 10) * ns)"
      by (rule time_t_of_mono) (use that in \<open>simp add: algebra_simps\<close>)
    also have "\<dots> = time_t_of now + leaseRenewInterval ?L + 10" by (simp add: time_t_of_add)
    also have "\<dots> \<le> time_t_of now' + ?L"
      using time_t_of_mono [OF c3(3)] L by (simp add: leaseRenewInterval_def)
    finally show ?thesis by (simp add: time_less_def e)
  qed
  have "\<not> lease_over (w_db ?w') (time_t_of s) ?r \<and> \<not> claimable (w_db ?w') (time_t_of s) ?r" if "s \<le> ?due + 10 * ns" for s
    using no [OF that] claimable_iff [OF wf mem] g by (simp add: lease_over_def)
  then have "ir_id ?r = ir_id r \<and> ir_worker_id ?r = ir_worker_id r \<and> row_status ?r = Generating \<and>
      (\<forall>s. s \<le> ?due + 10 * ns \<longrightarrow> \<not> lease_over (w_db ?w') (time_t_of s) ?r \<and> \<not> claimable (w_db ?w') (time_t_of s) ?r)"
    using g by simp
  with run mem show ?thesis by blast
qed

theorem keeper_keeps_the_lease_witness:
  "let r = set_claimed ''w'' 0 65 (demo_row 1 5 Queued); w = demo_world (demo_db [r]) demo_redis
   in \<exists>due' w'. keeper_round (loadTaskEngineConfig (Inl (StdExn []))) (default_image\<lparr>img_id := 1, img_user_id := 5\<rparr>) ''w'' 0 w =
        (Inr (Some due'), w') \<and> rows (w_db w') \<noteq> []"
proof -
  let ?r = "set_claimed ''w'' 0 65 (demo_row 1 5 Queued)"
  let ?w = "demo_world (demo_db [?r]) demo_redis"
  have wf: "wf_db (demo_db [?r])" by (rule wf_demo_db) simp_all
  have cfg: "tc_lease_seconds (loadTaskEngineConfig (Inl (StdExn []))) = 900"
    by (simp add: loadTaskEngineConfig_def default_engine_config_def)
  have "time_t_of 0 = 0" by (simp add: time_t_of_def)
  then show ?thesis
    using keeper_keeps_the_lease [OF refl, of 0 ?w ?r "default_image\<lparr>img_id := 1, img_user_id := 5\<rparr>" "''w''" "Inl (StdExn [])"] wf
    unfolding Let_def by (fastforce simp: held_row_def by_id_and_user_def text_eq_def cfg)
qed

section \<open>A lost reply\<close>

text \<open>The worker takes a repository error for a lost claim and removes the stored image. When the
  statement of the completion ran and only its reply was lost, the row says success, with the key
  of an object that is gone.\<close>

theorem lost_reply_loses_image:
  assumes db: "wf_db db" "table_ready db" "cfg_host db \<noteq> []" "cfg_database db \<noteq> []" "faults db = [ReplyLost e]"
    and held: "r \<in> set (rows db)" "held_row db (img_id g) (img_user_id g) (img_worker_id g) r"
    and st: "minioClient se = Inr c" "os_exists (w_objects w)" "os_faults (w_objects w) = []" "img_storage_key g \<noteq> []"
  shows "fst (finishClaimedTask g db) = Inl (repo_error_of e) \<and>
     set_finished g r \<in> set (rows (snd (finishClaimedTask g db))) \<and>
     os_objects (w_objects (snd (cleanupOrphanedStoredImage se g w))) (img_storage_key g) = None"
proof -
  have sch: "imageSchemaName db = Inr (cfg_database db)" using db(3,4) by (simp add: imageSchemaName_def)
  have ex: "exec (stmt_finish g) db = (Inl e, snd (stmt_finish g (with_faults db [])))"
    by (simp add: exec_unfold [OF sch] db(5))
  have fin: "finishClaimedTask g db = (Inl (repo_error_of e), snd (stmt_finish g (with_faults db [])))"
    by (simp add: finishClaimedTask_def repoInvoke_def bindp_app db(2) ex)
  have "set_finished g r \<in> set (rows (snd (stmt_finish g (with_faults db []))))"
    using held by (auto simp: stmt_finish_def guards_with_faults sql_update_sel)
  moreover have "os_objects (w_objects (snd (cleanupOrphanedStoredImage se g w))) (img_storage_key g) = None"
    using st by (simp add: cleanupOrphanedStoredImage_def catch_all_def bindp_app on_objects_def storage_remove_def
        deleteObject_def os_exec_def split: prod.split sum.split)
  ultimately show ?thesis by (simp add: fin)
qed

end
