(* ===== verification/Image_Service_Facts.thy ===== *)
theory Image_Service_Facts
  imports Image_Service Task_Engine_Facts Cache_Laws
begin

text \<open>
  What the service promises its caller: an answer to every request, tasks that have the shape the
  model service accepts, a quota, and no access to the tasks of other users.
\<close>

section \<open>Every request is answered\<close>

text \<open>No \<open>std::exception\<close> leaves the program.\<close>

definition contained :: "('s, 'a) prog \<Rightarrow> bool" where
  "contained m \<longleftrightarrow> (\<forall>s e s'. m s = (Inl e, s') \<longrightarrow> \<not> is_std_exn e)"

named_theorems contained_intros \<open>rules for the exceptions that may leave a program\<close>

lemma returns_contained: "returns m \<Longrightarrow> contained m"
  unfolding returns_def contained_def by (metis Pair_inject sum.distinct(1))

lemma contained_bindp [contained_intros]:
  "contained m \<Longrightarrow> (\<And>x. contained (k x)) \<Longrightarrow> contained (bindp m k)"
  unfolding contained_def bindp_def by (auto split: prod.splits sum.splits)

lemma contained_catch_std [contained_intros]: "(\<And>e. contained (h e)) \<Longrightarrow> contained (catch_std m h)"
  unfolding contained_def catch_std_def by (auto split: prod.splits sum.splits if_splits)

lemma contained_catch_all [contained_intros]: "(\<And>e. contained (h e)) \<Longrightarrow> contained (catch_all m h)"
  unfolding contained_def catch_all_def by (auto split: prod.splits sum.splits)

lemma contained_if [contained_intros]: "contained m \<Longrightarrow> contained n \<Longrightarrow> contained (if b then m else n)"
  by simp

lemma contained_option [contained_intros]:
  "contained m \<Longrightarrow> (\<And>x. contained (k x)) \<Longrightarrow> contained (case v of None \<Rightarrow> m | Some x \<Rightarrow> k x)"
  by (cases v) simp_all

lemma contained_sum [contained_intros]:
  "(\<And>x. contained (h x)) \<Longrightarrow> (\<And>x. contained (k x)) \<Longrightarrow> contained (case v of Inl x \<Rightarrow> h x | Inr x \<Rightarrow> k x)"
  by (cases v) simp_all

lemma contained_prod [contained_intros]: "(\<And>x y. contained (k x y)) \<Longrightarrow> contained (case v of (x, y) \<Rightarrow> k x y)"
  by (cases v) simp

lemma contained_Let [contained_intros]: "contained (f x) \<Longrightarrow> contained (Let x f)"
  by (simp add: Let_def)

lemma contained_cached [contained_intros]:
  "contained m \<Longrightarrow> contained n \<Longrightarrow> (\<And>g. contained (k g)) \<Longrightarrow>
   contained (case c of CacheMiss \<Rightarrow> m | CachedAbsent \<Rightarrow> n | CachedImage g \<Rightarrow> k g)"
  by (cases c) simp_all

lemma returns_timed_db [returns_intros]: "returns (timed_db f)"
  unfolding timed_db_def by (intro returns_intros)

lemma contained_plain [contained_intros]:
  "contained (ret x)" "contained (on_db f1)" "contained (on_cache f2)" "contained (on_metrics f3)" "contained clock"
  "contained (record_status st)" "contained (engine_enqueue i)" "contained (deny er)" "contained (timed_db f4)"
  unfolding deny_def by (rule returns_contained, intro returns_intros)+

lemma contained_repo_ok [contained_intros]: "(\<And>v. contained (k v)) \<Longrightarrow> contained (repo_ok r k)"
  unfolding repo_ok_def by (intro contained_intros)

lemma contained_with_task [contained_intros]:
  assumes "\<And>g. contained (k g)"
  shows "contained (with_task u i e k)"
  unfolding with_task_def by (intro contained_intros assms)

lemma contained_presign_list [contained_intros]: "contained (presignListImagesInPlace x gs)"
proof (induction gs)
  case (Cons g gs)
  show ?case unfolding presignListImagesInPlace.simps by (intro contained_intros Cons.IH)
qed (simp only: presignListImagesInPlace.simps contained_plain)

lemma contained_steps [contained_intros]:
  "contained (presignInPlace x g)" "contained (writeToCache x k g)" "contained (writeListCache x d k l)"
  "contained (invalidateListCacheFor x u)" "contained (quota_check x u adm)" "contained (announce x u g)"
  "contained (list_from_cache x k)" "contained (image_from_cache x k b)"
  unfolding presignInPlace_def writeToCache_def writeListCache_def invalidateListCacheFor_def quota_check_def
    announce_def list_from_cache_def image_from_cache_def
  by (intro contained_intros)+

lemma contained_lists [contained_intros]:
  "contained (list_from_repo x d k q)" "contained (image_from_repo x k u i b)" "contained (insert_task x u g)"
  unfolding list_from_repo_def image_from_repo_def insert_task_def by (intro contained_intros)+

lemma contained_health [contained_intros]: "contained (svc_checkHealth x)"
  unfolding svc_checkHealth_def checkHealth_def by (intro contained_intros)

section \<open>What a request does to the table\<close>

text \<open>The repository operations of a user's requests.\<close>

fun request_op :: "int \<Rightarrow> repo_op \<Rightarrow> bool" where
  "request_op u (OpInsert now g) \<longleftrightarrow> img_user_id g = u \<and> img_status g = Queued"
| "request_op u (OpPage now v p z) \<longleftrightarrow> v = u"
| "request_op u (OpPageStatus now v st p z) \<longleftrightarrow> v = u"
| "request_op u (OpFind now i v) \<longleftrightarrow> v = u"
| "request_op u (OpFindRequest now q v) \<longleftrightarrow> v = u"
| "request_op u (OpCount v) \<longleftrightarrow> v = u"
| "request_op u (OpDelete i v) \<longleftrightarrow> v = u"
| "request_op u (OpCancel now i v) \<longleftrightarrow> v = u"
| "request_op u (OpRetry now i v) \<longleftrightarrow> v = u"
| "request_op u OpQueuedIds \<longleftrightarrow> True"
| "request_op u _ \<longleftrightarrow> False"

lemma db_by_presign [db_by_intros]: "db_by P (presignWithCache x k)"
  unfolding presignWithCache_def by (intro db_by_intros)

lemma db_by_presign_list [db_by_intros]: "db_by P (presignListImagesInPlace x gs)"
proof (induction gs)
  case (Cons g gs)
  show ?case unfolding presignListImagesInPlace.simps by (intro db_by_intros Cons.IH)
qed (simp only: presignListImagesInPlace.simps db_by_plain)

lemma db_by_service_steps [db_by_intros]:
  "db_by P (presignInPlace x g)" "db_by P (writeToCache x k g)" "db_by P (writeListCache x d k l)"
  "db_by P (invalidateListCacheFor x u)" "db_by P (list_from_cache x k)" "db_by P (image_from_cache x k b)"
  "db_by P (forget_in_redis i)" "db_by P (deny e)"
  unfolding presignInPlace_def writeToCache_def writeListCache_def invalidateListCacheFor_def
    list_from_cache_def image_from_cache_def forget_in_redis_def deny_def
  by (intro db_by_intros)+

lemma db_by_repo_ok [db_by_intros]: "(\<And>v. db_by P (k v)) \<Longrightarrow> db_by P (repo_ok r k)"
  unfolding repo_ok_def by (intro db_by_intros)

lemma db_by_cached [db_by_intros]:
  "db_by P m \<Longrightarrow> db_by P n \<Longrightarrow> (\<And>g. db_by P (k g)) \<Longrightarrow>
   db_by P (case c of CacheMiss \<Rightarrow> m | CachedAbsent \<Rightarrow> n | CachedImage g \<Rightarrow> k g)"
  by (cases c) simp_all

lemma db_by_with_task [db_by_intros]:
  assumes "\<And>g. db_by (request_op u) (k g)"
  shows "db_by (request_op u) (with_task u i e k)"
  unfolding with_task_def by (intro db_by_intros assms; simp)

lemma db_by_enqueue [db_by_intros]: "db_by (request_op u) (TaskEngine_enqueue cfg i)"
  unfolding TaskEngine_enqueue_def engine_bootstrap_def recoverOrphanedTasks_def by (intro db_by_intros; simp)

lemma db_by_create [db_by_intros]: "db_by (request_op u) (svc_create x rand u payload adm)"
  unfolding svc_create_def quota_check_def insert_task_def announce_def
  by (intro db_by_intros; simp add: new_task_def)

lemma db_by_requests [db_by_intros]:
  "db_by (request_op u) (svc_listMy x d u p z)" "db_by (request_op u) (svc_listMyByStatus x d u st p z)"
  "db_by (request_op u) (svc_getById x u i b)" "db_by (request_op u) (svc_cancelById x u i)"
  "db_by (request_op u) (svc_retryById x u i)" "db_by (request_op u) (svc_getBinaryById x u i)"
  "db_by (request_op u) (svc_deleteById x u i)"
  unfolding svc_listMy_def svc_listMyByStatus_def svc_getById_def svc_cancelById_def svc_retryById_def
    svc_getBinaryById_def svc_deleteById_def list_from_repo_def image_from_repo_def
  by (intro db_by_intros; simp)+


section \<open>Reading keeps the table\<close>

fun reading_op :: "repo_op \<Rightarrow> bool" where
  "reading_op (OpPage now v p z) \<longleftrightarrow> True"
| "reading_op (OpPageStatus now v st p z) \<longleftrightarrow> True"
| "reading_op (OpFind now i v) \<longleftrightarrow> True"
| "reading_op (OpFindRequest now q v) \<longleftrightarrow> True"
| "reading_op (OpCount v) \<longleftrightarrow> True"
| "reading_op OpQueuedIds \<longleftrightarrow> True"
| "reading_op _ \<longleftrightarrow> False"

text \<open>The part of the database that requests see.\<close>

definition table_of :: "image_db \<Rightarrow> image_row list \<times> int \<times> (string \<Rightarrow> string)" where
  "table_of db = (rows db, next_id db, collation db)"

lemma table_pred_same: "table_pred (\<lambda>db. table_of db = c)"
  by (simp add: table_pred_def table_of_def)

lemma reading_op_table: "reading_op op \<Longrightarrow> table_of (run_op op db) = table_of db"
  by (rule run_op_keeps [where I = "\<lambda>d. table_of d = table_of db"])
    (auto simp: table_pred_same elim: op_write.cases)

lemma reading_table: "db_by reading_op m \<Longrightarrow> table_of (w_db (snd (m w))) = table_of (w_db w)"
  by (erule db_by_keeps [where I = "\<lambda>db. table_of db = table_of (w_db w)"]) (simp_all add: reading_op_table)

lemma reading_run: "db_by reading_op m \<Longrightarrow> m w = (r, w') \<Longrightarrow> table_of (w_db w') = table_of (w_db w)"
  using reading_table [of m w] by simp



section \<open>Creating a task\<close>

text \<open>The rows that count against the quota, and the rows of a request.\<close>

definition active_tasks :: "int \<Rightarrow> image_db \<Rightarrow> int" where
  "active_tasks u db = int (length (filter (\<lambda>r. ir_user_id r = u \<and> active_row db r) (rows db)))"

definition request_rows :: "int \<Rightarrow> string \<Rightarrow> image_db \<Rightarrow> image_row list" where
  "request_rows u q db = filter (\<lambda>r. text_eq db (ir_request_id r) q \<and> ir_user_id r = u) (rows db)"

lemma table_of_rows:
  assumes "table_of db = table_of db'"
  shows "rows db = rows db'" "next_id db = next_id db'" "text_eq db = text_eq db'"
    "active_tasks u db = active_tasks u db'" "request_rows u q db = request_rows u q db'"
proof -
  show e: "rows db = rows db'" "next_id db = next_id db'" "text_eq db = text_eq db'"
    using assms by (auto simp: table_of_def text_eq_def fun_eq_iff split: option.split)
  show "active_tasks u db = active_tasks u db'" "request_rows u q db = request_rows u q db'"
    by (simp_all add: active_tasks_def request_rows_def active_row_def text_in_def e)
qed

lemma invoked_read:
  assumes "repoInvoke (bindp ensureTable (\<lambda>_. m)) db = (Inr v, db')"
  shows "\<exists>d. table_of d = table_of db \<and> m d = (Inr v, db')"
proof -
  obtain d where e: "ensureTable db = (Inr (), d)" and r: "m d = (Inr v, db')"
    using assms by (auto simp: repoInvoke_def bindp_def split: prod.splits sum.splits)
  have "table_of d = table_of db"
    using keepsD [OF keeps_ensureTable [OF table_pred_same], of db "table_of db"] e by simp
  with r show ?thesis by blast
qed









lemma timed_db_bindE:
  assumes "bindp (timed_db f) k w = (r, w')"
  obtains now v where "w_db v = snd (f now (w_db w))" "k (fst (f now (w_db w))) v = (r, w')"
proof -
  obtain now v where "timed_db f w = (Inr (fst (f now (w_db w))), v)" "w_db v = snd (f now (w_db w))"
    using timed_db_app [of f w] by blast
  then show thesis using that assms by simp
qed









lemma new_task_sel [simp]:
  "img_user_id (new_task u now q g) = u" "img_status (new_task u now q g) = Queued" "img_request_id (new_task u now q g) = q"
  by (simp_all add: new_task_def)

lemma create_stages:
  fixes x :: "('c, 'x) externals_scheme" and rand u payload adm
  defines "g \<equiv> trimmed_request (fromJson payload)"
  defines "body \<equiv> \<lambda>q. (case q of Inl e \<Rightarrow> deny e
     | Inr _ \<Rightarrow> bindp clock (\<lambda>now. bindp (if img_request_id g = [] then bindp clock (\<lambda>t. ret (buildRequestId t rand)) else ret (img_request_id g))
                (\<lambda>rid. insert_task x u (new_task u now rid g))))"
  shows "u \<le> 0 \<Longrightarrow> svc_create x rand u payload adm = deny unauthorized"
    "0 < u \<Longrightarrow> request_error g = Some er \<Longrightarrow> svc_create x rand u payload adm = deny er"
    "0 < u \<Longrightarrow> request_error g = None \<Longrightarrow> svc_create x rand u payload adm = bindp (quota_check x u adm) body"
  by (simp_all add: svc_create_def validateGenerationParams_def Let_def body_def flip: g_def)





section \<open>Any request\<close>

text \<open>The requests of a user; \<open>request\<close> runs one and keeps the state it leaves.\<close>

datatype user_request =
    RqCreate "64 word" json bool
  | RqList int int int
  | RqListStatus int string int int
  | RqGet int bool
  | RqCancel int
  | RqRetry int
  | RqBinary int
  | RqDelete int

fun request :: "('c, 'x) externals_scheme \<Rightarrow> int \<Rightarrow> user_request \<Rightarrow> ('c world, service_error option) prog" where
  "request x u (RqCreate rand payload adm) = bindp (svc_create x rand u payload adm) (\<lambda>r. ret (case r of Inl e \<Rightarrow> Some e | Inr _ \<Rightarrow> None))"
| "request x u (RqList d p z) = bindp (svc_listMy x d u p z) (\<lambda>r. ret (case r of Inl e \<Rightarrow> Some e | Inr _ \<Rightarrow> None))"
| "request x u (RqListStatus d st p z) = bindp (svc_listMyByStatus x d u st p z) (\<lambda>r. ret (case r of Inl e \<Rightarrow> Some e | Inr _ \<Rightarrow> None))"
| "request x u (RqGet i b) = bindp (svc_getById x u i b) (\<lambda>r. ret (case r of Inl e \<Rightarrow> Some e | Inr _ \<Rightarrow> None))"
| "request x u (RqCancel i) = bindp (svc_cancelById x u i) (\<lambda>r. ret (case r of Inl e \<Rightarrow> Some e | Inr _ \<Rightarrow> None))"
| "request x u (RqRetry i) = bindp (svc_retryById x u i) (\<lambda>r. ret (case r of Inl e \<Rightarrow> Some e | Inr _ \<Rightarrow> None))"
| "request x u (RqBinary i) = bindp (svc_getBinaryById x u i) (\<lambda>r. ret (case r of Inl e \<Rightarrow> Some e | Inr _ \<Rightarrow> None))"
| "request x u (RqDelete i) = bindp (svc_deleteById x u i) (\<lambda>r. ret (case r of Inl e \<Rightarrow> Some e | Inr _ \<Rightarrow> None))"

lemma contained_create: "contained (svc_create x rand u payload adm)"
proof (cases "0 < u")
  case True
  show ?thesis
  proof (cases "request_error (trimmed_request (fromJson payload))")
    case None
    show ?thesis unfolding create_stages(3) [OF True None] by (intro contained_intros)
  next
    case (Some er)
    show ?thesis unfolding create_stages(2) [OF True Some] by (intro contained_intros)
  qed
next
  case False
  then have "u \<le> 0" by simp
  show ?thesis unfolding create_stages(1) [OF \<open>u \<le> 0\<close>] by (intro contained_intros)
qed

lemma contained_requests:
  "contained (svc_listMy x d u p z)" "contained (svc_listMyByStatus x d u st p z)" "contained (svc_getById x u i b)"
  "contained (svc_cancelById x u i)" "contained (svc_retryById x u i)" "contained (svc_getBinaryById x u i)"
  "contained (svc_deleteById x u i)"
  unfolding svc_listMy_def svc_listMyByStatus_def svc_getById_def svc_cancelById_def svc_retryById_def
    svc_getBinaryById_def svc_deleteById_def Let_def forget_in_redis_def invalidateListCacheFor_def
  by (intro contained_intros)+

lemma db_by_request: "db_by (request_op u) (request x u rq)"
  by (cases rq) (simp_all, (intro db_by_intros)+)

text \<open>
  C35: whatever fails below the service (a statement, Redis, the cache, the
  object store, the JSON library, the configuration), no \<open>std::exception\<close> leaves a request: the
  caller gets a result or a service error.
\<close>

theorem service_contains_errors: "contained (request x u rq)"
  by (cases rq) (simp_all, (intro contained_intros contained_create contained_requests)+)

lemma request_op_user: "request_op u op \<Longrightarrow> op_user op = Some u \<or> op = OpQueuedIds"
  by (cases op) auto

lemma request_op_others: "request_op u op \<Longrightarrow> rows_of_others u (run_op op db) = rows_of_others u db"
  using request_op_user [of u op] run_op_others [of op u db] reading_op_table [of op db]
  by (auto simp: rows_of_others_def table_of_def)

text \<open>
  Whatever a user asks for and whatever fails on the way, the rows of
  every other user stay as they are and in their place.
\<close>

theorem requests_keep_to_their_user:
  "filter (\<lambda>r. ir_user_id r \<noteq> u) (rows (w_db (snd (request x u rq w)))) = filter (\<lambda>r. ir_user_id r \<noteq> u) (rows (w_db w))"
proof -
  have "rows_of_others u (w_db (snd (request x u rq w))) = rows_of_others u (w_db w)"
    by (rule db_by_keeps [OF db_by_request, where I = "\<lambda>db. rows_of_others u db = rows_of_others u (w_db w)"])
      (simp_all add: request_op_others)
  then show ?thesis by (simp add: rows_of_others_def)
qed

section \<open>What a granted request did\<close>

text \<open>An operation with one write and only reads after it, when it returns.\<close>

lemma invoked_write:
  assumes "repoInvoke (bindp ensureTable (\<lambda>_. bindp (exec f) k)) db = (Inr v, db')"
    and "\<And>n c. keeps (\<lambda>db. table_of db = c) (k n)"
  obtains d n d1 where "table_of d = table_of db" "f d = (n, d1)" "table_of db' = table_of d1" "k n d1 = (Inr v, db')"
proof -
  obtain d0 where d0: "table_of d0 = table_of db" "bindp (exec f) k d0 = (Inr v, db')"
    using invoked_read [OF assms(1)] by blast
  obtain n d1 where e: "exec f d0 = (Inr n, d1)" and k: "k n d1 = (Inr v, db')"
    using d0(2) by (auto simp: bindp_def split: prod.splits sum.splits)
  obtain fs where "f (with_faults d0 fs) = (n, d1)" using exec_InrD [OF e] by auto
  moreover have "table_of (with_faults d0 fs) = table_of db" using d0(1) by (simp add: table_of_def)
  moreover have "table_of db' = table_of d1" using keepsD [OF assms(2), of d1 "table_of d1" n] k by simp
  ultimately show thesis using that k by blast
qed

lemma keeps_answer: "keeps (\<lambda>db. table_of db = c) (if n = 0 then ret None else read_back op now i u)" for n :: nat
  by (intro keeps_intros keeps_read_back table_pred_same)

lemma unique_update:
  assumes "wf_db db" "r \<in> set (rows db)" "ir_id r = i" "p r" "\<And>q. p q \<Longrightarrow> ir_id q = i"
  shows "map (\<lambda>q. if p q then f q else q) (rows db) = map (\<lambda>q. if ir_id q = i then f q else q) (rows db)"
  using unique_row [OF assms(1,2)] assms(3-5) by (intro map_cong) auto

lemma table_of_guards:
  assumes "table_of db = table_of db'"
  shows "active_row db = active_row db'" "retryable_row db = retryable_row db'" "deletable_row db = deletable_row db'"
  using table_of_rows(3) [OF assms]
  by (simp_all add: active_row_def [abs_def] retryable_row_def [abs_def] deletable_row_def [abs_def] text_in_def)

lemma guarded_update_result:
  assumes "wf_db db" "sql_update (\<lambda>r. by_id_and_user i u r \<and> p r) g d = (n, d1)" "table_of d = table_of db" "n \<noteq> 0"
  shows "\<exists>r\<in>set (rows db). ir_id r = i \<and> ir_user_id r = u \<and> p r \<and>
    rows d1 = map (\<lambda>q. if ir_id q = i then g q else q) (rows db)"
proof -
  let ?p = "\<lambda>r. by_id_and_user i u r \<and> p r"
  have r: "rows d = rows db" using assms(3) by (simp add: table_of_def)
  have "fst (sql_update ?p g d) > 0" using assms(2,4) by simp
  then obtain t where t: "t \<in> set (rows db)" "?p t" unfolding fst_sql_update_pos r by blast
  have "rows d1 = map (\<lambda>q. if ?p q then g q else q) (rows db)"
    using assms(2) sql_update_sel(1) [of ?p g d] r by (metis snd_conv)
  also have "\<dots> = map (\<lambda>q. if ir_id q = i then g q else q) (rows db)"
    using unique_update [OF assms(1) t(1), of i ?p] t(2) by (auto simp: by_id_and_user_def)
  finally show ?thesis using t by (auto simp: by_id_and_user_def)
qed

lemma cancel_effect:
  assumes "wf_db db" "cancelByIdAndUserId now i u db = (Inr (Some g), db')"
  shows "\<exists>r\<in>set (rows db). ir_id r = i \<and> ir_user_id r = u \<and> canCancel (row_status r) \<and>
    rows db' = map (\<lambda>q. if ir_id q = i then set_cancelled (time_t_of now) q else q) (rows db)"
proof -
  obtain d n d1 where d: "table_of d = table_of db" "stmt_cancel i u (time_t_of now) d = (n, d1)" "table_of db' = table_of d1"
    and k: "(if n = 0 then ret None else read_back ''cancelByIdAndUserId'' now i u) d1 = (Inr (Some g), db')"
    using invoked_write [OF assms(2) [unfolded cancelByIdAndUserId_def] keeps_answer] .
  have "n \<noteq> 0" using k by (auto split: if_splits)
  moreover have "sql_update (\<lambda>r. by_id_and_user i u r \<and> active_row db r) (set_cancelled (time_t_of now)) d = (n, d1)"
    using table_of_guards(1) [OF d(1)] d(2) by (simp add: stmt_cancel_def)
  ultimately obtain r where r: "r \<in> set (rows db)" "ir_id r = i" "ir_user_id r = u" "active_row db r"
    "rows d1 = map (\<lambda>q. if ir_id q = i then set_cancelled (time_t_of now) q else q) (rows db)"
    using guarded_update_result [OF assms(1) _ d(1)] by blast
  have "canCancel (row_status r)" using sql_guards(2) [OF assms(1) wf_rowD [OF assms(1) r(1)]] r(4) by blast
  then show ?thesis using r table_of_rows(1) [OF d(3)] by auto
qed

lemma retry_effect:
  assumes "wf_db db" "retryByIdAndUserId now i u db = (Inr (Some g), db')"
  shows "\<exists>r\<in>set (rows db). ir_id r = i \<and> ir_user_id r = u \<and> canRetry (row_status r) (ir_retry_count r) (ir_max_retries r) \<and>
    rows db' = map (\<lambda>q. if ir_id q = i then set_retried q else q) (rows db)"
proof -
  obtain d n d1 where d: "table_of d = table_of db" "stmt_retry i u d = (n, d1)" "table_of db' = table_of d1"
    and k: "(if n = 0 then ret None else read_back ''retryByIdAndUserId'' now i u) d1 = (Inr (Some g), db')"
    using invoked_write [OF assms(2) [unfolded retryByIdAndUserId_def] keeps_answer] .
  have "n \<noteq> 0" using k by (auto split: if_splits)
  moreover have "sql_update (\<lambda>r. by_id_and_user i u r \<and> retryable_row db r) set_retried d = (n, d1)"
    using table_of_guards(2) [OF d(1)] d(2) by (simp add: stmt_retry_def)
  ultimately obtain r where r: "r \<in> set (rows db)" "ir_id r = i" "ir_user_id r = u" "retryable_row db r"
    "rows d1 = map (\<lambda>q. if ir_id q = i then set_retried q else q) (rows db)"
    using guarded_update_result [OF assms(1) _ d(1)] by blast
  have "canRetry (row_status r) (ir_retry_count r) (ir_max_retries r)"
    using sql_guards(4) [OF assms(1) wf_rowD [OF assms(1) r(1)]] r(4) by blast
  then show ?thesis using r table_of_rows(1) [OF d(3)] by auto
qed

lemma delete_effect:
  assumes "wf_db db" "deleteByIdAndUserId i u db = (Inr True, db')"
  shows "\<exists>r\<in>set (rows db). ir_id r = i \<and> ir_user_id r = u \<and> canDelete (row_status r) \<and>
    rows db' = filter (\<lambda>q. ir_id q \<noteq> i) (rows db)"
proof -
  let ?p = "\<lambda>d r. by_id_and_user i u r \<and> deletable_row d r"
  have "keeps (\<lambda>db. table_of db = c) (ret (n > 0))" for c and n :: nat by (intro keeps_intros)
  from invoked_write [OF assms(2) [unfolded deleteByIdAndUserId_def] this]
  obtain d n d1 where d: "table_of d = table_of db" "sql_delete (?p d) d = (n, d1)" "table_of db' = table_of d1"
    and k: "ret (n > 0) d1 = (Inr True, db')" .
  have p: "?p d = ?p db" using table_of_guards(3) [OF d(1)] by simp
  have r: "rows d = rows db" using d(1) by (simp add: table_of_def)
  have "filter (?p db) (rows db) \<noteq> []" using k d(2) unfolding p by (auto simp: sql_delete_def r)
  then obtain t where t: "t \<in> set (rows db)" "?p db t" by (auto simp: filter_empty_conv)
  have "rows db' = filter (\<lambda>q. \<not> ?p db q) (rows db)"
    using d(2,3) unfolding p by (auto simp: sql_delete_def table_of_def r)
  also have "\<dots> = filter (\<lambda>q. ir_id q \<noteq> i) (rows db)"
    using unique_row [OF assms(1) t(1)] t(2) by (intro filter_cong) (auto simp: by_id_and_user_def)
  finally have "rows db' = filter (\<lambda>q. ir_id q \<noteq> i) (rows db)" .
  moreover have "canDelete (row_status t)" using sql_guards(3) [OF assms(1) wf_rowD [OF assms(1) t(1)]] t(2) by blast
  ultimately show ?thesis using t by (auto simp: by_id_and_user_def)
qed

text \<open>The steps of a request that succeeds.\<close>

lemma repo_ok_InrD: "repo_ok q k v = (Inr (Inr a), w') \<Longrightarrow> \<exists>y. q = Inr y \<and> k y v = (Inr (Inr a), w')"
  by (cases q) (simp_all add: repo_ok_def)

lemma with_task_InrD:
  assumes "with_task u i e k w = (Inr (Inr a), w')"
  obtains g v where "table_of (w_db v) = table_of (w_db w)" "k g v = (Inr (Inr a), w')"
proof -
  let ?find = "\<lambda>now. findByIdAndUserId now i u"
  obtain now v where v: "w_db v = snd (?find now (w_db w))"
    and k: "repo_ok (fst (?find now (w_db w))) (\<lambda>current. case current of None \<Rightarrow> deny e | Some g \<Rightarrow> k g) v = (Inr (Inr a), w')"
    using timed_db_bindE [OF assms [unfolded with_task_def]] .
  obtain y where "(case y of None \<Rightarrow> deny e | Some g \<Rightarrow> k g) v = (Inr (Inr a), w')" using repo_ok_InrD [OF k] by blast
  then obtain g where "k g v = (Inr (Inr a), w')" by (cases y) (auto simp: deny_def)
  moreover have "table_of (w_db v) = table_of (w_db w)"
    using reading_op_table [of "OpFind now i u" "w_db w"] v by simp
  ultimately show thesis using that by blast
qed

text \<open>A program that returns what a repository operation answers and leaves what it leaves.\<close>

definition db_step :: "(image_db \<Rightarrow> 'a \<Rightarrow> image_db \<Rightarrow> bool) \<Rightarrow> ('c world, 'a) prog \<Rightarrow> bool" where
  "db_step R m \<longleftrightarrow> (\<forall>w r w'. m w = (r, w') \<longrightarrow> (\<exists>y. r = Inr y \<and> R (w_db w) y (w_db w')))"

lemma db_step_on_db: "db_step (\<lambda>db y db'. f db = (y, db')) (on_db f)"
  by (auto simp: db_step_def on_db_def split: prod.splits)

lemma db_step_timed: "db_step (\<lambda>db y db'. \<exists>now. f now db = (y, db')) (timed_db f)"
  unfolding db_step_def
proof (intro allI impI)
  fix w :: "'c world" and r w' assume "timed_db f w = (r, w')"
  with timed_db_app [of f w] show "\<exists>y. r = Inr y \<and> (\<exists>now. f now (w_db w) = (y, w_db w'))"
    by (metis Pair_inject prod.collapse)
qed

lemma reading_tail:
  "db_by reading_op (forget_in_redis i)" "db_by reading_op (TaskEngine_enqueue cfg i)"
  unfolding forget_in_redis_def TaskEngine_enqueue_def engine_bootstrap_def recoverOrphanedTasks_def
  by (intro db_by_intros; simp)+

text \<open>A request on one task: the look-up, the check of its status, one write, and only reads after it.\<close>

lemma guarded_request:
  fixes m :: "image_generation \<Rightarrow> ('c world, repo_error + 'y) prog"
  assumes "(if u \<le> 0 then deny unauthorized
      else with_task u i e (\<lambda>g. if \<not> p g then deny (d g) else bindp (m g) (\<lambda>r. repo_ok r (k g)))) w = (Inr (Inr a), w')"
    and "\<And>g. db_step R (m g)" "\<And>g y. db_by reading_op (k g y)"
  obtains g db y db' v' where "table_of db = table_of (w_db w)" "R db (Inr y) db'" "rows (w_db w') = rows db'"
    "k g y v' = (Inr (Inr a), w')"
proof -
  have "with_task u i e (\<lambda>g. if \<not> p g then deny (d g) else bindp (m g) (\<lambda>r. repo_ok r (k g))) w = (Inr (Inr a), w')"
    using assms(1) by (simp add: deny_def split: if_splits)
  then obtain g v where v: "table_of (w_db v) = table_of (w_db w)"
    and c: "(if \<not> p g then deny (d g) else bindp (m g) (\<lambda>r. repo_ok r (k g))) v = (Inr (Inr a), w')"
    by (rule with_task_InrD)
  obtain q v' where m: "m g v = (q, v')" by fastforce
  then obtain r where r: "q = Inr r" "R (w_db v) r (w_db v')" using assms(2) [of g] unfolding db_step_def by blast
  have "repo_ok r (k g) v' = (Inr (Inr a), w')" using c m r(1) by (simp add: deny_def split: if_splits)
  from repo_ok_InrD [OF this] obtain y where y: "r = Inr y" "k g y v' = (Inr (Inr a), w')" by auto
  have "rows (w_db w') = rows (w_db v')" using table_of_rows(1) [OF reading_run [OF assms(3) y(2)]] .
  from that [OF v r(2) [unfolded y(1)] this y(2)] show thesis .
qed

lemma wf_table: "table_of db = table_of db' \<Longrightarrow> wf_db db = wf_db db'"
  by (simp add: table_of_def wf_db_def)

lemma cancel_granted:
  assumes "wf_db (w_db w)" "svc_cancelById x u i w = (Inr (Inr a), w')"
  shows "\<exists>r\<in>set (rows (w_db w)). ir_id r = i \<and> ir_user_id r = u \<and> canCancel (row_status r) \<and>
     (\<exists>t. rows (w_db w') = map (\<lambda>q. if ir_id q = i then set_cancelled t q else q) (rows (w_db w)))"
  using assms(2) [unfolded svc_cancelById_def]
proof (rule guarded_request [where R = "\<lambda>db y db'. \<exists>now. cancelByIdAndUserId now i u db = (y, db')"], goal_cases)
  case (1 g)
  show ?case by (rule db_step_timed)
next
  case (2 g y)
  show ?case by (intro db_by_intros reading_tail)
next
  case (3 g db y db' v')
  from 3(4) obtain g' where "y = Some g'" by (cases y) (simp_all add: deny_def)
  with 3(2) obtain now where "cancelByIdAndUserId now i u db = (Inr (Some g'), db')" by blast
  from cancel_effect [OF _ this] assms(1) wf_table [OF 3(1)] show ?case
    unfolding 3(3) table_of_rows(1) [OF 3(1)] by blast
qed

lemma retry_granted:
  assumes "wf_db (w_db w)" "svc_retryById x u i w = (Inr (Inr a), w')"
  shows "\<exists>r\<in>set (rows (w_db w)). ir_id r = i \<and> ir_user_id r = u \<and>
     canRetry (row_status r) (ir_retry_count r) (ir_max_retries r) \<and>
     rows (w_db w') = map (\<lambda>q. if ir_id q = i then set_retried q else q) (rows (w_db w))"
  using assms(2) [unfolded svc_retryById_def]
proof (rule guarded_request [where R = "\<lambda>db y db'. \<exists>now. retryByIdAndUserId now i u db = (y, db')"], goal_cases)
  case (1 g)
  show ?case by (rule db_step_timed)
next
  case (2 g y)
  show ?case by (intro db_by_intros reading_tail)
next
  case (3 g db y db' v')
  from 3(4) obtain g' where "y = Some g'" by (cases y) (simp_all add: deny_def)
  with 3(2) obtain now where "retryByIdAndUserId now i u db = (Inr (Some g'), db')" by blast
  from retry_effect [OF _ this] assms(1) wf_table [OF 3(1)] show ?case
    unfolding 3(3) table_of_rows(1) [OF 3(1)] by blast
qed

lemma delete_granted:
  assumes "wf_db (w_db w)" "svc_deleteById x u i w = (Inr (Inr a), w')"
  shows "\<exists>r\<in>set (rows (w_db w)). ir_id r = i \<and> ir_user_id r = u \<and> canDelete (row_status r) \<and>
     rows (w_db w') = filter (\<lambda>q. ir_id q \<noteq> i) (rows (w_db w))"
  using assms(2) [unfolded svc_deleteById_def]
proof (rule guarded_request [where R = "\<lambda>db y db'. deleteByIdAndUserId i u db = (y, db')"], goal_cases)
  case (1 g)
  show ?case by (rule db_step_on_db)
next
  case (2 g y)
  show ?case by (intro db_by_intros)
next
  case (3 g db y db' v')
  from 3(4) have "y = True" by (cases y) (simp_all add: deny_def)
  with 3(2) have "deleteByIdAndUserId i u db = (Inr True, db')" by simp
  from delete_effect [OF _ this] assms(1) wf_table [OF 3(1)] show ?case
    unfolding 3(3) table_of_rows(1) [OF 3(1)] by blast
qed

text \<open>
  C20: when the service answers a cancellation, a retry or a deletion
  with success, then, whatever failed on the way, the task existed, belonged to the caller and was
  in a status that allows the request, and the table changed in exactly this row: it is cancelled,
  queued again with one more retry, or gone.
\<close>

theorem granted_requests_take_effect:
  assumes "wf_db (w_db w)"
  shows "(svc_cancelById x u i w = (Inr (Inr g), w') \<longrightarrow>
      (\<exists>r\<in>set (rows (w_db w)). ir_id r = i \<and> ir_user_id r = u \<and> canCancel (row_status r) \<and>
        (\<exists>t. rows (w_db w') = map (\<lambda>q. if ir_id q = i then set_cancelled t q else q) (rows (w_db w))))) \<and>
    (svc_retryById x u i w = (Inr (Inr g), w') \<longrightarrow>
      (\<exists>r\<in>set (rows (w_db w)). ir_id r = i \<and> ir_user_id r = u \<and>
        canRetry (row_status r) (ir_retry_count r) (ir_max_retries r) \<and>
        rows (w_db w') = map (\<lambda>q. if ir_id q = i then set_retried q else q) (rows (w_db w)))) \<and>
    (svc_deleteById x u i w = (Inr (Inr ()), w') \<longrightarrow>
      (\<exists>r\<in>set (rows (w_db w)). ir_id r = i \<and> ir_user_id r = u \<and> canDelete (row_status r) \<and>
        rows (w_db w') = filter (\<lambda>q. ir_id q \<noteq> i) (rows (w_db w))))"
  using cancel_granted [OF assms] retry_granted [OF assms] delete_granted [OF assms] by blast

text \<open>A concrete request: an ended task without an image is deleted.\<close>

lemma demo_delete:
  "\<exists>w'. svc_deleteById demo_x 5 1 (demo_world (demo_db [demo_row 1 5 Success]) demo_redis) = (Inr (Inr ()), w')"
proof -
  let ?r = "demo_row 1 5 Success"
  let ?w = "demo_world (demo_db [?r]) demo_redis"
  have g: "rowToImageGeneration now ?r = Inr (image_of now ?r)" for now by (rule row_readable) simp_all
  have f: "findByIdAndUserId now 1 5 (demo_db [?r]) = (Inr (Some (image_of now ?r)), demo_db [?r])" for now
    by (simp add: findByIdAndUserId_def repoInvoke_ready)
      (simp add: repoInvoke_def quiet_select by_id_and_user_def fetch_one_def g ret_def)
  have sel: "img_status (image_of now ?r) = Success" "img_storage_key (image_of now ?r) = []" for now
    by (simp_all add: image_of_sel) (simp add: demo_row_def image_values_def default_image_def getStringOrEmpty_def)
  have d: "fst (deleteByIdAndUserId 1 5 (demo_db [?r])) = Inr True"
    by (simp add: deleteByIdAndUserId_def quiet_bind)
      (simp add: repoInvoke_def ret_def sql_delete_def by_id_and_user_def deletable_row_def text_in_def text_eq_def)
  let ?w1 = "?w\<lparr>w_db := snd (deleteByIdAndUserId 1 5 (demo_db [?r]))\<rparr>"
  have c: "clock ?w = (Inr 0, ?w)" by (simp add: clock_def demo_world_def)
  have t: "timed_db (\<lambda>now. findByIdAndUserId now 1 5) ?w = (Inr (Inr (Some (image_of 0 ?r))), ?w)"
    by (simp add: timed_db_def c on_db_def f)
  have w1: "on_db (deleteByIdAndUserId 1 5) ?w = (Inr (Inr True), ?w1)"
    using d by (simp add: on_db_def split_beta)
  have n: "on_cache (ci_del (x_cache demo_x) k) v = (Inr False, v)" for k and v :: "unit world"
    by (simp add: on_cache_def demo_x_def null_cache_if_def)
  have b: "on_cache (ci_bumpVersion (x_cache demo_x) k k') v = (Inr None, v)" for k k' and v :: "unit world"
    by (simp add: on_cache_def demo_x_def null_cache_if_def)
  have i: "invalidateListCacheFor demo_x u v = (Inr (), v)" for u and v :: "unit world"
    unfolding invalidateListCacheFor_def by (simp only: bindp_Inr [OF b] ret_app)
  have tail: "bindp (on_cache (ci_del (x_cache demo_x) k)) (\<lambda>_. bindp (ret False) (\<lambda>_. bindp (invalidateListCacheFor demo_x u) (\<lambda>_. ret (Inr ())))) v
      = (Inr (Inr ()), v)" for k u and v :: "unit world"
    by (simp only: bindp_Inr [OF n] bindp_Inr [OF ret_app] bindp_Inr [OF i] ret_app)
  show ?thesis
    by (simp add: svc_deleteById_def with_task_def t repo_ok_def sel w1 catch_std_def bindp_Inr [OF ret_app] tail)
qed

theorem granted_requests_take_effect_witness:
  "\<exists>w'. svc_deleteById demo_x 5 1 (demo_world (demo_db [demo_row 1 5 Success]) demo_redis) = (Inr (Inr ()), w') \<and>
     rows (w_db w') = []"
proof -
  obtain w' where w': "svc_deleteById demo_x 5 1 (demo_world (demo_db [demo_row 1 5 Success]) demo_redis) = (Inr (Inr ()), w')"
    using demo_delete by blast
  have "wf_db (w_db (demo_world (demo_db [demo_row 1 5 Success]) demo_redis))"
    by (simp add: wf_demo_db)
  from granted_requests_take_effect [OF this, of demo_x 5 1 undefined w'] w' show ?thesis by auto
qed

section \<open>Finding\<close>

text \<open>
  The record of a new task is read from the payload of the client, and only some of its fields are
  reset: the storage key, the retry count, the retry limit and the worker stay as the client sent
  them. The key of another user's image becomes the key of the caller's row, whose image the
  caller may then fetch by a signed address or delete with the row.
\<close>

theorem client_chooses_storage_key:
  "ir_storage_key (image_values t n (new_task u now q (trimmed_request (fromJson payload)))) =
     Some (img_storage_key (fromJson payload)) \<and>
   ir_max_retries (image_values t n (new_task u now q (trimmed_request (fromJson payload)))) =
     img_max_retries (fromJson payload) \<and>
   img_storage_key (fromJson (JObj [(''prompt'', JStr ''a red fox''), (''storage_key'', JStr ''images/5/r-1.png'')])) =
     ''images/5/r-1.png''"
proof -
  have "img_storage_key (fromJson (JObj [(''prompt'', JStr ''a red fox''), (''storage_key'', JStr ''images/5/r-1.png'')])) =
      ''images/5/r-1.png''" by code_simp
  then show ?thesis by (simp add: image_values_def new_task_def trimmed_request_def)
qed

end
