(* ===== verification/Db_Session.thy ===== *)
theory Db_Session
  imports Json_Model
begin

text \<open>
  \<open>Backend/src/database/db_manager.cpp\<close>: the configuration of the database and the session of a
  thread, which is opened when it is needed and checked again after thirty seconds. A round trip to
  the server (connecting, a statement, the look-up of the schema) works or throws; the fates of the
  round trips to come are part of the state. Readings of the steady clock are arguments.
\<close>

section \<open>Configuration\<close>

record mysql_config =
  my_host :: string
  my_port :: int
  my_database :: string
  my_user :: string
  my_password :: string
  my_ssl :: "bool option"
  my_pool_size :: int

definition default_mysql_config :: mysql_config where
  "default_mysql_config = \<lparr>my_host = [], my_port = 0, my_database = [], my_user = [], my_password = [],
     my_ssl = None, my_pool_size = 10\<rparr>"

definition parseMysqlConfig :: "json \<Rightarrow> exn + mysql_config" where
  "parseMysqlConfig j =
     bindr (jvalue as_string j ''host'' ''127.0.0.1'') (\<lambda>h.
     bindr (jvalue as_int32 j ''port'' 33060) (\<lambda>p.
     bindr (jvalue as_string j ''username'' []) (\<lambda>u.
     bindr (jvalue as_string j ''password'' []) (\<lambda>pw.
     bindr (jvalue as_string j ''database'' []) (\<lambda>d.
     bindr (jvalue as_int32 j ''pool_size'' 10) (\<lambda>n.
     Inr \<lparr>my_host = h, my_port = p, my_database = d, my_user = u, my_password = pw,
          my_ssl = (case jfind j ''ssl'' of Some (JBool b) \<Rightarrow> Some b | _ \<Rightarrow> None), my_pool_size = max 1 n\<rparr>))))))"

datatype ssl_mode = SslRequired | SslDisabled

record session_settings =
  ss_host :: string
  ss_port :: int
  ss_user :: string
  ss_password :: string
  ss_ssl_mode :: "ssl_mode option"

definition buildSessionSettings :: "mysql_config \<Rightarrow> exn + session_settings" where
  "buildSessionSettings cfg =
     (if my_host cfg = [] then Inl (StdExn ''DB not initialized'')
      else Inr \<lparr>ss_host = my_host cfg, ss_port = my_port cfg, ss_user = my_user cfg, ss_password = my_password cfg,
        ss_ssl_mode = map_option (\<lambda>b. if b then SslRequired else SslDisabled) (my_ssl cfg)\<rparr>)"

section \<open>Sessions\<close>

text \<open>\<open>dm_verified\<close> is \<open>last_verified_at\<close>, 0 when it was never set.\<close>

record db_manager =
  dm_cfg :: mysql_config
  dm_global :: bool
  dm_session :: bool
  dm_verified :: int
  dm_net :: "exn option list"

definition kThreadSessionPingInterval :: int where "kThreadSessionPingInterval = 30 * 1000000000"

fun is_mysqlx_exn :: "exn \<Rightarrow> bool" where
  "is_mysqlx_exn (MysqlxError _) = True"
| "is_mysqlx_exn _ = False"

definition round_trip :: "(db_manager, unit) prog" where
  "round_trip m = (case dm_net m of
      [] \<Rightarrow> (Inr (), m)
    | None # fs \<Rightarrow> (Inr (), m\<lparr>dm_net := fs\<rparr>)
    | Some e # fs \<Rightarrow> (Inl e, m\<lparr>dm_net := fs\<rparr>))"

definition createSession :: "mysql_config \<Rightarrow> (db_manager, unit) prog" where
  "createSession cfg = (case buildSessionSettings cfg of Inl e \<Rightarrow> throw e | Inr _ \<Rightarrow> round_trip)"

definition markThreadSessionVerified :: "int \<Rightarrow> (db_manager, unit) prog" where
  "markThreadSessionVerified now m = (Inr (), m\<lparr>dm_verified := now\<rparr>)"

definition shouldPingThreadSession :: "db_manager \<Rightarrow> int \<Rightarrow> bool" where
  "shouldPingThreadSession m now \<longleftrightarrow> dm_verified m = 0 \<or> now - dm_verified m \<ge> kThreadSessionPingInterval"

definition db_init :: "mysql_config \<Rightarrow> (db_manager, unit) prog" where
  "db_init cfg m = bindp (createSession cfg) (\<lambda>_ m. (Inr (), m\<lparr>dm_global := True\<rparr>)) (m\<lparr>dm_cfg := cfg\<rparr>)"

definition db_config :: "db_manager \<Rightarrow> exn + mysql_config" where
  "db_config m = (if my_host (dm_cfg m) = [] then Inl (StdExn ''DB not initialized'') else Inr (dm_cfg m))"

definition db_session :: "db_manager \<Rightarrow> exn + unit" where
  "db_session m = (if dm_global m then Inr () else Inl (StdExn ''DB not initialized''))"

definition db_schema :: "(db_manager, unit) prog" where
  "db_schema m = (if dm_global m then round_trip m else (Inl (StdExn ''DB not initialized''), m))"

text \<open>Closing a session never throws.\<close>

definition resetThreadSession :: "(db_manager, unit) prog" where
  "resetThreadSession m = (Inr (), if dm_session m then m\<lparr>dm_session := False, dm_verified := 0\<rparr> else m)"

text \<open>\<open>catch (const mysqlx::Error&)\<close>.\<close>

definition catch_mysqlx :: "('s, 'a) prog \<Rightarrow> ('s, 'a) prog \<Rightarrow> ('s, 'a) prog" where
  "catch_mysqlx m h s = (case m s of
      (Inl e, s') \<Rightarrow> if is_mysqlx_exn e then h s' else (Inl e, s')
    | (Inr x, s') \<Rightarrow> (Inr x, s'))"

definition open_session :: "int \<Rightarrow> (db_manager, unit) prog" where
  "open_session now m = bindp (createSession (dm_cfg m))
     (\<lambda>_. bindp (\<lambda>m. (Inr (), m\<lparr>dm_session := True\<rparr>)) (\<lambda>_. markThreadSessionVerified now)) m"

definition threadSession :: "int \<Rightarrow> int \<Rightarrow> (db_manager, unit) prog" where
  "threadSession now now' m =
     (if \<not> dm_session m then open_session now' m
      else if \<not> shouldPingThreadSession m now then (Inr (), m)
      else catch_mysqlx (bindp round_trip (\<lambda>_. markThreadSessionVerified now))
             (bindp resetThreadSession (\<lambda>_. open_session now')) m)"

definition threadSchema :: "int \<Rightarrow> int \<Rightarrow> (db_manager, unit) prog" where
  "threadSchema now now' = bindp (threadSession now now') (\<lambda>_. round_trip)"

definition isHealthy :: "int \<Rightarrow> int \<Rightarrow> (db_manager, bool) prog" where
  "isHealthy now now' m =
     (let probe = bindp (threadSession now now') (\<lambda>_. bindp round_trip (\<lambda>_. bindp round_trip (\<lambda>_. ret True))) in
      if my_host (dm_cfg m) = [] \<or> my_database (dm_cfg m) = [] then (Inr False, m)
      else catch_mysqlx probe (bindp resetThreadSession (\<lambda>_. catch_mysqlx probe (ret False))) m)"

section \<open>Facts\<close>

lemma round_trip_sel [simp]:
  "dm_session (snd (round_trip m)) = dm_session m" "dm_verified (snd (round_trip m)) = dm_verified m"
  "dm_cfg (snd (round_trip m)) = dm_cfg m"
  by (auto simp: round_trip_def split: list.split option.split)

lemma open_session_InrD:
  "open_session now m = (Inr v, m') \<Longrightarrow> dm_session m' \<and> dm_verified m' = now"
  by (auto simp: open_session_def createSession_def bindp_def markThreadSessionVerified_def split: sum.splits prod.splits)

text \<open>A session that the thread gets has answered, or was opened, less than the interval ago.\<close>

lemma session_is_fresh:
  assumes "threadSession now now' m = (Inr v, m')" "now \<le> now'"
  shows "dm_session m' \<and> now - dm_verified m' < kThreadSessionPingInterval"
proof -
  have k: "0 < kThreadSessionPingInterval" by (simp add: kThreadSessionPingInterval_def)
  have fresh: ?thesis if "open_session now' m1 = (Inr v, m')" for m1
    using open_session_InrD [OF that] assms(2) k by simp
  show ?thesis
  proof (cases "dm_session m \<and> shouldPingThreadSession m now")
    case False
    then show ?thesis using assms(1) fresh [of m]
      by (auto simp: threadSession_def shouldPingThreadSession_def split: if_splits)
  next
    case True
    obtain r m1 where r: "round_trip m = (r, m1)" by fastforce
    have s: "dm_session m1" using round_trip_sel(1) [of m] r True by simp
    show ?thesis
    proof (cases r)
      case (Inl e)
      then show ?thesis using assms(1) True r fresh
        by (simp add: threadSession_def catch_mysqlx_def resetThreadSession_def split: if_splits)
    next
      case (Inr u)
      then show ?thesis using assms(1) True r s k
        by (simp add: threadSession_def catch_mysqlx_def markThreadSessionVerified_def) auto
    qed
  qed
qed

end
