(* ===== verification/Users.thy ===== *)
theory Users
  imports Db_Session Image_Repo
begin

text \<open>
  \<open>Backend/src/models/user.cpp\<close> and \<open>Backend/src/database/UserRepo.cpp\<close>: the record of a user, its
  JSON forms and validation, and the repository of users over the table \<open>users\<close> of
  \<open>init-db/01-schema.sql\<close>, whose columns are not null and whose user names and e-mail addresses are
  unique under the collation of the table. A statement meets its fate as in the task repository.
\<close>

section \<open>The record\<close>

record user =
  us_id :: int
  us_username :: string
  us_password :: string
  us_email :: string
  us_nickname :: string
  us_role :: string
  us_created_at :: time_point
  us_updated_at :: time_point
  us_enabled :: bool

definition default_user :: user where
  "default_user = \<lparr>us_id = 0, us_username = [], us_password = [], us_email = [], us_nickname = [],
     us_role = ''user'', us_created_at = 0, us_updated_at = 0, us_enabled = True\<rparr>"

definition user_toJson :: "user \<Rightarrow> json" where
  "user_toJson u = JObj [(''id'', JInt (us_id u)), (''username'', JStr (us_username u)), (''email'', JStr (us_email u)),
     (''nickname'', JStr (us_nickname u)), (''role'', JStr (us_role u)), (''enabled'', JBool (us_enabled u))]"

text \<open>\<open>if (j.contains(k)) field = j[k].get<T>()\<close>.\<close>

definition set_from :: "(json \<Rightarrow> exn + 'a) \<Rightarrow> json \<Rightarrow> string \<Rightarrow> ('a \<Rightarrow> 'r \<Rightarrow> 'r) \<Rightarrow> 'r \<Rightarrow> exn + 'r" where
  "set_from conv j k upd r = (case jfind j k of None \<Rightarrow> Inr r | Some v \<Rightarrow> bindr (conv v) (\<lambda>x. Inr (upd x r)))"

definition user_fromJson :: "json \<Rightarrow> exn + user" where
  "user_fromJson j =
     bindr (set_from as_int64 j ''id'' (\<lambda>x u. u\<lparr>us_id := x\<rparr>) default_user) (\<lambda>u.
     bindr (set_from as_string j ''username'' (\<lambda>x u. u\<lparr>us_username := x\<rparr>) u) (\<lambda>u.
     bindr (set_from as_string j ''password'' (\<lambda>x u. u\<lparr>us_password := x\<rparr>) u) (\<lambda>u.
     bindr (set_from as_string j ''email'' (\<lambda>x u. u\<lparr>us_email := x\<rparr>) u) (\<lambda>u.
     bindr (set_from as_string j ''nickname'' (\<lambda>x u. u\<lparr>us_nickname := x\<rparr>) u) (\<lambda>u.
     bindr (set_from as_string j ''role'' (\<lambda>x u. u\<lparr>us_role := x\<rparr>) u) (\<lambda>u.
     set_from as_bool j ''enabled'' (\<lambda>x u. u\<lparr>us_enabled := x\<rparr>) u))))))"

text \<open>A regular expression of the kind the validation uses: characters, and classes repeated.\<close>

datatype re_item = ReChar char | ReClass "char \<Rightarrow> bool" nat

fun re_match :: "re_item list \<Rightarrow> string \<Rightarrow> bool" where
  "re_match [] s \<longleftrightarrow> s = []"
| "re_match (ReChar c # rs) s \<longleftrightarrow> s \<noteq> [] \<and> hd s = c \<and> re_match rs (tl s)"
| "re_match (ReClass p n # rs) s \<longleftrightarrow>
     list_ex (\<lambda>i. list_all p (take i s) \<and> re_match rs (drop i s)) [n..<Suc (length s)]"

definition is_alpha :: "char \<Rightarrow> bool" where
  "is_alpha c \<longleftrightarrow> is_upper c \<or> is_lower c"

text \<open>\<open>[a-zA-Z0-9._%+-]+@[a-zA-Z0-9.-]+\.[a-zA-Z]{2,}\<close>.\<close>

definition email_pattern :: "re_item list" where
  "email_pattern =
     [ReClass (\<lambda>c. is_alnum c \<or> c \<in> set ''._%+-'') 1, ReChar (CHR ''@''),
      ReClass (\<lambda>c. is_alnum c \<or> c \<in> set ''.-'') 1, ReChar (CHR ''.''), ReClass is_alpha 2]"

definition validate_user :: "user \<Rightarrow> bool" where
  "validate_user u \<longleftrightarrow> 3 \<le> length (us_username u) \<and> length (us_username u) \<le> 20 \<and> 6 \<le> length (us_password u) \<and>
     re_match email_pattern (us_email u)"

section \<open>The table\<close>

record user_row =
  ur_id :: int
  ur_username :: string
  ur_email :: string
  ur_password :: string
  ur_nickname :: string
  ur_role :: string
  ur_enabled :: bool

record user_db =
  ud_conn :: db_manager
  ud_steady :: int
  ud_rows :: "user_row list"
  ud_next :: int
  ud_collation :: "string \<Rightarrow> string"
  ud_count_matched :: bool
  ud_faults :: "stmt_fault list"

definition on_conn :: "(db_manager, 'a) prog \<Rightarrow> (user_db, 'a) prog" where
  "on_conn f db = (case f (ud_conn db) of (r, m) \<Rightarrow> (r, db\<lparr>ud_conn := m\<rparr>))"

text \<open>The schema of the session of the thread, and the look-up of the table.\<close>

definition usersTable :: "(user_db, unit) prog" where
  "usersTable db = bindp (on_conn (threadSchema (ud_steady db) (ud_steady db))) (\<lambda>_. on_conn round_trip) db"

definition u_exec :: "(user_db \<Rightarrow> (exn + 'a) \<times> user_db) \<Rightarrow> (user_db, 'a) prog" where
  "u_exec f db = (case ud_faults db of
      [] \<Rightarrow> f db
    | Runs # fs \<Rightarrow> f (db\<lparr>ud_faults := fs\<rparr>)
    | Rejected e # fs \<Rightarrow> (Inl e, db\<lparr>ud_faults := fs\<rparr>)
    | ReplyLost e # fs \<Rightarrow> (Inl e, snd (f (db\<lparr>ud_faults := fs\<rparr>))))"

definition same_text :: "user_db \<Rightarrow> string \<Rightarrow> string \<Rightarrow> bool" where
  "same_text db a b \<longleftrightarrow> ud_collation db a = ud_collation db b"

text \<open>The six selected columns; \<open>enabled\<close> is not among them and keeps its default.\<close>

definition rowToUser :: "user_row \<Rightarrow> user" where
  "rowToUser r = default_user\<lparr>us_id := ur_id r, us_username := ur_username r, us_email := ur_email r,
     us_password := ur_password r, us_nickname := ur_nickname r, us_role := ur_role r\<rparr>"

definition select_users :: "(user_db \<Rightarrow> user_row \<Rightarrow> bool) \<Rightarrow> (user_db, user_row list) prog" where
  "select_users p = bindp usersTable (\<lambda>_. u_exec (\<lambda>db. (Inr (filter (p db) (ud_rows db)), db)))"

definition fetch_user :: "user_row list \<Rightarrow> ('s, user option) prog" where
  "fetch_user rs = ret (case rs of [] \<Rightarrow> None | r # _ \<Rightarrow> Some (rowToUser r))"

definition findByUsername :: "string \<Rightarrow> user_db \<Rightarrow> (repo_error + user option) \<times> user_db" where
  "findByUsername name = repoInvoke (bindp (select_users (\<lambda>db r. same_text db (ur_username r) name)) fetch_user)"

definition findByEmail :: "string \<Rightarrow> user_db \<Rightarrow> (repo_error + user option) \<times> user_db" where
  "findByEmail email = repoInvoke (bindp (select_users (\<lambda>db r. same_text db (ur_email r) email)) fetch_user)"

definition findById :: "int \<Rightarrow> user_db \<Rightarrow> (repo_error + user option) \<times> user_db" where
  "findById i = repoInvoke (bindp (select_users (\<lambda>db r. ur_id r = i)) fetch_user)"

definition existsByUsername :: "string \<Rightarrow> user_db \<Rightarrow> (repo_error + bool) \<times> user_db" where
  "existsByUsername name =
     repoInvoke (bindp (select_users (\<lambda>db r. same_text db (ur_username r) name)) (\<lambda>rs. ret (rs \<noteq> [])))"

definition existsByEmail :: "string \<Rightarrow> user_db \<Rightarrow> (repo_error + bool) \<times> user_db" where
  "existsByEmail email =
     repoInvoke (bindp (select_users (\<lambda>db r. same_text db (ur_email r) email)) (\<lambda>rs. ret (rs \<noteq> [])))"

text \<open>The unique keys of the table refuse a second user of the same name or address.\<close>

definition duplicate_entry :: exn where
  "duplicate_entry = MysqlxError ''Duplicate entry for key''"

definition stmt_insert_user :: "user \<Rightarrow> user_db \<Rightarrow> (exn + int) \<times> user_db" where
  "stmt_insert_user u db =
     (if list_ex (\<lambda>r. same_text db (ur_username r) (us_username u) \<or> same_text db (ur_email r) (us_email u)) (ud_rows db)
      then (Inl duplicate_entry, db)
      else (Inr (ud_next db), db\<lparr>ud_rows := ud_rows db @ [\<lparr>ur_id = ud_next db, ur_username = us_username u,
          ur_email = us_email u, ur_password = us_password u, ur_nickname = us_nickname u, ur_role = us_role u,
          ur_enabled = True\<rparr>], ud_next := ud_next db + 1\<rparr>))"

definition user_insert :: "user \<Rightarrow> user_db \<Rightarrow> (repo_error + int) \<times> user_db" where
  "user_insert u = repoInvoke (bindp usersTable (\<lambda>_. u_exec (stmt_insert_user u)))"

definition stmt_update_password :: "int \<Rightarrow> string \<Rightarrow> user_db \<Rightarrow> (exn + nat) \<times> user_db" where
  "stmt_update_password i h db =
     (Inr (length (filter (\<lambda>r. ur_id r = i \<and> (ud_count_matched db \<or> ur_password r \<noteq> h)) (ud_rows db))),
      db\<lparr>ud_rows := map (\<lambda>r. if ur_id r = i then r\<lparr>ur_password := h\<rparr> else r) (ud_rows db)\<rparr>)"

definition updatePassword :: "int \<Rightarrow> string \<Rightarrow> user_db \<Rightarrow> (repo_error + bool) \<times> user_db" where
  "updatePassword i h = repoInvoke (bindp usersTable (\<lambda>_. bindp (u_exec (stmt_update_password i h)) (\<lambda>n. ret (n > 0))))"

section \<open>Facts\<close>

text \<open>The users table: identifiers, names and addresses are unique.\<close>

definition wf_users :: "user_db \<Rightarrow> bool" where
  "wf_users db \<longleftrightarrow> distinct (map ur_id (ud_rows db)) \<and> 1 \<le> ud_next db \<and>
     (\<forall>r\<in>set (ud_rows db). 1 \<le> ur_id r \<and> ur_id r < ud_next db) \<and>
     distinct (map (\<lambda>r. ud_collation db (ur_username r)) (ud_rows db)) \<and>
     distinct (map (\<lambda>r. ud_collation db (ur_email r)) (ud_rows db))"

text \<open>What the users table holds, whatever the connection does.\<close>

definition users_of :: "user_db \<Rightarrow> user_row list \<times> int \<times> (string \<Rightarrow> string)" where
  "users_of db = (ud_rows db, ud_next db, ud_collation db)"

lemma wf_users_of: "users_of db = users_of db' \<Longrightarrow> wf_users db = wf_users db'"
  by (simp add: users_of_def wf_users_def)

lemma users_of_upd [simp]: "users_of (db\<lparr>ud_conn := c\<rparr>) = users_of db" "users_of (db\<lparr>ud_faults := fs\<rparr>) = users_of db"
  by (simp_all add: users_of_def)

lemma usersTable_keeps [simp]: "users_of (snd (usersTable db)) = users_of db"
  by (auto simp: usersTable_def on_conn_def bindp_def split: prod.split sum.split)

text \<open>One statement: nothing happened and it failed, or it ran; its answer may be lost.\<close>

lemma u_exec_cases:
  obtains e d where "u_exec f db = (Inl e, d)" "users_of d = users_of db"
  | d where "users_of d = users_of db" "u_exec f db = f d"
  | e d where "users_of d = users_of db" "u_exec f db = (Inl e, snd (f d))"
proof (cases "ud_faults db")
  case Nil
  then show ?thesis using that(2) [of db] by (simp add: u_exec_def)
next
  case (Cons x fs)
  then show ?thesis using that(1) [of _ "db\<lparr>ud_faults := fs\<rparr>"] that(2,3) [of "db\<lparr>ud_faults := fs\<rparr>"]
    by (cases x) (simp_all add: u_exec_def)
qed

lemma u_read_keeps: "users_of (snd (u_exec (\<lambda>db. (Inr (g db), db)) db)) = users_of db"
  by (cases rule: u_exec_cases [of "\<lambda>db. (Inr (g db), db)" db]) simp_all

lemma select_users_keeps: "users_of (snd (select_users p db)) = users_of db"
proof -
  obtain r d where t: "usersTable db = (r, d)" by fastforce
  have "users_of d = users_of db" using usersTable_keeps [of db] t by simp
  with t u_read_keeps [of _ d] show ?thesis by (cases r) (simp_all add: select_users_def)
qed

lemma select_users_InrD:
  assumes "select_users p db = (Inr rs, db')"
  shows "\<exists>d. users_of d = users_of db \<and> rs = filter (p d) (ud_rows d) \<and> users_of db' = users_of db"
proof -
  have k: "users_of db' = users_of db" using select_users_keeps [of p db] assms by simp
  obtain r d where t: "usersTable db = (Inr r, d)" and u: "u_exec (\<lambda>db. (Inr (filter (p db) (ud_rows db)), db)) d = (Inr rs, db')"
    using assms by (auto simp: select_users_def bindp_def split: prod.splits sum.splits)
  have d: "users_of d = users_of db" using usersTable_keeps [of db] t by simp
  show ?thesis
    by (cases rule: u_exec_cases [of "\<lambda>db. (Inr (filter (p db) (ud_rows db)), db)" d]) (use u d k in auto)
qed

lemma same_text_of: "users_of d = users_of db \<Longrightarrow> same_text d = same_text db \<and> ud_rows d = ud_rows db"
  by (simp add: users_of_def same_text_def [abs_def])

lemma snd_ret [simp]: "snd (ret x s) = s"
  by simp

lemma reads_keep_users:
  "users_of (snd (findByUsername n db)) = users_of db" "users_of (snd (findByEmail m db)) = users_of db"
  "users_of (snd (findById i db)) = users_of db" "users_of (snd (existsByUsername n db)) = users_of db"
  "users_of (snd (existsByEmail m db)) = users_of db"
proof -
  have b: "users_of (snd (bindp (select_users p) (\<lambda>rs. ret (g rs)) db)) = users_of db" for p and g :: "user_row list \<Rightarrow> 'z"
    using select_users_keeps [of p db] by (auto simp: bindp_def split: prod.split sum.split)
  show "users_of (snd (findByUsername n db)) = users_of db" "users_of (snd (findByEmail m db)) = users_of db"
    "users_of (snd (findById i db)) = users_of db" "users_of (snd (existsByUsername n db)) = users_of db"
    "users_of (snd (existsByEmail m db)) = users_of db"
    by (simp_all add: findByUsername_def findByEmail_def findById_def existsByUsername_def existsByEmail_def
        fetch_user_def [abs_def] b)
qed

text \<open>What a look-up returns is in the table.\<close>

lemma find_InrD:
  assumes "repoInvoke (bindp (select_users p) fetch_user) db = (Inr (Some u), db')"
  shows "\<exists>d r. users_of d = users_of db \<and> r \<in> set (ud_rows db) \<and> p d r \<and> u = rowToUser r"
proof -
  obtain rs d1 where s: "select_users p db = (Inr rs, d1)" and f: "fetch_user rs d1 = (Inr (Some u), db')"
    using assms by (auto simp: repoInvoke_def bindp_def split: prod.splits sum.splits)
  then obtain r rs' where r: "rs = r # rs'" "u = rowToUser r" by (auto simp: fetch_user_def split: list.splits)
  from select_users_InrD [OF s] obtain d where d: "users_of d = users_of db" "rs = filter (p d) (ud_rows d)" by blast
  then have "r \<in> set (ud_rows db)" "p d r"
    using r(1) same_text_of [OF d(1)] filter_eq_ConsD [of "p d" "ud_rows d" r rs'] by auto
  with d r show ?thesis by blast
qed

lemma findById_SomeD: "findById i db = (Inr (Some u), db') \<Longrightarrow> \<exists>r\<in>set (ud_rows db). ur_id r = i \<and> u = rowToUser r"
  unfolding findById_def by (auto dest: find_InrD)

lemma findByUsername_SomeD:
  "findByUsername n db = (Inr (Some u), db') \<Longrightarrow> \<exists>r\<in>set (ud_rows db). same_text db (ur_username r) n \<and> u = rowToUser r"
  unfolding findByUsername_def by (drule find_InrD, clarify, drule same_text_of) auto

lemma findByEmail_SomeD:
  "findByEmail n db = (Inr (Some u), db') \<Longrightarrow> \<exists>r\<in>set (ud_rows db). same_text db (ur_email r) n \<and> u = rowToUser r"
  unfolding findByEmail_def by (drule find_InrD, clarify, drule same_text_of) auto

text \<open>No user that is read is disabled, whatever its row says.\<close>

lemma rowToUser_enabled: "us_enabled (rowToUser (r\<lparr>ur_enabled := False\<rparr>))"
  by (simp add: rowToUser_def default_user_def)

text \<open>An insertion adds the user or leaves the table; the table keeps its unique keys.\<close>

definition added :: "user \<Rightarrow> user_db \<Rightarrow> user_db \<Rightarrow> bool" where
  "added u db db' \<longleftrightarrow> ud_collation db' = ud_collation db \<and> ud_next db' = ud_next db + 1 \<and>
     (\<forall>r\<in>set (ud_rows db). \<not> same_text db (ur_username r) (us_username u) \<and> \<not> same_text db (ur_email r) (us_email u)) \<and>
     ud_rows db' = ud_rows db @ [\<lparr>ur_id = ud_next db, ur_username = us_username u, ur_email = us_email u,
       ur_password = us_password u, ur_nickname = us_nickname u, ur_role = us_role u, ur_enabled = True\<rparr>]"

lemma stmt_insert_cases:
  "stmt_insert_user u db = (r, db') \<Longrightarrow>
     (\<exists>e. r = Inl e) \<and> db' = db \<or> r = Inr (ud_next db) \<and> added u db db'"
  by (auto simp: stmt_insert_user_def added_def list_ex_iff split: if_splits)

lemma added_cong: "added u d db' \<Longrightarrow> users_of d = users_of db \<Longrightarrow> added u db db'"
  by (auto simp: added_def users_of_def same_text_def)

lemma user_insert_cases:
  assumes "user_insert u db = (r, db')"
  shows "(\<exists>e. r = Inl e) \<and> users_of db' = users_of db \<or> (\<forall>i. r = Inr i \<longrightarrow> i = ud_next db) \<and> added u db db'"
proof -
  obtain q d where t: "usersTable db = (q, d)" by fastforce
  have d: "users_of d = users_of db" using usersTable_keeps [of db] t by simp
  show ?thesis
  proof (cases q)
    case (Inl e)
    then show ?thesis using assms t d by (auto simp: user_insert_def)
  next
    case (Inr v)
    then have r: "(r, db') = repoInvoke (u_exec (stmt_insert_user u)) d"
      using assms t by (simp add: user_insert_def repoInvoke_def)
    show ?thesis
    proof (cases rule: u_exec_cases [of "stmt_insert_user u" d])
      case (1 e d')
      with r d show ?thesis by simp
    next
      case (2 d')
      obtain q' d2 where s: "stmt_insert_user u d' = (q', d2)" by fastforce
      then have "u_exec (stmt_insert_user u) d = (q', d2)" using 2(2) by simp
      with r stmt_insert_cases [OF s] have "(\<exists>e. r = Inl e) \<and> db' = d' \<or> r = Inr (ud_next d') \<and> added u d' db'"
        by (cases q') auto
      moreover have "users_of d' = users_of db" using 2(1) d by simp
      moreover from this have "ud_next d' = ud_next db" by (simp add: users_of_def)
      ultimately show ?thesis by (auto intro: added_cong)
    next
      case (3 e d')
      obtain q' d2 where s: "stmt_insert_user u d' = (q', d2)" by fastforce
      with 3(2) r have "(\<exists>e. r = Inl e) \<and> db' = d2" by simp
      moreover have "users_of d' = users_of db" using 3(1) d by simp
      ultimately show ?thesis using stmt_insert_cases [OF s] by (auto intro: added_cong)
    qed
  qed
qed

lemma wf_users_added: "wf_users db \<Longrightarrow> added u db db' \<Longrightarrow> wf_users db'"
  unfolding wf_users_def added_def same_text_def by fastforce

text \<open>A new password reaches the row of its user only.\<close>

definition repassworded :: "int \<Rightarrow> string \<Rightarrow> user_db \<Rightarrow> user_db \<Rightarrow> bool" where
  "repassworded i h db db' \<longleftrightarrow> ud_next db' = ud_next db \<and> ud_collation db' = ud_collation db \<and>
     ud_rows db' = map (\<lambda>r. if ur_id r = i then r\<lparr>ur_password := h\<rparr> else r) (ud_rows db)"

lemma updatePassword_cases:
  assumes "updatePassword i h db = (r, db')"
  shows "(\<exists>e. r = Inl e) \<and> users_of db' = users_of db \<or> repassworded i h db db'"
proof -
  let ?f = "stmt_update_password i h"
  obtain q d where t: "usersTable db = (q, d)" by fastforce
  have d: "users_of d = users_of db" using usersTable_keeps [of db] t by simp
  have f: "\<exists>n. ?f d' = (Inr n, d2) \<Longrightarrow> users_of d' = users_of db \<Longrightarrow> repassworded i h db d2" for d' d2
    by (auto simp: stmt_update_password_def repassworded_def users_of_def)
  show ?thesis
  proof (cases q)
    case (Inl e)
    then show ?thesis using assms t d by (auto simp: updatePassword_def)
  next
    case (Inr v)
    then have r: "repoInvoke (bindp (u_exec ?f) (\<lambda>n. ret (n > 0))) d = (r, db')"
      using assms t by (simp add: updatePassword_def repoInvoke_def)
    show ?thesis
    proof (cases rule: u_exec_cases [of ?f d])
      case (1 e d')
      with r d show ?thesis by auto
    next
      case (2 d')
      obtain n d2 where s: "?f d' = (Inr n, d2)" by (simp add: stmt_update_password_def)
      with 2 r have "db' = d2" by (simp add: repoInvoke_def bindp_def)
      with f [of d' d2] s 2(1) d show ?thesis by auto
    next
      case (3 e d')
      obtain n d2 where s: "?f d' = (Inr n, d2)" by (simp add: stmt_update_password_def)
      with 3(2) r have "db' = d2" by (auto simp: repoInvoke_def bindp_def)
      with f [of d' d2] s 3(1) d show ?thesis by auto
    qed
  qed
qed

lemma wf_users_repassworded: "wf_users db \<Longrightarrow> repassworded i h db db' \<Longrightarrow> wf_users db'"
  by (auto simp: wf_users_def repassworded_def comp_def if_distrib cong: if_cong)

end
