(* ===== verification/Refresh_Tokens.thy ===== *)
theory Refresh_Tokens
  imports Redis_Client
begin

text \<open>
  \<open>Backend/src/services/refresh_token_store.cpp\<close>: which refresh tokens are live. The Redis store
  keeps a key per token and, per user, the set of the user's tokens; the store in memory keeps a map.
  Both keep one contract, stated as a locale: a token is consumed once, a revoked token is not
  consumed, and revoking a user revokes every token issued to the user.
\<close>

section \<open>The Redis store\<close>

definition refreshTokenKey :: "string \<Rightarrow> string" where
  "refreshTokenKey jti = ''zimage:refresh:'' @ jti"

definition userRefreshSetKey :: "int \<Rightarrow> string" where
  "userRefreshSetKey userId = ''zimage:refresh:user:'' @ fmt_int userId"

definition refreshStoreUnavailable :: "string \<Rightarrow> service_error" where
  "refreshStoreUnavailable m = mk_error 503 ''refresh_store_unavailable'' m"

text \<open>The frame of every operation: the test for a connection, and the catch of the exceptions,
  which all are \<open>std::exception\<close>s once there is a connection.\<close>

definition with_store :: "(redis_client, 'a) prog \<Rightarrow> redis_client \<Rightarrow> (service_error + 'a) \<times> redis_client" where
  "with_store m c =
     (if \<not> redis_isAvailable c then (Inl (refreshStoreUnavailable ''refresh token store is unavailable''), c)
      else case m c of
        (Inl e, c') \<Rightarrow> (Inl (refreshStoreUnavailable ''refresh token store failed''), c')
      | (Inr x, c') \<Rightarrow> (Inr x, c'))"

definition redis_store :: "string \<Rightarrow> int \<Rightarrow> int \<Rightarrow> redis_client \<Rightarrow> (service_error + unit) \<times> redis_client" where
  "redis_store jti userId ttl = with_store
     (bindp (kv_setex (refreshTokenKey jti) (fmt_int userId) (max ttl 1)) (\<lambda>_.
      bindp (kv_sadd (userRefreshSetKey userId) jti) (\<lambda>_.
      kv_expire (userRefreshSetKey userId) (max ttl 1))))"

definition redis_consume :: "string \<Rightarrow> redis_client \<Rightarrow> (service_error + int option) \<times> redis_client" where
  "redis_consume jti = with_store (bindp (kv_getDel (refreshTokenKey jti)) (\<lambda>v. case v of
      None \<Rightarrow> ret None
    | Some s \<Rightarrow> (case stoll s of
          Inl e \<Rightarrow> throw e
        | Inr userId \<Rightarrow> bindp (kv_srem (userRefreshSetKey userId) jti) (\<lambda>_. ret (Some userId)))))"

definition redis_revoke :: "string \<Rightarrow> redis_client \<Rightarrow> (service_error + unit) \<times> redis_client" where
  "redis_revoke jti = with_store (bindp (kv_get (refreshTokenKey jti)) (\<lambda>v.
      bindp (case v of
          None \<Rightarrow> ret ()
        | Some s \<Rightarrow> (case stoll s of Inl e \<Rightarrow> throw e | Inr userId \<Rightarrow> kv_srem (userRefreshSetKey userId) jti)) (\<lambda>_.
      bindp (kv_del (refreshTokenKey jti)) (\<lambda>_. ret ()))))"

fun del_tokens :: "string list \<Rightarrow> (redis_client, unit) prog" where
  "del_tokens [] = ret ()"
| "del_tokens (jti # js) = bindp (kv_del (refreshTokenKey jti)) (\<lambda>_. del_tokens js)"

definition redis_revokeUser :: "int \<Rightarrow> redis_client \<Rightarrow> (service_error + unit) \<times> redis_client" where
  "redis_revokeUser userId = with_store
     (bindp (kv_smembers (userRefreshSetKey userId)) (\<lambda>js.
      bindp (del_tokens js) (\<lambda>_.
      bindp (kv_del (userRefreshSetKey userId)) (\<lambda>_. ret ()))))"

section \<open>The store in memory\<close>

record memory_store =
  ms_tokens :: "string \<Rightarrow> (int \<times> time_point) option"
  ms_now :: time_point

definition eraseExpiredLocked :: "time_point \<Rightarrow> memory_store \<Rightarrow> memory_store" where
  "eraseExpiredLocked now s = s\<lparr>ms_tokens := (\<lambda>j. case ms_tokens s j of
      Some (u, e) \<Rightarrow> if e \<le> now then None else Some (u, e) | None \<Rightarrow> None)\<rparr>"

definition memory_store_token :: "string \<Rightarrow> int \<Rightarrow> int \<Rightarrow> memory_store \<Rightarrow> (service_error + unit) \<times> memory_store" where
  "memory_store_token jti userId ttl s =
     (Inr (), s\<lparr>ms_tokens := (ms_tokens s)(jti \<mapsto> (userId, ms_now s + max ttl 1 * ns))\<rparr>)"

definition memory_consume :: "string \<Rightarrow> memory_store \<Rightarrow> (service_error + int option) \<times> memory_store" where
  "memory_consume jti s = (let s' = eraseExpiredLocked (ms_now s) s in case ms_tokens s' jti of
      None \<Rightarrow> (Inr None, s')
    | Some (u, e) \<Rightarrow> (Inr (Some u), s'\<lparr>ms_tokens := (ms_tokens s')(jti := None)\<rparr>))"

definition memory_revoke :: "string \<Rightarrow> memory_store \<Rightarrow> (service_error + unit) \<times> memory_store" where
  "memory_revoke jti s = (Inr (), s\<lparr>ms_tokens := (ms_tokens s)(jti := None)\<rparr>)"

definition memory_revokeUser :: "int \<Rightarrow> memory_store \<Rightarrow> (service_error + unit) \<times> memory_store" where
  "memory_revokeUser userId s = (Inr (), s\<lparr>ms_tokens := (\<lambda>j. case ms_tokens s j of
      Some (u, e) \<Rightarrow> if u = userId then None else Some (u, e) | None \<Rightarrow> None)\<rparr>)"

definition memory_clear :: "memory_store \<Rightarrow> memory_store" where
  "memory_clear s = s\<lparr>ms_tokens := (\<lambda>_. None)\<rparr>"

section \<open>The contract\<close>

datatype token_op = TStore string int | TConsume string | TRevoke string | TRevokeUser int | TWait nat

fun token_step :: "(string \<Rightarrow> int \<Rightarrow> 's \<Rightarrow> (service_error + unit) \<times> 's) \<Rightarrow> (string \<Rightarrow> 's \<Rightarrow> (service_error + int option) \<times> 's) \<Rightarrow>
    (string \<Rightarrow> 's \<Rightarrow> (service_error + unit) \<times> 's) \<Rightarrow> (int \<Rightarrow> 's \<Rightarrow> (service_error + unit) \<times> 's) \<Rightarrow> (nat \<Rightarrow> 's \<Rightarrow> 's) \<Rightarrow>
    token_op \<Rightarrow> 's \<Rightarrow> 's" where
  "token_step st co rv ru wt (TStore j u) s = snd (st j u s)"
| "token_step st co rv ru wt (TConsume j) s = snd (co j s)"
| "token_step st co rv ru wt (TRevoke j) s = snd (rv j s)"
| "token_step st co rv ru wt (TRevokeUser u) s = snd (ru u s)"
| "token_step st co rv ru wt (TWait d) s = wt d s"

text \<open>The operations that may make a token live again, or forget whose it is.\<close>

fun stores :: "string \<Rightarrow> token_op \<Rightarrow> bool" where
  "stores j (TStore j' u) \<longleftrightarrow> j' = j"
| "stores j _ \<longleftrightarrow> False"

fun jti_of :: "token_op \<Rightarrow> string option" where
  "jti_of (TStore j u) = Some j"
| "jti_of (TConsume j) = Some j"
| "jti_of (TRevoke j) = Some j"
| "jti_of _ = None"

locale refresh_tokens =
  fixes store :: "string \<Rightarrow> int \<Rightarrow> 's \<Rightarrow> (service_error + unit) \<times> 's"
    and consume :: "string \<Rightarrow> 's \<Rightarrow> (service_error + int option) \<times> 's"
    and revoke :: "string \<Rightarrow> 's \<Rightarrow> (service_error + unit) \<times> 's"
    and revokeUser :: "int \<Rightarrow> 's \<Rightarrow> (service_error + unit) \<times> 's"
    and wait :: "nat \<Rightarrow> 's \<Rightarrow> 's"
    and valid :: "string \<Rightarrow> bool"
    and ok :: "'s \<Rightarrow> bool"
    and live :: "'s \<Rightarrow> string \<Rightarrow> bool"
    and issued :: "'s \<Rightarrow> string \<Rightarrow> int \<Rightarrow> bool"
  assumes consumed: "valid j \<Longrightarrow> consume j s = (Inr (Some u), s') \<Longrightarrow> live s j \<and> \<not> live s' j"
    and owner: "valid j \<Longrightarrow> issued s j u \<Longrightarrow> consume j s = (Inr (Some v), s') \<Longrightarrow> v = u"
    and revoked: "valid j \<Longrightarrow> revoke j s = (Inr (), s') \<Longrightarrow> \<not> live s' j"
    and stored: "valid j \<Longrightarrow> ok s \<Longrightarrow> is_int64 u \<Longrightarrow> store j u s = (Inr (), s') \<Longrightarrow> issued s' j u"
    and user_revoked: "valid j \<Longrightarrow> issued s j u \<Longrightarrow> revokeUser u s = (Inr (), s') \<Longrightarrow> \<not> live s' j"
    and ok_step: "ok s \<Longrightarrow> list_all valid (case jti_of op of None \<Rightarrow> [] | Some i \<Rightarrow> [i]) \<Longrightarrow>
      ok (token_step store consume revoke revokeUser wait op s)"
    and dead: "valid j \<Longrightarrow> list_all valid (case jti_of op of None \<Rightarrow> [] | Some i \<Rightarrow> [i]) \<Longrightarrow> \<not> stores j op \<Longrightarrow>
      \<not> live s j \<Longrightarrow> \<not> live (token_step store consume revoke revokeUser wait op s) j"
    and known: "valid j \<Longrightarrow> list_all valid (case jti_of op of None \<Rightarrow> [] | Some i \<Rightarrow> [i]) \<Longrightarrow> \<not> stores j op \<Longrightarrow> op \<noteq> TRevoke j \<Longrightarrow>
      issued s j u \<or> \<not> live s j \<Longrightarrow>
      issued (token_step store consume revoke revokeUser wait op s) j u \<or>
      \<not> live (token_step store consume revoke revokeUser wait op s) j"
begin

definition run :: "token_op list \<Rightarrow> 's \<Rightarrow> 's" where
  "run ops s = fold (token_step store consume revoke revokeUser wait) ops s"

definition well_named :: "token_op list \<Rightarrow> bool" where
  "well_named ops \<longleftrightarrow> list_all (\<lambda>op. list_all valid (case jti_of op of None \<Rightarrow> [] | Some i \<Rightarrow> [i])) ops"

lemma run_dead:
  assumes "valid j" "well_named ops" "list_all (\<lambda>op. \<not> stores j op) ops" "\<not> live s j"
  shows "\<not> live (run ops s) j"
  using assms
proof (induction ops arbitrary: s)
  case (Cons op ops)
  have "\<not> live (token_step store consume revoke revokeUser wait op s) j"
    using Cons.prems by (intro dead) (auto simp: well_named_def)
  from Cons.IH [OF _ _ _ this] Cons.prems show ?case by (simp add: run_def well_named_def)
qed (simp add: run_def)

lemma run_known:
  assumes "valid j" "well_named ops" "list_all (\<lambda>op. \<not> stores j op \<and> op \<noteq> TRevoke j) ops" "issued s j u \<or> \<not> live s j"
  shows "issued (run ops s) j u \<or> \<not> live (run ops s) j"
  using assms
proof (induction ops arbitrary: s)
  case (Cons op ops)
  have "issued (token_step store consume revoke revokeUser wait op s) j u \<or>
      \<not> live (token_step store consume revoke revokeUser wait op s) j"
    using Cons.prems by (intro known) (auto simp: well_named_def)
  from Cons.IH [OF _ _ _ this] Cons.prems show ?case by (simp add: run_def well_named_def)
qed (simp add: run_def)

lemma run_ok: "ok s \<Longrightarrow> well_named ops \<Longrightarrow> ok (run ops s)"
proof (induction ops arbitrary: s)
  case (Cons op ops)
  have "ok (token_step store consume revoke revokeUser wait op s)"
    using Cons.prems by (intro ok_step) (auto simp: well_named_def)
  from Cons.IH [OF this] Cons.prems show ?case by (simp add: run_def well_named_def)
qed (simp add: run_def)

lemma dead_is_refused: "valid j \<Longrightarrow> \<not> live s j \<Longrightarrow> fst (consume j s) \<noteq> Inr (Some v)"
  using consumed [of j s v "snd (consume j s)"] by (cases "consume j s") auto

lemma single_use:
  assumes "valid j" "well_named ops" "list_all (\<lambda>op. \<not> stores j op) ops" "consume j s = (Inr (Some u), s')"
  shows "fst (consume j (run ops s')) \<noteq> Inr (Some v)"
  using assms consumed by (intro dead_is_refused run_dead) blast+

lemma logout_ends:
  assumes "valid j" "well_named ops" "list_all (\<lambda>op. \<not> stores j op) ops" "revoke j s = (Inr (), s')"
  shows "fst (consume j (run ops s')) \<noteq> Inr (Some v)"
  using assms revoked by (intro dead_is_refused run_dead) blast+

lemma user_logout_ends:
  assumes "valid j" "ok s" "is_int64 u" "well_named ops" "well_named ops'" "list_all (\<lambda>op. \<not> stores j op \<and> op \<noteq> TRevoke j) ops"
    "list_all (\<lambda>op. \<not> stores j op) ops'" "store j u s = (Inr (), s1)" "revokeUser u (run ops s1) = (Inr (), s2)"
  shows "fst (consume j (run ops' s2)) \<noteq> Inr (Some v)"
proof -
  have "issued s1 j u" using stored assms(1,2,3,8) .
  then have "issued (run ops s1) j u \<or> \<not> live (run ops s1) j" using run_known [OF assms(1,4,6)] by blast
  moreover have "\<not> live s2 j" if "\<not> live (run ops s1) j"
    using dead [of j "TRevokeUser u" "run ops s1"] that assms(1,9) by simp
  ultimately have "\<not> live s2 j" using user_revoked [OF assms(1) _ assms(9)] by blast
  then show ?thesis using assms by (intro dead_is_refused run_dead)
qed

end

section \<open>The store in memory keeps the contract\<close>

definition memory_wait :: "nat \<Rightarrow> memory_store \<Rightarrow> memory_store" where
  "memory_wait d s = s\<lparr>ms_now := ms_now s + int d\<rparr>"

definition memory_live :: "memory_store \<Rightarrow> string \<Rightarrow> bool" where
  "memory_live s j \<longleftrightarrow> (case ms_tokens s j of None \<Rightarrow> False | Some (u, e) \<Rightarrow> ms_now s < e)"

definition memory_issued :: "memory_store \<Rightarrow> string \<Rightarrow> int \<Rightarrow> bool" where
  "memory_issued s j u \<longleftrightarrow> (\<exists>e. ms_tokens s j = Some (u, e))"

definition memory_step :: "int \<Rightarrow> token_op \<Rightarrow> memory_store \<Rightarrow> memory_store" where
  "memory_step ttl = token_step (\<lambda>j u. memory_store_token j u ttl) memory_consume memory_revoke memory_revokeUser memory_wait"

lemmas memory_defs = memory_store_token_def memory_consume_def memory_revoke_def memory_revokeUser_def memory_wait_def
  memory_live_def memory_issued_def eraseExpiredLocked_def Let_def

interpretation memory_tokens: refresh_tokens "\<lambda>j u. memory_store_token j u ttl" memory_consume memory_revoke
    memory_revokeUser memory_wait "\<lambda>_. True" "\<lambda>_. True" memory_live memory_issued
proof (unfold_locales, goal_cases)
  case (7 j op s)
  then show ?case by (cases op) (auto simp: memory_defs split: option.splits if_splits)
next
  case (8 j op s u)
  then show ?case by (cases op) (auto simp: memory_defs split: option.splits if_splits)
qed (auto simp: memory_defs split: option.splits if_splits)

section \<open>The Redis store keeps the contract\<close>

definition redis_wait :: "nat \<Rightarrow> redis_client \<Rightarrow> redis_client" where
  "redis_wait d c = c\<lparr>rc_server := (rc_server c)\<lparr>r_now := r_now (rc_server c) + int d\<rparr>\<rparr>"

definition token_gone :: "string \<Rightarrow> redis_server \<Rightarrow> bool" where
  "token_gone j s \<longleftrightarrow> r_live s (refreshTokenKey j) = None"

text \<open>A token is on record for its user: its key is live, no longer than the life time of a new
  token, and the set of the user names it and lives at least as long.\<close>

definition on_record :: "int \<Rightarrow> string \<Rightarrow> int \<Rightarrow> redis_server \<Rightarrow> bool" where
  "on_record ttl j u s \<longleftrightarrow> is_int64 u \<and>
     (\<exists>e. r_live s (refreshTokenKey j) = Some (RStr (fmt_int u), Some e) \<and> e \<le> r_now s + max ttl 1 * ns \<and>
       (\<exists>xs e'. r_live s (userRefreshSetKey u) = Some (RSet xs, e') \<and> j \<in> set xs \<and>
          (case e' of None \<Rightarrow> True | Some t \<Rightarrow> e \<le> t)))"

definition redis_live :: "redis_client \<Rightarrow> string \<Rightarrow> bool" where
  "redis_live c j \<longleftrightarrow> \<not> token_gone j (rc_server c)"

definition redis_issued :: "int \<Rightarrow> redis_client \<Rightarrow> string \<Rightarrow> int \<Rightarrow> bool" where
  "redis_issued ttl c j u \<longleftrightarrow> on_record ttl j u (rc_server c)"

text \<open>The names of tokens that cannot be taken for the set of a user.\<close>

definition token_name :: "string \<Rightarrow> bool" where
  "token_name j \<longleftrightarrow> \<not> starts_with j ''user:''"

lemma token_keys:
  "refreshTokenKey i = refreshTokenKey j \<longleftrightarrow> i = j" "userRefreshSetKey u = userRefreshSetKey v \<longleftrightarrow> u = v"
  "token_name j \<Longrightarrow> refreshTokenKey j \<noteq> userRefreshSetKey u" "token_name j \<Longrightarrow> userRefreshSetKey u \<noteq> refreshTokenKey j"
  by (auto simp: refreshTokenKey_def userRefreshSetKey_def token_name_def starts_with_def)

text \<open>A command that touches one key.\<close>

definition touches :: "string \<Rightarrow> 'a rcmd \<Rightarrow> bool" where
  "touches k f \<longleftrightarrow> (\<forall>s. r_now (snd (f s)) = r_now s \<and> (\<forall>k'. k' \<noteq> k \<longrightarrow> r_store (snd (f s)) k' = r_store s k'))"

lemma touches_cmds:
  "touches k (cmd_get k)" "touches k (cmd_setex k ttl v)" "touches k (cmd_del k)" "touches k (cmd_expire k ttl)"
  "touches k (cmd_sadd k v)" "touches k (cmd_srem k v)" "touches k (cmd_smembers k)"
  by (auto simp: touches_def cmd_get_def cmd_setex_def cmd_del_def cmd_expire_def cmd_sadd_def cmd_srem_def
      cmd_smembers_def put_set_def split: option.split rvalue.split)

lemma touches_getdel: "touches k (script_getdel k)"
  by (auto simp: touches_def script_getdel_def cmd_get_def cmd_del_def split: option.split rvalue.split)

text \<open>A predicate that depends on a key only through what lives under it.\<close>

definition key_pred :: "string set \<Rightarrow> (redis_server \<Rightarrow> bool) \<Rightarrow> bool" where
  "key_pred ks I \<longleftrightarrow> (\<forall>s s'. r_now s' = r_now s \<longrightarrow> (\<forall>k\<in>ks. r_store s' k = r_store s k) \<longrightarrow> I s \<longrightarrow> I s')"

lemma key_pred_gone: "key_pred {refreshTokenKey j} (token_gone j)"
  by (simp add: key_pred_def token_gone_def r_live_def)

lemma key_pred_record: "key_pred {refreshTokenKey j, userRefreshSetKey u} (on_record ttl j u)"
  by (simp add: key_pred_def on_record_def r_live_def)

lemma key_pred_or:
  assumes "key_pred ks I" "key_pred ks' J"
  shows "key_pred (ks \<union> ks') (\<lambda>s. I s \<or> J s)"
  unfolding key_pred_def
proof (intro allI impI)
  fix s s' :: redis_server assume "r_now s' = r_now s" "\<forall>k\<in>ks \<union> ks'. r_store s' k = r_store s k" "I s \<or> J s"
  then show "I s' \<or> J s'"
    using assms [unfolded key_pred_def] by (auto 0 3)
qed

lemma key_predD:
  "key_pred ks I \<Longrightarrow> I s \<Longrightarrow> r_now s' = r_now s \<Longrightarrow> (\<And>k. k \<in> ks \<Longrightarrow> r_store s' k = r_store s k) \<Longrightarrow> I s'"
  by (simp add: key_pred_def)

lemma keeps_touch:
  assumes "key_pred ks I" "touches k f" "k \<notin> ks" "I s"
  shows "I (snd (f s))"
  by (rule key_predD [OF assms(1,4)]) (use assms(2,3) in \<open>auto simp: touches_def\<close>)

lemma keeps_on_server:
  assumes "key_pred ks I" "\<And>s. I s \<Longrightarrow> I (snd (f s))"
  shows "keeps (\<lambda>c. I (rc_server c)) (on_server f)"
proof (rule keepsI)
  fix c :: redis_client assume I: "I (rc_server c)"
  have fs: "I (s\<lparr>r_faults := fs\<rparr>)" if "I s" for s fs
    using assms(1) that unfolding key_pred_def by simp
  have "I (snd (r_exec f (rc_server c)))"
    by (cases rule: r_exec_cases [of f "rc_server c"]) (use I fs assms(2) in auto)
  then show "I (rc_server (snd (on_server f c)))" using I by (simp add: on_server_def split_beta)
qed

lemma keeps_with_store: "keeps J m \<Longrightarrow> J c \<Longrightarrow> J (snd (with_store m c))"
  using keepsD [of J m c] by (auto simp: with_store_def split: prod.split sum.split)

text \<open>An answer means that the command ran.\<close>

lemma on_server_InrD: "on_server f c = (Inr x, c') \<Longrightarrow> \<exists>fs. f ((rc_server c)\<lparr>r_faults := fs\<rparr>) = (Inr x, rc_server c')"
  by (auto simp: on_server_def split: if_splits prod.splits dest!: r_exec_InrD)

lemma with_store_InrD: "with_store m c = (Inr x, c') \<Longrightarrow> m c = (Inr x, c')"
  by (auto simp: with_store_def split: if_splits prod.splits sum.splits)

text \<open>What the commands on the two keys of a token do.\<close>

lemma del_gone: "token_gone j (snd (cmd_del (refreshTokenKey j) s))"
  by (simp add: cmd_del_def token_gone_def)

lemma getdel_gone: "token_gone j s \<Longrightarrow> token_gone j (snd (script_getdel (refreshTokenKey j) s))"
  by (auto simp: script_getdel_def cmd_get_def cmd_del_def token_gone_def r_value_def split: option.split rvalue.split)

lemma r_live_future: "r_live s k = Some (v, Some e) \<Longrightarrow> r_now s < e"
  by (auto simp: r_live_def live_at_def split: option.splits prod.splits if_splits)

text \<open>The set of the user may change its expiry and other members.\<close>

lemma record_set:
  assumes "token_name j" "on_record ttl j u s" "r_now s' = r_now s"
    "r_store s' (refreshTokenKey j) = r_store s (refreshTokenKey j)"
    "\<And>xs e'. r_live s (userRefreshSetKey u) = Some (RSet xs, e') \<Longrightarrow> j \<in> set xs \<Longrightarrow>
       \<exists>ys e''. r_live s' (userRefreshSetKey u) = Some (RSet ys, e'') \<and> j \<in> set ys \<and>
         (e'' = e' \<or> e'' = Some (r_now s + max ttl 1 * ns))"
  shows "on_record ttl j u s'"
proof -
  obtain e xs e' where r: "is_int64 u" "r_live s (refreshTokenKey j) = Some (RStr (fmt_int u), Some e)"
    "e \<le> r_now s + max ttl 1 * ns" "r_live s (userRefreshSetKey u) = Some (RSet xs, e')" "j \<in> set xs"
    "case e' of None \<Rightarrow> True | Some t \<Rightarrow> e \<le> t"
    using assms(2) unfolding on_record_def by blast
  obtain ys e'' where y: "r_live s' (userRefreshSetKey u) = Some (RSet ys, e'')" "j \<in> set ys"
    "e'' = e' \<or> e'' = Some (r_now s + max ttl 1 * ns)"
    using assms(5) [OF r(4,5)] by blast
  have "case e'' of None \<Rightarrow> True | Some t \<Rightarrow> e \<le> t" using y(3) r(3,6) by auto
  moreover have "r_live s' (refreshTokenKey j) = Some (RStr (fmt_int u), Some e)"
    using r(2) assms(3,4) by (simp add: r_live_def)
  ultimately show ?thesis unfolding on_record_def using r(1,3) y assms(3) by auto
qed

lemma record_sadd:
  assumes "token_name j" "on_record ttl j u s"
  shows "on_record ttl j u (snd (cmd_sadd (userRefreshSetKey u) i s))"
proof (rule record_set [OF assms])
  fix xs e' assume "r_live s (userRefreshSetKey u) = Some (RSet xs, e')" "j \<in> set xs"
  then show "\<exists>ys e''. r_live (snd (cmd_sadd (userRefreshSetKey u) i s)) (userRefreshSetKey u) = Some (RSet ys, e'') \<and>
      j \<in> set ys \<and> (e'' = e' \<or> e'' = Some (r_now s + max ttl 1 * ns))"
    using r_live_future [of s "userRefreshSetKey u" "RSet xs"]
    by (cases e') (auto simp: cmd_sadd_def r_set_def put_set_def)
qed (use touches_cmds(5) [of "userRefreshSetKey u" i] token_keys(3) [OF assms(1)] in \<open>auto simp: touches_def\<close>)

lemma record_srem:
  assumes "token_name j" "on_record ttl j u s" "i \<noteq> j"
  shows "on_record ttl j u (snd (cmd_srem (userRefreshSetKey u) i s))"
proof (rule record_set [OF assms(1,2)])
  fix xs e' assume x: "r_live s (userRefreshSetKey u) = Some (RSet xs, e')" "j \<in> set xs"
  then have "filter (\<lambda>x. x \<noteq> i) xs \<noteq> []" using assms(3) by (auto simp: filter_empty_conv)
  with x assms(3) show "\<exists>ys e''. r_live (snd (cmd_srem (userRefreshSetKey u) i s)) (userRefreshSetKey u) = Some (RSet ys, e'') \<and>
      j \<in> set ys \<and> (e'' = e' \<or> e'' = Some (r_now s + max ttl 1 * ns))"
    using r_live_future [of s "userRefreshSetKey u" "RSet xs"]
    by (cases e') (auto simp: cmd_srem_def r_set_def put_set_def)
qed (use touches_cmds(6) [of "userRefreshSetKey u" i] token_keys(3) [OF assms(1)] in \<open>auto simp: touches_def\<close>)

lemma record_expire:
  assumes "token_name j" "on_record ttl j u s"
  shows "on_record ttl j u (snd (cmd_expire (userRefreshSetKey u) (max ttl 1) s))"
proof (rule record_set [OF assms])
  fix xs e' assume "r_live s (userRefreshSetKey u) = Some (RSet xs, e')" "j \<in> set xs"
  moreover have "0 < max ttl 1 * ns" by (simp add: ns_def)
  ultimately show "\<exists>ys e''. r_live (snd (cmd_expire (userRefreshSetKey u) (max ttl 1) s)) (userRefreshSetKey u) = Some (RSet ys, e'') \<and>
      j \<in> set ys \<and> (e'' = e' \<or> e'' = Some (r_now s + max ttl 1 * ns))"
    by (auto simp: cmd_expire_def)
qed (use touches_cmds(4) [of "userRefreshSetKey u" "max ttl 1"] token_keys(3) [OF assms(1)] in \<open>auto simp: touches_def\<close>)

section \<open>The two predicates through the operations\<close>

text \<open>What holds of a token until it is stored again: it is on record or gone.\<close>

definition kept :: "int \<Rightarrow> string \<Rightarrow> int \<Rightarrow> redis_server \<Rightarrow> bool" where
  "kept ttl j u s \<longleftrightarrow> on_record ttl j u s \<or> token_gone j s"

lemma key_pred_kept: "key_pred {refreshTokenKey j, userRefreshSetKey u} (kept ttl j u)"
  using key_pred_or [OF key_pred_record [where j = j and u = u and ttl = ttl] key_pred_gone [where j = j]] by (simp add: kept_def [abs_def] insert_commute)

lemma get_same [simp]: "snd (cmd_get k s) = s" "snd (cmd_smembers k s) = s"
  by (simp_all add: cmd_get_def cmd_smembers_def split: option.split rvalue.split)

lemma gone_cmds:
  assumes "token_name j"
  shows "token_gone j s \<Longrightarrow> i \<noteq> j \<Longrightarrow> token_gone j (snd (cmd_setex (refreshTokenKey i) ttl v s))"
    "token_gone j s \<Longrightarrow> token_gone j (snd (script_getdel (refreshTokenKey i) s))"
    "token_gone j s \<Longrightarrow> token_gone j (snd (cmd_del (refreshTokenKey i) s))"
    "token_gone j s \<Longrightarrow> token_gone j (snd (cmd_del (userRefreshSetKey v') s))"
    "token_gone j s \<Longrightarrow> token_gone j (snd (cmd_sadd (userRefreshSetKey v') i s))"
    "token_gone j s \<Longrightarrow> token_gone j (snd (cmd_srem (userRefreshSetKey v') i s))"
    "token_gone j s \<Longrightarrow> token_gone j (snd (cmd_expire (userRefreshSetKey v') ttl s))"
proof -
  note k = token_keys(1) token_keys(3,4) [OF assms]
  have t: "token_gone j s \<Longrightarrow> touches k f \<Longrightarrow> k \<noteq> refreshTokenKey j \<Longrightarrow> token_gone j (snd (f s))" for k and f :: "'z rcmd"
    using keeps_touch [OF key_pred_gone, of k f j] by simp
  show "token_gone j s \<Longrightarrow> i \<noteq> j \<Longrightarrow> token_gone j (snd (cmd_setex (refreshTokenKey i) ttl v s))"
    by (rule t [OF _ touches_cmds(2)]) (simp_all add: k)
  show "token_gone j s \<Longrightarrow> token_gone j (snd (script_getdel (refreshTokenKey i) s))"
    using getdel_gone [of j s] by (cases "i = j") (auto intro: t [OF _ touches_getdel] simp: k)
  show "token_gone j s \<Longrightarrow> token_gone j (snd (cmd_del (refreshTokenKey i) s))"
    using del_gone [of j s] by (cases "i = j") (auto intro: t [OF _ touches_cmds(3)] simp: k)
  show "token_gone j s \<Longrightarrow> token_gone j (snd (cmd_del (userRefreshSetKey v') s))"
    by (rule t [OF _ touches_cmds(3)]) (simp_all add: k)
  show "token_gone j s \<Longrightarrow> token_gone j (snd (cmd_sadd (userRefreshSetKey v') i s))"
    by (rule t [OF _ touches_cmds(5)]) (simp_all add: k)
  show "token_gone j s \<Longrightarrow> token_gone j (snd (cmd_srem (userRefreshSetKey v') i s))"
    by (rule t [OF _ touches_cmds(6)]) (simp_all add: k)
  show "token_gone j s \<Longrightarrow> token_gone j (snd (cmd_expire (userRefreshSetKey v') ttl s))"
    by (rule t [OF _ touches_cmds(4)]) (simp_all add: k)
qed

lemma kept_cmds:
  assumes "token_name j" "kept ttl j u s"
  shows "token_name i \<Longrightarrow> i \<noteq> j \<Longrightarrow> kept ttl j u (snd (cmd_setex (refreshTokenKey i) t v s))"
    "token_name i \<Longrightarrow> i \<noteq> j \<Longrightarrow> kept ttl j u (snd (script_getdel (refreshTokenKey i) s))"
    "kept ttl j u (snd (cmd_sadd (userRefreshSetKey v') i s))"
    "i \<noteq> j \<Longrightarrow> kept ttl j u (snd (cmd_srem (userRefreshSetKey v') i s))"
    "kept ttl j u (snd (cmd_expire (userRefreshSetKey v') (max ttl 1) s))"
    "v' \<noteq> u \<Longrightarrow> kept ttl j u (snd (cmd_del (userRefreshSetKey v') s))"
    "token_name i \<Longrightarrow> kept ttl j u (snd (cmd_del (refreshTokenKey i) s))"
proof -
  note k = token_keys(1,2) token_keys(3,4) [OF assms(1)]
  have t: "touches k f \<Longrightarrow> k \<noteq> refreshTokenKey j \<Longrightarrow> k \<noteq> userRefreshSetKey u \<Longrightarrow> kept ttl j u (snd (f s))" for k and f :: "'z rcmd"
    using keeps_touch [OF key_pred_kept, of k f j u] assms(2) by simp
  show "token_name i \<Longrightarrow> i \<noteq> j \<Longrightarrow> kept ttl j u (snd (cmd_setex (refreshTokenKey i) t v s))"
    by (rule t [OF touches_cmds(2)]) (simp_all add: k token_keys(3))
  show "token_name i \<Longrightarrow> i \<noteq> j \<Longrightarrow> kept ttl j u (snd (script_getdel (refreshTokenKey i) s))"
    by (rule t [OF touches_getdel]) (simp_all add: k token_keys(3))
  show "kept ttl j u (snd (cmd_sadd (userRefreshSetKey v') i s))"
    using assms gone_cmds(5) [OF assms(1), of s v' i] record_sadd [OF assms(1), of ttl u s i]
    by (cases "v' = u", auto simp: kept_def) (use t [OF touches_cmds(5), of "userRefreshSetKey v'"] in \<open>auto simp: kept_def k\<close>)
  show "i \<noteq> j \<Longrightarrow> kept ttl j u (snd (cmd_srem (userRefreshSetKey v') i s))"
    using assms gone_cmds(6) [OF assms(1), of s v' i] record_srem [OF assms(1), of ttl u s i]
    by (cases "v' = u", auto simp: kept_def) (use t [OF touches_cmds(6), of "userRefreshSetKey v'"] in \<open>auto simp: kept_def k\<close>)
  show "kept ttl j u (snd (cmd_expire (userRefreshSetKey v') (max ttl 1) s))"
    using assms gone_cmds(7) [OF assms(1), of s v' "max ttl 1"] record_expire [OF assms(1), of ttl u s]
    by (cases "v' = u", auto simp: kept_def) (use t [OF touches_cmds(4), of "userRefreshSetKey v'"] in \<open>auto simp: kept_def k\<close>)
  show "v' \<noteq> u \<Longrightarrow> kept ttl j u (snd (cmd_del (userRefreshSetKey v') s))"
    by (rule t [OF touches_cmds(3)]) (simp_all add: k)
  show "token_name i \<Longrightarrow> kept ttl j u (snd (cmd_del (refreshTokenKey i) s))"
    using del_gone [of j s]
    by (cases "i = j", auto simp: kept_def) (use t [OF touches_cmds(3), of "refreshTokenKey i"] in \<open>auto simp: kept_def k token_keys(3)\<close>)
qed

text \<open>The same for the operations of the client.\<close>

lemma keeps_gone:
  assumes "token_name j"
  shows "i \<noteq> j \<Longrightarrow> keeps (\<lambda>c. token_gone j (rc_server c)) (kv_setex (refreshTokenKey i) v t)"
    "keeps (\<lambda>c. token_gone j (rc_server c)) (kv_getDel (refreshTokenKey i))"
    "keeps (\<lambda>c. token_gone j (rc_server c)) (kv_get k)"
    "keeps (\<lambda>c. token_gone j (rc_server c)) (kv_smembers k)"
    "keeps (\<lambda>c. token_gone j (rc_server c)) (kv_del (refreshTokenKey i))"
    "keeps (\<lambda>c. token_gone j (rc_server c)) (kv_del (userRefreshSetKey u))"
    "keeps (\<lambda>c. token_gone j (rc_server c)) (kv_sadd (userRefreshSetKey u) i)"
    "keeps (\<lambda>c. token_gone j (rc_server c)) (kv_srem (userRefreshSetKey u) i)"
    "keeps (\<lambda>c. token_gone j (rc_server c)) (kv_expire (userRefreshSetKey u) t)"
  unfolding kv_setex_def kv_getDel_def kv_get_def kv_smembers_def kv_del_def kv_sadd_def kv_srem_def kv_expire_def
  using gone_cmds [OF assms]
  by (intro keeps_intros keeps_on_server [OF key_pred_gone]; simp)+

lemma keeps_kept:
  assumes "token_name j"
  shows "token_name i \<Longrightarrow> i \<noteq> j \<Longrightarrow> keeps (\<lambda>c. kept ttl j u (rc_server c)) (kv_setex (refreshTokenKey i) v t)"
    "token_name i \<Longrightarrow> i \<noteq> j \<Longrightarrow> keeps (\<lambda>c. kept ttl j u (rc_server c)) (kv_getDel (refreshTokenKey i))"
    "keeps (\<lambda>c. kept ttl j u (rc_server c)) (kv_get k)"
    "keeps (\<lambda>c. kept ttl j u (rc_server c)) (kv_smembers k)"
    "token_name i \<Longrightarrow> keeps (\<lambda>c. kept ttl j u (rc_server c)) (kv_del (refreshTokenKey i))"
    "v' \<noteq> u \<Longrightarrow> keeps (\<lambda>c. kept ttl j u (rc_server c)) (kv_del (userRefreshSetKey v'))"
    "keeps (\<lambda>c. kept ttl j u (rc_server c)) (kv_sadd (userRefreshSetKey v') i)"
    "i \<noteq> j \<Longrightarrow> keeps (\<lambda>c. kept ttl j u (rc_server c)) (kv_srem (userRefreshSetKey v') i)"
    "keeps (\<lambda>c. kept ttl j u (rc_server c)) (kv_expire (userRefreshSetKey v') (max ttl 1))"
  unfolding kv_setex_def kv_getDel_def kv_get_def kv_smembers_def kv_del_def kv_sadd_def kv_srem_def kv_expire_def
  using kept_cmds [OF assms]
  by (intro keeps_intros keeps_on_server [OF key_pred_kept]; simp)+

text \<open>The sets of the users hold names of tokens only.\<close>

definition sets_ok :: "redis_server \<Rightarrow> bool" where
  "sets_ok s \<longleftrightarrow> (\<forall>v xs e. r_live s (userRefreshSetKey v) = Some (RSet xs, e) \<longrightarrow> list_all token_name xs)"

lemma key_pred_sets: "key_pred (range userRefreshSetKey) sets_ok"
  by (simp add: key_pred_def sets_ok_def r_live_def)

lemma ok_put: "sets_ok s \<Longrightarrow> (\<And>xs e. x = Some (RSet xs, e) \<Longrightarrow> list_all token_name xs) \<Longrightarrow> sets_ok (r_put k x s)"
  by (auto simp: sets_ok_def live_at_def split: option.splits if_splits)

lemma ok_cmds:
  assumes "sets_ok s"
  shows "sets_ok (snd (cmd_setex k t v s))" "sets_ok (snd (cmd_del k s))" "sets_ok (snd (script_getdel k s))"
    "token_name i \<Longrightarrow> sets_ok (snd (cmd_sadd (userRefreshSetKey u) i s))"
    "sets_ok (snd (cmd_srem (userRefreshSetKey u) i s))" "sets_ok (snd (cmd_expire (userRefreshSetKey u) t s))"
proof -
  have set: "list_all token_name xs" if "r_set s (userRefreshSetKey u) = Some (xs, e)" for xs e
    using that assms by (auto simp: r_set_def sets_ok_def split: option.splits prod.splits rvalue.splits)
  show "sets_ok (snd (cmd_setex k t v s))" "sets_ok (snd (cmd_del k s))" "sets_ok (snd (script_getdel k s))"
    using assms by (auto simp: cmd_setex_def cmd_del_def script_getdel_def cmd_get_def intro!: ok_put
        split: option.split rvalue.split)
  show "token_name i \<Longrightarrow> sets_ok (snd (cmd_sadd (userRefreshSetKey u) i s))"
    using assms set by (auto simp: cmd_sadd_def put_set_def intro!: ok_put split: option.split)
  show "sets_ok (snd (cmd_srem (userRefreshSetKey u) i s))"
    using assms set by (auto simp: cmd_srem_def put_set_def list_all_iff intro!: ok_put split: option.split)
  show "sets_ok (snd (cmd_expire (userRefreshSetKey u) t s))"
    using assms by (auto simp: cmd_expire_def sets_ok_def intro!: ok_put split: option.split prod.split)
qed

lemma keeps_ok:
  "keeps (\<lambda>c. sets_ok (rc_server c)) (kv_setex k v t)" "keeps (\<lambda>c. sets_ok (rc_server c)) (kv_getDel k)"
  "keeps (\<lambda>c. sets_ok (rc_server c)) (kv_get k)" "keeps (\<lambda>c. sets_ok (rc_server c)) (kv_smembers k)"
  "keeps (\<lambda>c. sets_ok (rc_server c)) (kv_del k)"
  "token_name i \<Longrightarrow> keeps (\<lambda>c. sets_ok (rc_server c)) (kv_sadd (userRefreshSetKey u) i)"
  "keeps (\<lambda>c. sets_ok (rc_server c)) (kv_srem (userRefreshSetKey u) i)"
  "keeps (\<lambda>c. sets_ok (rc_server c)) (kv_expire (userRefreshSetKey u) t)"
  unfolding kv_setex_def kv_getDel_def kv_get_def kv_smembers_def kv_del_def kv_sadd_def kv_srem_def kv_expire_def
  by (intro keeps_intros keeps_on_server [OF key_pred_sets]; simp add: ok_cmds)+

lemma keeps_del_tokens:
  "token_name j \<Longrightarrow> keeps (\<lambda>c. token_gone j (rc_server c)) (del_tokens js)"
  "keeps (\<lambda>c. sets_ok (rc_server c)) (del_tokens js)"
  "token_name j \<Longrightarrow> list_all token_name js \<Longrightarrow> keeps (\<lambda>c. kept ttl j u (rc_server c)) (del_tokens js)"
proof (induction js)
  case (Cons i js)
  show "token_name j \<Longrightarrow> keeps (\<lambda>c. token_gone j (rc_server c)) (del_tokens (i # js))"
    by (simp only: del_tokens.simps) (intro keeps_intros keeps_gone Cons.IH; assumption)
  show "keeps (\<lambda>c. sets_ok (rc_server c)) (del_tokens (i # js))"
    by (simp only: del_tokens.simps) (intro keeps_intros keeps_ok Cons.IH)
  show "token_name j \<Longrightarrow> list_all token_name (i # js) \<Longrightarrow> keeps (\<lambda>c. kept ttl j u (rc_server c)) (del_tokens (i # js))"
    by (simp only: del_tokens.simps list.pred_inject) (intro keeps_intros keeps_kept Cons.IH; simp)
qed (simp_all add: keeps_ret)

text \<open>A deletion that answered did its work.\<close>

lemma kv_del_gone: "kv_del (refreshTokenKey j) c = (Inr b, c') \<Longrightarrow> token_gone j (rc_server c')"
  by (auto simp: kv_del_def bindp_def cmd_del_def token_gone_def split: prod.splits sum.splits dest!: on_server_InrD)
    (metis r_live_put live_at_simps(1))+

lemma del_tokens_gone:
  "token_name j \<Longrightarrow> j \<in> set js \<Longrightarrow> del_tokens js c = (Inr (), c') \<Longrightarrow> token_gone j (rc_server c')"
proof (induction js arbitrary: c)
  case (Cons i js)
  then obtain b c1 where d: "kv_del (refreshTokenKey i) c = (Inr b, c1)" "del_tokens js c1 = (Inr (), c')"
    by (auto simp: bindp_def split: prod.splits sum.splits)
  show ?case
  proof (cases "i = j")
    case True
    then show ?thesis using keepsD [OF keeps_del_tokens(1) [OF Cons.prems(1)], of c1 js] kv_del_gone d by simp
  qed (use Cons d in auto)
qed simp

section \<open>The operations\<close>

abbreviation redis_step :: "int \<Rightarrow> token_op \<Rightarrow> redis_client \<Rightarrow> redis_client" where
  "redis_step ttl \<equiv> token_step (\<lambda>j u. redis_store j u ttl) redis_consume redis_revoke redis_revokeUser redis_wait"

definition names_ok :: "token_op \<Rightarrow> bool" where
  "names_ok op \<longleftrightarrow> list_all token_name (case jti_of op of None \<Rightarrow> [] | Some i \<Rightarrow> [i])"

lemma wait_live:
  "r_live (s\<lparr>r_now := r_now s + int d\<rparr>) k = Some x \<Longrightarrow> r_live s k = Some x"
  by (auto simp: r_live_def live_at_def split: option.splits prod.splits if_splits)

lemma wait_ok: "sets_ok s \<Longrightarrow> sets_ok (s\<lparr>r_now := r_now s + int d\<rparr>)"
  unfolding sets_ok_def by (blast dest: wait_live)

lemma token_step_ok:
  assumes "sets_ok (rc_server c)" "names_ok op"
  shows "sets_ok (rc_server (redis_step ttl op c))"
proof -
  let ?J = "\<lambda>c. sets_ok (rc_server c)"
  note K' = keeps_with_store [where J = ?J and c = c, OF _ assms(1)]
  show ?thesis
  proof (cases op)
    case (TStore i u)
    then show ?thesis using assms(2) unfolding redis_store_def names_ok_def
      by (simp, intro K' keeps_intros keeps_ok; simp)
  next
    case (TConsume i)
    then show ?thesis unfolding redis_consume_def by (simp, intro K' keeps_intros keeps_ok)
  next
    case (TRevoke i)
    then show ?thesis unfolding redis_revoke_def by (simp, intro K' keeps_intros keeps_ok)
  next
    case (TRevokeUser u)
    then show ?thesis unfolding redis_revokeUser_def by (simp, intro K' keeps_intros keeps_ok keeps_del_tokens)
  next
    case (TWait d)
    then show ?thesis using wait_ok [OF assms(1)] by (simp add: redis_wait_def)
  qed
qed

lemma step_gone:
  assumes "token_name j" "names_ok op" "\<not> stores j op" "token_gone j (rc_server c)"
  shows "token_gone j (rc_server (redis_step ttl op c))"
proof -
  let ?J = "\<lambda>c. token_gone j (rc_server c)"
  note K' = keeps_with_store [where J = ?J and c = c, OF _ assms(4)]
  show ?thesis
  proof (cases op)
    case (TStore i u)
    then have "i \<noteq> j" using assms(3) by simp
    with TStore show ?thesis unfolding redis_store_def
      by (simp, intro K' keeps_intros keeps_gone assms(1))
  next
    case (TConsume i)
    then show ?thesis unfolding redis_consume_def by (simp, intro K' keeps_intros keeps_gone assms(1))
  next
    case (TRevoke i)
    then show ?thesis unfolding redis_revoke_def by (simp, intro K' keeps_intros keeps_gone assms(1))
  next
    case (TRevokeUser u)
    then show ?thesis unfolding redis_revokeUser_def
      by (simp, intro K' keeps_intros keeps_gone keeps_del_tokens assms(1))
  next
    case (TWait d)
    with assms(4) show ?thesis
      by (auto simp: redis_wait_def token_gone_def r_live_def live_at_def split: option.splits prod.splits if_splits)
  qed
qed

lemma script_getdel_kept: "kept ttl j u s \<Longrightarrow> token_gone j (snd (script_getdel (refreshTokenKey j) s))"
  using getdel_gone [of j s]
  by (auto simp: kept_def on_record_def script_getdel_def cmd_get_def cmd_del_def r_value_def token_gone_def)

lemma getDel_own:
  assumes "kept ttl j u (rc_server c)" "kv_getDel (refreshTokenKey j) c = (r, c1)"
  shows "kept ttl j u (rc_server c1)" "r = Inr v \<Longrightarrow> token_gone j (rc_server c1)"
proof -
  have "keeps (\<lambda>c. kept ttl j u (rc_server c)) (kv_getDel (refreshTokenKey j))"
    unfolding kv_getDel_def
    by (rule keeps_on_server [OF key_pred_kept]) (use script_getdel_kept in \<open>simp add: kept_def\<close>)
  from keepsD [OF this assms(1)] assms(2) show "kept ttl j u (rc_server c1)" by simp
  assume "r = Inr v"
  with assms(2) obtain fs where "script_getdel (refreshTokenKey j) ((rc_server c)\<lparr>r_faults := fs\<rparr>) = (Inr v, rc_server c1)"
    unfolding kv_getDel_def by (auto dest: on_server_InrD)
  moreover have "kept ttl j u ((rc_server c)\<lparr>r_faults := fs\<rparr>)"
    by (rule key_predD [OF key_pred_kept assms(1)]) simp_all
  ultimately show "token_gone j (rc_server c1)" using script_getdel_kept by (metis snd_conv)
qed

lemma consume_kept:
  assumes "token_name j" "kept ttl j u (rc_server c)"
  shows "kept ttl j u (rc_server (snd (redis_consume j c)))"
proof -
  let ?k = "\<lambda>v. case v of None \<Rightarrow> ret None | Some s \<Rightarrow> (case stoll s of Inl e \<Rightarrow> throw e
    | Inr userId \<Rightarrow> bindp (kv_srem (userRefreshSetKey userId) j) (\<lambda>_. ret (Some userId)))"
  obtain r c1 where g: "kv_getDel (refreshTokenKey j) c = (r, c1)" by fastforce
  have k: "keeps (\<lambda>c. token_gone j (rc_server c)) (?k v)" for v
    by (intro keeps_intros keeps_gone assms(1))
  have "kept ttl j u (rc_server (snd (bindp (kv_getDel (refreshTokenKey j)) ?k c)))"
  proof (cases r)
    case (Inl e)
    with g getDel_own(1) [OF assms(2) g] show ?thesis by simp
  next
    case (Inr v)
    have "token_gone j (rc_server (snd (?k v c1)))" by (rule keepsD [OF k getDel_own(2) [OF assms(2) g Inr]])
    with g Inr show ?thesis by (simp add: kept_def)
  qed
  then show ?thesis
    using assms(2) by (auto simp: redis_consume_def with_store_def split: prod.split sum.split)
qed

text \<open>The members that a user is found to have include every token on record.\<close>

lemma members_result:
  assumes "sets_ok (rc_server c)" "kv_smembers (userRefreshSetKey v) c = (Inr js, c1)"
  shows "list_all token_name js" "on_record ttl j v (rc_server c1) \<Longrightarrow> j \<in> set js"
proof -
  obtain fs where m: "cmd_smembers (userRefreshSetKey v) ((rc_server c)\<lparr>r_faults := fs\<rparr>) = (Inr js, rc_server c1)"
    using assms(2) unfolding kv_smembers_def by (auto dest: on_server_InrD)
  then have s: "rc_server c1 = (rc_server c)\<lparr>r_faults := fs\<rparr>" using get_same(2) by (metis snd_conv)
  obtain e where "r_set (rc_server c) (userRefreshSetKey v) = Some (js, e)"
    using m by (auto simp: cmd_smembers_def split: option.splits)
  then have r: "js = [] \<and> r_live (rc_server c) (userRefreshSetKey v) = None \<or>
      (\<exists>e. r_live (rc_server c) (userRefreshSetKey v) = Some (RSet js, e))"
    by (auto simp: r_set_def split: option.splits prod.splits rvalue.splits)
  then show "list_all token_name js" using assms(1) by (auto simp: sets_ok_def)
  show "on_record ttl j v (rc_server c1) \<Longrightarrow> j \<in> set js" using r unfolding s by (auto simp: on_record_def)
qed

text \<open>The end of \<open>revokeUser\<close>, on the members it was given.\<close>

definition revoke_members :: "int \<Rightarrow> string list \<Rightarrow> (redis_client, unit) prog" where
  "revoke_members v js = bindp (del_tokens js) (\<lambda>_. bindp (kv_del (userRefreshSetKey v)) (\<lambda>_. ret ()))"

lemma redis_revokeUser_eq:
  "redis_revokeUser v = with_store (bindp (kv_smembers (userRefreshSetKey v)) (revoke_members v))"
  by (simp add: redis_revokeUser_def revoke_members_def [abs_def])

lemma revoke_members_gone: "token_name j \<Longrightarrow> keeps (\<lambda>c. token_gone j (rc_server c)) (revoke_members v js)"
  unfolding revoke_members_def by (intro keeps_intros keeps_gone keeps_del_tokens)

lemma revoke_members_other:
  "token_name j \<Longrightarrow> v \<noteq> u \<Longrightarrow> list_all token_name js \<Longrightarrow> keeps (\<lambda>c. kept ttl j u (rc_server c)) (revoke_members v js)"
  unfolding revoke_members_def by (intro keeps_intros keeps_kept keeps_del_tokens)

lemma revoke_members_own:
  assumes "token_name j" "list_all token_name js" "kept ttl j u (rc_server c)"
    "token_gone j (rc_server c) \<or> j \<in> set js" "revoke_members u js c = (r, c')"
  shows "kept ttl j u (rc_server c')" "r = Inr () \<Longrightarrow> token_gone j (rc_server c')"
proof -
  obtain q c3 where d: "del_tokens js c = (q, c3)" by fastforce
  have k: "kept ttl j u (rc_server c3)"
    using keepsD [OF keeps_del_tokens(3) [OF assms(1,2)] assms(3)] d by simp
  have g: "token_gone j (rc_server c')" if "q = Inr x" for x
  proof -
    have "token_gone j (rc_server c3)"
      using assms(4) del_tokens_gone [OF assms(1), of js c c3] keepsD [OF keeps_del_tokens(1) [OF assms(1)], of c js] d that
      by auto
    moreover have "keeps (\<lambda>c. token_gone j (rc_server c)) (bindp (kv_del (userRefreshSetKey u)) (\<lambda>_. ret ()))"
      by (intro keeps_intros keeps_gone assms(1))
    ultimately have "token_gone j (rc_server (snd (bindp (kv_del (userRefreshSetKey u)) (\<lambda>_. ret ()) c3)))"
      by (rule keepsD [where I = "\<lambda>c. token_gone j (rc_server c)", rotated])
    then show ?thesis using assms(5) d that by (simp add: revoke_members_def)
  qed
  show "kept ttl j u (rc_server c')" using assms(5) d k g by (cases q) (auto simp: revoke_members_def kept_def)
  show "r = Inr () \<Longrightarrow> token_gone j (rc_server c')" using assms(5) d g by (cases q) (auto simp: revoke_members_def)
qed

lemma revokeUser_kept:
  assumes "token_name j" "sets_ok (rc_server c)" "kept ttl j u (rc_server c)"
  shows "kept ttl j u (rc_server (snd (redis_revokeUser v c)))"
    "redis_revokeUser u c = (Inr (), c') \<Longrightarrow> token_gone j (rc_server c')"
proof -
  have start: "kept ttl j u (rc_server c1)" if "kv_smembers k c = (r, c1)" for k r c1
    using keepsD [OF keeps_kept(4) [OF assms(1)] assms(3)] that by (metis snd_conv)
  have own: "kept ttl j u (rc_server c2)" "r = Inr () \<Longrightarrow> token_gone j (rc_server c2)"
    if m: "kv_smembers (userRefreshSetKey u) c = (Inr js, c1)" "revoke_members u js c1 = (r, c2)" for js c1 r c2
    using revoke_members_own [OF assms(1) members_result(1) [OF assms(2) m(1)] start [OF m(1)] _ m(2)]
      start [OF m(1)] members_result(2) [OF assms(2) m(1)] by (auto simp: kept_def)
  have "kept ttl j u (rc_server (snd (bindp (kv_smembers (userRefreshSetKey v)) (revoke_members v) c)))"
  proof -
    obtain r c1 where m: "kv_smembers (userRefreshSetKey v) c = (r, c1)" by fastforce
    show ?thesis
    proof (cases r)
      case (Inl e)
      with m start [OF m] show ?thesis by simp
    next
      case (Inr js)
      with m have m': "kv_smembers (userRefreshSetKey v) c = (Inr js, c1)" by simp
      show ?thesis
      proof (cases "v = u")
        case True
        with m' own(1) [of js c1] show ?thesis by (cases "revoke_members u js c1") simp
      next
        case False
        from keepsD [OF revoke_members_other [OF assms(1) False members_result(1) [OF assms(2) m']] start [OF m']] m'
        show ?thesis by simp
      qed
    qed
  qed
  then show "kept ttl j u (rc_server (snd (redis_revokeUser v c)))"
    using assms(3) by (auto simp: redis_revokeUser_eq with_store_def split: prod.split sum.split)
  assume "redis_revokeUser u c = (Inr (), c')"
  then have "bindp (kv_smembers (userRefreshSetKey u)) (revoke_members u) c = (Inr (), c')"
    unfolding redis_revokeUser_eq by (rule with_store_InrD)
  then obtain js c1 where "kv_smembers (userRefreshSetKey u) c = (Inr js, c1)" "revoke_members u js c1 = (Inr (), c')"
    by (auto simp: bindp_def split: prod.splits sum.splits)
  then show "token_gone j (rc_server c')" using own(2) by blast
qed

lemma wait_until:
  "r_live s k = Some (v, Some e) \<Longrightarrow> r_live (s\<lparr>r_now := t\<rparr>) k = (if e \<le> t then None else Some (v, Some e))"
  "r_live s k = Some (v, None) \<Longrightarrow> r_live (s\<lparr>r_now := t\<rparr>) k = Some (v, None)"
  by (auto simp: r_live_def live_at_def split: option.splits prod.splits if_splits)

lemma wait_gone: "token_gone j s \<Longrightarrow> token_gone j (s\<lparr>r_now := r_now s + int d\<rparr>)"
  by (auto simp: token_gone_def r_live_def live_at_def split: option.splits prod.splits if_splits)

lemma wait_kept:
  assumes "kept ttl j u s"
  shows "kept ttl j u (s\<lparr>r_now := r_now s + int d\<rparr>)"
proof (cases "token_gone j s")
  case True
  then show ?thesis using wait_gone by (simp add: kept_def)
next
  case False
  then obtain e xs e' where r: "is_int64 u" "r_live s (refreshTokenKey j) = Some (RStr (fmt_int u), Some e)"
    "e \<le> r_now s + max ttl 1 * ns" "r_live s (userRefreshSetKey u) = Some (RSet xs, e')" "j \<in> set xs"
    "case e' of None \<Rightarrow> True | Some t \<Rightarrow> e \<le> t"
    using assms unfolding kept_def on_record_def by blast
  show ?thesis
  proof (cases "e \<le> r_now s + int d")
    case True
    then show ?thesis using wait_until(1) [OF r(2)] by (simp add: kept_def token_gone_def)
  next
    case False
    then have "r_live (s\<lparr>r_now := r_now s + int d\<rparr>) (userRefreshSetKey u) = Some (RSet xs, e')"
      using r(4,6) by (cases e') (auto simp: wait_until)
    then show ?thesis using False r wait_until(1) [OF r(2), of "r_now s + int d"]
      by (auto simp: kept_def on_record_def)
  qed
qed

lemma step_kept:
  assumes "token_name j" "names_ok op" "\<not> stores j op" "op \<noteq> TRevoke j" "sets_ok (rc_server c)" "kept ttl j u (rc_server c)"
  shows "kept ttl j u (rc_server (redis_step ttl op c))"
proof -
  note K' = keeps_with_store [where J = "\<lambda>c. kept ttl j u (rc_server c)" and c = c, OF _ assms(6)]
  show ?thesis
  proof (cases op)
    case (TStore i v)
    then have i: "i \<noteq> j" "token_name i" using assms(2,3) by (simp_all add: names_ok_def)
    with TStore show ?thesis unfolding redis_store_def
      by (simp, intro K' keeps_intros keeps_kept assms(1) i)
  next
    case (TConsume i)
    show ?thesis
    proof (cases "i = j")
      case True
      with TConsume consume_kept [OF assms(1,6)] show ?thesis by simp
    next
      case False
      moreover have "token_name i" using assms(2) TConsume by (simp add: names_ok_def)
      ultimately show ?thesis using TConsume unfolding redis_consume_def
        by (simp, intro K' keeps_intros keeps_kept assms(1))
    qed
  next
    case (TRevoke i)
    then have i: "i \<noteq> j" "token_name i" using assms(2,4) by (simp_all add: names_ok_def)
    with TRevoke show ?thesis unfolding redis_revoke_def
      by (simp, intro K' keeps_intros keeps_kept assms(1) i)
  next
    case (TRevokeUser v)
    then show ?thesis using revokeUser_kept(1) [OF assms(1,5,6)] by simp
  next
    case (TWait d)
    then show ?thesis using wait_kept [OF assms(6)] by (simp add: redis_wait_def)
  qed
qed

section \<open>The laws\<close>

lemma redis_consumed:
  assumes "token_name j" "redis_consume j c = (Inr (Some v), c')"
  shows "redis_live c j" "token_gone j (rc_server c')" "on_record ttl j u (rc_server c) \<Longrightarrow> v = u"
proof -
  let ?k = "\<lambda>v. case v of None \<Rightarrow> ret None | Some s \<Rightarrow> (case stoll s of Inl e \<Rightarrow> throw e
    | Inr userId \<Rightarrow> bindp (kv_srem (userRefreshSetKey userId) j) (\<lambda>_. ret (Some userId)))"
  have "bindp (kv_getDel (refreshTokenKey j)) ?k c = (Inr (Some v), c')"
    using assms(2) unfolding redis_consume_def by (rule with_store_InrD)
  then obtain x c1 where g: "kv_getDel (refreshTokenKey j) c = (Inr x, c1)" and k: "?k x c1 = (Inr (Some v), c')"
    by (auto simp: bindp_def split: prod.splits sum.splits)
  from k obtain s where x: "x = Some s" "stoll s = Inr v"
    by (auto simp: bindp_def split: option.splits sum.splits prod.splits)
  obtain fs where f: "script_getdel (refreshTokenKey j) ((rc_server c)\<lparr>r_faults := fs\<rparr>) = (Inr (Some s), rc_server c1)"
    using g x(1) unfolding kv_getDel_def by (auto dest: on_server_InrD)
  then have l: "r_value (rc_server c) (refreshTokenKey j) = Some (RStr s)"
    by (auto simp: script_getdel_def cmd_get_def cmd_del_def split: option.splits rvalue.splits)
  then show "redis_live c j" by (auto simp: redis_live_def token_gone_def r_value_def)
  show "on_record ttl j u (rc_server c) \<Longrightarrow> v = u"
    using l x(2) by (auto simp: on_record_def r_value_def stoll_fmt_int)
  have "token_gone j (rc_server c1)"
    using f l by (simp add: script_getdel_def cmd_get_def cmd_del_def) (metis r_live_put live_at_simps(1) token_gone_def)
  moreover have "keeps (\<lambda>c. token_gone j (rc_server c)) (?k x)" by (intro keeps_intros keeps_gone assms(1))
  ultimately have "token_gone j (rc_server (snd (?k x c1)))" by (rule keepsD [where I = "\<lambda>c. token_gone j (rc_server c)", rotated])
  with k show "token_gone j (rc_server c')" by simp
qed

lemma redis_revoked: "redis_revoke j c = (Inr (), c') \<Longrightarrow> token_gone j (rc_server c')"
  unfolding redis_revoke_def
  by (drule with_store_InrD) (auto simp: bindp_def split: prod.splits sum.splits option.splits dest: kv_del_gone)

lemma r_faults_now [simp]: "r_now (s\<lparr>r_faults := fs\<rparr>) = r_now s"
  by simp

lemma setex_effect:
  "cmd_setex k t v s = (Inr x, s') \<Longrightarrow> r_live s' k = Some (RStr v, Some (r_now s + t * ns)) \<and> r_now s' = r_now s"
  by (auto simp: cmd_setex_def ns_def split: if_splits)

lemma sadd_effect: "cmd_sadd k v s = (Inr x, s') \<Longrightarrow> \<exists>xs e. r_live s' k = Some (RSet xs, e) \<and> v \<in> set xs"
  using r_live_future [of s k]
  by (auto simp: cmd_sadd_def r_set_def put_set_def live_at_def split: option.splits prod.splits rvalue.splits if_splits)

lemma expire_effect:
  "cmd_expire k t s = (Inr x, s') \<Longrightarrow> 0 < t \<Longrightarrow> r_live s k = Some (v, e) \<Longrightarrow> r_live s' k = Some (v, Some (r_now s + t * ns))"
  by (auto simp: cmd_expire_def ns_def)

lemma touched_live: "touches k f \<Longrightarrow> f s = (r, s') \<Longrightarrow> k' \<noteq> k \<Longrightarrow> r_live s' k' = r_live s k' \<and> r_now s' = r_now s"
  unfolding touches_def by (metis r_live_cong snd_conv)

lemma redis_stored:
  assumes "token_name j" "is_int64 u" "redis_store j u ttl c = (Inr (), c')"
  shows "on_record ttl j u (rc_server c')"
proof -
  let ?T = "max ttl 1" and ?t = "refreshTokenKey j" and ?s = "userRefreshSetKey u"
  note k = token_keys(3,4) [OF assms(1)]
  have "bindp (kv_setex ?t (fmt_int u) ?T) (\<lambda>_. bindp (kv_sadd ?s j) (\<lambda>_. kv_expire ?s ?T)) c = (Inr (), c')"
    using assms(3) unfolding redis_store_def by (rule with_store_InrD)
  then obtain x c1 where s1: "kv_setex ?t (fmt_int u) ?T c = (Inr x, c1)"
    and r1: "bindp (kv_sadd ?s j) (\<lambda>_. kv_expire ?s ?T) c1 = (Inr (), c')"
    by (auto simp: bindp_def split: prod.splits sum.splits)
  obtain y c2 where s2: "on_server (cmd_sadd ?s j) c1 = (Inr y, c2)" and r2: "kv_expire ?s ?T c2 = (Inr (), c')"
    using r1 by (auto simp: bindp_def kv_sadd_def split: prod.splits sum.splits)
  obtain z where s3: "on_server (cmd_expire ?s ?T) c2 = (Inr z, c')"
    using r2 by (auto simp: bindp_def kv_expire_def split: prod.splits sum.splits)
  from s1 [unfolded kv_setex_def, THEN on_server_InrD] s2 [THEN on_server_InrD] s3 [THEN on_server_InrD]
  obtain f1 f2 f3 where f: "cmd_setex ?t ?T (fmt_int u) ((rc_server c)\<lparr>r_faults := f1\<rparr>) = (Inr x, rc_server c1)"
    "cmd_sadd ?s j ((rc_server c1)\<lparr>r_faults := f2\<rparr>) = (Inr y, rc_server c2)"
    "cmd_expire ?s ?T ((rc_server c2)\<lparr>r_faults := f3\<rparr>) = (Inr z, rc_server c')"
    by (elim exE)
  have T: "0 < ?T" by simp
  have now: "r_now (rc_server c1) = r_now (rc_server c)" "r_now (rc_server c2) = r_now (rc_server c)"
    "r_now (rc_server c') = r_now (rc_server c)"
    using f touches_cmds(2,4,5) unfolding touches_def by (metis snd_conv r_faults_now)+
  have "r_live (rc_server c1) ?t = Some (RStr (fmt_int u), Some (r_now (rc_server c) + ?T * ns))"
    using setex_effect [OF f(1)] by simp
  then have t: "r_live (rc_server c') ?t = Some (RStr (fmt_int u), Some (r_now (rc_server c) + ?T * ns))"
    using touched_live [OF touches_cmds(5) f(2) k(1)] touched_live [OF touches_cmds(4) f(3) k(1)] by simp
  obtain xs e where "r_live (rc_server c2) ?s = Some (RSet xs, e)" "j \<in> set xs" using sadd_effect [OF f(2)] by blast
  then have "r_live (rc_server c') ?s = Some (RSet xs, Some (r_now (rc_server c) + ?T * ns))" "j \<in> set xs"
    using expire_effect [OF f(3) T] now by auto
  with t assms(2) now show ?thesis by (auto simp: on_record_def)
qed

lemma step_redis_live: "names_ok op \<Longrightarrow> token_name j \<Longrightarrow> \<not> stores j op \<Longrightarrow> \<not> redis_live c j \<Longrightarrow> \<not> redis_live (redis_step ttl op c) j"
  using step_gone by (simp add: redis_live_def)

interpretation redis_tokens: refresh_tokens "\<lambda>j u. redis_store j u ttl" redis_consume redis_revoke
    redis_revokeUser redis_wait token_name "\<lambda>c. sets_ok (rc_server c)" redis_live
    "\<lambda>c j u. redis_issued ttl c j u \<and> sets_ok (rc_server c)"
proof (unfold_locales, goal_cases)
  case (1 j c u c')
  then show ?case using redis_consumed(1,2) by (auto simp: redis_live_def)
next
  case (2 j c u v c')
  then show ?case using redis_consumed(3) [of j c v c' ttl u] by (simp add: redis_issued_def)
next
  case (3 j c c')
  then show ?case using redis_revoked by (simp add: redis_live_def)
next
  case (4 j c u c')
  then show ?case using redis_stored [of j u ttl c c'] token_step_ok [of c "TStore j u" ttl] by (simp add: redis_issued_def names_ok_def)
next
  case (5 j c u c')
  then show ?case using revokeUser_kept(2) [of j c ttl u c'] by (simp add: redis_issued_def redis_live_def kept_def)
next
  case (6 c op)
  then show ?case using token_step_ok [of c op ttl] by (simp add: names_ok_def)
next
  case (7 j op c)
  then show ?case using step_redis_live [of op j c ttl] by (simp add: names_ok_def)
next
  case (8 j op c u)
  then show ?case
    using step_redis_live [of op j c ttl] token_step_ok [of c op ttl] step_kept [of j op c ttl u]
    by (auto simp: names_ok_def redis_issued_def redis_live_def kept_def)
qed

section \<open>Properties\<close>

lemma sets_ok_start: "r_store (rc_server c) = (\<lambda>_. None) \<Longrightarrow> sets_ok (rc_server c)"
  by (simp add: sets_ok_def r_live_def)

text \<open>
  C13: in Redis, with any command failing before or after it ran and with time
  passing, a refresh token that was consumed or revoked is never accepted again, whatever happens to
  other tokens, until it is stored anew; and once all sessions of a user were revoked, no token
  stored for the user before is accepted, provided that no revocation of this very token broke off
  in between.
\<close>

theorem tokens_end_for_good:
  fixes ttl :: int
  defines "run \<equiv> fold (redis_step ttl)"
  assumes "token_name j" "is_int64 u" "sets_ok (rc_server c)" "list_all names_ok ops" "list_all names_ok ops'"
    "list_all (\<lambda>op. \<not> stores j op) ops'"
  shows "(redis_consume j c = (Inr (Some u), c1) \<longrightarrow> fst (redis_consume j (run ops' c1)) \<noteq> Inr (Some v)) \<and>
    (redis_revoke j c = (Inr (), c1) \<longrightarrow> fst (redis_consume j (run ops' c1)) \<noteq> Inr (Some v)) \<and>
    (list_all (\<lambda>op. \<not> stores j op \<and> op \<noteq> TRevoke j) ops \<longrightarrow> redis_store j u ttl c = (Inr (), c1) \<longrightarrow>
       redis_revokeUser u (run ops c1) = (Inr (), c2) \<longrightarrow> fst (redis_consume j (run ops' c2)) \<noteq> Inr (Some v))"
proof -
  have w: "redis_tokens.well_named ops" "redis_tokens.well_named ops'"
    using assms(5,6) by (simp_all add: redis_tokens.well_named_def names_ok_def [abs_def])
  have r: "run xs s = redis_tokens.run ttl xs s" for xs s by (simp add: run_def redis_tokens.run_def)
  show ?thesis unfolding r
    using redis_tokens.single_use [OF assms(2) w(2) assms(7)] redis_tokens.logout_ends [OF assms(2) w(2) assms(7)]
      redis_tokens.user_logout_ends [OF assms(2) assms(4) assms(3) w _ assms(7)] by blast
qed

definition demo_store :: "cmd_fault list \<Rightarrow> redis_client" where
  "demo_store fs = \<lparr>rc_config = default_redis_config, rc_impl = True,
     rc_server = \<lparr>r_store = (\<lambda>_. None), r_now = 0, r_faults = fs\<rparr>\<rparr>"

theorem tokens_end_for_good_witness:
  "\<exists>c1 c2. redis_store ''a1'' 5 60 (demo_store []) = (Inr (), c1) \<and> redis_revokeUser 5 c1 = (Inr (), c2) \<and>
     fst (redis_consume ''a1'' c2) \<noteq> Inr (Some 5)"
proof -
  obtain c1 where c1: "redis_store ''a1'' 5 60 (demo_store []) = (Inr (), c1)"
    and c1': "c1 = snd (redis_store ''a1'' 5 60 (demo_store []))"
    by (simp add: redis_store_def with_store_def demo_store_def redis_isAvailable_def default_redis_config_def
        kv_setex_def kv_sadd_def kv_expire_def on_server_def cmd_setex_def cmd_sadd_def cmd_expire_def r_set_def
        put_set_def bindp_def r_live_def ns_def refreshTokenKey_def userRefreshSetKey_def)
  obtain c2 where c2: "redis_revokeUser 5 c1 = (Inr (), c2)"
    unfolding c1' by (simp add: redis_store_def with_store_def demo_store_def redis_isAvailable_def default_redis_config_def
        kv_setex_def kv_sadd_def kv_expire_def on_server_def cmd_setex_def cmd_sadd_def cmd_expire_def r_set_def
        put_set_def bindp_def r_live_def ns_def refreshTokenKey_def userRefreshSetKey_def
        redis_revokeUser_def kv_smembers_def cmd_smembers_def kv_del_def cmd_del_def)
  have "token_name ''a1''" by (simp add: token_name_def starts_with_def)
  moreover have "sets_ok (rc_server (demo_store []))" by (rule sets_ok_start) (simp add: demo_store_def)
  ultimately have "fst (redis_consume ''a1'' c2) \<noteq> Inr (Some 5)"
    using tokens_end_for_good [where j = "''a1''" and u = 5 and c = "demo_store []" and ops = "[]" and ops' = "[]"
        and ttl = 60 and v = 5] c1 c2
    by (simp add: is_int64_def)
  with c1 c2 show ?thesis by blast
qed

text \<open>
  A logout that breaks off after its second command has taken the token out of the set of the user
  but not revoked it: the token outlives a later revocation of all sessions of the user, for
  instance by a change of the password.
\<close>

theorem broken_logout_survives:
  "let c1 = snd (redis_store ''a1'' 5 60 (demo_store [CmdRuns, CmdRuns, CmdRuns, CmdRuns, CmdRuns, CmdRefused (RedisTimeout [])]));
       c2 = snd (redis_revoke ''a1'' c1);
       (r, c3) = redis_revokeUser 5 c2
   in r = Inr () \<and> fst (redis_consume ''a1'' c3) = Inr (Some 5)"
proof -
  have k: "stoll (fmt_int 5) = Inr 5" by (simp add: stoll_fmt_int is_int64_def)
  show ?thesis
    by (simp add: redis_store_def with_store_def demo_store_def redis_isAvailable_def default_redis_config_def
        kv_setex_def kv_sadd_def kv_expire_def on_server_def cmd_setex_def cmd_sadd_def cmd_expire_def r_set_def
        put_set_def bindp_def r_live_def ns_def refreshTokenKey_def userRefreshSetKey_def r_exec_def
        redis_revokeUser_def kv_smembers_def cmd_smembers_def kv_del_def cmd_del_def redis_revoke_def kv_get_def
        cmd_get_def r_value_def kv_srem_def cmd_srem_def k redis_consume_def kv_getDel_def script_getdel_def)
qed

end
