(* ===== verification/Passwords.thy ===== *)
theory Passwords
  imports Request_Id
begin

text \<open>
  \<open>Backend/src/utils/password_utils.cpp\<close> and \<open>string_utils.cpp\<close>: stored passwords and the reader
  of truth values. The key derivation \<open>PKCS5_PBKDF2_HMAC\<close> (password, salt, iterations, length) and
  the bytes of \<open>RAND_bytes\<close> are parameters; either may fail.
\<close>

type_synonym byte = "8 word"
type_synonym kdf = "string \<Rightarrow> byte list \<Rightarrow> int \<Rightarrow> nat \<Rightarrow> byte list option"

section \<open>parseBool\<close>

definition parseBool :: "string \<Rightarrow> bool option" where
  "parseBool v = (let n = map to_lower (filter (\<lambda>c. \<not> is_space c) v) in
     if n \<in> {''1'', ''true'', ''yes'', ''on''} then Some True
     else if n \<in> {''0'', ''false'', ''no'', ''off''} then Some False
     else None)"

section \<open>Hexadecimal text\<close>

definition kSaltBytes :: nat where "kSaltBytes = 16"
definition kHashBytes :: nat where "kHashBytes = 32"
definition kIterations :: int where "kIterations = 100000"

definition toHex :: "byte list \<Rightarrow> string" where
  "toHex bs = concat (map (\<lambda>b. fmt_hex_pad 2 (unat b)) bs)"

definition hex_value :: "char \<Rightarrow> nat option" where
  "hex_value c =
     (if is_digit c then Some (cbyte c - 48)
      else if 97 \<le> cbyte c \<and> cbyte c \<le> 102 then Some (cbyte c - 87)
      else if 65 \<le> cbyte c \<and> cbyte c \<le> 70 then Some (cbyte c - 55)
      else None)"

definition read_hex :: "string \<Rightarrow> nat" where
  "read_hex s = foldl (\<lambda>n c. 16 * n + the (hex_value c)) 0 s"

text \<open>\<open>iss >> std::hex >> byte\<close>: skip white space, an optional sign, an optional \<open>0x\<close>, at least one
  digit; the rest is ignored. A sign makes the value wrap around.\<close>

definition stream_hex :: "string \<Rightarrow> 32 word option" where
  "stream_hex s =
     (let (neg, r) = split_sign (dropWhile is_space s);
          r' = (if starts_with r ''0x'' \<or> starts_with r ''0X'' then drop 2 r else r);
          ds = takeWhile (\<lambda>c. hex_value c \<noteq> None) r';
          n = (of_nat (read_hex ds) :: 32 word)
      in if ds = [] then None else Some (if neg then - n else n))"

fun fromHex_loop :: "string \<Rightarrow> exn + byte list" where
  "fromHex_loop (c # d # s) = (case stream_hex [c, d] of
      None \<Rightarrow> Inl (StdExn ''Invalid hex string'')
    | Some n \<Rightarrow> bindr (fromHex_loop s) (\<lambda>bs. Inr (ucast n # bs)))"
| "fromHex_loop s = Inr []"

definition fromHex :: "string \<Rightarrow> exn + byte list" where
  "fromHex hex = (if length hex mod 2 \<noteq> 0 then Inl (StdExn ''Invalid hex string'') else fromHex_loop hex)"

section \<open>Hashing and checking\<close>

definition hashPassword :: "kdf \<Rightarrow> byte list option \<Rightarrow> string \<Rightarrow> exn + string" where
  "hashPassword kdf random plain = (case random of
      None \<Rightarrow> Inl (StdExn ''RAND_bytes failed'')
    | Some salt \<Rightarrow> (case kdf plain salt kIterations kHashBytes of
          None \<Rightarrow> Inl (StdExn ''PKCS5_PBKDF2_HMAC failed'')
        | Some out \<Rightarrow> Inr (''pbkdf2_sha256$'' @ fmt_int kIterations @ ''$'' @ toHex salt @ ''$'' @ toHex out)))"

definition stoi :: "string \<Rightarrow> exn + int" where
  "stoi s = bindr (stoll s) (\<lambda>n. if is_int32 n then Inr n else Inl (StdExn ''stoi''))"

text \<open>The comparison visits every byte.\<close>

fun bytes_differ :: "byte list \<Rightarrow> byte list \<Rightarrow> byte \<Rightarrow> byte" where
  "bytes_differ (a # as) (b # bs) diff = bytes_differ as bs (diff OR (a XOR b))"
| "bytes_differ _ _ diff = diff"

definition verifyPassword :: "kdf \<Rightarrow> string \<Rightarrow> string \<Rightarrow> exn + bool" where
  "verifyPassword kdf plain stored = (case split stored (CHR ''$'') of
      [scheme, iterations, salt, hash] \<Rightarrow>
        if scheme \<noteq> ''pbkdf2_sha256'' then Inr False
        else (case stoi iterations of
            Inl e \<Rightarrow> Inr False
          | Inr iter \<Rightarrow>
              bindr (fromHex salt) (\<lambda>salt. bindr (fromHex hash) (\<lambda>hash.
                if salt = [] \<or> hash = [] then Inr False
                else (case kdf plain salt iter (length hash) of
                    None \<Rightarrow> Inr False
                  | Some out \<Rightarrow> Inr (length out = length hash \<and> bytes_differ out hash 0 = 0)))))
    | _ \<Rightarrow> Inr False)"

section \<open>Facts\<close>

lemma bytes_differ_mono: "bytes_differ xs ys d = 0 \<Longrightarrow> d = 0"
proof (induction xs ys d rule: bytes_differ.induct)
  case (1 a as b bs d)
  then show ?case by (simp add: or_eq_0_iff)
qed simp_all

lemma xor_zero: "x XOR y = 0 \<longleftrightarrow> x = y" for x y :: byte
  by (metis xor.assoc xor.left_neutral xor_self_eq)

lemma bytes_differ_zero: "length xs = length ys \<Longrightarrow> bytes_differ xs ys 0 = 0 \<longleftrightarrow> xs = ys"
proof (induction xs ys rule: list_induct2)
  case (Cons x xs y ys)
  show ?case
  proof (cases "x = y")
    case False
    then have "x XOR y \<noteq> 0" by (simp add: xor_zero)
    then have "bytes_differ xs ys (x XOR y) \<noteq> 0" using bytes_differ_mono [of xs ys "x XOR y"] by blast
    with False show ?thesis by simp
  qed (use Cons in simp)
qed simp

lemma hex_value_char: "d < 16 \<Longrightarrow> hex_value (hex_char d) = Some d"
  by (auto simp: hex_value_def hex_char_def is_digit_def cbyte_char_of)

lemma byte_hex: "fmt_hex_pad 2 (unat b) = [hex_char (unat b div 16), hex_char (unat b mod 16)]" for b :: byte
proof -
  have b: "unat b < 256" using unsigned_less [of b] by simp
  then have "unat b div 16 < 16" by simp
  moreover have "hex_char 0 = CHR ''0''" by code_simp
  ultimately show ?thesis
    by (cases "unat b < 16") (simp_all add: fmt_hex_pad_def fmt_hex.simps [of "unat b"] fmt_hex.simps [of "unat b div 16"])
qed

lemma hex_char_plain: "d < 16 \<Longrightarrow> \<not> is_space (hex_char d) \<and> hex_char d \<notin> {CHR ''-'', CHR ''+'', CHR ''x'', CHR ''X''}"
proof -
  assume "d < 16"
  then have c: "cbyte (hex_char d) = (if d < 10 then 48 + d else 87 + d)" by (simp add: hex_char_def cbyte_char_of)
  have "cbyte (CHR ''-'') = 45" "cbyte (CHR ''+'') = 43" "cbyte (CHR ''x'') = 120" "cbyte (CHR ''X'') = 88"
    by (simp_all add: cbyte_def)
  with c \<open>d < 16\<close> have "hex_char d \<notin> {CHR ''-'', CHR ''+'', CHR ''x'', CHR ''X''}" by (auto split: if_splits)
  moreover have "\<not> is_space (hex_char d)" using c by (auto simp: is_space_def split: if_splits)
  ultimately show ?thesis by blast
qed

lemma stream_hex_byte: "stream_hex [hex_char (unat b div 16), hex_char (unat b mod 16)] = Some (ucast b)" for b :: byte
proof -
  have b: "unat b < 256" using unsigned_less [of b] by simp
  then have d: "unat b div 16 < 16" "unat b mod 16 < 16" by auto
  note plain = hex_char_plain [OF d(1)] hex_char_plain [OF d(2)]
  have v: "hex_value (hex_char (unat b div 16)) = Some (unat b div 16)" "hex_value (hex_char (unat b mod 16)) = Some (unat b mod 16)"
    using d by (simp_all add: hex_value_char)
  have r: "read_hex [hex_char (unat b div 16), hex_char (unat b mod 16)] = unat b"
    by (simp add: read_hex_def v)
  show ?thesis using plain
    by (simp add: stream_hex_def split_sign_def starts_with_def v r)
qed

lemma fromHex_loop_toHex: "fromHex_loop (toHex bs) = Inr bs"
proof (induction bs)
  case (Cons b bs)
  have "toHex (b # bs) = hex_char (unat b div 16) # hex_char (unat b mod 16) # toHex bs"
    by (simp add: toHex_def byte_hex)
  moreover have "ucast (ucast b :: 32 word) = b" by transfer simp
  ultimately show ?case by (simp add: stream_hex_byte Cons)
qed (simp add: toHex_def)

lemma length_toHex: "length (toHex bs) = 2 * length bs"
  by (induction bs) (simp_all add: toHex_def byte_hex)

lemma fromHex_toHex: "fromHex (toHex bs) = Inr bs"
  by (simp add: fromHex_def length_toHex fromHex_loop_toHex)

lemma toHex_plain: "CHR ''$'' \<notin> set (toHex bs)"
  by (auto simp: toHex_def fmt_hex_pad_def is_alnum_def is_upper_def is_lower_def is_digit_def cbyte_def dest: fmt_hex_alnum)

lemma stored_password:
  assumes "hashPassword kdf (Some salt) plain = Inr stored" "salt \<noteq> []"
    "\<And>p s i n out. kdf p s i n = Some out \<Longrightarrow> length out = n"
  shows "verifyPassword kdf candidate stored =
      Inr (kdf candidate salt kIterations kHashBytes = kdf plain salt kIterations kHashBytes) \<and>
    verifyPassword kdf plain stored = Inr True"
proof -
  obtain out where out: "kdf plain salt kIterations kHashBytes = Some out"
    and stored: "stored = ''pbkdf2_sha256$'' @ fmt_int kIterations @ ''$'' @ toHex salt @ ''$'' @ toHex out"
    using assms(1) by (auto simp: hashPassword_def split: option.splits)
  have len: "length out = kHashBytes" using assms(3) out by blast
  then have ne: "out \<noteq> []" by (auto simp: kHashBytes_def)
  have "CHR ''$'' \<notin> set (fmt_int kIterations)" using fmt_int_chars [of "CHR ''$''"] by (auto simp: is_digit_def cbyte_def)
  then have parts: "split stored (CHR ''$'') = [''pbkdf2_sha256'', fmt_int kIterations, toHex salt, toHex out]"
    using split_loop_append [of "CHR ''$''" "''pbkdf2_sha256''" "fmt_int kIterations @ ''$'' @ toHex salt @ ''$'' @ toHex out" "[]"]
    by (simp add: stored split_simps toHex_plain)
  have iter: "stoi (fmt_int kIterations) = Inr kIterations"
    by (simp add: stoi_def stoll_fmt_int kIterations_def is_int64_def is_int32_def)
  have "verifyPassword kdf p stored = Inr (kdf p salt kIterations kHashBytes = Some out)" for p
  proof (cases "kdf p salt kIterations kHashBytes")
    case (Some o2)
    then have "length o2 = length out" using assms(3) len by metis
    with Some assms(2) ne show ?thesis
      by (simp add: verifyPassword_def parts iter fromHex_toHex len bytes_differ_zero)
  qed (use assms(2) ne in \<open>simp add: verifyPassword_def parts iter fromHex_toHex len\<close>)
  then show ?thesis using out by simp
qed

text \<open>
  C37: a stored password accepts exactly the passwords that the key derivation
  maps to the same key under the stored salt, the password it was made from among them; the check
  never throws on it.
\<close>

theorem password_roundtrip:
  assumes "hashPassword kdf (Some salt) plain = Inr stored" "salt \<noteq> []"
    "\<And>p s i n out. kdf p s i n = Some out \<Longrightarrow> length out = n"
  shows "verifyPassword kdf candidate stored =
      Inr (kdf candidate salt kIterations kHashBytes = kdf plain salt kIterations kHashBytes) \<and>
    verifyPassword kdf plain stored = Inr True"
  by (rule stored_password [OF assms])

text \<open>A key derivation to evaluate on.\<close>

definition demo_kdf :: kdf where
  "demo_kdf p s i n = Some (take n (map (\<lambda>c. of_nat (cbyte c)) p @ replicate n 0))"

theorem password_roundtrip_witness:
  "\<exists>stored. hashPassword demo_kdf (Some (replicate 16 7)) ''secret'' = Inr stored \<and>
     verifyPassword demo_kdf ''secret'' stored = Inr True \<and> verifyPassword demo_kdf ''Secret'' stored = Inr False"
proof -
  obtain stored where s: "hashPassword demo_kdf (Some (replicate 16 7)) ''secret'' = Inr stored"
    by (simp add: hashPassword_def demo_kdf_def)
  have "length out = n" if "demo_kdf p q i n = Some out" for p q i n out
    using that by (auto simp: demo_kdf_def)
  note * = password_roundtrip [OF s _ this]
  have "demo_kdf ''Secret'' (replicate 16 7) kIterations kHashBytes \<noteq> demo_kdf ''secret'' (replicate 16 7) kIterations kHashBytes"
    by (simp add: demo_kdf_def kHashBytes_def cbyte_def)
  then show ?thesis using s *(1) [where candidate = "''Secret''"] *(1) [where candidate = "''secret''"] by auto
qed

end
