(* ===== verification/Jwt.thy ===== *)
theory Jwt
  imports Passwords Errors
begin

text \<open>
  \<open>Backend/src/utils/jwt_utils.cpp\<close>: access and refresh tokens. The JWT library is a parameter: it
  signs the claims of a token, decodes a token and verifies its signature, its issuer and its time
  of expiry; the configuration and the random bytes of a token identifier are arguments.
\<close>

section \<open>The library\<close>

text \<open>\<open>jw_verify secret issuer now token\<close> throws unless the token was signed with the secret (HS256),
  names the issuer and is in force at \<open>now\<close> (seconds): it checks the claims \<open>exp\<close>, \<open>iat\<close> and \<open>nbf\<close>.\<close>

record jwt_lib =
  jw_sign :: "string \<Rightarrow> json \<Rightarrow> exn + string"
  jw_decode :: "string \<Rightarrow> exn + json"
  jw_verify :: "string \<Rightarrow> string \<Rightarrow> int \<Rightarrow> string \<Rightarrow> exn + unit"

text \<open>
  The times of a token: the claims \<open>iat\<close>, \<open>nbf\<close> and \<open>exp\<close>, each missing or a number of seconds. The
  clock of the library is finer than a second, so within the very second of the expiry nothing is
  said.
\<close>

definition claim_time :: "json \<Rightarrow> string \<Rightarrow> int option" where
  "claim_time claims k = (case jfind claims k of Some (JInt n) \<Rightarrow> Some n | _ \<Rightarrow> None)"

definition plain_times :: "json \<Rightarrow> bool" where
  "plain_times claims \<longleftrightarrow> list_all (\<lambda>k. jfind claims k = None \<or> claim_time claims k \<noteq> None) [''iat'', ''nbf'', ''exp'']"

definition begun :: "json \<Rightarrow> int \<Rightarrow> bool" where
  "begun claims now \<longleftrightarrow>
     list_all (\<lambda>k. case claim_time claims k of None \<Rightarrow> True | Some t \<Rightarrow> t \<le> now) [''iat'', ''nbf'']"

definition in_force :: "json \<Rightarrow> int \<Rightarrow> bool" where
  "in_force claims now \<longleftrightarrow> begun claims now \<and> (case claim_time claims ''exp'' of None \<Rightarrow> True | Some e \<Rightarrow> now < e)"

definition out_of_force :: "json \<Rightarrow> int \<Rightarrow> bool" where
  "out_of_force claims now \<longleftrightarrow> \<not> begun claims now \<or> (case claim_time claims ''exp'' of None \<Rightarrow> False | Some e \<Rightarrow> e < now)"

text \<open>What the documentation of the library says: a signed token decodes to its claims; under the
  same secret and for the issuer it names it verifies while it is in force, and is refused before
  it was issued, before it begins and after it expired.\<close>

definition jwt_laws :: "jwt_lib \<Rightarrow> bool" where
  "jwt_laws L \<longleftrightarrow> (\<forall>secret claims token. jw_sign L secret claims = Inr token \<longrightarrow>
     jw_decode L token = Inr claims \<and>
     (\<forall>now issuer. jfind claims ''iss'' = Some (JStr issuer) \<longrightarrow> plain_times claims \<longrightarrow>
        (in_force claims now \<longrightarrow> jw_verify L secret issuer now token = Inr ()) \<and>
        (out_of_force claims now \<longrightarrow> (\<exists>e. jw_verify L secret issuer now token = Inl e))))"

text \<open>\<open>get_payload_claim\<close>, \<open>as_string\<close>, \<open>as_integer\<close> and \<open>as_number\<close> throw on a missing claim or
  another type.\<close>

definition get_claim :: "json \<Rightarrow> string \<Rightarrow> exn + json" where
  "get_claim claims k = (case jfind claims k of Some v \<Rightarrow> Inr v | None \<Rightarrow> Inl (StdExn ''claim_not_present''))"

fun claim_as_string :: "json \<Rightarrow> exn + string" where
  "claim_as_string (JStr s) = Inr s"
| "claim_as_string _ = Inl (StdExn ''bad_cast'')"

fun claim_as_integer :: "json \<Rightarrow> exn + int" where
  "claim_as_integer (JInt n) = Inr (int64_of n)"
| "claim_as_integer _ = Inl (StdExn ''bad_cast'')"

fun claim_as_number :: "json \<Rightarrow> exn + real" where
  "claim_as_number (JFloat r) = Inr r"
| "claim_as_number _ = Inl (StdExn ''bad_cast'')"

section \<open>Configuration\<close>

definition kDefaultAccessExpirationMinutes :: int where "kDefaultAccessExpirationMinutes = 15"
definition kDefaultRefreshExpirationDays :: int where "kDefaultRefreshExpirationDays = 7"

definition loadSecret :: "exn + json \<Rightarrow> exn + string" where
  "loadSecret config = bindr config (\<lambda>c.
     case jfind c ''jwt'' of None \<Rightarrow> Inl (StdExn ''out_of_range'') | Some j \<Rightarrow>
     (case jfind j ''secret'' of None \<Rightarrow> Inl (StdExn ''out_of_range'') | Some s \<Rightarrow>
      bindr (as_string s) (\<lambda>v. if v = [] then Inl (StdExn ''jwt.secret is empty'') else Inr v)))"

definition loadIssuer :: string where "loadIssuer = ''backend''"

definition positiveConfigInt :: "exn + json \<Rightarrow> string \<Rightarrow> int \<Rightarrow> int" where
  "positiveConfigInt config key fallback = (case config of Inl e \<Rightarrow> fallback | Inr c \<Rightarrow>
     (case jfind c ''jwt'' of None \<Rightarrow> fallback | Some j \<Rightarrow>
       (case jfind j key of Some (JInt n) \<Rightarrow> max 1 (int32_of n) | _ \<Rightarrow> fallback)))"

definition loadAccessExpirationMinutes :: "exn + json \<Rightarrow> int" where
  "loadAccessExpirationMinutes config =
     positiveConfigInt config ''access_expiration_minutes'' kDefaultAccessExpirationMinutes"

definition accessTokenExpiresInSeconds :: "exn + json \<Rightarrow> int" where
  "accessTokenExpiresInSeconds config = int32_of (loadAccessExpirationMinutes config * 60)"

definition refreshTokenExpiresInSeconds :: "exn + json \<Rightarrow> int" where
  "refreshTokenExpiresInSeconds config =
     int32_of (positiveConfigInt config ''refresh_expiration_days'' kDefaultRefreshExpirationDays * 24 * 60 * 60)"

section \<open>Token identifiers\<close>

definition set_version :: "byte list \<Rightarrow> byte list" where
  "set_version bs = (bs[6 := ((bs ! 6) AND 0x0F) OR 0x40])[8 := ((bs ! 8) AND 0x3F) OR 0x80]"

text \<open>Sixteen random bytes, formatted in groups of four, two, two, two and six.\<close>

definition generateJti :: "byte list \<Rightarrow> string" where
  "generateJti random = (let b = set_version random in
     toHex (take 4 b) @ ''-'' @ toHex (take 2 (drop 4 b)) @ ''-'' @ toHex (take 2 (drop 6 b)) @ ''-'' @
     toHex (take 2 (drop 8 b)) @ ''-'' @ toHex (take 6 (drop 10 b)))"

section \<open>Issuing and checking\<close>

record jwt_payload =
  jp_user_id :: int
  jp_username :: string
  jp_role :: string
  jp_jti :: string

record refresh_claims =
  rf_user_id :: int
  rf_jti :: string

definition expiresAfter :: "int \<Rightarrow> int \<Rightarrow> int" where
  "expiresAfter now ttl = now + ttl"

text \<open>The times are seconds; the clock is read for the issue and again for the expiry.\<close>

definition createToken :: "jwt_lib \<Rightarrow> exn + json \<Rightarrow> int \<Rightarrow> int \<Rightarrow> byte list \<Rightarrow> int \<Rightarrow> string \<Rightarrow> string \<Rightarrow> exn + string" where
  "createToken L config now now' random userId username role =
     bindr (loadSecret config) (\<lambda>secret.
     jw_sign L secret (JObj [(''iss'', JStr loadIssuer), (''iat'', JInt now),
       (''exp'', JInt (expiresAfter now' (accessTokenExpiresInSeconds config))),
       (''uid'', JInt userId), (''username'', JStr username),
       (''role'', JStr (if role = [] then ''user'' else role)), (''type'', JStr ''access''),
       (''jti'', JStr (generateJti random))]))"

definition issueRefreshToken :: "jwt_lib \<Rightarrow> exn + json \<Rightarrow> int \<Rightarrow> int \<Rightarrow> int \<Rightarrow> string \<Rightarrow> exn + string" where
  "issueRefreshToken L config now now' userId jti =
     bindr (loadSecret config) (\<lambda>secret.
     jw_sign L secret (JObj [(''iss'', JStr loadIssuer), (''iat'', JInt now),
       (''exp'', JInt (expiresAfter now' (refreshTokenExpiresInSeconds config))),
       (''uid'', JInt userId), (''type'', JStr ''refresh''), (''jti'', JStr jti)]))"

definition claimString :: "json \<Rightarrow> string \<Rightarrow> exn + string" where
  "claimString claims name = (case jfind claims name of None \<Rightarrow> Inr [] | Some v \<Rightarrow> claim_as_string v)"

text \<open>The user: an integer claim, or a number in older tokens.\<close>

definition claimed_uid :: "json \<Rightarrow> exn + int" where
  "claimed_uid v = (case claim_as_integer v of
      Inr n \<Rightarrow> Inr n
    | Inl _ \<Rightarrow> bindr (claim_as_number v) (\<lambda>r. Inr (int64_of (trunc r))))"

definition decode_verified :: "jwt_lib \<Rightarrow> exn + json \<Rightarrow> int \<Rightarrow> string \<Rightarrow> exn + json" where
  "decode_verified L config now token =
     bindr (jw_decode L token) (\<lambda>claims. bindr (loadSecret config) (\<lambda>secret.
     bindr (jw_verify L secret loadIssuer now token) (\<lambda>_. Inr claims)))"

definition access_claims :: "json \<Rightarrow> exn + jwt_payload option" where
  "access_claims claims =
     bindr (claimString claims ''type'') (\<lambda>tokenType.
     if tokenType \<noteq> [] \<and> tokenType \<noteq> ''access'' then Inr None
     else bindr (get_claim claims ''uid'') (\<lambda>uidClaim. bindr (claimed_uid uidClaim) (\<lambda>uid.
       bindr (bindr (get_claim claims ''username'') claim_as_string) (\<lambda>username.
       bindr (case jfind claims ''role'' of None \<Rightarrow> Inr ''user''
           | Some v \<Rightarrow> bindr (claim_as_string v) (\<lambda>r. Inr (if r = [] then ''user'' else r))) (\<lambda>role.
       bindr (claimString claims ''jti'') (\<lambda>jti.
       Inr (Some \<lparr>jp_user_id = uid, jp_username = username, jp_role = role, jp_jti = jti\<rparr>)))))))"

text \<open>\<open>catch (\<dots>)\<close> makes every failure none.\<close>

definition verifyToken :: "jwt_lib \<Rightarrow> exn + json \<Rightarrow> int \<Rightarrow> string \<Rightarrow> jwt_payload option" where
  "verifyToken L config now token =
     (case bindr (decode_verified L config now token) access_claims of Inl e \<Rightarrow> None | Inr p \<Rightarrow> p)"

definition invalidRefreshToken :: service_error where
  "invalidRefreshToken = mk_error 401 ''invalid_refresh_token'' ''invalid refresh token''"

definition refresh_token_claims :: "json \<Rightarrow> exn + refresh_claims option" where
  "refresh_token_claims claims =
     bindr (claimString claims ''type'') (\<lambda>tokenType. if tokenType \<noteq> ''refresh'' then Inr None
     else bindr (claimString claims ''jti'') (\<lambda>jti. if jti = [] then Inr None
     else bindr (get_claim claims ''uid'') (\<lambda>uidClaim. bindr (claimed_uid uidClaim) (\<lambda>uid.
       Inr (Some \<lparr>rf_user_id = uid, rf_jti = jti\<rparr>)))))"

definition verifyRefreshToken :: "jwt_lib \<Rightarrow> exn + json \<Rightarrow> int \<Rightarrow> string \<Rightarrow> service_error + refresh_claims" where
  "verifyRefreshToken L config now token =
     (case bindr (decode_verified L config now token) refresh_token_claims of
        Inr (Some c) \<Rightarrow> Inr c | _ \<Rightarrow> Inl invalidRefreshToken)"

definition extractBearerToken :: "string \<Rightarrow> string option" where
  "extractBearerToken header =
     (if length header \<le> length ''Bearer '' then None
      else if \<not> starts_with header ''Bearer '' then None
      else Some (drop (length ''Bearer '') header))"

section \<open>Facts\<close>

lemma decode_signed:
  assumes "jwt_laws L" "loadSecret config = Inr secret" "jw_sign L secret claims = Inr token"
  shows "jw_decode L token = Inr claims"
    "jfind claims ''iss'' = Some (JStr loadIssuer) \<Longrightarrow> plain_times claims \<Longrightarrow> in_force claims now \<Longrightarrow>
       decode_verified L config now token = Inr claims"
    "jfind claims ''iss'' = Some (JStr loadIssuer) \<Longrightarrow> plain_times claims \<Longrightarrow> out_of_force claims now \<Longrightarrow>
       \<exists>e. decode_verified L config now token = Inl e"
  using assms unfolding jwt_laws_def decode_verified_def by (fastforce simp: bindr_def)+

text \<open>The times of the tokens that are issued here.\<close>

lemma issued_times:
  assumes "claims = JObj ((''iss'', JStr i) # (''iat'', JInt t) # (''exp'', JInt e) # more_claims)"
    and "jfind (JObj more_claims) ''nbf'' = None"
  shows "jfind claims ''iss'' = Some (JStr i)" "plain_times claims"
    "in_force claims now \<longleftrightarrow> t \<le> now \<and> now < e" "out_of_force claims now \<longleftrightarrow> now < t \<or> e < now"
  using assms(2) unfolding assms(1) by (auto simp: plain_times_def claim_time_def begun_def in_force_def out_of_force_def)

lemma tokens_read_back:
  assumes "jwt_laws L" "is_int64 u" "jti \<noteq> []"
    and access: "createToken L config t t' random u name role = Inr access"
      "t \<le> now" "now < t' + accessTokenExpiresInSeconds config"
    and refresh: "issueRefreshToken L config t t' u jti = Inr refresh"
      "t \<le> now'" "now' < t' + refreshTokenExpiresInSeconds config"
  shows "verifyToken L config now access = Some \<lparr>jp_user_id = u, jp_username = name,
      jp_role = (if role = [] then ''user'' else role), jp_jti = generateJti random\<rparr> \<and>
    verifyRefreshToken L config now' refresh = Inr \<lparr>rf_user_id = u, rf_jti = jti\<rparr> \<and>
    (\<forall>s. s < t \<or> t' + accessTokenExpiresInSeconds config < s \<longrightarrow> verifyToken L config s access = None) \<and>
    (\<forall>s. s < t \<or> t' + refreshTokenExpiresInSeconds config < s \<longrightarrow>
       verifyRefreshToken L config s refresh = Inl invalidRefreshToken) \<and>
    (\<forall>s. verifyRefreshToken L config s access = Inl invalidRefreshToken \<and> verifyToken L config s refresh = None)"
proof -
  obtain secret where s: "loadSecret config = Inr secret"
    using access(1) by (auto simp: createToken_def bindr_def split: sum.splits)
  let ?ea = "expiresAfter t' (accessTokenExpiresInSeconds config)" and ?er = "expiresAfter t' (refreshTokenExpiresInSeconds config)"
  let ?as = "[(''uid'', JInt u), (''username'', JStr name), (''role'', JStr (if role = [] then ''user'' else role)),
       (''type'', JStr ''access''), (''jti'', JStr (generateJti random))]"
  let ?rs = "[(''uid'', JInt u), (''type'', JStr ''refresh''), (''jti'', JStr jti)]"
  let ?a = "JObj ((''iss'', JStr loadIssuer) # (''iat'', JInt t) # (''exp'', JInt ?ea) # ?as)"
  let ?r = "JObj ((''iss'', JStr loadIssuer) # (''iat'', JInt t) # (''exp'', JInt ?er) # ?rs)"
  have sign: "jw_sign L secret ?a = Inr access" "jw_sign L secret ?r = Inr refresh"
    using access(1) refresh(1) s by (simp_all add: createToken_def issueRefreshToken_def)
  note ta = issued_times [of ?a loadIssuer t ?ea ?as, OF refl] and tr = issued_times [of ?r loadIssuer t ?er ?rs, OF refl]
  note da = decode_signed(2,3) [OF assms(1) s sign(1)] and dr = decode_signed(2,3) [OF assms(1) s sign(2)]
  have "decode_verified L config now access = Inr ?a"
    by (rule da(1)) (use ta access(2,3) in \<open>simp_all add: expiresAfter_def\<close>)
  then have "verifyToken L config now access = Some \<lparr>jp_user_id = u, jp_username = name,
      jp_role = (if role = [] then ''user'' else role), jp_jti = generateJti random\<rparr>"
    using assms(2) by (simp add: verifyToken_def access_claims_def claimString_def get_claim_def claimed_uid_def)
  moreover have "decode_verified L config now' refresh = Inr ?r"
    by (rule dr(1)) (use tr refresh(2,3) in \<open>simp_all add: expiresAfter_def\<close>)
  then have "verifyRefreshToken L config now' refresh = Inr \<lparr>rf_user_id = u, rf_jti = jti\<rparr>"
    using assms(2,3) by (simp add: verifyRefreshToken_def refresh_token_claims_def claimString_def get_claim_def claimed_uid_def)
  moreover have "verifyToken L config n access = None" if "n < t \<or> t' + accessTokenExpiresInSeconds config < n" for n
  proof -
    have "\<exists>e. decode_verified L config n access = Inl e"
      by (rule da(2)) (use ta that in \<open>simp_all add: expiresAfter_def\<close>)
    then show ?thesis by (auto simp: verifyToken_def)
  qed
  moreover have "verifyRefreshToken L config n refresh = Inl invalidRefreshToken"
    if "n < t \<or> t' + refreshTokenExpiresInSeconds config < n" for n
  proof -
    have "\<exists>e. decode_verified L config n refresh = Inl e"
      by (rule dr(2)) (use tr that in \<open>simp_all add: expiresAfter_def\<close>)
    then show ?thesis by (auto simp: verifyRefreshToken_def)
  qed
  moreover have "verifyRefreshToken L config n access = Inl invalidRefreshToken" "verifyToken L config n refresh = None" for n
    using decode_signed(1) [OF assms(1) s] sign
    by (auto simp: verifyRefreshToken_def verifyToken_def decode_verified_def bindr_def refresh_token_claims_def
        access_claims_def claimString_def split: sum.splits)
  ultimately show ?thesis by blast
qed

text \<open>
  C36: from its issue until it expires an access token is read back as the user it was
  issued to, with the name, the role and the identifier it was made with, and a refresh token as the
  user with its identifier; both are refused before the time of their issue and after the time of
  their expiry; neither kind is ever accepted in place of the other, at no time.
\<close>

theorem token_roundtrip:
  assumes "jwt_laws L" "is_int64 u" "jti \<noteq> []"
    and access: "createToken L config t t' random u name role = Inr access"
      "t \<le> now" "now < t' + accessTokenExpiresInSeconds config"
    and refresh: "issueRefreshToken L config t t' u jti = Inr refresh"
      "t \<le> now'" "now' < t' + refreshTokenExpiresInSeconds config"
  shows "verifyToken L config now access = Some \<lparr>jp_user_id = u, jp_username = name,
      jp_role = (if role = [] then ''user'' else role), jp_jti = generateJti random\<rparr> \<and>
    verifyRefreshToken L config now' refresh = Inr \<lparr>rf_user_id = u, rf_jti = jti\<rparr> \<and>
    (\<forall>s. s < t \<or> t' + accessTokenExpiresInSeconds config < s \<longrightarrow> verifyToken L config s access = None) \<and>
    (\<forall>s. s < t \<or> t' + refreshTokenExpiresInSeconds config < s \<longrightarrow>
       verifyRefreshToken L config s refresh = Inl invalidRefreshToken) \<and>
    (\<forall>s. verifyRefreshToken L config s access = Inl invalidRefreshToken \<and> verifyToken L config s refresh = None)"
  by (rule tokens_read_back [OF assms])

text \<open>A library to evaluate on: it signs three sets of claims.\<close>

definition demo_config :: json where
  "demo_config = JObj [(''jwt'', JObj [(''secret'', JStr ''k''), (''access_expiration_minutes'', JInt 5)])]"

definition demo_access :: json where
  "demo_access = JObj [(''iss'', JStr loadIssuer), (''iat'', JInt 100), (''exp'', JInt 400), (''uid'', JInt 7),
     (''username'', JStr ''ann''), (''role'', JStr ''user''), (''type'', JStr ''access''),
     (''jti'', JStr (generateJti (replicate 16 0)))]"

definition demo_refresh :: "byte \<Rightarrow> json" where
  "demo_refresh n = JObj [(''iss'', JStr loadIssuer), (''iat'', JInt 100), (''exp'', JInt 604900), (''uid'', JInt 7),
     (''type'', JStr ''refresh''), (''jti'', JStr (generateJti (replicate 16 n)))]"

definition demo_jwt :: jwt_lib where
  "demo_jwt = \<lparr>jw_sign = (\<lambda>s c. if c = demo_access then Inr ''a'' else if c = demo_refresh 1 then Inr ''r''
       else if c = demo_refresh 2 then Inr ''s'' else Inl (StdExn [])),
     jw_decode = (\<lambda>t. if t = ''a'' then Inr demo_access else if t = ''r'' then Inr (demo_refresh 1)
       else if t = ''s'' then Inr (demo_refresh 2) else Inl (StdExn [])),
     jw_verify = (\<lambda>s i n t. if i = loadIssuer \<and> 100 \<le> n \<and> (t = ''a'' \<and> n < 400 \<or> t \<in> {''r'', ''s''} \<and> n < 604900) then Inr () else Inl (StdExn []))\<rparr>"

lemma demo_jtis: "generateJti (replicate 16 1) \<noteq> generateJti (replicate 16 2)"
  by code_simp

lemma demo_jwt_laws: "jwt_laws demo_jwt"
  by (auto simp: jwt_laws_def demo_jwt_def demo_access_def demo_refresh_def in_force_def out_of_force_def begun_def
      claim_time_def split: if_splits)

lemma demo_lifetimes:
  "loadSecret (Inr demo_config) = Inr ''k''"
  "accessTokenExpiresInSeconds (Inr demo_config) = 300" "refreshTokenExpiresInSeconds (Inr demo_config) = 604800"
  by (simp_all add: loadSecret_def demo_config_def accessTokenExpiresInSeconds_def loadAccessExpirationMinutes_def
      refreshTokenExpiresInSeconds_def positiveConfigInt_def kDefaultRefreshExpirationDays_def int32_of_id is_int32_def)

lemma demo_issued:
  "createToken demo_jwt (Inr demo_config) 100 100 (replicate 16 0) 7 ''ann'' ''user'' = Inr ''a''"
  "createToken demo_jwt (Inr demo_config) 100 100 (replicate 16 0) 7 ''ann'' [] = Inr ''a''"
  "issueRefreshToken demo_jwt (Inr demo_config) 100 100 7 (generateJti (replicate 16 1)) = Inr ''r''"
  "issueRefreshToken demo_jwt (Inr demo_config) 100 100 7 (generateJti (replicate 16 2)) = Inr ''s''"
  using demo_jtis
  by (simp_all add: createToken_def issueRefreshToken_def demo_lifetimes demo_jwt_def demo_access_def demo_refresh_def expiresAfter_def)

theorem token_roundtrip_witness:
  "verifyToken demo_jwt (Inr demo_config) 399 ''a'' = Some \<lparr>jp_user_id = 7, jp_username = ''ann'', jp_role = ''user'',
     jp_jti = generateJti (replicate 16 0)\<rparr> \<and>
   verifyRefreshToken demo_jwt (Inr demo_config) 399 ''r'' = Inr \<lparr>rf_user_id = 7, rf_jti = generateJti (replicate 16 1)\<rparr> \<and>
   verifyToken demo_jwt (Inr demo_config) 399 ''r'' = None \<and> verifyToken demo_jwt (Inr demo_config) 99 ''a'' = None"
proof -
  have "generateJti (replicate 16 1) \<noteq> []" by (simp add: generateJti_def Let_def)
  then show ?thesis
    using token_roundtrip [OF demo_jwt_laws _ _ demo_issued(2) _ _ demo_issued(3), of 399 399] by (simp add: demo_lifetimes is_int64_def)
qed

end
