(* ===== verification/Auth_Service.thy ===== *)
theory Auth_Service
  imports World Users Refresh_Tokens Jwt
begin

text \<open>
  \<open>Backend/src/services/auth_service.cpp\<close>: registration, login, the rotation of refresh tokens,
  logout and the change of a password, over the repository of users and a store of refresh tokens.
  An exception that leaves an operation is the caller's. The clock (seconds) and the random bytes
  are arguments of an operation.
\<close>

section \<open>State\<close>

record 's token_store_if =
  ts_store :: "string \<Rightarrow> int \<Rightarrow> int \<Rightarrow> 's \<Rightarrow> (service_error + unit) \<times> 's"
  ts_consume :: "string \<Rightarrow> 's \<Rightarrow> (service_error + int option) \<times> 's"
  ts_revoke :: "string \<Rightarrow> 's \<Rightarrow> (service_error + unit) \<times> 's"
  ts_revokeUser :: "int \<Rightarrow> 's \<Rightarrow> (service_error + unit) \<times> 's"

definition redis_token_store :: "redis_client token_store_if" where
  "redis_token_store = \<lparr>ts_store = redis_store, ts_consume = redis_consume, ts_revoke = redis_revoke,
     ts_revokeUser = redis_revokeUser\<rparr>"

definition memory_token_store :: "memory_store token_store_if" where
  "memory_token_store = \<lparr>ts_store = memory_store_token, ts_consume = memory_consume, ts_revoke = memory_revoke,
     ts_revokeUser = memory_revokeUser\<rparr>"

text \<open>\<open>defaultRefreshTokenStore\<close>: the override of the tests, or the Redis store.\<close>

definition defaultRefreshTokenStore :: "'s token_store_if option \<Rightarrow> 's token_store_if \<Rightarrow> 's token_store_if" where
  "defaultRefreshTokenStore override configured = (case override of Some s \<Rightarrow> s | None \<Rightarrow> configured)"

record 's auth_world =
  aw_users :: user_db
  aw_tokens :: 's

record 's auth_lib =
  al_config :: "exn + json"
  al_jwt :: jwt_lib
  al_kdf :: kdf
  al_store :: "'s token_store_if"

text \<open>What one operation draws: the salt of a password, the bytes of two token identifiers, and
  readings of the clock.\<close>

record draws =
  dr_salt :: "byte list option"
  dr_refresh_jti :: "byte list"
  dr_access_jti :: "byte list"
  dr_now :: int
  dr_now' :: int

definition on_users :: "(user_db \<Rightarrow> 'a \<times> user_db) \<Rightarrow> ('s auth_world, 'a) prog" where
  "on_users f w = (case f (aw_users w) of (r, db) \<Rightarrow> (Inr r, w\<lparr>aw_users := db\<rparr>))"

definition on_tokens :: "('s \<Rightarrow> 'a \<times> 's) \<Rightarrow> ('s auth_world, 'a) prog" where
  "on_tokens f w = (case f (aw_tokens w) of (r, t) \<Rightarrow> (Inr r, w\<lparr>aw_tokens := t\<rparr>))"

text \<open>\<open>if (!result) return std::unexpected(result.error())\<close>.\<close>

definition service_ok :: "service_error + 'a \<Rightarrow> ('a \<Rightarrow> ('s, service_error + 'b) prog) \<Rightarrow> ('s, service_error + 'b) prog" where
  "service_ok r k = (case r of Inl e \<Rightarrow> deny e | Inr v \<Rightarrow> k v)"

section \<open>Operations\<close>

definition auth_new :: "'r option \<Rightarrow> 't option \<Rightarrow> exn + ('r \<times> 't)" where
  "auth_new repo store = (case repo of
      None \<Rightarrow> Inl (StdExn ''AuthService: repo must not be null'')
    | Some r \<Rightarrow> (case store of
        None \<Rightarrow> Inl (StdExn ''AuthService: token store must not be null'')
      | Some t \<Rightarrow> Inr (r, t)))"

definition registerUser :: "'s auth_lib \<Rightarrow> draws \<Rightarrow> json \<Rightarrow> ('s auth_world, service_error + user) prog" where
  "registerUser L d payload =
     bindp (lift_sum (user_fromJson payload)) (\<lambda>user.
     if \<not> validate_user user then deny (mk_error 400 ''invalid_user_data'' ''invalid user data'')
     else bindp (on_users (existsByUsername (us_username user))) (\<lambda>r. repo_ok r (\<lambda>usernameExists.
       if usernameExists then deny (mk_error 409 ''username_exists'' ''username already exists'')
       else bindp (on_users (existsByEmail (us_email user))) (\<lambda>r. repo_ok r (\<lambda>emailExists.
         if emailExists then deny (mk_error 409 ''email_exists'' ''email already exists'')
         else bindp (lift_sum (hashPassword (al_kdf L) (dr_salt d) (us_password user))) (\<lambda>hash.
           let user' = user\<lparr>us_role := ''user'', us_password := hash\<rparr> in
           bindp (on_users (user_insert user')) (\<lambda>r. repo_ok r (\<lambda>insertedId.
             ret (Inr (user'\<lparr>us_id := insertedId\<rparr>))))))))))"

record token_pair =
  tp_user :: user
  tp_access_token :: string
  tp_refresh_token :: string
  tp_expires_in :: int

definition issueTokenPair :: "'s auth_lib \<Rightarrow> draws \<Rightarrow> user \<Rightarrow> ('s auth_world, service_error + token_pair) prog" where
  "issueTokenPair L d user = (let refreshJti = generateJti (dr_refresh_jti d) in
     bindp (on_tokens (ts_store (al_store L) refreshJti (us_id user) (refreshTokenExpiresInSeconds (al_config L)))) (\<lambda>r.
     service_ok r (\<lambda>_.
       bindp (lift_sum (createToken (al_jwt L) (al_config L) (dr_now d) (dr_now' d) (dr_access_jti d)
           (us_id user) (us_username user) (us_role user))) (\<lambda>access.
       bindp (lift_sum (issueRefreshToken (al_jwt L) (al_config L) (dr_now d) (dr_now' d) (us_id user) refreshJti)) (\<lambda>refresh.
       ret (Inr \<lparr>tp_user = user, tp_access_token = access, tp_refresh_token = refresh,
         tp_expires_in = accessTokenExpiresInSeconds (al_config L)\<rparr>))))))"

definition invalid_credentials :: service_error where
  "invalid_credentials = mk_error 401 ''invalid_credentials'' ''invalid username or password''"

definition auth_login :: "'s auth_lib \<Rightarrow> draws \<Rightarrow> json \<Rightarrow> ('s auth_world, service_error + token_pair) prog" where
  "auth_login L d payload =
     bindp (lift_sum (jvalue as_string payload ''username'' [])) (\<lambda>username.
     bindp (lift_sum (jvalue as_string payload ''email'' [])) (\<lambda>email.
     bindp (lift_sum (jvalue as_string payload ''password'' [])) (\<lambda>password.
     if password = [] \<or> username = [] \<and> email = [] then
       deny (mk_error 400 ''missing_credentials'' ''missing credentials'')
     else bindp (on_users (if username \<noteq> [] then findByUsername username else findByEmail email)) (\<lambda>r. repo_ok r (\<lambda>found.
       case found of
         None \<Rightarrow> deny invalid_credentials
       | Some user \<Rightarrow> bindp (lift_sum (verifyPassword (al_kdf L) password (us_password user))) (\<lambda>matches.
           if \<not> matches then deny invalid_credentials
           else bindp (issueTokenPair L d user) (\<lambda>issued. service_ok issued (\<lambda>p. ret (Inr p)))))))))"

text \<open>The claims of the refresh token of a payload, for refresh and logout.\<close>

definition with_refresh_token :: "'s auth_lib \<Rightarrow> draws \<Rightarrow> json \<Rightarrow> (refresh_claims \<Rightarrow> ('s auth_world, service_error + 'b) prog) \<Rightarrow>
    ('s auth_world, service_error + 'b) prog" where
  "with_refresh_token L d payload k =
     bindp (lift_sum (jvalue as_string payload ''refresh_token'' [])) (\<lambda>refreshToken.
     if refreshToken = [] then deny (mk_error 400 ''missing_refresh_token'' ''missing refresh token'')
     else service_ok (verifyRefreshToken (al_jwt L) (al_config L) (dr_now d) refreshToken) k)"

definition auth_refresh :: "'s auth_lib \<Rightarrow> draws \<Rightarrow> json \<Rightarrow> ('s auth_world, service_error + token_pair) prog" where
  "auth_refresh L d payload = with_refresh_token L d payload (\<lambda>claims.
     bindp (on_tokens (ts_consume (al_store L) (rf_jti claims))) (\<lambda>r. service_ok r (\<lambda>storedUserId.
       if storedUserId \<noteq> Some (rf_user_id claims) then
         deny (mk_error 401 ''refresh_token_revoked'' ''refresh token has been revoked'')
       else bindp (on_users (findById (rf_user_id claims))) (\<lambda>r. repo_ok r (\<lambda>found. case found of
           None \<Rightarrow> deny invalidRefreshToken
         | Some user \<Rightarrow> if \<not> us_enabled user then deny invalidRefreshToken else issueTokenPair L d user)))))"

definition auth_logout :: "'s auth_lib \<Rightarrow> draws \<Rightarrow> json \<Rightarrow> ('s auth_world, service_error + unit) prog" where
  "auth_logout L d payload = with_refresh_token L d payload (\<lambda>claims.
     on_tokens (ts_revoke (al_store L) (rf_jti claims)))"

definition getProfile :: "int \<Rightarrow> ('s auth_world, service_error + user) prog" where
  "getProfile userId =
     (if userId \<le> 0 then deny unauthorized
      else bindp (on_users (findById userId)) (\<lambda>r. repo_ok r (\<lambda>found. case found of
          None \<Rightarrow> deny (mk_error 404 ''user_not_found'' ''user not found'')
        | Some user \<Rightarrow> ret (Inr user))))"

definition changePassword :: "'s auth_lib \<Rightarrow> draws \<Rightarrow> int \<Rightarrow> json \<Rightarrow> ('s auth_world, service_error + unit) prog" where
  "changePassword L d userId payload =
     bindp (lift_sum (jvalue as_string payload ''old_password'' [])) (\<lambda>oldPassword.
     bindp (lift_sum (jvalue as_string payload ''new_password'' [])) (\<lambda>newPassword.
     if oldPassword = [] \<or> newPassword = [] then
       deny (mk_error 400 ''missing_password'' ''old_password and new_password are required'')
     else if length newPassword < 6 then
       deny (mk_error 400 ''invalid_password'' ''new password must be at least 6 characters'')
     else bindp (getProfile userId) (\<lambda>profile. service_ok profile (\<lambda>user.
       bindp (lift_sum (verifyPassword (al_kdf L) oldPassword (us_password user))) (\<lambda>matches.
       if \<not> matches then deny (mk_error 401 ''invalid_password'' ''old password is incorrect'')
       else bindp (on_tokens (ts_revokeUser (al_store L) userId)) (\<lambda>revoked. service_ok revoked (\<lambda>_.
         bindp (lift_sum (hashPassword (al_kdf L) (dr_salt d) newPassword)) (\<lambda>hash.
         bindp (on_users (updatePassword userId hash)) (\<lambda>r. repo_ok r (\<lambda>updated.
           if \<not> updated then deny (mk_error 404 ''user_not_found'' ''user not found'')
           else ret (Inr ())))))))))))"

end
