(* ===== verification/Auth_Facts.thy ===== *)
theory Auth_Facts
  imports Auth_Service
begin

text \<open>
  What the authentication service promises: who is in the table of users after a registration, whose
  password earns a pair of tokens, what becomes of a refresh token when it is spent, and which
  sessions outlive a change of the password.
\<close>

section \<open>Steps\<close>

text \<open>Two states hold the same users.\<close>

definition same_users :: "'s auth_world \<Rightarrow> 's auth_world \<Rightarrow> bool" where
  "same_users w w' \<longleftrightarrow> users_of (aw_users w') = users_of (aw_users w)"

lemma same_users_trans: "same_users w w1 \<Longrightarrow> same_users w1 w2 \<Longrightarrow> same_users w w2"
  by (simp add: same_users_def)

lemma same_users_refl [simp]: "same_users w w"
  by (simp add: same_users_def)

lemma same_rows: "same_users w w' \<Longrightarrow> ud_rows (aw_users w') = ud_rows (aw_users w)"
  by (simp add: same_users_def users_of_def)

lemma deny_app [simp]: "deny e s = (Inr (Inl e), s)"
  by (simp add: deny_def)

lemma bindp_lift [simp]: "bindp (lift_sum r) k s = (case r of Inl e \<Rightarrow> (Inl e, s) | Inr x \<Rightarrow> k x s)"
  by (simp add: bindp_def split: sum.split)

lemma repo_ok_simps [simp]: "repo_ok (Inl e) k = deny (mapRepoError e)" "repo_ok (Inr x) k = k x"
  by (simp_all add: repo_ok_def deny_def)

lemma service_ok_simps [simp]: "service_ok (Inl e) k = deny e" "service_ok (Inr x) k = k x"
  by (simp_all add: service_ok_def)

text \<open>A statement of the repository that only reads.\<close>

lemma read_stepE:
  assumes "bindp (on_users f) (\<lambda>r. repo_ok r k) w = (r, w')" "users_of (snd (f (aw_users w))) = users_of (aw_users w)"
  obtains e where "r = Inr (Inl e)" "same_users w w'" "aw_tokens w' = aw_tokens w"
  | x w1 where "k x w1 = (r, w')" "same_users w w1" "aw_tokens w1 = aw_tokens w" "f (aw_users w) = (Inr x, aw_users w1)"
proof -
  obtain q db where f: "f (aw_users w) = (q, db)" by fastforce
  let ?w = "w\<lparr>aw_users := db\<rparr>"
  have u: "same_users w ?w" using assms(2) f by (simp add: same_users_def)
  show ?thesis
  proof (cases q)
    case (Inl e)
    with assms(1) f have "r = Inr (Inl (mapRepoError e))" "w' = ?w" by (auto simp: bindp_def on_users_def)
    with u that(1) show ?thesis by simp
  next
    case (Inr x)
    with assms(1) f have "k x ?w = (r, w')" by (simp add: bindp_def on_users_def)
    with u f Inr that(2) show ?thesis by simp
  qed
qed

text \<open>A step of the token store.\<close>

lemma token_stepE:
  assumes "bindp (on_tokens f) (\<lambda>r. service_ok r k) w = (r, w')"
  obtains e where "r = Inr (Inl e)" "aw_users w' = aw_users w" "f (aw_tokens w) = (Inl e, aw_tokens w')"
  | x w1 where "k x w1 = (r, w')" "aw_users w1 = aw_users w" "f (aw_tokens w) = (Inr x, aw_tokens w1)"
proof -
  obtain q t where f: "f (aw_tokens w) = (q, t)" by fastforce
  show ?thesis using assms f that by (cases q) (auto simp: bindp_def on_tokens_def)
qed

section \<open>A world to evaluate on\<close>

text \<open>Ann, user 7, with the password \<open>secret\<close>; a Redis store that answers every command.\<close>

definition demo_hash :: string where
  "demo_hash = projr (hashPassword demo_kdf (Some (replicate 16 7)) ''secret'')"

lemma demo_hash: "hashPassword demo_kdf (Some (replicate 16 7)) ''secret'' = Inr demo_hash"
  by (simp add: demo_hash_def hashPassword_def demo_kdf_def)

lemma demo_hash_accepts: "verifyPassword demo_kdf ''secret'' demo_hash = Inr True"
proof -
  have len: "length out = n" if "demo_kdf p q i n = Some out" for p q i n out
    using that by (auto simp: demo_kdf_def)
  show ?thesis using stored_password [OF demo_hash _ len] by simp
qed

definition demo_ann :: user_row where
  "demo_ann = \<lparr>ur_id = 7, ur_username = ''ann'', ur_email = ''ann@x.org'', ur_password = demo_hash, ur_nickname = [],
     ur_role = ''user'', ur_enabled = True\<rparr>"

definition demo_user_db :: "user_row list \<Rightarrow> user_db" where
  "demo_user_db us = \<lparr>ud_conn = \<lparr>dm_cfg = default_mysql_config, dm_global = True, dm_session = True, dm_verified = 1, dm_net = []\<rparr>,
     ud_steady = 2, ud_rows = us, ud_next = 8, ud_collation = (\<lambda>x. x), ud_count_matched = True, ud_faults = []\<rparr>"

definition demo_lib :: "redis_client auth_lib" where
  "demo_lib = \<lparr>al_config = Inr demo_config, al_jwt = demo_jwt, al_kdf = demo_kdf, al_store = redis_token_store\<rparr>"

definition demo_draws :: "byte \<Rightarrow> draws" where
  "demo_draws n = \<lparr>dr_salt = Some (replicate 16 7), dr_refresh_jti = replicate 16 n, dr_access_jti = replicate 16 0,
     dr_now = 100, dr_now' = 100\<rparr>"

definition demo_auth :: "user_row list \<Rightarrow> redis_client \<Rightarrow> redis_client auth_world" where
  "demo_auth us c = \<lparr>aw_users = demo_user_db us, aw_tokens = c\<rparr>"

lemma demo_table: "usersTable (demo_user_db us) = (Inr (), demo_user_db us)"
  by (simp add: usersTable_def on_conn_def threadSchema_def threadSession_def shouldPingThreadSession_def
      kThreadSessionPingInterval_def round_trip_def demo_user_db_def)

lemma demo_select:
  "select_users p (demo_user_db us) = (Inr (filter (p (demo_user_db us)) us), demo_user_db us)"
  unfolding select_users_def bindp_Inr [where m = usersTable, OF demo_table]
  by (simp add: u_exec_def demo_user_db_def)

lemma demo_columns [simp]:
  "ud_collation (demo_user_db us) = (\<lambda>x. x)" "ud_rows (demo_user_db us) = us" "ud_next (demo_user_db us) = 8"
  "ur_username demo_ann = ''ann''" "ur_id demo_ann = 7" "ur_password demo_ann = demo_hash" "ur_role demo_ann = ''user''"
  by (simp_all add: demo_user_db_def demo_ann_def)

lemma demo_find:
  "findByUsername n (demo_user_db [demo_ann]) = (Inr (if n = ''ann'' then Some (rowToUser demo_ann) else None), demo_user_db [demo_ann])"
  "findById i (demo_user_db [demo_ann]) = (Inr (if i = 7 then Some (rowToUser demo_ann) else None), demo_user_db [demo_ann])"
  by (auto simp: findByUsername_def findById_def repoInvoke_def bindp_def demo_select fetch_user_def same_text_def)

lemma demo_stored:
  assumes "token_name j"
  shows "\<exists>c. redis_store j u ttl (demo_store []) = (Inr (), c)"
  using token_keys(3,4) [OF assms]
  by (simp add: redis_store_def with_store_def demo_store_def redis_isAvailable_def default_redis_config_def
      kv_setex_def kv_sadd_def kv_expire_def on_server_def cmd_setex_def cmd_sadd_def cmd_expire_def r_set_def
      put_set_def bindp_def r_live_def ns_def)

section \<open>Registration\<close>

lemma register_insert:
  assumes "bindp (lift_sum (hashPassword kdf salt (us_password user))) (\<lambda>hash.
      let user' = user\<lparr>us_role := ''user'', us_password := hash\<rparr> in
      bindp (on_users (user_insert user')) (\<lambda>r. repo_ok r (\<lambda>i. ret (Inr (user'\<lparr>us_id := i\<rparr>))))) w = (r, w')"
  shows "same_users w w' \<and> aw_tokens w' = aw_tokens w \<and> (\<forall>u. r \<noteq> Inr (Inr u)) \<or>
    (\<exists>hash. hashPassword kdf salt (us_password user) = Inr hash \<and> aw_tokens w' = aw_tokens w \<and>
      added (user\<lparr>us_role := ''user'', us_password := hash\<rparr>) (aw_users w) (aw_users w') \<and>
      (\<forall>u. r = Inr (Inr u) \<longrightarrow> u = user\<lparr>us_role := ''user'', us_password := hash, us_id := ud_next (aw_users w)\<rparr>))"
proof (cases "hashPassword kdf salt (us_password user)")
  case (Inl e)
  with assms show ?thesis by auto
next
  case (Inr hash)
  let ?u = "user\<lparr>us_role := ''user'', us_password := hash\<rparr>"
  obtain q db where i: "user_insert ?u (aw_users w) = (q, db)" by fastforce
  then have "repo_ok q (\<lambda>i. ret (Inr (?u\<lparr>us_id := i\<rparr>))) (w\<lparr>aw_users := db\<rparr>) = (r, w')"
    using assms Inr by (simp add: bindp_def on_users_def Let_def)
  then have "w' = w\<lparr>aw_users := db\<rparr>" "r = (case q of Inl e \<Rightarrow> Inr (Inl (mapRepoError e)) | Inr i \<Rightarrow> Inr (Inr (?u\<lparr>us_id := i\<rparr>)))"
    by (cases q; auto)+
  with user_insert_cases [OF i] Inr show ?thesis by (cases q) (auto simp: same_users_def)
qed

text \<open>
  C16: a registration, whatever fails, leaves the table of users as it is
  or adds one row: the valid user of the payload under a name and an address that no user has, with
  the role of a plain user and a derived password; it changes no session; a granted registration
  added its row, and the keys of the table stay unique.
\<close>

theorem registration_adds_one_user:
  assumes "registerUser L d payload w = (r, w')"
  shows "aw_tokens w' = aw_tokens w \<and> (wf_users (aw_users w) \<longrightarrow> wf_users (aw_users w')) \<and>
    (same_users w w' \<and> (\<forall>u. r \<noteq> Inr (Inr u)) \<or>
     (\<exists>user hash. user_fromJson payload = Inr user \<and> validate_user user \<and>
        hashPassword (al_kdf L) (dr_salt d) (us_password user) = Inr hash \<and>
        added (user\<lparr>us_role := ''user'', us_password := hash\<rparr>) (aw_users w) (aw_users w') \<and>
        (\<forall>u. r = Inr (Inr u) \<longrightarrow> u = user\<lparr>us_role := ''user'', us_password := hash, us_id := ud_next (aw_users w)\<rparr>)))"
    (is "?T \<and> ?W \<and> (?same \<or> ?added)")
proof -
  have main: "?T \<and> (?same \<or> ?added)"
  proof (cases "user_fromJson payload")
    case (Inl e)
    with assms show ?thesis by (auto simp: registerUser_def)
  next
    case (Inr user)
    show ?thesis
    proof (cases "validate_user user")
      case False
      with assms Inr show ?thesis by (auto simp: registerUser_def)
    next
      case valid: True
      note reg = assms [unfolded registerUser_def Inr bindp_lift sum.case eqTrueI [OF valid] not_True_eq_False if_False]
      show ?thesis
      proof (cases rule: read_stepE [OF reg reads_keep_users(4)])
        case (1 e)
        then show ?thesis by simp
      next
        case one: (2 x w1)
        show ?thesis
        proof (cases x)
          case True
          with one show ?thesis by auto
        next
          case False
          note step = one(1) [unfolded if_not_P [OF False]]
          show ?thesis
          proof (cases rule: read_stepE [OF step reads_keep_users(5)])
            case (1 e)
            with one show ?thesis by (auto intro: same_users_trans)
          next
            case two: (2 y w2)
            then have w2: "same_users w w2" "aw_tokens w2 = aw_tokens w" using one by (auto intro: same_users_trans)
            show ?thesis
            proof (cases y)
              case True
              with two(1) w2 show ?thesis by auto
            next
              case no: False
              have u: "users_of (aw_users w2) = users_of (aw_users w)" using w2(1) by (simp add: same_users_def)
              then have n: "ud_next (aw_users w2) = ud_next (aw_users w)" by (simp add: users_of_def)
              from register_insert [unfolded bindp_lift, OF two(1) [unfolded if_not_P [OF no]]] show ?thesis
              proof (elim disjE exE conjE)
                assume "same_users w2 w'" "aw_tokens w' = aw_tokens w2" "\<forall>u. r \<noteq> Inr (Inr u)"
                with w2 show ?thesis using same_users_trans by metis
              next
                fix hash
                let ?u = "user\<lparr>us_role := ''user'', us_password := hash\<rparr>"
                assume h: "hashPassword (al_kdf L) (dr_salt d) (us_password user) = Inr hash" "aw_tokens w' = aw_tokens w2"
                  and a: "added ?u (aw_users w2) (aw_users w')"
                  and r: "\<forall>u. r = Inr (Inr u) \<longrightarrow> u = user\<lparr>us_role := ''user'', us_password := hash, us_id := ud_next (aw_users w2)\<rparr>"
                have "?added" using valid Inr h(1) added_cong [OF a u] r [unfolded n] by blast
                moreover have ?T using h(2) w2(2) by simp
                ultimately show ?thesis by blast
              qed
            qed
          qed
        qed
      qed
    qed
  qed
  moreover have ?W using main wf_users_added [of "aw_users w"] wf_users_of [of "aw_users w'" "aw_users w"]
    unfolding same_users_def by metis
  ultimately show ?thesis by blast
qed

definition demo_registration :: json where
  "demo_registration = JObj [(''username'', JStr ''ann''), (''password'', JStr ''secret''), (''email'', JStr ''ann@x.org'')]"

lemma demo_register:
  "\<exists>u w'. registerUser demo_lib (demo_draws 1) demo_registration (demo_auth [] (demo_store [])) = (Inr (Inr u), w')"
proof -
  let ?u = "default_user\<lparr>us_username := ''ann'', us_password := ''secret'', us_email := ''ann@x.org''\<rparr>"
  have u: "user_fromJson demo_registration = Inr ?u"
    by (simp add: user_fromJson_def demo_registration_def set_from_def default_user_def)
  have "re_match email_pattern ''ann@x.org''" by code_simp
  then have v: "validate_user ?u" by (simp add: validate_user_def)
  have x: "existsByUsername n (demo_user_db []) = (Inr False, demo_user_db [])"
    "existsByEmail n (demo_user_db []) = (Inr False, demo_user_db [])" for n
    by (simp_all add: existsByUsername_def existsByEmail_def repoInvoke_def bindp_def demo_select)
  have "\<exists>db. user_insert z (demo_user_db []) = (Inr 8, db)" for z
    unfolding user_insert_def repoInvoke_def bindp_Inr [where m = usersTable, OF demo_table]
    by (simp add: u_exec_def stmt_insert_user_def demo_user_db_def)
  then obtain db where "user_insert (?u\<lparr>us_role := ''user'', us_password := demo_hash\<rparr>) (demo_user_db []) = (Inr 8, db)" by blast
  then show ?thesis
    by (simp add: registerUser_def u v demo_lib_def demo_draws_def demo_auth_def on_users_def bindp_def x demo_hash Let_def)
qed

theorem registration_adds_one_user_witness:
  "\<exists>u w'. registerUser demo_lib (demo_draws 1) demo_registration (demo_auth [] (demo_store [])) = (Inr (Inr u), w') \<and>
     wf_users (aw_users w') \<and> length (ud_rows (aw_users w')) = 1 \<and> us_role u = ''user''"
proof -
  obtain u w' where r: "registerUser demo_lib (demo_draws 1) demo_registration (demo_auth [] (demo_store [])) = (Inr (Inr u), w')"
    using demo_register by blast
  have "wf_users (demo_user_db [])" by (simp add: wf_users_def)
  then show ?thesis using registration_adds_one_user [OF r] r by (auto simp: demo_auth_def added_def)
qed

section \<open>Pairs of tokens\<close>

text \<open>The pair for a user: a new refresh token is on record, and both tokens are signed for the user.\<close>

lemma issueTokenPair_granted:
  assumes "issueTokenPair L d user w = (Inr (Inr p), w')"
  shows "tp_user p = user" "aw_users w' = aw_users w"
    "ts_store (al_store L) (generateJti (dr_refresh_jti d)) (us_id user) (refreshTokenExpiresInSeconds (al_config L)) (aw_tokens w) =
      (Inr (), aw_tokens w')"
    "createToken (al_jwt L) (al_config L) (dr_now d) (dr_now' d) (dr_access_jti d) (us_id user) (us_username user) (us_role user) =
      Inr (tp_access_token p)"
    "issueRefreshToken (al_jwt L) (al_config L) (dr_now d) (dr_now' d) (us_id user) (generateJti (dr_refresh_jti d)) =
      Inr (tp_refresh_token p)"
  using assms by (auto simp: issueTokenPair_def Let_def elim!: token_stepE split: sum.splits)

lemma issueTokenPair_users: "aw_users (snd (issueTokenPair L d user w)) = aw_users w"
proof -
  obtain r w' where i: "issueTokenPair L d user w = (r, w')" by fastforce
  then show ?thesis by (auto simp: issueTokenPair_def Let_def elim!: token_stepE split: sum.splits)
qed

lemma generateJti_nonempty: "generateJti bs \<noteq> []"
  by (simp add: generateJti_def Let_def)

lemma toHex_no_u: "CHR ''u'' \<notin> set (toHex bs)"
proof (induction bs)
  case (Cons b bs)
  have u: "hex_char n \<noteq> CHR ''u''" if "n < 16" for n
  proof -
    have "cbyte (hex_char n) \<noteq> cbyte (CHR ''u'')" using that by (simp add: hex_char_def cbyte_char_of) (simp add: cbyte_def)
    then show ?thesis by metis
  qed
  have "unat b < 256" using unsigned_less [of b] by simp
  then have "unat b div 16 < 16" "unat b mod 16 < 16" by simp_all
  then have "CHR ''u'' \<notin> set (fmt_hex_pad 2 (unat b))" using u by (metis byte_hex in_set_conv_nth empty_iff empty_set insert_iff list.set(2))
  moreover have "toHex (b # bs) = fmt_hex_pad 2 (unat b) @ toHex bs" by (simp add: toHex_def)
  ultimately show ?case using Cons by simp
qed (simp add: toHex_def)

lemma generateJti_name: "token_name (generateJti bs)"
proof -
  have "CHR ''u'' \<notin> set (generateJti bs)"
    using toHex_no_u by (simp add: generateJti_def Let_def)
  then have "take 5 (generateJti bs) \<noteq> ''user:''" using in_set_takeD [of "CHR ''u''" 5 "generateJti bs"] by auto
  then show ?thesis by (simp add: token_name_def starts_with_def eval_nat_numeral)
qed

section \<open>Login\<close>

lemma login_granted:
  assumes "auth_login L d payload w = (Inr (Inr p), w')"
  obtains username email password row where
    "jvalue as_string payload ''username'' [] = Inr username" "jvalue as_string payload ''email'' [] = Inr email"
    "jvalue as_string payload ''password'' [] = Inr password" "password \<noteq> []" "username \<noteq> [] \<or> email \<noteq> []"
    "row \<in> set (ud_rows (aw_users w))"
    "if username \<noteq> [] then same_text (aw_users w) (ur_username row) username else same_text (aw_users w) (ur_email row) email"
    "verifyPassword (al_kdf L) password (ur_password row) = Inr True" "tp_user p = rowToUser row" "same_users w w'"
    "\<exists>w1. same_users w w1 \<and> issueTokenPair L d (rowToUser row) w1 = (Inr (Inr p), w') \<and> aw_tokens w1 = aw_tokens w"
proof -
  obtain username email password where f: "jvalue as_string payload ''username'' [] = Inr username"
      "jvalue as_string payload ''email'' [] = Inr email" "jvalue as_string payload ''password'' [] = Inr password"
    using assms by (auto simp: auth_login_def split: sum.splits)
  let ?find = "if username \<noteq> [] then findByUsername username else findByEmail email"
  have given: "\<not> (password = [] \<or> username = [] \<and> email = [])" using assms f by (auto simp: auth_login_def)
  note login = assms [unfolded auth_login_def f bindp_lift sum.case if_not_P [OF given]]
  have keeps: "users_of (snd (?find (aw_users w))) = users_of (aw_users w)" by (simp add: reads_keep_users)
  from login keeps show ?thesis
  proof (cases rule: read_stepE)
    case (2 found w1)
    then obtain user where user: "found = Some user" "verifyPassword (al_kdf L) password (us_password user) = Inr True"
      and i: "bindp (issueTokenPair L d user) (\<lambda>issued. service_ok issued (\<lambda>p. ret (Inr p))) w1 = (Inr (Inr p), w')"
      by (auto split: option.splits sum.splits if_splits)
    obtain q w2 where q: "issueTokenPair L d user w1 = (q, w2)" by fastforce
    then have issued: "issueTokenPair L d user w1 = (Inr (Inr p), w')"
      using i by (cases q; cases "projr q") (auto simp: bindp_def)
    obtain row where row: "row \<in> set (ud_rows (aw_users w))" "user = rowToUser row"
        "if username \<noteq> [] then same_text (aw_users w) (ur_username row) username else same_text (aw_users w) (ur_email row) email"
      using 2(4) user(1) by (auto dest!: findByUsername_SomeD findByEmail_SomeD split: if_splits)
    have "ur_password row = us_password user" by (simp add: row(2) rowToUser_def)
    moreover have "same_users w w'" using 2(2) issueTokenPair_granted(2) [OF issued] by (simp add: same_users_def)
    moreover have "tp_user p = rowToUser row" using issueTokenPair_granted(1) [OF issued] row(2) by simp
    ultimately show ?thesis
      using that [OF f _ _ row(1) row(3)] given user(2) issued 2(2,3) row(2) by auto
  qed auto
qed

text \<open>
  C12: a granted login was given the password that the stored hash of the
  named user accepts, the user with the given name or, when no name is given, with the given e-mail;
  both tokens are read back, from their issue until they expire, as this user and no other, the
  table of users is as it was and the new refresh token went to the store.
\<close>

theorem login_needs_the_password:
  assumes login: "auth_login L d payload w = (Inr (Inr p), w')" and laws: "jwt_laws (al_jwt L)"
    and ids: "\<forall>row\<in>set (ud_rows (aw_users w)). is_int64 (ur_id row)"
    and times: "dr_now d \<le> now" "now < dr_now' d + accessTokenExpiresInSeconds (al_config L)"
      "now < dr_now' d + refreshTokenExpiresInSeconds (al_config L)"
  shows "\<exists>row\<in>set (ud_rows (aw_users w)). \<exists>name email password jti.
     jvalue as_string payload ''username'' [] = Inr name \<and> jvalue as_string payload ''email'' [] = Inr email \<and>
     jvalue as_string payload ''password'' [] = Inr password \<and>
     (name \<noteq> [] \<longrightarrow> same_text (aw_users w) (ur_username row) name) \<and>
     (name = [] \<longrightarrow> email \<noteq> [] \<and> same_text (aw_users w) (ur_email row) email) \<and> password \<noteq> [] \<and>
     verifyPassword (al_kdf L) password (ur_password row) = Inr True \<and> tp_user p = rowToUser row \<and>
     verifyToken (al_jwt L) (al_config L) now (tp_access_token p) = Some \<lparr>jp_user_id = ur_id row, jp_username = ur_username row,
       jp_role = (if ur_role row = [] then ''user'' else ur_role row), jp_jti = generateJti (dr_access_jti d)\<rparr> \<and>
     verifyRefreshToken (al_jwt L) (al_config L) now (tp_refresh_token p) = Inr \<lparr>rf_user_id = ur_id row, rf_jti = jti\<rparr> \<and>
     ts_store (al_store L) jti (ur_id row) (refreshTokenExpiresInSeconds (al_config L)) (aw_tokens w) = (Inr (), aw_tokens w') \<and>
     same_users w w'"
  using login
proof (cases rule: login_granted)
  case (1 username email password row)
  then obtain w1 where i: "issueTokenPair L d (rowToUser row) w1 = (Inr (Inr p), w')" "aw_tokens w1 = aw_tokens w" by blast
  have row: "us_id (rowToUser row) = ur_id row" "us_username (rowToUser row) = ur_username row" "us_role (rowToUser row) = ur_role row"
    by (simp_all add: rowToUser_def)
  note g = issueTokenPair_granted [OF i(1), unfolded row i(2)]
  have "is_int64 (ur_id row)" using ids 1(6) by blast
  note tokens = tokens_read_back [OF laws this generateJti_nonempty g(4) times(1,2) g(5) times(1,3)]
  show ?thesis using 1 tokens g(3) by (intro bexI [OF _ 1(6)]) auto
qed

lemma demo_pair:
  assumes "n = 1 \<and> t = ''r'' \<or> n = 2 \<and> t = ''s''" "al_store demo_lib = redis_token_store"
    "redis_store (generateJti (replicate 16 n)) 7 604800 c = (Inr (), c')"
  shows "issueTokenPair demo_lib (demo_draws n) (rowToUser demo_ann) (demo_auth us c) =
    (Inr (Inr \<lparr>tp_user = rowToUser demo_ann, tp_access_token = ''a'', tp_refresh_token = t, tp_expires_in = 300\<rparr>), demo_auth us c')"
proof -
  have u: "us_id (rowToUser demo_ann) = 7" "us_username (rowToUser demo_ann) = ''ann''" "us_role (rowToUser demo_ann) = ''user''"
    by (simp_all add: rowToUser_def demo_ann_def)
  show ?thesis using assms(1,3)
    by (auto simp: issueTokenPair_def Let_def demo_lib_def demo_draws_def demo_lifetimes on_tokens_def bindp_def u
        redis_token_store_def demo_auth_def demo_issued)
qed

definition demo_credentials :: json where
  "demo_credentials = JObj [(''username'', JStr ''ann''), (''password'', JStr ''secret'')]"

theorem login_needs_the_password_witness:
  "\<exists>p w'. auth_login demo_lib (demo_draws 1) demo_credentials (demo_auth [demo_ann] (demo_store [])) = (Inr (Inr p), w') \<and>
     tp_user p = rowToUser demo_ann \<and>
     (\<exists>jti. verifyRefreshToken demo_jwt (Inr demo_config) 399 (tp_refresh_token p) = Inr \<lparr>rf_user_id = 7, rf_jti = jti\<rparr>)"
proof -
  obtain c where c: "redis_store (generateJti (replicate 16 1)) 7 604800 (demo_store []) = (Inr (), c)"
    using demo_stored [OF generateJti_name] by blast
  have v: "verifyPassword demo_kdf ''secret'' (us_password (rowToUser demo_ann)) = Inr True"
    by (simp add: rowToUser_def demo_hash_accepts)
  have k: "al_kdf demo_lib = demo_kdf" "al_store demo_lib = redis_token_store" "al_jwt demo_lib = demo_jwt" "al_config demo_lib = Inr demo_config"
    by (simp_all add: demo_lib_def)
  note pair = demo_pair [of 1 "''r''", OF _ k(2) c]
  have "\<exists>p w'. auth_login demo_lib (demo_draws 1) demo_credentials (demo_auth [demo_ann] (demo_store [])) = (Inr (Inr p), w')"
    using pair by (simp add: auth_login_def demo_credentials_def on_users_def bindp_def demo_find v k)
      (simp add: demo_auth_def demo_find v k)
  then obtain p w' where l: "auth_login demo_lib (demo_draws 1) demo_credentials (demo_auth [demo_ann] (demo_store [])) = (Inr (Inr p), w')"
    by blast
  have "is_int64 7" "dr_now (demo_draws 1) = 100" "dr_now' (demo_draws 1) = 100" by (simp_all add: is_int64_def demo_draws_def)
  then show ?thesis
    using login_needs_the_password [OF l, of 399] l demo_jwt_laws
    by (auto simp: k demo_lifetimes demo_auth_def)
qed

section \<open>Rotation\<close>

lemma decode_verified_claims:
  "decode_verified L config now token = Inr c \<Longrightarrow> decode_verified L config now' token = Inr c' \<Longrightarrow> c' = c"
  by (auto simp: decode_verified_def bindr_def split: sum.splits)

lemma verifyRefreshToken_claims:
  assumes "verifyRefreshToken L config now token = Inr c" "verifyRefreshToken L config now' token = Inr c'"
  shows "c' = c"
proof -
  obtain x y where xy: "decode_verified L config now token = Inr x" "refresh_token_claims x = Inr (Some c)"
      "decode_verified L config now' token = Inr y" "refresh_token_claims y = Inr (Some c')"
    using assms by (auto simp: verifyRefreshToken_def bindr_def split: sum.splits option.splits)
  then show ?thesis using decode_verified_claims [OF xy(1,3)] by simp
qed

lemma refresh_granted:
  assumes "auth_refresh L d payload w = (Inr (Inr p), w')"
  obtains token claims row t1 w2 where "jvalue as_string payload ''refresh_token'' [] = Inr token"
    "verifyRefreshToken (al_jwt L) (al_config L) (dr_now d) token = Inr claims"
    "ts_consume (al_store L) (rf_jti claims) (aw_tokens w) = (Inr (Some (rf_user_id claims)), t1)"
    "row \<in> set (ud_rows (aw_users w))" "ur_id row = rf_user_id claims" "same_users w w2" "aw_tokens w2 = t1"
    "issueTokenPair L d (rowToUser row) w2 = (Inr (Inr p), w')"
proof -
  obtain token where t: "jvalue as_string payload ''refresh_token'' [] = Inr token"
    using assms by (auto simp: auth_refresh_def with_refresh_token_def split: sum.splits)
  then have "token \<noteq> []" using assms by (auto simp: auth_refresh_def with_refresh_token_def)
  then obtain claims where c: "verifyRefreshToken (al_jwt L) (al_config L) (dr_now d) token = Inr claims"
    using assms t by (auto simp: auth_refresh_def with_refresh_token_def service_ok_def split: sum.splits)
  note refresh = assms [unfolded auth_refresh_def with_refresh_token_def t bindp_lift sum.case if_not_P [OF \<open>token \<noteq> []\<close>]
      c service_ok_simps]
  from refresh show ?thesis
  proof (cases rule: token_stepE)
    case (2 stored w1)
    then have stored: "stored = Some (rf_user_id claims)" by (auto split: if_splits)
    note find = 2(1) [unfolded stored not_True_eq_False if_False refl [of "Some (rf_user_id claims)", THEN eqTrueI]]
    from find reads_keep_users(3) show ?thesis
    proof (cases rule: read_stepE)
      case read: (2 found w2)
      then obtain user where user: "found = Some user" "issueTokenPair L d user w2 = (Inr (Inr p), w')"
        by (auto split: option.splits if_splits)
      obtain row where row: "row \<in> set (ud_rows (aw_users w1))" "ur_id row = rf_user_id claims" "user = rowToUser row"
        using findById_SomeD read(4) user(1) by blast
      have "same_users w w2" using 2(2) read(2) by (simp add: same_users_def)
      have rows: "row \<in> set (ud_rows (aw_users w))" using row(1) 2(2) by simp
      have issued: "issueTokenPair L d (rowToUser row) w2 = (Inr (Inr p), w')" using user(2) row(3) by simp
      show ?thesis by (rule that [OF t c 2(3) [unfolded stored] rows row(2) \<open>same_users w w2\<close> read(3) issued])
    qed auto
  qed auto
qed

text \<open>
  C14: with the Redis store, a granted refresh spent a live refresh token of a user and
  put a new one on record for the same user; the spent token is dead from then on, whatever fails and
  whatever happens to other tokens: presented again, it is refused.
\<close>

theorem refresh_rotates:
  fixes ttl :: int
  assumes granted: "auth_refresh L d payload w = (Inr (Inr p), w')" and store: "al_store L = redis_token_store"
    and ok: "sets_ok (rc_server (aw_tokens w))" "\<forall>row\<in>set (ud_rows (aw_users w)). is_int64 (ur_id row)"
    and token: "jvalue as_string payload ''refresh_token'' [] = Inr token"
      "verifyRefreshToken (al_jwt L) (al_config L) (dr_now d) token = Inr claims" "token_name (rf_jti claims)"
    and fresh: "generateJti (dr_refresh_jti d) \<noteq> rf_jti claims"
    and later: "aw_tokens w'' = fold (redis_step ttl) ops (aw_tokens w')" "list_all names_ok ops"
      "list_all (\<lambda>op. \<not> stores (rf_jti claims) op) ops"
  shows "redis_live (aw_tokens w) (rf_jti claims) \<and> \<not> redis_live (aw_tokens w') (rf_jti claims) \<and>
    us_id (tp_user p) = rf_user_id claims \<and> same_users w w' \<and>
    redis_issued (refreshTokenExpiresInSeconds (al_config L)) (aw_tokens w') (generateJti (dr_refresh_jti d)) (rf_user_id claims) \<and>
    fst (auth_refresh L d' payload w'') \<noteq> Inr (Inr q)"
  using granted
proof (cases rule: refresh_granted)
  case (1 t c row t1 w2)
  then have c: "c = claims" using token(1,2) by simp
  let ?ttl = "refreshTokenExpiresInSeconds (al_config L)" and ?new = "generateJti (dr_refresh_jti d)"
  have consumed: "redis_consume (rf_jti claims) (aw_tokens w) = (Inr (Some (rf_user_id claims)), t1)"
    using 1(3) c store by (simp add: redis_token_store_def)
  have user: "us_id (rowToUser row) = rf_user_id claims" using 1(5) c by (simp add: rowToUser_def)
  note g = issueTokenPair_granted [OF 1(8)]
  have stored: "redis_store ?new (rf_user_id claims) ?ttl (t1) = (Inr (), aw_tokens w')"
    using g(3) store user 1(7) by (simp add: redis_token_store_def)
  have u64: "is_int64 (rf_user_id claims)" using ok(2) 1(4,5) c by auto
  have dead: "\<not> redis_live (t1) (rf_jti claims)"
    using redis_consumed(2) [OF token(3) consumed] by (simp add: redis_live_def)
  have "\<not> redis_live (redis_step ?ttl (TStore ?new (rf_user_id claims)) (t1)) (rf_jti claims)"
    using dead fresh token(3) by (intro step_redis_live) (simp_all add: names_ok_def generateJti_name)
  then have gone: "\<not> redis_live (aw_tokens w') (rf_jti claims)" using stored by simp
  have named: "redis_tokens.well_named ops" using later(2) by (simp add: redis_tokens.well_named_def names_ok_def [abs_def])
  have "\<not> redis_live (aw_tokens w'') (rf_jti claims)"
    using redis_tokens.run_dead [OF token(3) named later(3) gone] later(1) by (simp add: redis_tokens.run_def)
  then have spent: "fst (redis_consume (rf_jti claims) (aw_tokens w'')) \<noteq> Inr (Some v)" for v
    using redis_tokens.dead_is_refused [OF token(3)] by blast
  have "fst (auth_refresh L d' payload w'') \<noteq> Inr (Inr q)"
  proof
    assume "fst (auth_refresh L d' payload w'') = Inr (Inr q)"
    then obtain w3 where "auth_refresh L d' payload w'' = (Inr (Inr q), w3)" by (metis prod.collapse)
    then show False
    proof (cases rule: refresh_granted)
      case (1 t c row t1 w2)
      then have "c = claims" using token verifyRefreshToken_claims by fastforce
      with 1(3) store spent show False by (auto simp: redis_token_store_def)
    qed
  qed
  moreover have "redis_issued ?ttl (aw_tokens w') ?new (rf_user_id claims)"
    using redis_stored [OF generateJti_name u64 stored] by (simp add: redis_issued_def)
  moreover have "redis_live (aw_tokens w) (rf_jti claims)" by (rule redis_consumed(1) [OF token(3) consumed])
  moreover have "same_users w w'" using 1(6) g(2) by (simp add: same_users_def)
  ultimately show ?thesis using gone g(1) user by simp
qed

lemma demo_rotation:
  assumes n: "token_name i" "token_name j"
  shows "\<exists>c c1 c2. redis_store i 7 604800 (demo_store []) = (Inr (), c) \<and> redis_consume i c = (Inr (Some 7), c1) \<and>
    redis_store j 7 604800 c1 = (Inr (), c2) \<and> sets_ok (rc_server c)"
proof -
  have k: "stoll (fmt_int 7) = Inr 7" by (simp add: stoll_fmt_int is_int64_def)
  note eval = redis_store_def with_store_def redis_isAvailable_def kv_setex_def kv_sadd_def kv_expire_def on_server_def
    cmd_setex_def cmd_sadd_def cmd_expire_def r_set_def put_set_def bindp_def r_live_def ns_def r_value_def
    redis_consume_def kv_getDel_def script_getdel_def cmd_get_def cmd_del_def kv_srem_def cmd_srem_def
  obtain c where c: "redis_store i 7 604800 (demo_store []) = (Inr (), c)" using demo_stored [OF n(1)] by blast
  then have c': "c = snd (redis_store i 7 604800 (demo_store []))" by simp
  have "sets_ok (rc_server (demo_store []))" by (rule sets_ok_start) (simp add: demo_store_def)
  then have "sets_ok (rc_server c)" using token_step_ok [of "demo_store []" "TStore i 7" 604800] n(1) c' by (simp add: names_ok_def)
  moreover have "\<exists>c1 c2. redis_consume i c = (Inr (Some 7), c1) \<and> redis_store j 7 604800 c1 = (Inr (), c2)"
    unfolding c' using token_keys(3,4) [OF n(1)] token_keys(3,4) [OF n(2)]
    by (simp add: eval demo_store_def default_redis_config_def k)
  ultimately show ?thesis using c by blast
qed

theorem refresh_rotates_witness:
  "\<exists>c p w'. auth_refresh demo_lib (demo_draws 2) (JObj [(''refresh_token'', JStr ''r'')]) (demo_auth [demo_ann] c) = (Inr (Inr p), w') \<and>
     us_id (tp_user p) = 7 \<and>
     (\<forall>q. fst (auth_refresh demo_lib (demo_draws 2) (JObj [(''refresh_token'', JStr ''r'')]) w') \<noteq> Inr (Inr q))"
proof -
  let ?i = "generateJti (replicate 16 1)" and ?j = "generateJti (replicate 16 2)" and ?m = "JObj [(''refresh_token'', JStr ''r'')]"
  obtain c c1 c2 where c: "redis_consume ?i c = (Inr (Some 7), c1)" "redis_store ?j 7 604800 c1 = (Inr (), c2)" "sets_ok (rc_server c)"
    using demo_rotation [OF generateJti_name generateJti_name] by metis
  have k: "al_store demo_lib = redis_token_store" "al_jwt demo_lib = demo_jwt" "al_config demo_lib = Inr demo_config"
    by (simp_all add: demo_lib_def)
  have v: "verifyRefreshToken demo_jwt (Inr demo_config) 100 ''r'' = Inr \<lparr>rf_user_id = 7, rf_jti = ?i\<rparr>"
    by (simp add: verifyRefreshToken_def decode_verified_def refresh_token_claims_def demo_jwt_def demo_lifetimes demo_refresh_def
        claimString_def get_claim_def claimed_uid_def generateJti_nonempty int64_of_id is_int64_def)
  have pair: "issueTokenPair demo_lib (demo_draws 2) (rowToUser demo_ann) (demo_auth [demo_ann] c1) =
    (Inr (Inr \<lparr>tp_user = rowToUser demo_ann, tp_access_token = ''a'', tp_refresh_token = ''s'', tp_expires_in = 300\<rparr>),
     demo_auth [demo_ann] c2)" by (rule demo_pair [of 2 "''s''", OF _ k(1) c(2)]) simp
  have e: "us_enabled (rowToUser demo_ann)" by (simp add: rowToUser_def default_user_def)
  have "\<exists>p w'. auth_refresh demo_lib (demo_draws 2) ?m (demo_auth [demo_ann] c) = (Inr (Inr p), w')"
    using pair by (simp add: auth_refresh_def with_refresh_token_def k v on_tokens_def on_users_def bindp_def redis_token_store_def
        c(1) demo_auth_def demo_find e demo_draws_def)
  then obtain p w' where r: "auth_refresh demo_lib (demo_draws 2) ?m (demo_auth [demo_ann] c) = (Inr (Inr p), w')" by blast
  have "us_id (tp_user p) = 7 \<and> fst (auth_refresh demo_lib (demo_draws 2) ?m w') \<noteq> Inr (Inr q)" for q
    using refresh_rotates [OF r k(1), where token = "''r''" and ops = "[]" and w'' = w' and d' = "demo_draws 2" and q = q] c(3) v demo_jtis
    by (simp add: demo_auth_def demo_draws_def k is_int64_def generateJti_name)
  then show ?thesis using r by blast
qed

section \<open>The change of a password\<close>

lemma getProfile_cases:
  assumes "getProfile userId w = (r, w')"
  shows "same_users w w' \<and> aw_tokens w' = aw_tokens w \<and>
    ((\<exists>e. r = Inr (Inl e)) \<or> (\<exists>row\<in>set (ud_rows (aw_users w)). ur_id row = userId \<and> r = Inr (Inr (rowToUser row))))"
proof (cases "userId \<le> 0")
  case False
  note find = assms [unfolded getProfile_def if_not_P [OF False]]
  from find reads_keep_users(3) show ?thesis
  proof (cases rule: read_stepE)
    case (2 found w1)
    then show ?thesis by (cases found) (auto dest: findById_SomeD)
  qed auto
qed (use assms in \<open>auto simp: getProfile_def\<close>)

text \<open>The last two steps: the sessions end before the row changes.\<close>

definition replaced :: "'s auth_lib \<Rightarrow> draws \<Rightarrow> int \<Rightarrow> string \<Rightarrow> 's auth_world \<Rightarrow> 's auth_world \<Rightarrow> bool" where
  "replaced L d userId newPassword w w' \<longleftrightarrow>
     (\<exists>hash. hashPassword (al_kdf L) (dr_salt d) newPassword = Inr hash \<and>
        repassworded userId hash (aw_users w) (aw_users w'))"

lemma set_password_cases:
  assumes "bindp (lift_sum (hashPassword (al_kdf L) (dr_salt d) newPassword)) (\<lambda>hash.
     bindp (on_users (updatePassword userId hash)) (\<lambda>r. repo_ok r (\<lambda>updated.
       if \<not> updated then deny e else ret (Inr ())))) w = (r, w')"
  shows "aw_tokens w' = aw_tokens w \<and> (same_users w w' \<and> r \<noteq> Inr (Inr ()) \<or> replaced L d userId newPassword w w')"
proof (cases "hashPassword (al_kdf L) (dr_salt d) newPassword")
  case (Inr hash)
  obtain q db where u: "updatePassword userId hash (aw_users w) = (q, db)" by fastforce
  then have "repo_ok q (\<lambda>updated. if \<not> updated then deny e else ret (Inr ())) (w\<lparr>aw_users := db\<rparr>) = (r, w')"
    using assms Inr by (simp add: bindp_def on_users_def)
  then have "w' = w\<lparr>aw_users := db\<rparr>" "(\<exists>f. q = Inl f) \<longrightarrow> r \<noteq> Inr (Inr ())" by (cases q; auto split: if_splits)+
  with updatePassword_cases [OF u] Inr show ?thesis by (auto simp: same_users_def replaced_def)
qed (use assms in auto)

lemma changePassword_cases:
  assumes "changePassword L d userId payload w = (r, w')"
  obtains "same_users w w'" "r \<noteq> Inr (Inr ())"
  | oldPassword newPassword row where "jvalue as_string payload ''old_password'' [] = Inr oldPassword"
    "jvalue as_string payload ''new_password'' [] = Inr newPassword" "6 \<le> length newPassword"
    "row \<in> set (ud_rows (aw_users w))" "ur_id row = userId" "verifyPassword (al_kdf L) oldPassword (ur_password row) = Inr True"
    "ts_revokeUser (al_store L) userId (aw_tokens w) = (Inr (), aw_tokens w')" "replaced L d userId newPassword w w'"
proof -
  show ?thesis
  proof (cases "same_users w w' \<and> r \<noteq> Inr (Inr ())")
    case True
    then show ?thesis using that(1) by blast
  next
    case moved: False
    then obtain old new where f: "jvalue as_string payload ''old_password'' [] = Inr old"
        "jvalue as_string payload ''new_password'' [] = Inr new"
      using assms by (auto simp: changePassword_def split: sum.splits)
    then have given: "\<not> (old = [] \<or> new = [])" "\<not> length new < 6"
      using assms moved by (auto simp: changePassword_def split: if_splits)
    obtain q w1 where p: "getProfile userId w = (q, w1)" by fastforce
    note profile = getProfile_cases [OF p]
    note change = assms [unfolded changePassword_def f bindp_lift sum.case if_not_P [OF given(1)] if_not_P [OF given(2)]]
    obtain row where row: "row \<in> set (ud_rows (aw_users w))" "ur_id row = userId" "q = Inr (Inr (rowToUser row))"
      using profile change moved by (auto simp: bindp_def [of "getProfile userId"] p)
    note change' = change [unfolded bindp_Inr [where m = "getProfile userId", OF p [unfolded row(3)]] service_ok_simps]
    have pw: "us_password (rowToUser row) = ur_password row" by (simp add: rowToUser_def)
    have verified: "verifyPassword (al_kdf L) old (ur_password row) = Inr True"
      using change' moved profile by (auto simp: pw split: sum.splits if_splits)
    note revoke = change' [unfolded pw verified sum.case not_True_eq_False if_False]
    from revoke show ?thesis
    proof (cases rule: token_stepE)
      case (1 e)
      then have "same_users w w'" using profile by (simp add: same_users_def)
      then show ?thesis using 1(1) that(1) by simp
    next
      case (2 u w2)
      have s: "same_users w w2" using 2(2) profile by (simp add: same_users_def)
      note c = set_password_cases [unfolded bindp_lift, OF 2(1)]
      show ?thesis
      proof (cases "same_users w2 w' \<and> r \<noteq> Inr (Inr ())")
        case True
        then show ?thesis using that(1) same_users_trans [OF s] by blast
      next
        case False
        then have rep: "replaced L d userId new w2 w'" using c by blast
        then have "replaced L d userId new w w'" using s by (auto simp: replaced_def repassworded_def same_users_def users_of_def)
        moreover have "ts_revokeUser (al_store L) userId (aw_tokens w) = (Inr (), aw_tokens w')"
          using 2(3) c profile by simp
        ultimately show ?thesis using that(2) [OF f _ row(1,2) verified] given(2) by simp
      qed
    qed
  qed
qed

text \<open>
  C15: with the Redis store, a change of a password, whatever fails,
  leaves the users as they are or was given the current password of the user, sets the derived new
  password in the row of this user only, and did so after every refresh token on record for the
  user was dead; the keys of the table stay unique.
\<close>

theorem password_change_ends_sessions:
  assumes "changePassword L d userId payload w = (r, w')" and store: "al_store L = redis_token_store"
  shows "(wf_users (aw_users w) \<longrightarrow> wf_users (aw_users w')) \<and>
    (same_users w w' \<and> r \<noteq> Inr (Inr ()) \<or>
     (\<exists>row\<in>set (ud_rows (aw_users w)). \<exists>oldPassword newPassword.
        jvalue as_string payload ''old_password'' [] = Inr oldPassword \<and>
        jvalue as_string payload ''new_password'' [] = Inr newPassword \<and> 6 \<le> length newPassword \<and>
        ur_id row = userId \<and> verifyPassword (al_kdf L) oldPassword (ur_password row) = Inr True \<and>
        replaced L d userId newPassword w w' \<and>
        (\<forall>j ttl. token_name j \<longrightarrow> sets_ok (rc_server (aw_tokens w)) \<longrightarrow> redis_issued ttl (aw_tokens w) j userId \<longrightarrow>
           \<not> redis_live (aw_tokens w') j)))"
  using assms(1)
proof (cases rule: changePassword_cases)
  case 1
  then show ?thesis using wf_users_of [of "aw_users w'" "aw_users w"] by (simp add: same_users_def)
next
  case (2 old new row)
  have "redis_revokeUser userId (aw_tokens w) = (Inr (), aw_tokens w')" using 2(7) store by (simp add: redis_token_store_def)
  then have ended: "\<not> redis_live (aw_tokens w') j"
    if "token_name j" "sets_ok (rc_server (aw_tokens w))" "redis_issued ttl (aw_tokens w) j userId" for j ttl
    using that revokeUser_kept(2) [of j "aw_tokens w" ttl userId] by (simp add: redis_issued_def redis_live_def kept_def)
  have "wf_users (aw_users w) \<longrightarrow> wf_users (aw_users w')"
    using 2(8) wf_users_repassworded by (auto simp: replaced_def)
  then show ?thesis using 2(1-3,5,6,8) ended
    by (intro conjI disjI2 bexI [OF _ 2(4)] exI [of _ old] exI [of _ new] allI impI) simp_all
qed

theorem password_change_ends_sessions_witness:
  "\<exists>c w'. changePassword demo_lib (demo_draws 1) 7 (JObj [(''old_password'', JStr ''secret''), (''new_password'', JStr ''secret2'')])
       (demo_auth [demo_ann] c) = (Inr (Inr ()), w') \<and>
     redis_live c (generateJti (replicate 16 1)) \<and> \<not> redis_live (aw_tokens w') (generateJti (replicate 16 1))"
proof -
  let ?i = "generateJti (replicate 16 1)"
  let ?m = "JObj [(''old_password'', JStr ''secret''), (''new_password'', JStr ''secret2'')]"
  obtain c where c: "redis_store ?i 7 604800 (demo_store []) = (Inr (), c)" and ok: "sets_ok (rc_server c)"
    using demo_rotation [OF generateJti_name generateJti_name] by metis
  have rec: "redis_issued 604800 c ?i 7"
    using redis_stored [OF generateJti_name _ c] by (simp add: redis_issued_def is_int64_def)
  then have live: "redis_live c ?i" by (auto simp: redis_issued_def on_record_def redis_live_def token_gone_def)
  have k: "al_store demo_lib = redis_token_store" "al_kdf demo_lib = demo_kdf" by (simp_all add: demo_lib_def)
  have v: "verifyPassword demo_kdf ''secret'' (us_password (rowToUser demo_ann)) = Inr True"
    by (simp add: rowToUser_def demo_hash_accepts)
  have c': "c = snd (redis_store ?i 7 604800 (demo_store []))" using c by simp
  have "\<exists>c1. redis_revokeUser 7 c = (Inr (), c1)"
    unfolding c' using token_keys(3,4) [OF generateJti_name]
    by (simp add: redis_store_def with_store_def demo_store_def redis_isAvailable_def default_redis_config_def
        kv_setex_def kv_sadd_def kv_expire_def on_server_def cmd_setex_def cmd_sadd_def cmd_expire_def r_set_def
        put_set_def bindp_def r_live_def ns_def redis_revokeUser_def kv_smembers_def cmd_smembers_def kv_del_def cmd_del_def)
  then obtain c1 where c1: "redis_revokeUser 7 c = (Inr (), c1)" by blast
  have p: "getProfile 7 (demo_auth [demo_ann] c) = (Inr (Inr (rowToUser demo_ann)), demo_auth [demo_ann] c)"
    by (simp add: getProfile_def on_users_def bindp_def demo_auth_def demo_find)
  obtain h where h: "hashPassword demo_kdf (Some (replicate 16 7)) ''secret2'' = Inr h"
    by (simp add: hashPassword_def demo_kdf_def)
  have "\<exists>db. updatePassword 7 h (demo_user_db [demo_ann]) = (Inr True, db)"
    unfolding updatePassword_def repoInvoke_def bindp_Inr [where m = usersTable, OF demo_table]
    by (simp add: u_exec_def stmt_update_password_def bindp_def demo_user_db_def)
  then obtain db where "updatePassword 7 h (demo_user_db [demo_ann]) = (Inr True, db)" by blast
  then have "\<exists>w'. changePassword demo_lib (demo_draws 1) 7 ?m (demo_auth [demo_ann] c) = (Inr (Inr ()), w')"
    using c1 by (simp add: changePassword_def bindp_def [of "getProfile 7"] p v k h on_tokens_def on_users_def redis_token_store_def
        bindp_def demo_draws_def) (simp add: demo_auth_def)
  then obtain w' where w': "changePassword demo_lib (demo_draws 1) 7 ?m (demo_auth [demo_ann] c) = (Inr (Inr ()), w')" by blast
  have "\<not> redis_live (aw_tokens w') ?i"
    using password_change_ends_sessions [OF w' k(1)] rec ok generateJti_name by (simp add: demo_auth_def) blast
  with w' live show ?thesis by blast
qed

end
