(* ===== verification/Config.thy ===== *)
theory Config
  imports Db_Session Passwords Rate_Limiter
begin

text \<open>
  \<open>Backend/src/Backend.cpp\<close>: the configuration, read from the first file that opens and overridden
  by the environment. The environment and the files are maps (\<open>None\<close> is a variable that is not set,
  a file that cannot be opened); paths are POSIX paths; the JSON parser is a parameter.
\<close>

record surroundings =
  su_env :: "string \<Rightarrow> string option"
  su_files :: "string \<Rightarrow> string option"
  su_cwd :: string
  su_exe :: "string option"

section \<open>Paths\<close>

definition is_relative :: "string \<Rightarrow> bool" where
  "is_relative p \<longleftrightarrow> \<not> starts_with p ''/''"

text \<open>\<open>base / input\<close>.\<close>

definition path_join :: "string \<Rightarrow> string \<Rightarrow> string" where
  "path_join base input =
     (if \<not> is_relative input then input
      else if base = [] \<or> ends_with base ''/'' then base @ input
      else base @ ''/'' @ input)"

definition path_filename :: "string \<Rightarrow> string" where
  "path_filename p = rev (takeWhile (\<lambda>c. c \<noteq> CHR ''/'') (rev p))"

text \<open>The directory of a path; the root is its own directory.\<close>

definition parent_path :: "string \<Rightarrow> string" where
  "parent_path p = (let dir = rev (dropWhile (\<lambda>c. c \<noteq> CHR ''/'') (rev p)) in
     if dir = [] then []
     else let d = rev (dropWhile (\<lambda>c. c = CHR ''/'') (rev dir)) in if d = [] then ''/'' else d)"

definition executableDir :: "surroundings \<Rightarrow> string" where
  "executableDir su = (case su_exe su of None \<Rightarrow> [] | Some link \<Rightarrow> parent_path (take 4095 link))"

definition appendCandidatePath :: "string list \<Rightarrow> string \<Rightarrow> string \<Rightarrow> string list" where
  "appendCandidatePath candidates baseDir input =
     candidates @ [path_join baseDir input, path_join (path_join baseDir ''etc'') input]"

fun walk_up :: "nat \<Rightarrow> string \<Rightarrow> string \<Rightarrow> string list \<Rightarrow> string list" where
  "walk_up 0 walk input candidates = candidates"
| "walk_up (Suc n) walk input candidates =
     (if parent_path walk = [] then candidates
      else walk_up n (parent_path walk) input (appendCandidatePath candidates (parent_path walk) input))"

definition buildCandidatePaths :: "surroundings \<Rightarrow> string \<Rightarrow> string list" where
  "buildCandidatePaths su path =
     (if is_relative path then
        (let candidates = appendCandidatePath [path] (su_cwd su) path; exeDir = executableDir su in
         if exeDir \<noteq> [] then walk_up 8 exeDir path (appendCandidatePath candidates exeDir path) else candidates)
      else [path])"

section \<open>The environment\<close>

definition readEnv :: "surroundings \<Rightarrow> string \<Rightarrow> string option" where
  "readEnv su name = (case su_env su name of None \<Rightarrow> None | Some value \<Rightarrow> if value = [] then None else Some value)"

text \<open>The text of a secret without the line ends behind it.\<close>

definition readSecretFile :: "surroundings \<Rightarrow> string \<Rightarrow> string \<Rightarrow> exn + string" where
  "readSecretFile su path envName = (case su_files su path of
      None \<Rightarrow> Inl (StdExn (envName @ '' points to unreadable secret file: '' @ path))
    | Some content \<Rightarrow>
        (let value = rev (dropWhile (\<lambda>c. c = char_of (10 :: nat) \<or> c = char_of (13 :: nat)) (rev content)) in
         if value = [] then Inl (StdExn (envName @ '' points to empty secret file: '' @ path)) else Inr value))"

definition readEnvOrSecretFile :: "surroundings \<Rightarrow> string \<Rightarrow> string \<Rightarrow> exn + string option" where
  "readEnvOrSecretFile su envName fileEnvName = (case readEnv su fileEnvName of
      Some path \<Rightarrow> bindr (readSecretFile su path fileEnvName) (\<lambda>v. Inr (Some v))
    | None \<Rightarrow> Inr (readEnv su envName))"

section \<open>Lists\<close>

text \<open>\<open>value.find(c, start)\<close>.\<close>

definition find_from :: "string \<Rightarrow> char \<Rightarrow> nat \<Rightarrow> nat option" where
  "find_from s c start = find (\<lambda>i. s ! i = c) [start..<length s]"

lemma find_from_Some: "find_from s c start = Some e \<Longrightarrow> start \<le> e \<and> e < length s \<and> s ! e = c"
  unfolding find_from_def by (drule find_SomeD) auto

function parseCsv_loop :: "string \<Rightarrow> nat \<Rightarrow> string list \<Rightarrow> string list" where
  "parseCsv_loop value start items =
     (if start \<le> length value then
        (let end' = find_from value (CHR '','') start;
             item = trim (case end' of None \<Rightarrow> drop start value | Some e \<Rightarrow> take (e - start) (drop start value));
             items' = (if item \<noteq> [] then items @ [item] else items)
         in case end' of None \<Rightarrow> items' | Some e \<Rightarrow> parseCsv_loop value (e + 1) items')
      else items)"
  by pat_completeness auto

termination
  by (relation "measure (\<lambda>(value, start, items). Suc (length value) - start)") (auto dest!: find_from_Some [OF sym])

declare parseCsv_loop.simps [simp del]

definition parseCsvList :: "string \<Rightarrow> string list" where
  "parseCsvList value = parseCsv_loop value 0 []"

section \<open>Overrides\<close>

text \<open>One call of an \<open>override\<dots>\<close> function: the key, and the variables it reads.\<close>

datatype override =
    OString string string
  | OSecret string string string
  | OInt string string
  | OBool string string
  | OList string string
  | OLegacyHours

fun override_key :: "override \<Rightarrow> string" where
  "override_key (OString k e) = k"
| "override_key (OSecret k e f) = k"
| "override_key (OInt k e) = k"
| "override_key (OBool k e) = k"
| "override_key (OList k e) = k"
| "override_key OLegacyHours = ''access_expiration_minutes''"

definition overrideString :: "surroundings \<Rightarrow> string \<Rightarrow> string \<Rightarrow> json \<Rightarrow> json" where
  "overrideString su key envName object = (case readEnv su envName of None \<Rightarrow> object | Some v \<Rightarrow> jput key (JStr v) object)"

definition overrideSecretString :: "surroundings \<Rightarrow> string \<Rightarrow> string \<Rightarrow> string \<Rightarrow> json \<Rightarrow> exn + json" where
  "overrideSecretString su key envName fileEnvName object =
     bindr (readEnvOrSecretFile su envName fileEnvName) (\<lambda>r. case r of
        None \<Rightarrow> Inr object | Some v \<Rightarrow> Inr (jput key (JStr v) object))"

definition overrideInt :: "surroundings \<Rightarrow> string \<Rightarrow> string \<Rightarrow> json \<Rightarrow> json" where
  "overrideInt su key envName object = (case readEnv su envName of None \<Rightarrow> object
     | Some v \<Rightarrow> (case stoi v of Inl e \<Rightarrow> object | Inr n \<Rightarrow> jput key (JInt n) object))"

definition overrideBool :: "surroundings \<Rightarrow> string \<Rightarrow> string \<Rightarrow> json \<Rightarrow> json" where
  "overrideBool su key envName object = (case readEnv su envName of None \<Rightarrow> object
     | Some v \<Rightarrow> (case parseBool v of None \<Rightarrow> object | Some b \<Rightarrow> jput key (JBool b) object))"

definition overrideStringList :: "surroundings \<Rightarrow> string \<Rightarrow> string \<Rightarrow> json \<Rightarrow> json" where
  "overrideStringList su key envName object = (case readEnv su envName of None \<Rightarrow> object
     | Some v \<Rightarrow> jput key (JArr (map JStr (parseCsvList v))) object)"

text \<open>\<open>JWT_EXPIRATION_HOURS\<close>, for a configuration without minutes; the product is an \<open>int\<close>.\<close>

definition legacyHours :: "surroundings \<Rightarrow> json \<Rightarrow> json" where
  "legacyHours su jwt = (case jfind jwt ''access_expiration_minutes'' of Some _ \<Rightarrow> jwt
     | None \<Rightarrow> (case readEnv su ''JWT_EXPIRATION_HOURS'' of None \<Rightarrow> jwt
       | Some h \<Rightarrow> (case stoi h of Inl e \<Rightarrow> jwt
         | Inr n \<Rightarrow> jput ''access_expiration_minutes'' (JInt (max 1 (int32_of (n * 60)))) jwt)))"

fun apply_override :: "surroundings \<Rightarrow> override \<Rightarrow> json \<Rightarrow> exn + json" where
  "apply_override su (OString k e) j = Inr (overrideString su k e j)"
| "apply_override su (OSecret k e f) j = overrideSecretString su k e f j"
| "apply_override su (OInt k e) j = Inr (overrideInt su k e j)"
| "apply_override su (OBool k e) j = Inr (overrideBool su k e j)"
| "apply_override su (OList k e) j = Inr (overrideStringList su k e j)"
| "apply_override su OLegacyHours j = Inr (legacyHours su j)"

definition section_names :: "string list" where
  "section_names = [''server'', ''database'', ''jwt'', ''python_service'', ''task_engine'', ''storage'', ''minio'', ''redis'',
     ''cache'', ''rate_limit'', ''cors'']"

text \<open>The calls in their order, each with the section it changes.\<close>

definition override_table :: "(string \<times> override list) list" where
  "override_table = [
     (''redis'', [OString ''host'' ''REDIS_HOST'', OInt ''port'' ''REDIS_PORT'',
       OSecret ''password'' ''REDIS_PASSWORD'' ''REDIS_PASSWORD_FILE'', OInt ''db'' ''REDIS_DB'',
       OInt ''pool_size'' ''REDIS_POOL_SIZE'', OInt ''connect_timeout_ms'' ''REDIS_CONNECT_TIMEOUT_MS'',
       OInt ''socket_timeout_ms'' ''REDIS_SOCKET_TIMEOUT_MS'', OString ''task_queue_key'' ''REDIS_TASK_QUEUE_KEY'',
       OString ''lease_key_prefix'' ''REDIS_LEASE_KEY_PREFIX'', OBool ''enabled'' ''REDIS_ENABLED'']),
     (''cache'', [OString ''host'' ''CACHE_HOST'', OInt ''port'' ''CACHE_PORT'',
       OSecret ''password'' ''CACHE_PASSWORD'' ''CACHE_PASSWORD_FILE'', OInt ''db'' ''CACHE_DB'',
       OInt ''pool_size'' ''CACHE_POOL_SIZE'', OInt ''connect_timeout_ms'' ''CACHE_CONNECT_TIMEOUT_MS'',
       OInt ''socket_timeout_ms'' ''CACHE_SOCKET_TIMEOUT_MS'', OString ''key_prefix'' ''CACHE_KEY_PREFIX'',
       OInt ''version_key_ttl_seconds'' ''CACHE_VERSION_KEY_TTL_SECONDS'', OBool ''enabled'' ''CACHE_ENABLED'']),
     (''rate_limit'', [OBool ''enabled'' ''RATE_LIMIT_ENABLED'', OBool ''fail_open'' ''RATE_LIMIT_FAIL_OPEN'',
       OBool ''trust_proxy'' ''RATE_LIMIT_TRUST_PROXY'',
       OInt ''max_active_tasks_per_user'' ''RATE_LIMIT_MAX_ACTIVE_TASKS_PER_USER'',
       OInt ''user_create_capacity'' ''RATE_LIMIT_USER_CREATE_CAPACITY'',
       OInt ''user_create_window_seconds'' ''RATE_LIMIT_USER_CREATE_WINDOW_SECONDS'',
       OInt ''auth_ip_capacity'' ''RATE_LIMIT_AUTH_IP_CAPACITY'',
       OInt ''auth_ip_window_seconds'' ''RATE_LIMIT_AUTH_IP_WINDOW_SECONDS'', OString ''key_prefix'' ''RATE_LIMIT_KEY_PREFIX'']),
     (''cors'', [OBool ''enabled'' ''CORS_ENABLED'', OList ''allow_origins'' ''CORS_ALLOW_ORIGINS'']),
     (''server'', [OString ''host'' ''BACKEND_HOST'', OInt ''port'' ''BACKEND_PORT'', OInt ''threads'' ''BACKEND_THREADS'']),
     (''database'', [OString ''host'' ''DB_HOST'', OInt ''port'' ''DB_PORT'', OString ''username'' ''DB_USERNAME'',
       OSecret ''password'' ''DB_PASSWORD'' ''DB_PASSWORD_FILE'', OString ''database'' ''DB_NAME'',
       OInt ''pool_size'' ''DB_POOL_SIZE'', OBool ''ssl'' ''DB_SSL'']),
     (''jwt'', [OSecret ''secret'' ''JWT_SECRET'' ''JWT_SECRET_FILE'',
       OInt ''access_expiration_minutes'' ''JWT_ACCESS_EXPIRATION_MINUTES'',
       OInt ''refresh_expiration_days'' ''JWT_REFRESH_EXPIRATION_DAYS'', OLegacyHours]),
     (''python_service'', [OString ''url'' ''PYTHON_SERVICE_URL'', OInt ''timeout_seconds'' ''PYTHON_SERVICE_TIMEOUT_SECONDS'']),
     (''task_engine'', [OInt ''workers'' ''TASK_ENGINE_WORKERS'', OInt ''poll_interval_ms'' ''TASK_ENGINE_POLL_INTERVAL_MS'',
       OInt ''lease_seconds'' ''TASK_ENGINE_LEASE_SECONDS'', OInt ''max_retries'' ''TASK_ENGINE_MAX_RETRIES'',
       OString ''worker_prefix'' ''TASK_ENGINE_WORKER_PREFIX'']),
     (''storage'', [OString ''root_dir'' ''STORAGE_ROOT_DIR'', OString ''public_url_prefix'' ''STORAGE_PUBLIC_URL_PREFIX'',
       OString ''extension'' ''STORAGE_EXTENSION'']),
     (''minio'', [OString ''endpoint'' ''MINIO_ENDPOINT'', OString ''access_key'' ''MINIO_ACCESS_KEY'',
       OSecret ''secret_key'' ''MINIO_SECRET_KEY'' ''MINIO_SECRET_KEY_FILE'', OString ''bucket'' ''MINIO_BUCKET'',
       OString ''region'' ''MINIO_REGION'', OInt ''presign_expiry_seconds'' ''MINIO_PRESIGN_EXPIRY_SECONDS''])]"

definition env_overrides :: "(string \<times> override) list" where
  "env_overrides = concat (map (\<lambda>(sec, ovs). map (Pair sec) ovs) override_table)"

text \<open>\<open>auto& s = config[name]\<close>, replaced by an empty object unless it is one; a configuration that is
  neither an object nor null has no members.\<close>

fun ensure_object :: "string \<Rightarrow> json \<Rightarrow> exn + json" where
  "ensure_object name (JObj kvs) = Inr (case map_of kvs name of
      Some (JObj _) \<Rightarrow> JObj kvs | _ \<Rightarrow> jput name (JObj []) (JObj kvs))"
| "ensure_object name JNull = Inr (JObj [(name, JObj [])])"
| "ensure_object name _ = Inl type_error"

fun ensure_objects :: "string list \<Rightarrow> json \<Rightarrow> exn + json" where
  "ensure_objects [] config = Inr config"
| "ensure_objects (n # names) config = bindr (ensure_object n config) (ensure_objects names)"

definition override_in :: "surroundings \<Rightarrow> string \<times> override \<Rightarrow> json \<Rightarrow> exn + json" where
  "override_in su so config = (case jfind config (fst so) of None \<Rightarrow> Inl type_error
     | Some s \<Rightarrow> bindr (apply_override su (snd so) s) (\<lambda>s'. Inr (jput (fst so) s' config)))"

fun apply_overrides :: "surroundings \<Rightarrow> (string \<times> override) list \<Rightarrow> json \<Rightarrow> exn + json" where
  "apply_overrides su [] config = Inr config"
| "apply_overrides su (so # sos) config = bindr (override_in su so config) (apply_overrides su sos)"

definition applyEnvOverrides :: "surroundings \<Rightarrow> json \<Rightarrow> exn + json" where
  "applyEnvOverrides su config = bindr (ensure_objects section_names config) (apply_overrides su env_overrides)"

section \<open>Loading\<close>

fun first_file :: "surroundings \<Rightarrow> string list \<Rightarrow> string option" where
  "first_file su [] = None"
| "first_file su (c # cs) = (case su_files su c of Some t \<Rightarrow> Some t | None \<Rightarrow> first_file su cs)"

definition candidate_files :: "surroundings \<Rightarrow> string \<Rightarrow> string list" where
  "candidate_files su effectivePath =
     (if path_filename effectivePath = ''config.json''
      then buildCandidatePaths su effectivePath @ buildCandidatePaths su (effectivePath @ ''.example'')
      else buildCandidatePaths su effectivePath)"

definition loadConfig :: "surroundings \<Rightarrow> (string \<Rightarrow> exn + json) \<Rightarrow> string \<Rightarrow> exn + json" where
  "loadConfig su parse path =
     (let effectivePath = (case readEnv su ''BACKEND_CONFIG_PATH'' of Some p \<Rightarrow> p | None \<Rightarrow> path);
          candidates = candidate_files su effectivePath
      in case first_file su candidates of
           Some t \<Rightarrow> bindr (parse t) (applyEnvOverrides su)
         | None \<Rightarrow> Inl (StdExn (''failed to open config file: '' @ effectivePath @ '' (tried:'' @
             concat (map (\<lambda>p. '' '' @ p) candidates) @ '')'')))"

text \<open>The configuration is loaded once; a load that throws is tried again at the next call.\<close>

definition cachedConfig :: "surroundings \<Rightarrow> (string \<Rightarrow> exn + json) \<Rightarrow> json option \<Rightarrow> (exn + json) \<times> json option" where
  "cachedConfig su parse cached = (case cached of Some c \<Rightarrow> (Inr c, cached)
     | None \<Rightarrow> (case loadConfig su parse ''config.json'' of Inl e \<Rightarrow> (Inl e, None) | Inr c \<Rightarrow> (Inr c, Some c)))"

section \<open>Facts\<close>

lemma find_from_None: "find_from s c start = None \<Longrightarrow> c \<notin> set (drop start s)"
  by (auto simp: find_from_def find_None_iff in_set_conv_nth)

lemma find_from_first: "find_from s c start = Some e \<Longrightarrow> c \<notin> set (take (e - start) (drop start s))"
  unfolding find_from_def find_Some_iff by (auto simp: in_set_conv_nth)

lemma split_first:
  assumes "find_from s c start = Some e"
  shows "split (drop start s) c = take (e - start) (drop start s) # split (drop (e + 1) s) c"
proof -
  have e: "start \<le> e" "e < length s" "s ! e = c" using find_from_Some [OF assms] by auto
  have "drop start s = take (e - start) (drop start s) @ drop (e - start) (drop start s)"
    by (rule append_take_drop_id [symmetric])
  also have "drop (e - start) (drop start s) = c # drop (e + 1) s" using e using Cons_nth_drop_Suc [of e s] by (simp add: drop_drop)
  finally have "drop start s = take (e - start) (drop start s) @ c # drop (e + 1) s" .
  then show ?thesis
    using split_loop_append [OF find_from_first [OF assms], of "drop (e + 1) s" "[]"] by (simp add: split_def)
qed

lemma parseCsv_loop_split:
  "start \<le> length v \<Longrightarrow> parseCsv_loop v start items = items @ filter (\<lambda>i. i \<noteq> []) (map trim (split (drop start v) (CHR '','')))"
proof (induction v start items rule: parseCsv_loop.induct)
  case (1 v start items)
  show ?case
  proof (cases "find_from v (CHR '','') start")
    case None
    then have "split (drop start v) (CHR '','') = [drop start v]"
      using split_loop_last [OF find_from_None [OF None], of "[]"] by (simp add: split_def)
    with None 1(2) show ?thesis by (simp add: parseCsv_loop.simps [of v start] Let_def)
  next
    case (Some e)
    then have "e + 1 \<le> length v" using find_from_Some [OF Some] by simp
    with 1 Some show ?thesis by (simp add: parseCsv_loop.simps [of v start] Let_def split_first [OF Some])
  qed
qed

text \<open>
  C38: the loop that reads a list from an environment variable ends on every text,
  and gives the parts between the commas, trimmed, without the empty ones, in their order.
\<close>

theorem csv_list_is_split:
  "parseCsvList v = filter (\<lambda>i. i \<noteq> []) (map trim (split v (CHR '','')))"
  using parseCsv_loop_split [of 0 v "[]"] by (simp add: parseCsvList_def)

subsection \<open>Members of sections\<close>

definition jget :: "json \<Rightarrow> string \<Rightarrow> string \<Rightarrow> json option" where
  "jget config sec key = (case jfind config sec of None \<Rightarrow> None | Some s \<Rightarrow> jfind s key)"

definition sections_ok :: "json \<Rightarrow> bool" where
  "sections_ok config \<longleftrightarrow> is_object config \<and>
     list_all (\<lambda>n. case jfind config n of Some s \<Rightarrow> is_object s | None \<Rightarrow> False) section_names"

text \<open>What an override writes, if it writes.\<close>

fun setting :: "surroundings \<Rightarrow> override \<Rightarrow> json option" where
  "setting su (OString k e) = map_option JStr (readEnv su e)"
| "setting su (OSecret k e f) = (case readEnvOrSecretFile su e f of Inr (Some v) \<Rightarrow> Some (JStr v) | _ \<Rightarrow> None)"
| "setting su (OInt k e) = (case readEnv su e of None \<Rightarrow> None
     | Some v \<Rightarrow> (case stoi v of Inl _ \<Rightarrow> None | Inr n \<Rightarrow> Some (JInt n)))"
| "setting su (OBool k e) = (case readEnv su e of None \<Rightarrow> None | Some v \<Rightarrow> map_option JBool (parseBool v))"
| "setting su (OList k e) = map_option (\<lambda>v. JArr (map JStr (parseCsvList v))) (readEnv su e)"
| "setting su OLegacyHours = (case readEnv su ''JWT_EXPIRATION_HOURS'' of None \<Rightarrow> None
     | Some v \<Rightarrow> (case stoi v of Inl _ \<Rightarrow> None | Inr n \<Rightarrow> Some (JInt (max 1 (int32_of (n * 60))))))"

text \<open>The value of a key after an override: the environment first, except for the hours,
  which only stand in for missing minutes.\<close>

definition overridden :: "surroundings \<Rightarrow> override \<Rightarrow> json option \<Rightarrow> json option" where
  "overridden su ov old = (case ov of
      OLegacyHours \<Rightarrow> (case old of Some v \<Rightarrow> Some v | None \<Rightarrow> setting su ov)
    | _ \<Rightarrow> (case setting su ov of Some v \<Rightarrow> Some v | None \<Rightarrow> old))"

lemma is_objectD: "is_object j \<Longrightarrow> \<exists>kvs. j = JObj kvs"
  by (cases j) auto

lemma jfind_put [simp]: "is_object j \<Longrightarrow> jfind (jput k v j) k' = (if k' = k then Some v else jfind j k')"
  by (cases j) auto

lemma is_object_put [simp]: "is_object (jput k v j)"
  by (cases j) auto

lemma apply_override_effect:
  assumes "is_object s" "apply_override su ov s = Inr s'"
  shows "is_object s' \<and> jfind s' k = (if k = override_key ov then overridden su ov (jfind s k) else jfind s k)"
  using assms
  by (cases ov) (auto simp: overridden_def overrideString_def overrideSecretString_def overrideInt_def overrideBool_def
      overrideStringList_def legacyHours_def bindr_def split: option.splits sum.splits)

lemma override_in_effect:
  assumes "sections_ok c" "sec \<in> set section_names" "override_in su (sec, ov) c = Inr c'"
  shows "sections_ok c'"
    "jget c' s k = (if s = sec \<and> k = override_key ov then overridden su ov (jget c s k) else jget c s k)"
proof -
  obtain o1 where o1: "jfind c sec = Some o1" "is_object o1"
    using assms(1,2) by (auto simp: sections_ok_def list_all_iff split: option.splits)
  obtain o2 where o2: "apply_override su ov o1 = Inr o2" "c' = jput sec o2 c"
    using assms(3) o1(1) by (auto simp: override_in_def bindr_def split: sum.splits)
  note e = apply_override_effect [OF o1(2) o2(1)]
  have c: "is_object c" using assms(1) by (simp add: sections_ok_def)
  show "sections_ok c'" using assms(1) e c unfolding o2(2) sections_ok_def list_all_iff by (auto split: option.splits)
  show "jget c' s k = (if s = sec \<and> k = override_key ov then overridden su ov (jget c s k) else jget c s k)"
    using e c o1(1) unfolding o2(2) jget_def by auto
qed

lemma apply_overrides_effect:
  assumes "sections_ok c" "list_all (\<lambda>so. fst so \<in> set section_names) sos" "apply_overrides su sos c = Inr c'"
  shows "sections_ok c' \<and> jget c' s k =
    fold (\<lambda>so v. if fst so = s \<and> override_key (snd so) = k then overridden su (snd so) v else v) sos (jget c s k)"
  using assms
proof (induction sos arbitrary: c)
  case (Cons so sos)
  obtain sec ov where so: "so = (sec, ov)" by fastforce
  obtain c1 where c1: "override_in su (sec, ov) c = Inr c1" "apply_overrides su sos c1 = Inr c'"
    using Cons.prems(3) by (auto simp: so bindr_def split: sum.splits)
  have sec: "sec \<in> set section_names" using Cons.prems(2) by (simp add: so)
  note e = override_in_effect [OF Cons.prems(1) sec c1(1)]
  have "sections_ok c' \<and> jget c' s k =
      fold (\<lambda>so v. if fst so = s \<and> override_key (snd so) = k then overridden su (snd so) v else v) sos (jget c1 s k)"
    using Cons.IH [OF e(1) _ c1(2)] Cons.prems(2) by simp
  then show ?case unfolding e(2) by (auto simp: so)
qed simp

lemma ensure_object_cases:
  assumes "ensure_object n c = Inr c'"
  shows "c' = c \<and> is_object c \<and> (\<exists>kvs. jfind c n = Some (JObj kvs)) \<or>
    (\<exists>j. is_object j \<and> c' = jput n (JObj []) j \<and> (\<forall>k. jfind j k = jfind c k) \<and> (\<forall>s. jfind c n = Some s \<longrightarrow> \<not> is_object s))"
  using assms
proof (cases c)
  case JNull
  then show ?thesis using assms by (intro disjI2 exI [of _ "JObj []"]) simp
next
  case (JObj kvs)
  show ?thesis
  proof (cases "\<exists>ms. map_of kvs n = Some (JObj ms)")
    case True
    then show ?thesis using assms JObj by auto
  next
    case False
    then have "c' = jput n (JObj []) (JObj kvs)" using assms JObj by (auto split: option.splits json.splits)
    moreover have "\<forall>s. jfind c n = Some s \<longrightarrow> \<not> is_object s" using False JObj by (auto dest: is_objectD)
    ultimately show ?thesis using JObj by (intro disjI2 exI [of _ "JObj kvs"]) simp
  qed
qed auto

lemma not_object_empty: "\<not> is_object s \<Longrightarrow> jfind s k = None"
  by (cases s) auto

lemma ensure_object_effect:
  assumes "ensure_object n c = Inr c'"
  shows "is_object c' \<and> (\<exists>s. jfind c' n = Some s \<and> is_object s) \<and> jget c' s k = jget c s k \<and>
    (\<forall>m s. jfind c m = Some s \<longrightarrow> is_object s \<longrightarrow> (\<exists>s'. jfind c' m = Some s' \<and> is_object s'))"
  using ensure_object_cases [OF assms]
proof (elim disjE exE conjE)
  fix kvs assume "c' = c" "is_object c" "jfind c n = Some (JObj kvs)"
  then show ?thesis by simp
next
  fix j assume j: "is_object j" "c' = jput n (JObj []) j" "\<forall>k. jfind j k = jfind c k" "\<forall>s. jfind c n = Some s \<longrightarrow> \<not> is_object s"
  then have "jget c' s k = jget c s k" by (auto simp: jget_def not_object_empty split: option.split)
  with j show ?thesis by simp
qed

lemma ensure_objects_effect:
  assumes "ensure_objects ms c = Inr c'" "is_object c \<or> ms \<noteq> []"
  shows "is_object c' \<and> (\<forall>n\<in>set ms. \<exists>s. jfind c' n = Some s \<and> is_object s) \<and> jget c' s k = jget c s k \<and>
    (\<forall>m s. jfind c m = Some s \<longrightarrow> is_object s \<longrightarrow> (\<exists>s'. jfind c' m = Some s' \<and> is_object s'))"
  using assms
proof (induction ms arbitrary: c)
  case (Cons m ms)
  obtain c1 where c1: "ensure_object m c = Inr c1" "ensure_objects ms c1 = Inr c'"
    using Cons.prems(1) by (auto simp: bindr_def split: sum.splits)
  note e = ensure_object_effect [OF c1(1)]
  have "is_object c' \<and> (\<forall>n\<in>set ms. \<exists>s. jfind c' n = Some s \<and> is_object s) \<and> jget c' s k = jget c1 s k \<and>
    (\<forall>m s. jfind c1 m = Some s \<longrightarrow> is_object s \<longrightarrow> (\<exists>s'. jfind c' m = Some s' \<and> is_object s'))"
    by (rule Cons.IH [OF c1(2)]) (use e in blast)
  with e show ?case by (metis set_ConsD)
qed auto

lemma fold_if: "fold (\<lambda>x v. if P x then f x v else v) xs v = fold f (filter P xs) v"
  by (induction xs arbitrary: v) auto

lemma apply_overrides_secret:
  assumes "apply_overrides su sos c = Inr c'" "(sec, OSecret k e f) \<in> set sos"
  shows "\<exists>r. readEnvOrSecretFile su e f = Inr r"
  using assms
proof (induction sos arbitrary: c)
  case (Cons so sos)
  then obtain c1 where "override_in su so c = Inr c1" "apply_overrides su sos c1 = Inr c'"
    by (auto simp: bindr_def split: sum.splits)
  with Cons show ?case
    by (auto simp: override_in_def overrideSecretString_def bindr_def split: option.splits sum.splits)
qed simp

text \<open>Every key but one is overridden by one call only.\<close>

definition plain_key :: "override \<Rightarrow> bool" where
  "plain_key ov \<longleftrightarrow> override_key ov \<noteq> ''access_expiration_minutes''"

lemma table_keys_distinct:
  "distinct (map fst override_table)"
  "list_all (\<lambda>(sec, ovs). distinct (map override_key (filter plain_key ovs))) override_table"
  by code_simp+

lemma distinct_table:
  "distinct (map fst t) \<Longrightarrow> list_all (\<lambda>(sec, ovs). distinct (map override_key (filter p ovs))) t \<Longrightarrow>
   distinct (map (\<lambda>so. (fst so, override_key (snd so)))
     (filter (\<lambda>so. p (snd so)) (concat (map (\<lambda>(sec, ovs). map (Pair sec) ovs) t))))"
proof (induction t)
  case (Cons x t)
  obtain sec ovs where x: "x = (sec, ovs)" by fastforce
  let ?f = "\<lambda>so. (fst so, override_key (snd so))" and ?p = "filter (\<lambda>so. p (snd so))"
  let ?xs = "map ?f (?p (map (Pair sec) ovs))" and ?ys = "map ?f (?p (concat (map (\<lambda>(sec, ovs). map (Pair sec) ovs) t)))"
  have "distinct (map override_key (filter p ovs))" using Cons.prems(2) by (simp add: x)
  moreover have "?xs = map (Pair sec) (map override_key (filter p ovs))"
    by (induction ovs) auto
  ultimately have "distinct ?xs" by (simp add: distinct_map inj_on_def)
  moreover have "distinct ?ys" using Cons by (simp add: x)
  moreover have "set ?xs \<subseteq> {sec} \<times> UNIV" "set ?ys \<subseteq> fst ` set t \<times> UNIV" "sec \<notin> fst ` set t"
    using Cons.prems(1) by (auto simp: x intro: rev_image_eqI)
  then have "set ?xs \<inter> set ?ys = {}" by blast
  ultimately have "distinct (?xs @ ?ys)" by (simp only: distinct_append)
  then show ?case by (simp add: x)
qed simp

lemma filter_key: "distinct (map f ys) \<Longrightarrow> y \<in> set ys \<Longrightarrow> filter (\<lambda>x. f x = f y) ys = [y]"
  by (induction ys) (auto simp: filter_empty_conv image_iff)

lemma single_override:
  assumes "(sec, ov) \<in> set env_overrides" "plain_key ov"
  shows "filter (\<lambda>so. fst so = sec \<and> override_key (snd so) = override_key ov) env_overrides = [(sec, ov)]"
proof -
  let ?f = "\<lambda>so. (fst so, override_key (snd so))"
  have "distinct (map ?f (filter (\<lambda>so. plain_key (snd so)) env_overrides))"
    using distinct_table [OF table_keys_distinct] by (simp add: env_overrides_def)
  then have "filter (\<lambda>so. ?f so = ?f (sec, ov)) (filter (\<lambda>so. plain_key (snd so)) env_overrides) = [(sec, ov)]"
    using assms by (intro filter_key) simp_all
  moreover have "filter (\<lambda>so. fst so = sec \<and> override_key (snd so) = override_key ov) env_overrides =
      filter (\<lambda>so. ?f so = ?f (sec, ov)) (filter (\<lambda>so. plain_key (snd so)) env_overrides)"
    unfolding filter_filter using assms(2) by (intro filter_cong) (auto simp: plain_key_def)
  ultimately show ?thesis by simp
qed

lemma overrides_effect:
  assumes "applyEnvOverrides su config = Inr c"
  shows "sections_ok c \<and>
    (\<forall>(sec, ov)\<in>set env_overrides. override_key ov \<noteq> ''access_expiration_minutes'' \<longrightarrow>
       jget c sec (override_key ov) = (case setting su ov of Some v \<Rightarrow> Some v | None \<Rightarrow> jget config sec (override_key ov))) \<and>
    jget c ''jwt'' ''access_expiration_minutes'' = overridden su OLegacyHours
      (overridden su (OInt ''access_expiration_minutes'' ''JWT_ACCESS_EXPIRATION_MINUTES'') (jget config ''jwt'' ''access_expiration_minutes'')) \<and>
    (\<forall>(sec, ov)\<in>set env_overrides. case ov of OSecret k e f \<Rightarrow> \<exists>r. readEnvOrSecretFile su e f = Inr r | _ \<Rightarrow> True) \<and>
    (\<forall>sec key. (sec, key) \<notin> (\<lambda>so. (fst so, override_key (snd so))) ` set env_overrides \<longrightarrow> jget c sec key = jget config sec key)"
proof -
  obtain c1 where c1: "ensure_objects section_names config = Inr c1" "apply_overrides su env_overrides c1 = Inr c"
    using assms by (auto simp: applyEnvOverrides_def bindr_def split: sum.splits)
  have e: "is_object c1 \<and> (\<forall>n\<in>set section_names. \<exists>s. jfind c1 n = Some s \<and> is_object s)" "jget c1 s k = jget config s k" for s k
    using ensure_objects_effect [OF c1(1)] by (auto simp: section_names_def)
  then have ok: "sections_ok c1" by (fastforce simp: sections_ok_def list_all_iff)
  have "list_all (\<lambda>(sec, ovs). sec \<in> set section_names) override_table" by code_simp
  then have "list_all (\<lambda>so. fst so \<in> set section_names) env_overrides" by (auto simp: env_overrides_def list_all_iff)
  note f = apply_overrides_effect [OF ok this c1(2), unfolded fold_if e(2)]
  have "jget c sec (override_key ov) = overridden su ov (jget config sec (override_key ov))"
    if "(sec, ov) \<in> set env_overrides" "override_key ov \<noteq> ''access_expiration_minutes''" for sec ov
    using f [of sec "override_key ov"] single_override [OF that(1)] that(2) by (simp add: plain_key_def)
  moreover have "overridden su ov v = (case setting su ov of Some v \<Rightarrow> Some v | None \<Rightarrow> v)"
    if "override_key ov \<noteq> ''access_expiration_minutes''" for ov v
    using that by (cases ov) (simp_all add: overridden_def)
  moreover have "jget c sec key = jget config sec key"
    if "(sec, key) \<notin> (\<lambda>so. (fst so, override_key (snd so))) ` set env_overrides" for sec key
  proof -
    have "filter (\<lambda>so. fst so = sec \<and> override_key (snd so) = key) env_overrides = []"
      using that by (auto simp: filter_empty_conv)
    then show ?thesis using f [of sec key] by simp
  qed
  moreover have "filter (\<lambda>so. fst so = ''jwt'' \<and> override_key (snd so) = ''access_expiration_minutes'') env_overrides =
      [(''jwt'', OInt ''access_expiration_minutes'' ''JWT_ACCESS_EXPIRATION_MINUTES''), (''jwt'', OLegacyHours)]"
    by code_simp
  then have "jget c ''jwt'' ''access_expiration_minutes'' = overridden su OLegacyHours
      (overridden su (OInt ''access_expiration_minutes'' ''JWT_ACCESS_EXPIRATION_MINUTES'') (jget config ''jwt'' ''access_expiration_minutes''))"
    using f [of "''jwt''" "''access_expiration_minutes''"] by simp
  moreover have "\<exists>r. readEnvOrSecretFile su e f = Inr r" if "(sec, OSecret k e f) \<in> set env_overrides" for sec k e f
    using apply_overrides_secret [OF c1(2) that] .
  then have "\<forall>(sec, ov)\<in>set env_overrides. case ov of OSecret k e f \<Rightarrow> \<exists>r. readEnvOrSecretFile su e f = Inr r | _ \<Rightarrow> True"
    by (auto split: override.split)
  ultimately show ?thesis using f by (auto simp: case_prod_beta)
qed

section \<open>Which variable overrides which key\<close>

text \<open>
  The names follow a rule: the prefix of the section, an underscore, and the key in capitals; only
  the name of the database has a variable of its own name.
\<close>

definition upper :: "string \<Rightarrow> string" where
  "upper s = map (\<lambda>c. case map_of (zip ''abcdefghijklmnopqrstuvwxyz'' ''ABCDEFGHIJKLMNOPQRSTUVWXYZ'') c of
     Some d \<Rightarrow> d | None \<Rightarrow> c) s"

definition variable_of :: "string \<Rightarrow> string \<Rightarrow> string" where
  "variable_of sec key = (if sec = ''database'' \<and> key = ''database'' then ''DB_NAME''
     else (if sec = ''server'' then ''BACKEND'' else if sec = ''database'' then ''DB'' else upper sec) @ ''_'' @ upper key)"

definition text_keys :: "(string \<times> string) list" where
  "text_keys = [(''redis'', ''host''), (''redis'', ''task_queue_key''), (''redis'', ''lease_key_prefix''),
     (''cache'', ''host''), (''cache'', ''key_prefix''), (''rate_limit'', ''key_prefix''), (''server'', ''host''),
     (''database'', ''host''), (''database'', ''username''), (''database'', ''database''), (''python_service'', ''url''),
     (''task_engine'', ''worker_prefix''), (''storage'', ''root_dir''), (''storage'', ''public_url_prefix''),
     (''storage'', ''extension''), (''minio'', ''endpoint''), (''minio'', ''access_key''), (''minio'', ''bucket''),
     (''minio'', ''region'')]"

definition secret_keys :: "(string \<times> string) list" where
  "secret_keys = [(''redis'', ''password''), (''cache'', ''password''), (''database'', ''password''), (''jwt'', ''secret''),
     (''minio'', ''secret_key'')]"

definition number_keys :: "(string \<times> string) list" where
  "number_keys = concat (map (\<lambda>(sec, keys). map (Pair sec) keys)
     [(''redis'', [''port'', ''db'', ''pool_size'', ''connect_timeout_ms'', ''socket_timeout_ms'']),
      (''cache'', [''port'', ''db'', ''pool_size'', ''connect_timeout_ms'', ''socket_timeout_ms'', ''version_key_ttl_seconds'']),
      (''rate_limit'', [''max_active_tasks_per_user'', ''user_create_capacity'', ''user_create_window_seconds'',
         ''auth_ip_capacity'', ''auth_ip_window_seconds'']),
      (''server'', [''port'', ''threads'']), (''database'', [''port'', ''pool_size'']), (''jwt'', [''refresh_expiration_days'']),
      (''python_service'', [''timeout_seconds'']),
      (''task_engine'', [''workers'', ''poll_interval_ms'', ''lease_seconds'', ''max_retries'']),
      (''minio'', [''presign_expiry_seconds''])])"

definition flag_keys :: "(string \<times> string) list" where
  "flag_keys = [(''redis'', ''enabled''), (''cache'', ''enabled''), (''rate_limit'', ''enabled''), (''rate_limit'', ''fail_open''),
     (''rate_limit'', ''trust_proxy''), (''cors'', ''enabled''), (''database'', ''ssl'')]"

definition special_keys :: "(string \<times> string) list" where
  "special_keys = [(''cors'', ''allow_origins''), (''jwt'', ''access_expiration_minutes'')]"

text \<open>What the surroundings give for a variable: a text that is not empty; for a secret, the content of
  the file named by the variable for it, without the line ends behind it.\<close>

definition given_text :: "surroundings \<Rightarrow> string \<Rightarrow> string option" where
  "given_text su v = (case su_env su v of Some (c # t) \<Rightarrow> Some (c # t) | _ \<Rightarrow> None)"

definition given_secret :: "surroundings \<Rightarrow> string \<Rightarrow> string option" where
  "given_secret su v = (case given_text su (v @ ''_FILE'') of
      Some path \<Rightarrow> map_option (\<lambda>t. rev (dropWhile (\<lambda>c. c \<in> {char_of (10 :: nat), char_of (13 :: nat)}) (rev t))) (su_files su path)
    | None \<Rightarrow> given_text su v)"

definition given_number :: "surroundings \<Rightarrow> string \<Rightarrow> int option" where
  "given_number su v = (case given_text su v of None \<Rightarrow> None
     | Some t \<Rightarrow> (case stoi t of Inl _ \<Rightarrow> None | Inr n \<Rightarrow> Some n))"

definition or_else :: "json option \<Rightarrow> json option \<Rightarrow> json option" where
  "or_else a b = (case a of Some v \<Rightarrow> Some v | None \<Rightarrow> b)"

lemma given_readEnv: "readEnv su v = given_text su v"
  by (auto simp: readEnv_def given_text_def split: option.split list.split)

lemma given_setting:
  "setting su (OString k v) = map_option JStr (given_text su v)"
  "setting su (OInt k v) = map_option JInt (given_number su v)"
  "setting su (OBool k v) = map_option JBool (Option.bind (given_text su v) parseBool)"
  "setting su (OList k v) = map_option (\<lambda>t. JArr (map JStr (parseCsvList t))) (given_text su v)"
  by (auto simp: given_readEnv given_number_def split: option.split sum.split)

lemma given_secret_setting:
  "\<exists>r. readEnvOrSecretFile su v (v @ ''_FILE'') = Inr r \<Longrightarrow> setting su (OSecret k v (v @ ''_FILE'')) = map_option JStr (given_secret su v)"
  by (auto simp: readEnvOrSecretFile_def readSecretFile_def given_secret_def given_readEnv bindr_def Let_def
      split: option.splits if_splits)

text \<open>The table of the overrides is the one that the rule describes, kind by kind.\<close>

lemma text_entries:
  "List.map_filter (\<lambda>(sec, ov). case ov of OString k v \<Rightarrow> Some (sec, k, v) | _ \<Rightarrow> None) env_overrides =
     map (\<lambda>(sec, k). (sec, k, variable_of sec k)) text_keys"
  by code_simp

lemma secret_entries:
  "List.map_filter (\<lambda>(sec, ov). case ov of OSecret k v f \<Rightarrow> Some (sec, k, v, f) | _ \<Rightarrow> None) env_overrides =
     map (\<lambda>(sec, k). (sec, k, variable_of sec k, variable_of sec k @ ''_FILE'')) secret_keys"
  by code_simp

lemma number_entries:
  "List.map_filter (\<lambda>(sec, ov). case ov of OInt k v \<Rightarrow> if k = ''access_expiration_minutes'' then None else Some (sec, k, v)
     | _ \<Rightarrow> None) env_overrides = map (\<lambda>(sec, k). (sec, k, variable_of sec k)) number_keys"
  by code_simp

lemma flag_entries:
  "List.map_filter (\<lambda>(sec, ov). case ov of OBool k v \<Rightarrow> Some (sec, k, v) | _ \<Rightarrow> None) env_overrides =
     map (\<lambda>(sec, k). (sec, k, variable_of sec k)) flag_keys"
  by code_simp

lemma list_entries:
  "List.map_filter (\<lambda>(sec, ov). case ov of OList k v \<Rightarrow> Some (sec, k, v) | _ \<Rightarrow> None) env_overrides =
     [(''cors'', ''allow_origins'', ''CORS_ALLOW_ORIGINS'')]"
  by code_simp

lemma minutes_entries:
  "List.map_filter (\<lambda>(sec, ov). if override_key ov = ''access_expiration_minutes'' then Some sec else None) env_overrides =
     [''jwt'', ''jwt'']"
  by code_simp

lemma in_map_filter: "List.map_filter f xs = ys \<Longrightarrow> y \<in> set ys \<Longrightarrow> \<exists>x\<in>set xs. f x = Some y"
  by (force simp: List.map_filter_def)

lemma text_entry: "(sec, k) \<in> set text_keys \<Longrightarrow> (sec, OString k (variable_of sec k)) \<in> set env_overrides"
  using in_map_filter [OF text_entries, of "(sec, k, variable_of sec k)"] by (force split: override.splits)

lemma secret_entry: "(sec, k) \<in> set secret_keys \<Longrightarrow> (sec, OSecret k (variable_of sec k) (variable_of sec k @ ''_FILE'')) \<in> set env_overrides"
  using in_map_filter [OF secret_entries, of "(sec, k, variable_of sec k, variable_of sec k @ ''_FILE'')"] by (force split: override.splits)

lemma number_entry: "(sec, k) \<in> set number_keys \<Longrightarrow> (sec, OInt k (variable_of sec k)) \<in> set env_overrides \<and> k \<noteq> ''access_expiration_minutes''"
  using in_map_filter [OF number_entries, of "(sec, k, variable_of sec k)"] by (force split: override.splits if_splits)

lemma flag_entry: "(sec, k) \<in> set flag_keys \<Longrightarrow> (sec, OBool k (variable_of sec k)) \<in> set env_overrides"
  using in_map_filter [OF flag_entries, of "(sec, k, variable_of sec k)"] by (force split: override.splits)

lemma list_entry: "(''cors'', OList ''allow_origins'' ''CORS_ALLOW_ORIGINS'') \<in> set env_overrides"
  using in_map_filter [OF list_entries, of "(''cors'', ''allow_origins'', ''CORS_ALLOW_ORIGINS'')"] by (force split: override.splits)

lemma map_filter_has: "List.map_filter f xs = ys \<Longrightarrow> x \<in> set xs \<Longrightarrow> f x = Some y \<Longrightarrow> y \<in> set ys"
  by (force simp: List.map_filter_def)

lemma covered_keys:
  assumes "(sec, ov) \<in> set env_overrides"
  shows "(sec, override_key ov) \<in> set (text_keys @ secret_keys @ number_keys @ flag_keys @ special_keys)"
proof (cases "override_key ov = ''access_expiration_minutes''")
  case True
  then have "sec \<in> set [''jwt'', ''jwt'']" using map_filter_has [OF minutes_entries assms, of sec] by simp
  with True show ?thesis by (simp add: special_keys_def)
next
  case False
  then show ?thesis
  proof (cases ov)
    case (OString k v)
    then show ?thesis using map_filter_has [OF text_entries assms, of "(sec, k, v)"] by auto
  next
    case (OSecret k v f)
    then show ?thesis using map_filter_has [OF secret_entries assms, of "(sec, k, v, f)"] by auto
  next
    case (OInt k v)
    then show ?thesis using False map_filter_has [OF number_entries assms, of "(sec, k, v)"] by auto
  next
    case (OBool k v)
    then show ?thesis using map_filter_has [OF flag_entries assms, of "(sec, k, v)"] by auto
  next
    case (OList k v)
    then show ?thesis using map_filter_has [OF list_entries assms, of "(sec, k, v)"] by (auto simp: special_keys_def)
  qed (use False in simp)
qed

lemma plain_keys:
  "list_all (\<lambda>(sec, k). k \<noteq> ''access_expiration_minutes'') (text_keys @ secret_keys @ flag_keys)"
  by code_simp

lemma uncovered_key:
  assumes "(sec, key) \<notin> set (text_keys @ secret_keys @ number_keys @ flag_keys @ special_keys)"
  shows "(sec, key) \<notin> (\<lambda>so. (fst so, override_key (snd so))) ` set env_overrides"
proof
  assume "(sec, key) \<in> (\<lambda>so. (fst so, override_key (snd so))) ` set env_overrides"
  then obtain so where "so \<in> set env_overrides" "(sec, key) = (fst so, override_key (snd so))" by blast
  with covered_keys [of "fst so" "snd so"] assms show False by simp
qed

lemma minutes_or_hours:
  "overridden su OLegacyHours (overridden su (OInt k v) old) = or_else (map_option JInt (given_number su v))
     (or_else old (map_option (\<lambda>n. JInt (max 1 (int32_of (n * 60)))) (given_number su ''JWT_EXPIRATION_HOURS'')))"
  by (auto simp: overridden_def or_else_def given_readEnv given_number_def split: option.splits sum.splits)

text \<open>
  C39: in the configuration of the program every section is an object. Each of the
  texts, secrets, numbers, flags and the list of origins has the value of its variable (named by the
  rule) where that is given and readable, a secret that of its file where one is named, and the value
  of the file otherwise. The minutes of an access token come from their variable, else from the file,
  else from the older variable for hours. All other keys are those of the file.
\<close>

theorem environment_wins:
  assumes "applyEnvOverrides su config = Inr c"
  shows "sections_ok c \<and>
    (\<forall>(sec, key)\<in>set text_keys. jget c sec key =
       or_else (map_option JStr (given_text su (variable_of sec key))) (jget config sec key)) \<and>
    (\<forall>(sec, key)\<in>set secret_keys. jget c sec key =
       or_else (map_option JStr (given_secret su (variable_of sec key))) (jget config sec key)) \<and>
    (\<forall>(sec, key)\<in>set number_keys. jget c sec key =
       or_else (map_option JInt (given_number su (variable_of sec key))) (jget config sec key)) \<and>
    (\<forall>(sec, key)\<in>set flag_keys. jget c sec key =
       or_else (map_option JBool (Option.bind (given_text su (variable_of sec key)) parseBool)) (jget config sec key)) \<and>
    jget c ''cors'' ''allow_origins'' = or_else (map_option (\<lambda>t. JArr (map JStr (parseCsvList t))) (given_text su ''CORS_ALLOW_ORIGINS''))
       (jget config ''cors'' ''allow_origins'') \<and>
    jget c ''jwt'' ''access_expiration_minutes'' =
       or_else (map_option JInt (given_number su ''JWT_ACCESS_EXPIRATION_MINUTES''))
         (or_else (jget config ''jwt'' ''access_expiration_minutes'')
           (map_option (\<lambda>n. JInt (max 1 (int32_of (n * 60)))) (given_number su ''JWT_EXPIRATION_HOURS''))) \<and>
    (\<forall>sec key. (sec, key) \<notin> set (text_keys @ secret_keys @ number_keys @ flag_keys @ special_keys) \<longrightarrow> jget c sec key = jget config sec key)"
proof -
  note e = overrides_effect [OF assms]
  have at: "jget c sec (override_key ov) = or_else (setting su ov) (jget config sec (override_key ov))"
    if "(sec, ov) \<in> set env_overrides" "override_key ov \<noteq> ''access_expiration_minutes''" for sec ov
    using e that unfolding or_else_def by blast
  have keys: "k \<noteq> ''access_expiration_minutes''" if "(sec, k) \<in> set text_keys \<union> set secret_keys \<union> set flag_keys" for sec k
    using plain_keys that by (auto simp: list_all_iff)
  have "jget c sec k = or_else (map_option JStr (given_text su (variable_of sec k))) (jget config sec k)"
    if "(sec, k) \<in> set text_keys" for sec k
    using at [OF text_entry [OF that]] keys [of sec k] that by (simp add: given_setting del: setting.simps)
  moreover have "jget c sec k = or_else (map_option JStr (given_secret su (variable_of sec k))) (jget config sec k)"
    if "(sec, k) \<in> set secret_keys" for sec k
  proof -
    have "\<exists>r. readEnvOrSecretFile su (variable_of sec k) (variable_of sec k @ ''_FILE'') = Inr r"
      using e secret_entry [OF that] by fastforce
    from given_secret_setting [OF this, of k] at [OF secret_entry [OF that]] keys [of sec k] that
    show ?thesis by (simp del: setting.simps)
  qed
  moreover have "jget c sec k = or_else (map_option JInt (given_number su (variable_of sec k))) (jget config sec k)"
    if "(sec, k) \<in> set number_keys" for sec k
    using at [of sec "OInt k (variable_of sec k)"] number_entry [OF that] by (simp add: given_setting del: setting.simps)
  moreover have "jget c sec k = or_else (map_option JBool (Option.bind (given_text su (variable_of sec k)) parseBool)) (jget config sec k)"
    if "(sec, k) \<in> set flag_keys" for sec k
    using at [OF flag_entry [OF that]] keys [of sec k] that by (simp add: given_setting del: setting.simps)
  moreover have "jget c ''cors'' ''allow_origins'' =
      or_else (map_option (\<lambda>t. JArr (map JStr (parseCsvList t))) (given_text su ''CORS_ALLOW_ORIGINS'')) (jget config ''cors'' ''allow_origins'')"
    using at [OF list_entry] by (simp add: given_setting del: setting.simps)
  moreover have "jget c sec key = jget config sec key"
    if "(sec, key) \<notin> set (text_keys @ secret_keys @ number_keys @ flag_keys @ special_keys)" for sec key
    using e uncovered_key [OF that] by blast
  ultimately show ?thesis using e minutes_or_hours by (intro conjI) (simp_all only: case_prod_beta fst_conv snd_conv, (blast | auto)+)
qed

definition demo_surroundings :: surroundings where
  "demo_surroundings = \<lparr>su_env = [''DB_PORT'' \<mapsto> ''3306'', ''JWT_SECRET_FILE'' \<mapsto> ''/run/secret'', ''CORS_ALLOW_ORIGINS'' \<mapsto> '' a, ,b'',
       ''JWT_EXPIRATION_HOURS'' \<mapsto> ''2''],
     su_files = [''/run/secret'' \<mapsto> ''s3cret'' @ [char_of (10 :: nat)]], su_cwd = ''/srv'', su_exe = Some ''/opt/app/backend''\<rparr>"

definition demo_file :: json where
  "demo_file = JObj [(''database'', JObj [(''port'', JInt 1), (''host'', JStr ''db'')])]"

theorem environment_wins_witness:
  "\<exists>c. applyEnvOverrides demo_surroundings demo_file = Inr c \<and> jget c ''database'' ''port'' = Some (JInt 3306) \<and>
     jget c ''jwt'' ''secret'' = Some (JStr ''s3cret'') \<and> jget c ''jwt'' ''access_expiration_minutes'' = Some (JInt 120) \<and>
     jget c ''database'' ''zone'' = None"
proof -
  have "case applyEnvOverrides demo_surroundings demo_file of Inl _ \<Rightarrow> False | Inr _ \<Rightarrow> True" by code_simp
  then obtain c where c: "applyEnvOverrides demo_surroundings demo_file = Inr c" by (auto split: sum.splits)
  note w = environment_wins [OF c]
  have "or_else (map_option JInt (given_number demo_surroundings (variable_of ''database'' ''port''))) (jget demo_file ''database'' ''port'') = Some (JInt 3306)"
    "or_else (map_option JStr (given_secret demo_surroundings (variable_of ''jwt'' ''secret''))) (jget demo_file ''jwt'' ''secret'') = Some (JStr ''s3cret'')"
    "or_else (map_option JInt (given_number demo_surroundings ''JWT_ACCESS_EXPIRATION_MINUTES''))
       (or_else (jget demo_file ''jwt'' ''access_expiration_minutes'')
         (map_option (\<lambda>n. JInt (max 1 (int32_of (n * 60)))) (given_number demo_surroundings ''JWT_EXPIRATION_HOURS''))) = Some (JInt 120)"
    "jget demo_file ''database'' ''zone'' = None"
    "(''database'', ''port'') \<in> set number_keys" "(''jwt'', ''secret'') \<in> set secret_keys"
    "(''database'', ''zone'') \<notin> set (text_keys @ secret_keys @ number_keys @ flag_keys @ special_keys)"
    by code_simp+
  with w c show ?thesis by fastforce
qed

end
