(* ===== verification/Startup.thy ===== *)
theory Startup
  imports Config Image_Service Image_Repo_Correct
begin

text \<open>
  \<open>Backend/src/main.cpp\<close>: what the program does before it serves. A stage that may fail without
  harm is caught and logged; the stages that must not fail end the program with status 1. The
  handlers that main registers with the web framework are functions of a request: the identifier
  of a request, the answers to a health probe and the headers of cross-origin requests.
\<close>

section \<open>Checks of the configuration\<close>

definition isProductionEnvironment :: "surroundings \<Rightarrow> bool" where
  "isProductionEnvironment su = (case readEnv su ''ENV'' of None \<Rightarrow> False | Some env \<Rightarrow> lower env = ''production'')"

definition isLocalCorsOrigin :: "string \<Rightarrow> bool" where
  "isLocalCorsOrigin origin = (let normalized = lower origin in
     contains_str normalized ''localhost'' \<or> contains_str normalized ''127.0.0.1'' \<or>
     contains_str normalized ''[::1]'' \<or> contains_str normalized ''0.0.0.0'')"

fun as_strings :: "json list \<Rightarrow> exn + string list" where
  "as_strings [] = Inr []"
| "as_strings (j # js) = bindr (as_string j) (\<lambda>s. bindr (as_strings js) (\<lambda>ss. Inr (s # ss)))"

fun as_string_list :: "json \<Rightarrow> exn + string list" where
  "as_string_list (JArr js) = as_strings js"
| "as_string_list _ = Inl type_error"

text \<open>\<open>config.at(key)\<close>.\<close>

definition json_at :: "json \<Rightarrow> string \<Rightarrow> exn + json" where
  "json_at j key = (if is_object j then
      (case jfind j key of None \<Rightarrow> Inl (StdExn ''out_of_range'') | Some v \<Rightarrow> Inr v) else Inl type_error)"

definition validateProductionCors :: "surroundings \<Rightarrow> json \<Rightarrow> exn + unit" where
  "validateProductionCors su config = (case jfind config ''cors'' of
      None \<Rightarrow> Inr ()
    | Some cors \<Rightarrow>
        if \<not> isProductionEnvironment su \<or> \<not> is_object cors then Inr ()
        else bindr (jvalue as_bool cors ''enabled'' False) (\<lambda>enabled.
          if \<not> enabled then Inr ()
          else bindr (jvalue as_string_list cors ''allow_origins'' []) (\<lambda>origins.
            let unsafeOrigins = filter (\<lambda>origin. origin = ''*'' \<or> isLocalCorsOrigin origin) origins in
            if unsafeOrigins \<noteq> [] then
              Inl (StdExn (''CORS allow_origins contains unsafe production origins:'' @
                concat (map (\<lambda>origin. '' '' @ origin) unsafeOrigins)))
            else Inr ())))"

definition insecureSecrets :: "string list" where
  "insecureSecrets = [[], ''CHANGE_ME'', ''CHANGE_ME_JWT_SECRET'', ''change-me-via-JWT_SECRET'', ''development-secret-change-me'']"

definition jwt_secret_ok :: "json \<Rightarrow> exn + bool" where
  "jwt_secret_ok config = bindr (json_at config ''jwt'') (\<lambda>jwt.
     bindr (jvalue as_string jwt ''secret'' []) (\<lambda>jwtSecret. Inr (jwtSecret \<notin> set insecureSecrets)))"

section \<open>The state that main sets up\<close>

datatype any_cache = NullCache | RedisCache redis_cache

definition any_op :: "'a \<Rightarrow> (redis_cache \<Rightarrow> 'a \<times> redis_cache) \<Rightarrow> any_cache \<Rightarrow> 'a \<times> any_cache" where
  "any_op d f c = (case c of NullCache \<Rightarrow> (d, NullCache)
     | RedisCache r \<Rightarrow> (case f r of (x, r') \<Rightarrow> (x, RedisCache r')))"

definition any_cache_if :: "any_cache cache_if" where
  "any_cache_if = \<lparr>ci_isAvailable = (\<lambda>c. case c of NullCache \<Rightarrow> False | RedisCache r \<Rightarrow> ca_available r),
     ci_get = (\<lambda>key. any_op None (cache_get key)), ci_setex = (\<lambda>key v ttl. any_op False (cache_setex key v ttl)),
     ci_del = (\<lambda>key. any_op False (cache_del key)), ci_bumpVersion = (\<lambda>nsp i. any_op None (cache_bumpVersion nsp i)),
     ci_getVersion = (\<lambda>nsp i. any_op 0 (cache_getVersion nsp i))\<rparr>"

type_synonym main_cache = "any_cache \<times> cache_metrics"

record boot_state =
  bt_world :: "main_cache world"
  bt_db :: db_manager
  bt_limits :: "rate_config \<times> any_limiter"
  bt_presign_ttl :: int
  bt_cache_server :: redis_server
  bt_limit_server :: bucket_server

definition on_boot_world :: "(main_cache world, 'a) prog \<Rightarrow> (boot_state, 'a) prog" where
  "on_boot_world m b = (case m (bt_world b) of (r, w) \<Rightarrow> (r, b\<lparr>bt_world := w\<rparr>))"

definition on_boot_db :: "(db_manager, 'a) prog \<Rightarrow> (boot_state, 'a) prog" where
  "on_boot_db m b = (case m (bt_db b) of (r, d) \<Rightarrow> (r, b\<lparr>bt_db := d\<rparr>))"

definition modify :: "('s \<Rightarrow> 's) \<Rightarrow> ('s, unit) prog" where
  "modify f s = (Inr (), f s)"

section \<open>The stages\<close>

text \<open>Each stage is under its own \<open>try\<close>.\<close>

definition boot_redis :: "json \<Rightarrow> (boot_state, unit) prog" where
  "boot_redis config = catch_std (case jfind config ''redis'' of
      None \<Rightarrow> ret ()
    | Some r \<Rightarrow> if \<not> is_object r then ret ()
        else bindp (lift_sum (parseRedisConfig r)) (\<lambda>redisConfig.
          if rc_enabled redisConfig
          then on_boot_world (bindp (on_redis (\<lambda>c. (Inr (), redis_init redisConfig c))) (\<lambda>_. bindp (on_redis redis_ping) (\<lambda>_. ret ())))
          else ret ())) (\<lambda>_. ret ())"

definition boot_limiter :: "json \<Rightarrow> (boot_state, unit) prog" where
  "boot_limiter config b = (case configureDefaultRateLimiter config (bt_limit_server b) of
      Inl e \<Rightarrow> if is_std_exn e then (Inr (), b) else (Inl e, b)
    | Inr l \<Rightarrow> (Inr (), b\<lparr>bt_limits := l\<rparr>))"

definition choose_cache :: "json \<Rightarrow> redis_server \<Rightarrow> any_cache" where
  "choose_cache config server = (case jfind config ''cache'' of
      None \<Rightarrow> NullCache
    | Some c \<Rightarrow> if \<not> is_object c then NullCache
        else (case parseCacheConfig c of
            Inl e \<Rightarrow> NullCache
          | Inr cacheConfig \<Rightarrow> if cc_enabled cacheConfig then RedisCache (redis_cache_new cacheConfig server) else NullCache))"

definition boot_cache :: "json \<Rightarrow> (boot_state, unit) prog" where
  "boot_cache config = modify (\<lambda>b. b\<lparr>bt_world := (bt_world b)\<lparr>w_cache :=
     (choose_cache config (bt_cache_server b), new_cache_metrics)\<rparr>\<rparr>)"

text \<open>The capacity of the pool, which only is reported.\<close>

definition boot_pool :: "json \<Rightarrow> mysql_config \<Rightarrow> (boot_state, int) prog" where
  "boot_pool config mysqlConfig =
     bindp (lift_sum (bindr (json_at config ''task_engine'') (\<lambda>t. jvalue as_int32 t ''workers'' 2))) (\<lambda>workers.
     bindp (lift_sum (bindr (json_at config ''server'') (\<lambda>s. jvalue as_int32 s ''threads'' 1))) (\<lambda>threads.
     bindp (on_boot_world (on_metrics (\<lambda>r. setDbPoolStats 0 (my_pool_size mysqlConfig) (setDbPoolCapacity (my_pool_size mysqlConfig) r)))) (\<lambda>_.
     ret (threads + max 0 workers + 1))))"

definition boot_database :: "(main_cache, 'x) externals_scheme \<Rightarrow> mysql_config \<Rightarrow> (boot_state, unit) prog" where
  "boot_database x mysqlConfig = catch_std
     (bindp (on_boot_db (db_init mysqlConfig)) (\<lambda>_. on_boot_world (bootstrapWorkers x))) (\<lambda>_. ret ())"

definition kMinioMaxAttempts :: nat where "kMinioMaxAttempts = 10"
definition kMinioRetryDelay :: int where "kMinioRetryDelay = 2"

text \<open>The loop that waits for the object store: the bucket is ready, or every attempt was used;
  the time slept in between is returned with the result.\<close>

fun wait_for_bucket :: "nat \<Rightarrow> object_store \<Rightarrow> (bool \<times> int) \<times> object_store" where
  "wait_for_bucket 0 s = ((False, 0), s)"
| "wait_for_bucket (Suc left) s = (case ensureBucketExists s of
      (True, s') \<Rightarrow> ((True, 0), s')
    | (False, s') \<Rightarrow> if left = 0 then ((False, 0), s')
        else (case wait_for_bucket left s' of ((up, slept), s'') \<Rightarrow> ((up, kMinioRetryDelay + slept), s'')))"

definition boot_minio_config :: "json \<Rightarrow> exn + minio_config" where
  "boot_minio_config m =
     bindr (jvalue as_string m ''endpoint'' ''http://localhost:9000'') (\<lambda>endpoint.
     bindr (jvalue as_string m ''access_key'' []) (\<lambda>access_key.
     bindr (jvalue as_string m ''secret_key'' []) (\<lambda>secret_key.
     bindr (jvalue as_string m ''bucket'' ''zimage'') (\<lambda>bucket.
     bindr (jvalue as_string m ''region'' ''us-east-1'') (\<lambda>region.
     Inr (default_minio_config\<lparr>mc_endpoint := endpoint, mc_access_key := access_key, mc_secret_key := secret_key,
       mc_bucket := bucket, mc_region := region\<rparr>))))))"

definition boot_minio :: "(string \<Rightarrow> string option) \<Rightarrow> json \<Rightarrow> (boot_state, unit) prog" where
  "boot_minio url_path config = catch_std
     (bindp (lift_sum (json_at config ''minio'')) (\<lambda>m.
      bindp (lift_sum (jvalue as_int32 m ''presign_expiry_seconds'' 3600)) (\<lambda>presignExpiry.
      bindp (modify (\<lambda>b. b\<lparr>bt_presign_ttl := derivePresignTtl presignExpiry\<rparr>)) (\<lambda>_.
      bindp (lift_sum (bindr (boot_minio_config m) (minio_new url_path))) (\<lambda>_.
      on_boot_world (on_objects (\<lambda>s. case wait_for_bucket kMinioMaxAttempts s of (r, s') \<Rightarrow> (Inr (), s'))))))))
     (\<lambda>_. ret ())"

section \<open>Cross-origin requests\<close>

record cors_config =
  co_allow_all :: bool
  co_origins :: "string list"
  co_methods :: string
  co_headers :: string

fun joinHeaderList :: "string list \<Rightarrow> string" where
  "joinHeaderList [] = []"
| "joinHeaderList [v] = v"
| "joinHeaderList (v # vs) = v @ '', '' @ joinHeaderList vs"

definition cors_setup :: "json \<Rightarrow> exn + cors_config option" where
  "cors_setup config = (case jfind config ''cors'' of
      None \<Rightarrow> Inr None
    | Some cors \<Rightarrow> bindr (jvalue as_bool cors ''enabled'' False) (\<lambda>enabled.
        if \<not> enabled then Inr None
        else
          bindr (jvalue as_string_list cors ''allow_origins'' []) (\<lambda>origins.
          bindr (jvalue as_string_list cors ''allow_methods'' [''GET'', ''POST'', ''PUT'', ''DELETE'', ''OPTIONS'']) (\<lambda>methods.
          bindr (jvalue as_string_list cors ''allow_headers'' [''Content-Type'', ''Authorization'', ''X-Request-Id'']) (\<lambda>headers.
          Inr (Some \<lparr>co_allow_all = (''*'' \<in> set origins), co_origins = origins, co_methods = joinHeaderList methods,
            co_headers = joinHeaderList headers\<rparr>))))))"

text \<open>The headers that admit an origin, shared by both handlers.\<close>

definition allow_headers :: "cors_config \<Rightarrow> string \<Rightarrow> (string \<times> string) list" where
  "allow_headers c origin =
     [(''Access-Control-Allow-Origin'', if co_allow_all c then ''*'' else origin),
      (''Access-Control-Allow-Methods'', co_methods c), (''Access-Control-Allow-Headers'', co_headers c)]"

definition cors_admits :: "cors_config \<Rightarrow> string \<Rightarrow> bool" where
  "cors_admits c origin \<longleftrightarrow> origin \<noteq> [] \<and> (co_allow_all c \<or> origin \<in> set (co_origins c))"

text \<open>The answer to a preflight request, status 204; other methods pass on.\<close>

definition cors_preflight :: "cors_config \<Rightarrow> string \<Rightarrow> string \<Rightarrow> (int \<times> (string \<times> string) list) option" where
  "cors_preflight c method' origin =
     (if method' \<noteq> ''OPTIONS'' then None
      else Some (204, if cors_admits c origin then allow_headers c origin @ [(''Access-Control-Max-Age'', ''86400'')] else []))"

definition cors_headers :: "cors_config \<Rightarrow> string \<Rightarrow> (string \<times> string) list" where
  "cors_headers c origin =
     (if cors_admits c origin then allow_headers c origin @ (if co_allow_all c then [] else [(''Vary'', ''Origin'')]) else [])"

section \<open>Handlers\<close>

text \<open>The identifier of a request: the given one if it is sound, a new one otherwise.\<close>

definition trace_request :: "string \<Rightarrow> 64 word \<Rightarrow> 64 word \<Rightarrow> string" where
  "trace_request header hi lo = (let requestId = sanitizeRequestId header in
     if requestId = [] then generateRequestId hi lo else requestId)"

definition healthHandler :: "int \<Rightarrow> int \<Rightarrow> (db_manager, int \<times> json) prog" where
  "healthHandler now now' = bindp (isHealthy now now') (\<lambda>dbHealthy.
     ret (if dbHealthy then (200, JObj [(''status'', JStr ''ok''), (''database'', JStr ''up'')])
          else (503, JObj [(''status'', JStr ''unhealthy''), (''database'', JStr ''down'')])))"

section \<open>main\<close>

datatype start_outcome = Exited int | Listening string int int "cors_config option"

definition kMaxBodySize :: nat where "kMaxBodySize = 1 * 1024 * 1024"

definition serve_setup :: "json \<Rightarrow> exn + start_outcome" where
  "serve_setup config =
     bindr (json_at config ''server'') (\<lambda>server.
     bindr (jvalue as_string server ''host'' ''0.0.0.0'') (\<lambda>host.
     bindr (jvalue as_int32 server ''port'' 8082) (\<lambda>port.
     bindr (jvalue as_int32 server ''threads'' 1) (\<lambda>threads.
     bindr (cors_setup config) (\<lambda>cors. Inr (Listening host (port mod 2 ^ 16) threads cors))))))"

definition boot_stages :: "(main_cache, 'x) externals_scheme \<Rightarrow> json \<Rightarrow> (boot_state, start_outcome) prog" where
  "boot_stages x config =
     bindp (lift_sum (json_at config ''database'')) (\<lambda>dbConfig.
     bindp (boot_redis config) (\<lambda>_. bindp (boot_limiter config) (\<lambda>_. bindp (boot_cache config) (\<lambda>_.
     bindp (lift_sum (parseMysqlConfig dbConfig)) (\<lambda>mysqlConfig.
     bindp (boot_pool config mysqlConfig) (\<lambda>_.
     bindp (boot_database (x\<lparr>x_config := Inr config, x_cache := metrics_cache_if any_cache_if\<rparr>) mysqlConfig) (\<lambda>_.
     bindp (boot_minio (x_url_path x) config) (\<lambda>_.
     lift_sum (serve_setup config)))))))))"

definition main_body :: "surroundings \<Rightarrow> (main_cache, 'x) externals_scheme \<Rightarrow> (boot_state, start_outcome) prog" where
  "main_body su x =
     bindp (lift_sum (loadConfig su (x_parse x) ''config.json'')) (\<lambda>config.
     bindp (lift_sum (json_at config ''server'')) (\<lambda>_. bindp (lift_sum (json_at config ''database'')) (\<lambda>_.
     bindp (lift_sum (jwt_secret_ok config)) (\<lambda>ok.
     if \<not> ok then ret (Exited 1)
     else bindp (lift_sum (validateProductionCors su config)) (\<lambda>_. boot_stages x config)))))"

definition main :: "surroundings \<Rightarrow> (main_cache, 'x) externals_scheme \<Rightarrow> (boot_state, start_outcome) prog" where
  "main su x = catch_std (main_body su x) (\<lambda>_. ret (Exited 1))"

section \<open>Facts\<close>

lemma main_InrD:
  assumes "main su x b = (Inr (Listening h p t cors), b')"
  obtains config b1 b2 where "loadConfig su (x_parse x) ''config.json'' = Inr config" "jwt_secret_ok config = Inr True"
    "validateProductionCors su config = Inr ()" "boot_stages x config b1 = (Inr (Listening h p t cors), b2)"
proof -
  have m: "main_body su x b = (Inr (Listening h p t cors), b')"
    using assms by (auto simp: main_def catch_std_def split: prod.splits sum.splits if_splits)
  then obtain config where c: "loadConfig su (x_parse x) ''config.json'' = Inr config"
    by (auto simp: main_body_def bindp_def split: sum.splits)
  with m have ok: "jwt_secret_ok config = Inr True"
    by (auto simp: main_body_def bindp_def split: sum.splits if_splits)
  with m c have "validateProductionCors su config = Inr ()" "boot_stages x config b = (Inr (Listening h p t cors), b')"
    by (auto simp: main_body_def bindp_def split: sum.splits if_splits)
  with c ok that show ?thesis by blast
qed

lemma boot_stages_cors:
  assumes "boot_stages x config b = (Inr (Listening h p t cors), b')"
  shows "cors_setup config = Inr cors"
proof -
  have last: "\<exists>s1. m s1 = (Inr y, s2)" if "bindp k (\<lambda>_. m) s = (Inr y, s2)" for k :: "(boot_state, 'z) prog" and m and y :: start_outcome and s s2
    using that by (auto simp: bindp_def split: prod.splits sum.splits)
  have "\<exists>s1. lift_sum (serve_setup config) s1 = (Inr (Listening h p t cors), b')"
    using assms unfolding boot_stages_def by (auto simp: bindp_def split: prod.splits sum.splits)
  then have "serve_setup config = Inr (Listening h p t cors)" by auto
  then show ?thesis by (auto simp: serve_setup_def bindr_def split: sum.splits)
qed

lemma validated_origins:
  assumes "validateProductionCors su config = Inr ()" "isProductionEnvironment su" "cors_setup config = Inr (Some c)"
  shows "\<not> co_allow_all c \<and> (\<forall>origin\<in>set (co_origins c). \<not> isLocalCorsOrigin origin \<and> origin \<noteq> ''*'')"
proof -
  obtain cors where cors: "jfind config ''cors'' = Some cors"
    using assms(3) by (auto simp: cors_setup_def split: option.splits)
  then have en: "jvalue as_bool cors ''enabled'' False = Inr True" and "is_object cors"
    using assms(3) by (cases cors; auto simp: cors_setup_def bindr_def split: sum.splits if_splits)+
  obtain origins where o: "jvalue as_string_list cors ''allow_origins'' [] = Inr origins"
      "co_origins c = origins" "co_allow_all c \<longleftrightarrow> ''*'' \<in> set origins"
    using assms(3) cors en by (auto simp: cors_setup_def bindr_def split: sum.splits)
  have "filter (\<lambda>origin. origin = ''*'' \<or> isLocalCorsOrigin origin) origins = []"
    using assms(1,2) cors en o(1) \<open>is_object cors\<close> by (auto simp: validateProductionCors_def Let_def split: if_splits)
  then show ?thesis using o(2,3) by (auto simp: filter_empty_conv)
qed

text \<open>
  C22: a program that came to listen has a secret for its tokens that is none of
  the known placeholders; in production, whatever failed on the way, no answer admits an origin that
  is not configured, and neither the wildcard nor a local origin is ever admitted.
\<close>

theorem production_is_closed:
  assumes "main su x b = (Inr (Listening h p t cors), b')"
  shows "\<exists>config. loadConfig su (x_parse x) ''config.json'' = Inr config \<and>
    (\<exists>s. jget config ''jwt'' ''secret'' = Some (JStr s) \<and> s \<notin> set insecureSecrets) \<and>
    (isProductionEnvironment su \<longrightarrow> (\<forall>c origin v. cors = Some c \<longrightarrow>
       (''Access-Control-Allow-Origin'', v) \<in> set (cors_headers c origin @
          (case cors_preflight c ''OPTIONS'' origin of None \<Rightarrow> [] | Some (_, hs) \<Rightarrow> hs)) \<longrightarrow>
       v = origin \<and> origin \<in> set (co_origins c) \<and> origin \<noteq> ''*'' \<and> \<not> isLocalCorsOrigin origin))"
  using assms
proof (cases rule: main_InrD)
  case (1 config b1 b2)
  have cors: "cors_setup config = Inr cors" by (rule boot_stages_cors [OF 1(4)])
  obtain jwt where "jfind config ''jwt'' = Some jwt" "jvalue as_string jwt ''secret'' [] \<notin> Inr ` set insecureSecrets"
      "\<exists>s. jvalue as_string jwt ''secret'' [] = Inr s"
    using 1(2) by (auto simp: jwt_secret_ok_def json_at_def bindr_def split: sum.splits option.splits if_splits)
  then have "\<exists>s. jget config ''jwt'' ''secret'' = Some (JStr s) \<and> s \<notin> set insecureSecrets"
    by (cases jwt) (auto simp: jget_def insecureSecrets_def split: option.splits elim!: as_string.elims)
  moreover have "v = origin \<and> origin \<in> set (co_origins c) \<and> origin \<noteq> ''*'' \<and> \<not> isLocalCorsOrigin origin"
    if "isProductionEnvironment su" "cors = Some c"
      "(''Access-Control-Allow-Origin'', v) \<in> set (cors_headers c origin @
          (case cors_preflight c ''OPTIONS'' origin of None \<Rightarrow> [] | Some (_, hs) \<Rightarrow> hs))" for c origin v
    using validated_origins [OF 1(3) that(1)] cors that(2,3)
    by (auto simp: cors_headers_def cors_preflight_def cors_admits_def allow_headers_def split: if_splits)
  ultimately show ?thesis using 1(1) by blast
qed

definition demo_production :: surroundings where
  "demo_production = \<lparr>su_env = [''ENV'' \<mapsto> ''Production''], su_files = [''config.json'' \<mapsto> []], su_cwd = ''/srv'', su_exe = None\<rparr>"

text \<open>A configuration with every optional part off, in production, for one origin.\<close>

definition demo_settings :: json where
  "demo_settings = JObj [(''minio'', JObj []), (''storage'', JObj []), (''task_engine'', JObj []), (''python_service'', JObj []),
     (''jwt'', JObj [(''secret'', JStr ''k3y'')]), (''database'', JObj []), (''server'', JObj []),
     (''cors'', JObj [(''enabled'', JBool True), (''allow_origins'', JArr [JStr ''https://a.example''])]),
     (''rate_limit'', JObj [(''enabled'', JBool False)]), (''cache'', JObj [(''enabled'', JBool False)]),
     (''redis'', JObj [(''enabled'', JBool False)])]"

definition demo_boot_x :: "main_cache externals" where
  "demo_boot_x = \<lparr>x_config = Inr demo_settings, x_dump = (\<lambda>_. Inr ''{}''), x_parse = (\<lambda>_. Inr demo_settings),
     x_url_path = (\<lambda>_. None), x_presign = (\<lambda>_ _ _. None), x_cache = metrics_cache_if any_cache_if, x_presign_ttl = 3600\<rparr>"

definition demo_boot :: boot_state where
  "demo_boot = \<lparr>bt_world = \<lparr>w_db = demo_db [], w_redis = \<lparr>rc_config = default_redis_config, rc_impl = False,
       rc_server = \<lparr>r_store = (\<lambda>_. None), r_now = 0, r_faults = []\<rparr>\<rparr>, w_cache = (NullCache, new_cache_metrics), w_hub = new_hub,
       w_metrics = new_registry, w_objects = demo_objects, w_http = \<lparr>ne_answers = [], ne_sent = []\<rparr>,
       w_engine = \<lparr>en_started = False, en_workers = [], en_scanner = False\<rparr>, w_now = 0, w_ticks = []\<rparr>,
     bt_db = \<lparr>dm_cfg = default_mysql_config, dm_global = False, dm_session = False, dm_verified = 0, dm_net = [Some (MysqlxError [])]\<rparr>,
     bt_limits = (default_rate_config, NullRateLimiter), bt_presign_ttl = 3600,
     bt_cache_server = \<lparr>r_store = (\<lambda>_. None), r_now = 0, r_faults = []\<rparr>,
     bt_limit_server = \<lparr>bs_buckets = (\<lambda>_. None), bs_now = 0, bs_script = False, bs_faults = []\<rparr>\<rparr>"

lemma demo_loaded: "loadConfig demo_production (x_parse demo_boot_x) ''config.json'' = Inr demo_settings"
  by code_simp

lemma demo_checks:
  "jwt_secret_ok demo_settings = Inr True" "validateProductionCors demo_production demo_settings = Inr ()"
  "isProductionEnvironment demo_production"
  "serve_setup demo_settings = Inr (Listening ''0.0.0.0'' 8082 1 (Some \<lparr>co_allow_all = False,
     co_origins = [''https://a.example''], co_methods = ''GET, POST, PUT, DELETE, OPTIONS'',
     co_headers = ''Content-Type, Authorization, X-Request-Id''\<rparr>))"
  by code_simp+

lemma demo_listens:
  "\<exists>b'. main demo_production demo_boot_x demo_boot = (Inr (Listening ''0.0.0.0'' 8082 1 (Some \<lparr>co_allow_all = False,
     co_origins = [''https://a.example''], co_methods = ''GET, POST, PUT, DELETE, OPTIONS'',
     co_headers = ''Content-Type, Authorization, X-Request-Id''\<rparr>)), b')"
proof -
  have at: "json_at demo_settings ''server'' = Inr (JObj [])" "json_at demo_settings ''database'' = Inr (JObj [])"
    "json_at demo_settings ''task_engine'' = Inr (JObj [])" "json_at demo_settings ''minio'' = Inr (JObj [])"
    "jfind demo_settings ''redis'' = Some (JObj [(''enabled'', JBool False)])"
    "jfind demo_settings ''cache'' = Some (JObj [(''enabled'', JBool False)])"
    "jfind demo_settings ''rate_limit'' = Some (JObj [(''enabled'', JBool False)])"
    by (simp_all add: json_at_def demo_settings_def)
  obtain l where l: "configureDefaultRateLimiter demo_settings (bt_limit_server demo_boot) = Inr l"
    by (simp add: configureDefaultRateLimiter_def loadRateLimitConfig_def parseRateLimitConfig_def parseRedisConfig_def at Let_def)
  obtain cfg where cfg: "parseMysqlConfig (JObj []) = Inr cfg" "my_host cfg \<noteq> []"
    by (simp add: parseMysqlConfig_def)
  have redis: "boot_redis demo_settings b = (Inr (), b)" for b
    by (simp add: boot_redis_def catch_std_def at parseRedisConfig_def bindp_def)
  have limiter: "boot_limiter demo_settings b = (Inr (), b\<lparr>bt_limits := l\<rparr>)" if "bt_limit_server b = bt_limit_server demo_boot" for b
    using l that by (simp add: boot_limiter_def)
  have pool: "\<exists>w. boot_pool demo_settings cfg b = (Inr 4, b\<lparr>bt_world := w\<rparr>)" for b
    by (simp add: boot_pool_def at bindp_def on_boot_world_def on_metrics_def) (rule exI, rule refl)
  have db: "\<exists>d. boot_database x cfg b = (Inr (), b\<lparr>bt_db := d\<rparr>)" if "dm_net (bt_db b) = [Some (MysqlxError [])]" for x :: "main_cache externals" and b
    using that cfg(2) by (simp add: boot_database_def catch_std_def bindp_def on_boot_db_def db_init_def createSession_def
        buildSessionSettings_def round_trip_def) (rule exI, rule refl)
  have minio: "\<exists>b'. boot_minio u demo_settings b = (Inr (), b')" for u b
    by (simp add: boot_minio_def catch_std_def bindp_def at boot_minio_config_def minio_new_def buildBaseUrl_def buildProvider_def
        default_minio_config_def modify_def drop_slashes_def Let_def split: option.split)
  let ?b = "demo_boot\<lparr>bt_limits := l\<rparr>"
  obtain b1 where b1: "boot_cache demo_settings ?b = (Inr (), b1)" "dm_net (bt_db b1) = [Some (MysqlxError [])]"
    by (simp add: boot_cache_def modify_def demo_boot_def)
  obtain w where w: "boot_pool demo_settings cfg b1 = (Inr 4, b1\<lparr>bt_world := w\<rparr>)" using pool by blast
  let ?x = "demo_boot_x\<lparr>x_config := Inr demo_settings, x_cache := metrics_cache_if any_cache_if\<rparr>"
  obtain d where d: "boot_database ?x cfg (b1\<lparr>bt_world := w\<rparr>) = (Inr (), b1\<lparr>bt_world := w, bt_db := d\<rparr>)"
    using db [of "b1\<lparr>bt_world := w\<rparr>" ?x] b1(2) by auto
  obtain b2 where b2: "boot_minio (x_url_path demo_boot_x) demo_settings (b1\<lparr>bt_world := w, bt_db := d\<rparr>) = (Inr (), b2)"
    using minio by blast
  have "main_body demo_production demo_boot_x demo_boot = (serve_setup demo_settings, b2)"
    using b1(1) w d b2
    by (simp add: main_body_def boot_stages_def bindp_def demo_loaded at demo_checks(1,2) redis limiter cfg(1))
  then show ?thesis by (simp add: main_def catch_std_def demo_checks(4))
qed

theorem production_is_closed_witness:
  "\<exists>b' h p t c. main demo_production demo_boot_x demo_boot = (Inr (Listening h p t (Some c)), b') \<and>
     isProductionEnvironment demo_production \<and> cors_headers c ''https://a.example'' \<noteq> [] \<and>
     cors_headers c ''http://localhost:3000'' = []"
proof -
  obtain b' where m: "main demo_production demo_boot_x demo_boot = (Inr (Listening ''0.0.0.0'' 8082 1 (Some \<lparr>co_allow_all = False,
     co_origins = [''https://a.example''], co_methods = ''GET, POST, PUT, DELETE, OPTIONS'',
     co_headers = ''Content-Type, Authorization, X-Request-Id''\<rparr>)), b')" (is "_ = (Inr (Listening _ _ _ (Some ?c)), b')")
    using demo_listens by blast
  have l: "isLocalCorsOrigin ''http://localhost:3000''" by code_simp
  have "cors_headers ?c ''http://localhost:3000'' = []"
  proof (rule ccontr)
    assume "cors_headers ?c ''http://localhost:3000'' \<noteq> []"
    then obtain v where "(''Access-Control-Allow-Origin'', v) \<in> set (cors_headers ?c ''http://localhost:3000'')"
      by (auto simp: cors_headers_def allow_headers_def split: if_splits)
    then show False using production_is_closed [OF m] demo_checks(3) l by fastforce
  qed
  moreover have "cors_headers ?c ''https://a.example'' \<noteq> []"
    by (simp add: cors_headers_def cors_admits_def allow_headers_def)
  ultimately show ?thesis using m demo_checks(3) by blast
qed

text \<open>The wait for the object store ends after ten attempts and eighteen seconds at most.\<close>

lemma wait_for_bucket_bounds:
  "wait_for_bucket n s = ((up, slept), s') \<Longrightarrow> 0 \<le> slept \<and> slept \<le> kMinioRetryDelay * int (n - 1)"
proof (induction n arbitrary: s up slept s')
  case (Suc n)
  then show ?case
    by (auto simp: kMinioRetryDelay_def split: prod.splits bool.splits if_splits) force+
qed simp

end
