(* ===== verification/Http_Api.thy ===== *)
theory Http_Api
  imports Startup Auth_Facts Image_Service_Facts
begin

text \<open>
  The controllers: \<open>handler_utils\<close>, \<open>image_controller.cpp\<close>, \<open>auth_controller.cpp\<close>,
  \<open>metrics_controller.cpp\<close>, \<open>task_ws_controller.cpp\<close>, the filter \<open>jwt_middleware.cpp\<close> and the
  audit log \<open>audit_log.cpp\<close>. A handler is a program over the state of the server, in which the
  response is built; the request, the random numbers and the readings of the clock are arguments.
  The services are those of the other theories, joined here over one state, with one Redis client
  for queue, leases and refresh tokens.
\<close>

section \<open>Requests, responses and the server\<close>

text \<open>\<open>getHeader\<close> and \<open>getParameter\<close> give the empty text for what is missing; the attributes are set
  by the filter and by the tracing of requests.\<close>

record http_request =
  hq_header :: "string \<Rightarrow> string"
  hq_param :: "string \<Rightarrow> string"
  hq_body :: string
  hq_peer :: string
  hq_user_id :: "int option"
  hq_user_role :: "string option"
  hq_request_id :: "string option"

record http_response =
  hp_status :: int
  hp_type :: string
  hp_body :: string

record 'c server =
  sv_world :: "'c world"
  sv_users :: user_db
  sv_limiter :: any_limiter
  sv_log :: "string list"
  sv_response :: http_response

record 'c api = "'c externals" +
  ap_jwt :: jwt_lib
  ap_kdf :: kdf
  ap_limits :: rate_config
  ap_metrics :: "('c \<Rightarrow> cache_metrics) option"

record occasion =
  oc_draws :: draws
  oc_rand :: "64 word"
  oc_jitter :: int
  oc_now_ms :: int
  oc_time :: time_point
  oc_elapsed :: real

definition on_world :: "('c world, 'a) prog \<Rightarrow> ('c server, 'a) prog" where
  "on_world m s = (case m (sv_world s) of (r, w) \<Rightarrow> (r, s\<lparr>sv_world := w\<rparr>))"

text \<open>The services of users see the table of users and the Redis client.\<close>

definition on_auth :: "(redis_client auth_world, 'a) prog \<Rightarrow> ('c server, 'a) prog" where
  "on_auth m s = (case m \<lparr>aw_users = sv_users s, aw_tokens = w_redis (sv_world s)\<rparr> of
     (r, a) \<Rightarrow> (r, s\<lparr>sv_users := aw_users a, sv_world := (sv_world s)\<lparr>w_redis := aw_tokens a\<rparr>\<rparr>))"

definition on_limiter :: "(any_limiter \<Rightarrow> 'a \<times> any_limiter) \<Rightarrow> ('c server, 'a) prog" where
  "on_limiter f s = (case f (sv_limiter s) of (r, l) \<Rightarrow> (Inr r, s\<lparr>sv_limiter := l\<rparr>))"

definition api_auth :: "'c api \<Rightarrow> redis_client auth_lib" where
  "api_auth x = \<lparr>al_config = x_config x, al_jwt = ap_jwt x, al_kdf = ap_kdf x, al_store = redis_token_store\<rparr>"

definition set_status :: "int \<Rightarrow> ('c server, unit) prog" where
  "set_status n s = (Inr (), s\<lparr>sv_response := (sv_response s)\<lparr>hp_status := n\<rparr>\<rparr>)"

definition set_type :: "string \<Rightarrow> ('c server, unit) prog" where
  "set_type t s = (Inr (), s\<lparr>sv_response := (sv_response s)\<lparr>hp_type := t\<rparr>\<rparr>)"

definition set_body :: "string \<Rightarrow> ('c server, unit) prog" where
  "set_body b s = (Inr (), s\<lparr>sv_response := (sv_response s)\<lparr>hp_body := b\<rparr>\<rparr>)"

definition log_line :: "string \<Rightarrow> ('c server, unit) prog" where
  "log_line l s = (Inr (), s\<lparr>sv_log := sv_log s @ [l]\<rparr>)"

definition status_now :: "('c server, int) prog" where
  "status_now s = (Inr (hp_status (sv_response s)), s)"

section \<open>The audit log\<close>

definition kMaxLogValueLength :: nat where "kMaxLogValueLength = 128"

definition isSafeVisibleChar :: "char \<Rightarrow> bool" where
  "isSafeVisibleChar c \<longleftrightarrow> 32 \<le> cbyte c \<and> cbyte c < 127"

definition safeLogValue :: "string \<Rightarrow> string" where
  "safeLogValue v = (let sanitized = map (\<lambda>c. if isSafeVisibleChar c then c else CHR ''_'') (take kMaxLogValueLength v) in
     if sanitized = [] then ''-'' else sanitized)"

definition requestIdFrom :: "http_request \<Rightarrow> string" where
  "requestIdFrom req = (case hq_request_id req of
      Some i \<Rightarrow> safeLogValue i
    | None \<Rightarrow> (let header = sanitizeRequestId (hq_header req ''X-Request-Id'') in
        if header = [] then ''-'' else safeLogValue header))"

definition nowIsoUtc :: "time_point \<Rightarrow> string" where
  "nowIsoUtc t = (let m = gmtime (time_t_of t)
      in fmt_int_pad 4 (nat (tm_year m)) @ CHR ''-'' # fmt_int_pad 2 (tm_mon m) @ CHR ''-'' #
         fmt_int_pad 2 (nat (tm_mday m)) @ CHR ''T'' # fmt_int_pad 2 (nat (tm_hour m)) @ CHR '':'' #
         fmt_int_pad 2 (nat (tm_min m)) @ CHR '':'' # fmt_int_pad 2 (nat (tm_sec m)) @ ''Z'')"

record audit_event =
  ae_event :: string
  ae_outcome :: string
  ae_request_id :: string
  ae_client_ip :: string
  ae_resource_id :: "string option"
  ae_user_id :: "int option"
  ae_status_code :: int

definition audit_toJson :: "time_point \<Rightarrow> audit_event \<Rightarrow> json" where
  "audit_toJson t e = JObj ([(''type'', JStr ''audit''), (''timestamp'', JStr (nowIsoUtc t)),
      (''event'', JStr (safeLogValue (ae_event e))), (''outcome'', JStr (safeLogValue (ae_outcome e))),
      (''request_id'', JStr (safeLogValue (ae_request_id e))), (''client_ip'', JStr (safeLogValue (ae_client_ip e))),
      (''status'', JInt (ae_status_code e))]
     @ (case ae_user_id e of None \<Rightarrow> [] | Some u \<Rightarrow> [(''user_id'', JInt u)])
     @ (case ae_resource_id e of None \<Rightarrow> [] | Some r \<Rightarrow> [(''resource_id'', JStr (safeLogValue r))]))"

definition logHttpEvent :: "'c api \<Rightarrow> occasion \<Rightarrow> http_request \<Rightarrow> string \<Rightarrow> string \<Rightarrow> int option \<Rightarrow> int \<Rightarrow> string \<Rightarrow> string \<Rightarrow>
    ('c server, unit) prog" where
  "logHttpEvent x oc req event outcome userId statusCode clientIp resourceId =
     bindp (lift_sum (x_dump x (audit_toJson (oc_time oc)
       \<lparr>ae_event = event, ae_outcome = outcome, ae_request_id = requestIdFrom req, ae_client_ip = safeLogValue clientIp,
        ae_resource_id = (if resourceId = [] then None else Some (safeLogValue resourceId)), ae_user_id = userId,
        ae_status_code = statusCode\<rparr>))) (\<lambda>line. log_line (''audit '' @ line))"

section \<open>Helpers of the handlers\<close>

definition first_part :: "string \<Rightarrow> string" where
  "first_part s = takeWhile (\<lambda>c. c \<noteq> CHR '','') s"

definition clientIp :: "http_request \<Rightarrow> bool \<Rightarrow> string" where
  "clientIp req trustProxy =
     (let xff = trim (first_part (hq_header req ''X-Forwarded-For'')); xri = trim (hq_header req ''X-Real-IP'') in
      if trustProxy \<and> xff \<noteq> [] then xff else if trustProxy \<and> xri \<noteq> [] then xri else hq_peer req)"

definition auditRequest :: "'c api \<Rightarrow> occasion \<Rightarrow> http_request \<Rightarrow> string \<Rightarrow> string \<Rightarrow> int option \<Rightarrow> int \<Rightarrow> string \<Rightarrow> ('c server, unit) prog" where
  "auditRequest x oc req event outcome userId statusCode resourceId =
     logHttpEvent x oc req event outcome userId statusCode (clientIp req (rl_trust_proxy (ap_limits x))) resourceId"

definition fillServiceError :: "'c api \<Rightarrow> service_error \<Rightarrow> ('c server, unit) prog" where
  "fillServiceError x e = bindp (set_status (se_status e)) (\<lambda>_.
     bindp (lift_sum (x_dump x (JObj [(''error'', service_error_toJson e)]))) set_body)"

definition fillDirectError :: "'c api \<Rightarrow> int \<Rightarrow> string \<Rightarrow> string \<Rightarrow> ('c server, unit) prog" where
  "fillDirectError x status code message = fillServiceError x (mk_error status code message)"

text \<open>Who asks: the user the filter has put down, or the one of the bearer token.\<close>

definition bearer_user :: "'c api \<Rightarrow> occasion \<Rightarrow> http_request \<Rightarrow> jwt_payload option" where
  "bearer_user x oc req = (case extractBearerToken (hq_header req ''Authorization'') of None \<Rightarrow> None
     | Some token \<Rightarrow> (case verifyToken (ap_jwt x) (x_config x) (dr_now (oc_draws oc)) token of
         None \<Rightarrow> None | Some p \<Rightarrow> if jp_user_id p > 0 then Some p else None))"

definition requester :: "'c api \<Rightarrow> occasion \<Rightarrow> http_request \<Rightarrow> jwt_payload option" where
  "requester x oc req = (case hq_user_id req of
      None \<Rightarrow> bearer_user x oc req
    | Some u \<Rightarrow> if u > 0 then Some \<lparr>jp_user_id = u, jp_username = [],
          jp_role = (case hq_user_role req of None \<Rightarrow> ''user'' | Some r \<Rightarrow> if r = [] then ''user'' else r), jp_jti = []\<rparr>
        else bearer_user x oc req)"

definition resolveUser :: "'c api \<Rightarrow> occasion \<Rightarrow> http_request \<Rightarrow> ('c server, jwt_payload option) prog" where
  "resolveUser x oc req = (case requester x oc req of
      Some p \<Rightarrow> ret (Some p)
    | None \<Rightarrow> bindp (if extractBearerToken (hq_header req ''Authorization'') = None
          then fillDirectError x 401 ''missing_bearer_token'' ''missing bearer token''
          else fillDirectError x 401 ''invalid_token'' ''invalid token'') (\<lambda>_. ret None))"

definition resolveUserId :: "'c api \<Rightarrow> occasion \<Rightarrow> http_request \<Rightarrow> ('c server, int option) prog" where
  "resolveUserId x oc req = bindp (resolveUser x oc req) (\<lambda>u. ret (case u of None \<Rightarrow> None
     | Some p \<Rightarrow> if jp_user_id p > 0 then Some (jp_user_id p) else None))"

text \<open>The two \<open>catch\<close> clauses: a body that is no JSON, and every other \<open>std::exception\<close>.\<close>

definition catch_json :: "'c api \<Rightarrow> ('c server, unit) prog \<Rightarrow> ('c server, unit) prog" where
  "catch_json x m = catch_std m (\<lambda>e. case e of
      JsonParseError _ \<Rightarrow> fillDirectError x 400 ''invalid_json_body'' ''invalid json body''
    | _ \<Rightarrow> fillDirectError x 500 ''internal_error'' ''internal error'')"

definition new_response :: http_response where
  "new_response = \<lparr>hp_status = 200, hp_type = ''application/json'', hp_body = []\<rparr>"

definition runJsonHandler :: "'c api \<Rightarrow> occasion \<Rightarrow> string \<Rightarrow> ('c server, unit) prog \<Rightarrow> ('c server, unit) prog" where
  "runJsonHandler x oc handlerName body =
     bindp (modify (\<lambda>s. s\<lparr>sv_response := new_response\<rparr>)) (\<lambda>_.
     bindp (catch_json x body) (\<lambda>_.
     bindp status_now (\<lambda>st. on_world (on_metrics (observeRequest handlerName st (oc_elapsed oc))))))"

definition runAuthenticatedJson :: "'c api \<Rightarrow> occasion \<Rightarrow> http_request \<Rightarrow> string \<Rightarrow> (int \<Rightarrow> ('c server, unit) prog) \<Rightarrow> ('c server, unit) prog" where
  "runAuthenticatedJson x oc req handlerName body = runJsonHandler x oc handlerName
     (bindp (resolveUserId x oc req) (\<lambda>u. case u of None \<Rightarrow> ret () | Some userId \<Rightarrow> body userId))"

definition respondFromExpected :: "'c api \<Rightarrow> service_error + 'a \<Rightarrow> int \<Rightarrow> ('a \<Rightarrow> exn + string) \<Rightarrow> ('c server, unit) prog" where
  "respondFromExpected x result okStatus renderer = (case result of
      Inl e \<Rightarrow> fillServiceError x e
    | Inr v \<Rightarrow> bindp (set_status okStatus) (\<lambda>_. bindp (lift_sum (renderer v)) set_body))"

definition result_status :: "service_error + 'a \<Rightarrow> int \<Rightarrow> int" where
  "result_status r okStatus = (case r of Inl e \<Rightarrow> se_status e | Inr _ \<Rightarrow> okStatus)"

definition outcome_of :: "service_error + 'a \<Rightarrow> string" where
  "outcome_of r = (case r of Inl _ \<Rightarrow> ''failure'' | Inr _ \<Rightarrow> ''success'')"

section \<open>ImageController\<close>

text \<open>\<open>std::from_chars\<close> into an \<open>int\<close>: a sign, then digits; what follows is ignored.\<close>

definition parsePositiveInt :: "string \<Rightarrow> int \<Rightarrow> int" where
  "parsePositiveInt v fallback =
     (let neg = starts_with v ''-''; ds = takeWhile is_digit (if neg then drop 1 v else v);
          n = (if neg then - int (read_nat ds) else int (read_nat ds))
      in if ds \<noteq> [] \<and> is_int32 n \<and> n > 0 then n else fallback)"

definition toListJson :: "image_list \<Rightarrow> json" where
  "toListJson r = JObj [(''content'', JArr (map toJson (il_content r))), (''totalElements'', JInt (il_total r))]"

definition member_if :: "json \<Rightarrow> string \<Rightarrow> (json \<Rightarrow> bool) \<Rightarrow> (string \<times> json) list" where
  "member_if full k p = (case jfind full k of None \<Rightarrow> [] | Some v \<Rightarrow> if p v then [(k, v)] else [])"

definition nonempty_text :: "json \<Rightarrow> bool" where
  "nonempty_text j \<longleftrightarrow> (case j of JStr s \<Rightarrow> s \<noteq> [] | _ \<Rightarrow> False)"

definition toStatusJson :: "image_generation \<Rightarrow> json" where
  "toStatusJson g = (let full = toJson g in JObj (
     member_if full ''id'' (\<lambda>_. True) @ member_if full ''requestId'' (\<lambda>_. True) @ member_if full ''status'' (\<lambda>_. True) @
     member_if full ''errorMessage'' nonempty_text @ member_if full ''failureCode'' nonempty_text @
     member_if full ''generationTime'' (\<lambda>_. True) @ member_if full ''createdAt'' (\<lambda>_. True) @
     member_if full ''completedAt'' (\<lambda>_. True) @ member_if full ''imageUrl'' nonempty_text))"

definition health_json :: "health_result \<Rightarrow> json" where
  "health_json h = JObj ([(''status'', JStr (hl_status h)), (''modelLoaded'', JBool (hl_model_loaded h)),
     (''activeKind'', JStr (hl_active_kind h)), (''activeGenerations'', JInt (hl_active_generations h)),
     (''maxConcurrentGenerations'', JInt (hl_max_concurrent_generations h))] @
     (if hl_detail h \<noteq> [] then [(''detail'', JStr (hl_detail h))] else []))"

definition image_checkHealth :: "'c api \<Rightarrow> occasion \<Rightarrow> ('c server, unit) prog" where
  "image_checkHealth x oc = runJsonHandler x oc ''ImageController::checkHealth''
     (bindp (on_world (svc_checkHealth x)) (\<lambda>h. bindp (set_status 200) (\<lambda>_.
      bindp (lift_sum (x_dump x (health_json h))) set_body)))"

text \<open>The handlers that change a task: whom they serve, and the audit of both outcomes.\<close>

definition audited :: "'c api \<Rightarrow> occasion \<Rightarrow> http_request \<Rightarrow> string \<Rightarrow> (jwt_payload \<Rightarrow> ('c server, unit) prog) \<Rightarrow> ('c server, unit) prog" where
  "audited x oc req event k = bindp (resolveUser x oc req) (\<lambda>u. case u of
      None \<Rightarrow> bindp status_now (\<lambda>st. auditRequest x oc req event ''failure'' None st [])
    | Some p \<Rightarrow> k p)"

definition image_create :: "'c api \<Rightarrow> occasion \<Rightarrow> http_request \<Rightarrow> ('c server, unit) prog" where
  "image_create x oc req = runJsonHandler x oc ''ImageController::create'' (audited x oc req ''image.create'' (\<lambda>user.
     let isAdmin = (jp_role user = ''admin''); limits = ap_limits x in
     bindp (if rl_enabled limits \<and> \<not> isAdmin
            then on_limiter (limiter_tryAcquire (rate_userKey (jp_user_id user) limits) (rl_user_create_capacity limits)
              (rl_user_create_window limits) (oc_now_ms oc))
            else ret (Inr ())) (\<lambda>acquired. case acquired of
         Inl e \<Rightarrow> bindp (auditRequest x oc req ''image.create'' ''failure'' (Some (jp_user_id user)) (se_status e) [])
           (\<lambda>_. fillServiceError x e)
       | Inr _ \<Rightarrow>
           bindp (lift_sum (x_parse x (hq_body req))) (\<lambda>payload.
           bindp (on_world (svc_create x (oc_rand oc) (jp_user_id user) payload isAdmin)) (\<lambda>result.
           bindp (auditRequest x oc req ''image.create'' (outcome_of result) (Some (jp_user_id user)) (result_status result 202)
             (case result of Inl _ \<Rightarrow> [] | Inr g \<Rightarrow> ''image:'' @ fmt_int (img_id g))) (\<lambda>_.
           respondFromExpected x result 202 (\<lambda>g. x_dump x (toJson g))))))))"

definition image_listMy :: "'c api \<Rightarrow> occasion \<Rightarrow> http_request \<Rightarrow> ('c server, unit) prog" where
  "image_listMy x oc req = runAuthenticatedJson x oc req ''ImageController::listMy'' (\<lambda>userId.
     bindp (on_world (svc_listMy x (oc_jitter oc) userId (parsePositiveInt (hq_param req ''page'') 0) (parsePositiveInt (hq_param req ''size'') 10)))
       (\<lambda>result. respondFromExpected x result 200 (\<lambda>l. x_dump x (toListJson l))))"

definition image_listMyByStatus :: "'c api \<Rightarrow> occasion \<Rightarrow> http_request \<Rightarrow> string \<Rightarrow> ('c server, unit) prog" where
  "image_listMyByStatus x oc req status = runAuthenticatedJson x oc req ''ImageController::listMyByStatus'' (\<lambda>userId.
     bindp (on_world (svc_listMyByStatus x (oc_jitter oc) userId status (parsePositiveInt (hq_param req ''page'') 0)
         (parsePositiveInt (hq_param req ''size'') 10)))
       (\<lambda>result. respondFromExpected x result 200 (\<lambda>l. x_dump x (toListJson l))))"

definition image_getById :: "'c api \<Rightarrow> occasion \<Rightarrow> http_request \<Rightarrow> int \<Rightarrow> ('c server, unit) prog" where
  "image_getById x oc req i = runAuthenticatedJson x oc req ''ImageController::getById'' (\<lambda>userId.
     bindp (on_world (svc_getById x userId i True)) (\<lambda>result. respondFromExpected x result 200 (\<lambda>g. x_dump x (toJson g))))"

definition image_getBinaryById :: "'c api \<Rightarrow> occasion \<Rightarrow> http_request \<Rightarrow> int \<Rightarrow> ('c server, unit) prog" where
  "image_getBinaryById x oc req i = runAuthenticatedJson x oc req ''ImageController::getBinaryById'' (\<lambda>userId.
     bindp (on_world (svc_getBinaryById x userId i)) (\<lambda>result. case result of
         Inl e \<Rightarrow> fillServiceError x e
       | Inr b \<Rightarrow> bindp (set_status 200) (\<lambda>_. bindp (set_type (ib_content_type b)) (\<lambda>_. set_body (ib_body b)))))"

definition image_getStatusById :: "'c api \<Rightarrow> occasion \<Rightarrow> http_request \<Rightarrow> int \<Rightarrow> ('c server, unit) prog" where
  "image_getStatusById x oc req i = runAuthenticatedJson x oc req ''ImageController::getStatusById'' (\<lambda>userId.
     bindp (on_world (svc_getById x userId i False)) (\<lambda>result. respondFromExpected x result 200 (\<lambda>g. x_dump x (toStatusJson g))))"

definition deleted_body :: string where
  "deleted_body = ''{'' @ dq @ ''deleted'' @ dq @ '':true}''"

definition ok_body :: string where
  "ok_body = ''{'' @ dq @ ''status'' @ dq @ '':'' @ dq @ ''ok'' @ dq @ ''}''"

definition image_deleteById :: "'c api \<Rightarrow> occasion \<Rightarrow> http_request \<Rightarrow> int \<Rightarrow> ('c server, unit) prog" where
  "image_deleteById x oc req i = runJsonHandler x oc ''ImageController::deleteById'' (audited x oc req ''image.delete'' (\<lambda>user.
     bindp (on_world (svc_deleteById x (jp_user_id user) i)) (\<lambda>result.
     bindp (auditRequest x oc req ''image.delete'' (outcome_of result) (Some (jp_user_id user)) (result_status result 200) (''image:'' @ fmt_int i)) (\<lambda>_.
     respondFromExpected x result 200 (\<lambda>_. Inr deleted_body)))))"

definition image_cancelById :: "'c api \<Rightarrow> occasion \<Rightarrow> http_request \<Rightarrow> int \<Rightarrow> ('c server, unit) prog" where
  "image_cancelById x oc req i = runJsonHandler x oc ''ImageController::cancelById'' (audited x oc req ''image.cancel'' (\<lambda>user.
     bindp (on_world (svc_cancelById x (jp_user_id user) i)) (\<lambda>result.
     bindp (auditRequest x oc req ''image.cancel'' (outcome_of result) (Some (jp_user_id user)) (result_status result 200) (''image:'' @ fmt_int i)) (\<lambda>_.
     respondFromExpected x result 200 (\<lambda>g. x_dump x (toJson g))))))"

definition image_retryById :: "'c api \<Rightarrow> occasion \<Rightarrow> http_request \<Rightarrow> int \<Rightarrow> ('c server, unit) prog" where
  "image_retryById x oc req i = runJsonHandler x oc ''ImageController::retryById'' (audited x oc req ''image.retry'' (\<lambda>user.
     bindp (on_world (svc_retryById x (jp_user_id user) i)) (\<lambda>result.
     bindp (auditRequest x oc req ''image.retry'' (outcome_of result) (Some (jp_user_id user)) (result_status result 200) (''image:'' @ fmt_int i)) (\<lambda>_.
     respondFromExpected x result 200 (\<lambda>g. x_dump x (toJson g))))))"

section \<open>AuthController\<close>

definition acquireAuthIpToken :: "'c api \<Rightarrow> occasion \<Rightarrow> http_request \<Rightarrow> ('c server, service_error + unit) prog" where
  "acquireAuthIpToken x oc req = (let limits = ap_limits x in
     if \<not> rl_enabled limits then ret (Inr ())
     else on_limiter (limiter_tryAcquire (rate_ipKey (clientIp req (rl_trust_proxy limits)) limits) (rl_auth_ip_capacity limits)
       (rl_auth_ip_window limits) (oc_now_ms oc)))"

definition tokenResponse :: "token_pair \<Rightarrow> json" where
  "tokenResponse r = JObj [(''token'', JStr (tp_access_token r)), (''access_token'', JStr (tp_access_token r)),
     (''refresh_token'', JStr (tp_refresh_token r)), (''expires_in'', JInt (tp_expires_in r)), (''user'', user_toJson (tp_user r))]"

text \<open>An operation of the service that knows its user only when it is granted.\<close>

definition auth_answer :: "'c api \<Rightarrow> occasion \<Rightarrow> http_request \<Rightarrow> string \<Rightarrow> (redis_client auth_world, service_error + 'a) prog \<Rightarrow>
    ('a \<Rightarrow> user) \<Rightarrow> ('a \<Rightarrow> json) \<Rightarrow> ('c server, unit) prog" where
  "auth_answer x oc req event m user_of body_of =
     bindp (on_auth m) (\<lambda>result.
     bindp (auditRequest x oc req event (outcome_of result) (case result of Inl _ \<Rightarrow> None | Inr r \<Rightarrow> Some (us_id (user_of r)))
       (result_status result 200) (case result of Inl _ \<Rightarrow> [] | Inr r \<Rightarrow> ''user:'' @ fmt_int (us_id (user_of r)))) (\<lambda>_.
     respondFromExpected x result 200 (\<lambda>r. x_dump x (body_of r))))"

definition limited :: "'c api \<Rightarrow> occasion \<Rightarrow> http_request \<Rightarrow> string \<Rightarrow> ('c server, unit) prog \<Rightarrow> ('c server, unit) prog" where
  "limited x oc req event k = bindp (acquireAuthIpToken x oc req) (\<lambda>acquired. case acquired of
      Inl e \<Rightarrow> bindp (auditRequest x oc req event ''failure'' None (se_status e) []) (\<lambda>_. fillServiceError x e)
    | Inr _ \<Rightarrow> k)"

definition http_register :: "'c api \<Rightarrow> occasion \<Rightarrow> http_request \<Rightarrow> ('c server, unit) prog" where
  "http_register x oc req = runJsonHandler x oc ''AuthController::registerUser'' (limited x oc req ''auth.register''
     (bindp (lift_sum (x_parse x (hq_body req))) (\<lambda>payload.
      auth_answer x oc req ''auth.register'' (registerUser (api_auth x) (oc_draws oc) payload) (\<lambda>u. u) user_toJson)))"

definition http_login :: "'c api \<Rightarrow> occasion \<Rightarrow> http_request \<Rightarrow> ('c server, unit) prog" where
  "http_login x oc req = runJsonHandler x oc ''AuthController::login'' (limited x oc req ''auth.login''
     (bindp (lift_sum (x_parse x (hq_body req))) (\<lambda>payload.
      auth_answer x oc req ''auth.login'' (auth_login (api_auth x) (oc_draws oc) payload) tp_user tokenResponse)))"

definition http_refresh :: "'c api \<Rightarrow> occasion \<Rightarrow> http_request \<Rightarrow> ('c server, unit) prog" where
  "http_refresh x oc req = runJsonHandler x oc ''AuthController::refresh''
     (bindp (lift_sum (x_parse x (hq_body req))) (\<lambda>payload.
      auth_answer x oc req ''auth.refresh'' (auth_refresh (api_auth x) (oc_draws oc) payload) tp_user tokenResponse))"

definition http_logout :: "'c api \<Rightarrow> occasion \<Rightarrow> http_request \<Rightarrow> ('c server, unit) prog" where
  "http_logout x oc req = runJsonHandler x oc ''AuthController::logout''
     (bindp (lift_sum (x_parse x (hq_body req))) (\<lambda>payload.
      bindp (on_auth (auth_logout (api_auth x) (oc_draws oc) payload)) (\<lambda>result.
      bindp (auditRequest x oc req ''auth.logout'' (outcome_of result) None (result_status result 200) []) (\<lambda>_.
      respondFromExpected x result 200 (\<lambda>_. Inr ok_body)))))"

definition http_me :: "'c api \<Rightarrow> occasion \<Rightarrow> http_request \<Rightarrow> ('c server, unit) prog" where
  "http_me x oc req = runJsonHandler x oc ''AuthController::me'' (audited x oc req ''auth.me'' (\<lambda>user.
     bindp (on_auth (getProfile (jp_user_id user))) (\<lambda>result.
     bindp (auditRequest x oc req ''auth.me'' (outcome_of result) (Some (jp_user_id user)) (result_status result 200)
       (''user:'' @ fmt_int (jp_user_id user))) (\<lambda>_.
     respondFromExpected x result 200 (\<lambda>u. x_dump x (user_toJson u))))))"

definition http_changePassword :: "'c api \<Rightarrow> occasion \<Rightarrow> http_request \<Rightarrow> ('c server, unit) prog" where
  "http_changePassword x oc req = runJsonHandler x oc ''AuthController::changePassword'' (audited x oc req ''auth.password_change'' (\<lambda>user.
     bindp (lift_sum (x_parse x (hq_body req))) (\<lambda>payload.
     bindp (on_auth (changePassword (api_auth x) (oc_draws oc) (jp_user_id user) payload)) (\<lambda>result.
     bindp (auditRequest x oc req ''auth.password_change'' (outcome_of result) (Some (jp_user_id user)) (result_status result 200)
       (''user:'' @ fmt_int (jp_user_id user))) (\<lambda>_.
     respondFromExpected x result 200 (\<lambda>_. Inr ok_body))))))"

section \<open>MetricsController\<close>

definition fillError :: "'c api \<Rightarrow> int \<Rightarrow> string \<Rightarrow> ('c server, unit) prog" where
  "fillError x status message = bindp (set_status status) (\<lambda>_.
     bindp (lift_sum (x_dump x (JObj [(''error'', JStr message)]))) set_body)"

definition cache_metrics_body :: "'c api \<Rightarrow> ('c server, unit) prog" where
  "cache_metrics_body x = (case ap_metrics x of
      Some f \<Rightarrow> (\<lambda>s. bindp (lift_sum (x_dump x (cache_metrics_toJson (f (w_cache (sv_world s)))))) set_body s)
    | None \<Rightarrow> bindp (set_status 503) (\<lambda>_. set_body (''{'' @ dq @ ''error'' @ dq @ '': '' @ dq @ ''Cache metrics not initialized'' @ dq @ ''}'')))"

definition getCacheMetrics :: "'c api \<Rightarrow> occasion \<Rightarrow> http_request \<Rightarrow> ('c server, unit) prog" where
  "getCacheMetrics x oc req =
     bindp (modify (\<lambda>s. s\<lparr>sv_response := new_response\<rparr>)) (\<lambda>_.
     case extractBearerToken (hq_header req ''Authorization'') of
       None \<Rightarrow> bindp (fillError x 401 ''missing bearer token'') (\<lambda>_.
         auditRequest x oc req ''metrics.cache.read'' ''failure'' None 401 [])
     | Some token \<Rightarrow> (case verifyToken (ap_jwt x) (x_config x) (dr_now (oc_draws oc)) token of
         None \<Rightarrow> bindp (fillError x 401 ''invalid token'') (\<lambda>_. auditRequest x oc req ''metrics.cache.read'' ''failure'' None 401 [])
       | Some payload \<Rightarrow>
           if jp_user_id payload \<le> 0 then
             bindp (fillError x 401 ''invalid token'') (\<lambda>_. auditRequest x oc req ''metrics.cache.read'' ''failure'' None 401 [])
           else if jp_role payload \<noteq> ''admin'' then
             bindp (fillError x 403 ''admin role required'') (\<lambda>_.
             auditRequest x oc req ''metrics.cache.read'' ''failure'' (Some (jp_user_id payload)) 403 ''metrics:cache'')
           else
             bindp (catch_std (cache_metrics_body x) (\<lambda>_. bindp (set_status 500) (\<lambda>_.
               set_body (''{'' @ dq @ ''error'' @ dq @ '': '' @ dq @ ''failed to render cache metrics'' @ dq @ ''}'')))) (\<lambda>_.
             bindp status_now (\<lambda>st.
             auditRequest x oc req ''metrics.cache.read'' (if st = 200 then ''success'' else ''failure'') (Some (jp_user_id payload)) st
               ''metrics:cache''))))"

definition getPrometheusMetrics :: "('c server, unit) prog" where
  "getPrometheusMetrics s = (Inr (), s\<lparr>sv_response := \<lparr>hp_status = 200, hp_type = ''text/plain; version=0.0.4; charset=utf-8'',
     hp_body = renderPrometheus (w_metrics (sv_world s))\<rparr>\<rparr>)"

section \<open>The filter and the sockets\<close>

text \<open>\<open>doFilter\<close>: the answer that stops the request, or the request with the user put down.\<close>

definition doFilter :: "'c api \<Rightarrow> occasion \<Rightarrow> http_request \<Rightarrow> (int \<times> string) + http_request" where
  "doFilter x oc req = (case extractBearerToken (hq_header req ''Authorization'') of
      None \<Rightarrow> Inl (401, ''missing bearer token'')
    | Some token \<Rightarrow> (case verifyToken (ap_jwt x) (x_config x) (dr_now (oc_draws oc)) token of
        None \<Rightarrow> Inl (401, ''invalid token'')
      | Some p \<Rightarrow> if jp_user_id p \<le> 0 then Inl (401, ''invalid token'')
          else Inr (req\<lparr>hq_user_id := Some (jp_user_id p), hq_user_role := Some (jp_role p)\<rparr>)))"

text \<open>A new socket: closed, or subscribed and greeted.\<close>

definition handleNewConnection :: "'c api \<Rightarrow> occasion \<Rightarrow> http_request \<Rightarrow> nat \<Rightarrow> ('c server, bool) prog" where
  "handleNewConnection x oc req connection =
     (case verifyToken (ap_jwt x) (x_config x) (dr_now (oc_draws oc)) (hq_param req ''token'') of
        None \<Rightarrow> ret False
      | Some p \<Rightarrow> if jp_user_id p \<le> 0 then ret False
          else bindp (on_world (on_hub (\<lambda>h. (Inr (), subscribe (jp_user_id p) (Some connection) h)))) (\<lambda>_.
            bindp (lift_sum (x_dump x (JObj [(''type'', JStr ''image.task.socket.ready'')]))) (\<lambda>greeting.
            bindp (on_world (on_hub (\<lambda>h. (Inr (), h\<lparr>hub_sent := hub_sent h @ [(connection, greeting)]\<rparr>)))) (\<lambda>_. ret True))))"

definition handleConnectionClosed :: "nat \<Rightarrow> ('c server, unit) prog" where
  "handleConnectionClosed connection = on_world (on_hub (\<lambda>h. (Inr (), unsubscribe (Some connection) h)))"

text \<open>A ping is answered with a pong.\<close>

definition handleNewMessage :: "bool \<Rightarrow> nat \<Rightarrow> ('c server, unit) prog" where
  "handleNewMessage is_ping connection =
     (if is_ping then on_world (on_hub (\<lambda>h. (Inr (), h\<lparr>hub_sent := hub_sent h @ [(connection, [])]\<rparr>))) else ret ())"

section \<open>Routes\<close>

datatype image_route = RtCreate | RtListMy | RtListMyByStatus string | RtGet int | RtBinary int | RtStatus int | RtDelete int
  | RtCancel int | RtRetry int

fun image_handler :: "'c api \<Rightarrow> occasion \<Rightarrow> http_request \<Rightarrow> image_route \<Rightarrow> ('c server, unit) prog" where
  "image_handler x oc req RtCreate = image_create x oc req"
| "image_handler x oc req RtListMy = image_listMy x oc req"
| "image_handler x oc req (RtListMyByStatus st) = image_listMyByStatus x oc req st"
| "image_handler x oc req (RtGet i) = image_getById x oc req i"
| "image_handler x oc req (RtBinary i) = image_getBinaryById x oc req i"
| "image_handler x oc req (RtStatus i) = image_getStatusById x oc req i"
| "image_handler x oc req (RtDelete i) = image_deleteById x oc req i"
| "image_handler x oc req (RtCancel i) = image_cancelById x oc req i"
| "image_handler x oc req (RtRetry i) = image_retryById x oc req i"

end
