(* ===== verification/Http_Facts.thy ===== *)
theory Http_Facts
  imports Http_Api
begin

text \<open>
  What the controllers promise: an image handler serves the user of the token and nobody else, a
  request without a user or with a body that is no JSON changes nothing, and no \<open>std::exception\<close>
  leaves a handler.
\<close>

section \<open>Documents that the JSON library can always write\<close>

text \<open>The serialiser throws on texts that are not UTF-8 only; these are printable ASCII.\<close>

definition plain_text :: "string \<Rightarrow> bool" where
  "plain_text s \<longleftrightarrow> list_all isSafeVisibleChar s"

fun plain_json :: "json \<Rightarrow> bool" where
  "plain_json (JStr s) \<longleftrightarrow> plain_text s"
| "plain_json (JArr js) \<longleftrightarrow> list_all plain_json js"
| "plain_json (JObj kvs) \<longleftrightarrow> list_all (\<lambda>kv. plain_text (fst kv) \<and> plain_json (snd kv)) kvs"
| "plain_json _ \<longleftrightarrow> True"

definition writes_plain :: "(json \<Rightarrow> exn + string) \<Rightarrow> bool" where
  "writes_plain dump \<longleftrightarrow> (\<forall>j. plain_json j \<longrightarrow> (\<exists>t. dump j = Inr t))"

lemma plain_append [simp]: "plain_text (s @ t) \<longleftrightarrow> plain_text s \<and> plain_text t"
  by (simp add: plain_text_def)

lemma plain_Cons [simp]: "plain_text (c # t) \<longleftrightarrow> isSafeVisibleChar c \<and> plain_text t" "plain_text []"
  by (simp_all add: plain_text_def)

lemma plain_safe [simp]: "plain_text (safeLogValue s)"
  by (auto simp: safeLogValue_def plain_text_def list_all_iff Let_def isSafeVisibleChar_def cbyte_def)

lemma plain_digits [simp]: "plain_text (fmt_int_pad w n)"
  unfolding plain_text_def list_all_iff
  by (auto dest!: fmt_int_pad_digits simp: isSafeVisibleChar_def is_digit_def)

lemma plain_time [simp]: "plain_text (nowIsoUtc t)"
  by (simp add: nowIsoUtc_def Let_def isSafeVisibleChar_def cbyte_def)

lemma plain_audit: "plain_json (audit_toJson t e)"
  by (simp add: audit_toJson_def split: option.split) (simp add: isSafeVisibleChar_def cbyte_def)

lemma plain_error: "plain_text c \<Longrightarrow> plain_text m \<Longrightarrow> plain_json (JObj [(''error'', service_error_toJson (mk_error st c m))])"
  by (simp add: service_error_toJson_def mk_error_def isSafeVisibleChar_def cbyte_def)

section \<open>Steps that only touch the answer and the log\<close>

lemma keeps_leaves: "leaves part m \<Longrightarrow> (\<And>s s'. part s' = part s \<Longrightarrow> I s \<Longrightarrow> I s') \<Longrightarrow> keeps I m"
  by (auto simp: keeps_def leaves_def)

text \<open>The tasks, the users, and what Redis holds of leases, of the queue and of the refresh tokens.\<close>

definition held :: "'c server \<Rightarrow> image_db \<times> user_db \<times> redis_client" where
  "held s = (w_db (sv_world s), sv_users s, w_redis (sv_world s))"

lemma leaves_answer [leaves_intros]:
  "leaves held (set_status n)" "leaves held (set_type t)" "leaves held (set_body b)" "leaves held (log_line l)"
  "leaves held status_now" "leaves held (on_limiter f)" "leaves held (on_world (on_metrics g))"
  "leaves held (modify (\<lambda>s. s\<lparr>sv_response := r\<rparr>))"
  by (auto simp: leaves_def held_def set_status_def set_type_def set_body_def log_line_def status_now_def on_limiter_def
      on_world_def on_metrics_def modify_def split: prod.split)

lemma leaves_fill [leaves_intros]: "leaves held (fillServiceError x e)" "leaves held (fillDirectError x n c m)"
  unfolding fillServiceError_def fillDirectError_def by (intro leaves_intros)+

lemma leaves_audit [leaves_intros]: "leaves held (auditRequest x oc req ev out u st i)"
  unfolding auditRequest_def logHttpEvent_def by (intro leaves_intros)

lemma leaves_respond [leaves_intros]: "leaves held (respondFromExpected x r n f)"
  unfolding respondFromExpected_def by (cases r) (simp_all, (intro leaves_intros)+)

text \<open>A fact about the table of tasks.\<close>

definition says :: "(image_db \<Rightarrow> bool) \<Rightarrow> 'c server \<Rightarrow> bool" where
  "says I s \<longleftrightarrow> I (w_db (sv_world s))"

lemma says_leaves: "leaves held m \<Longrightarrow> keeps (says I) m"
  by (rule keeps_leaves) (auto simp: held_def says_def)

lemma says_service:
  fixes m :: "('w world, 'b) prog"
  assumes "db_by P m" "\<forall>op db. P op \<longrightarrow> I db \<longrightarrow> I (run_op op db)"
  shows "keeps (says I) (on_world m)"
proof (rule keepsI)
  fix s :: "'w server" assume o: "says I s"
  have "I (w_db (snd (m (sv_world s))))"
    by (rule db_by_keeps [OF assms(1)]) (use o assms(2) in \<open>simp_all add: says_def\<close>)
  then show "says I (snd (on_world m s))" by (cases "m (sv_world s)") (simp add: on_world_def says_def)
qed

lemma keeps_catch_std [keeps_intros]: "keeps I m \<Longrightarrow> (\<And>e. keeps I (h e)) \<Longrightarrow> keeps I (catch_std m h)"
  unfolding keeps_def catch_std_def by (auto split: prod.split sum.split)

lemma keeps_catch_json [keeps_intros]: "keeps (says I) m \<Longrightarrow> keeps (says I) (catch_json x m)"
  unfolding catch_json_def
  by (rule keeps_catch_std, assumption) (auto split: exn.split intro!: says_leaves leaves_intros)

lemma says_run [keeps_intros]: "keeps (says I) m \<Longrightarrow> keeps (says I) (runJsonHandler x oc n m)"
  unfolding runJsonHandler_def
  by (rule keeps_bindp [OF says_leaves [OF leaves_answer(8)]], rule keeps_bindp, erule keeps_catch_json)
    (intro says_leaves leaves_intros)

lemmas says_plain [keeps_intros] =
  leaves_answer(1-6) [THEN says_leaves] leaves_fill [THEN says_leaves] leaves_audit [THEN says_leaves]
  leaves_respond [THEN says_leaves]

lemma keeps_lift_sum [keeps_intros]: "keeps I (lift_sum r)"
  by (cases r) (simp_all add: lift_sum_def keeps_def)

section \<open>A request with a user\<close>

text \<open>The repository operations behind a route: only the routes of deletion and retry delete and retry.\<close>

fun route_op :: "int \<Rightarrow> image_route \<Rightarrow> repo_op \<Rightarrow> bool" where
  "route_op u rt (OpDelete i v) \<longleftrightarrow> v = u \<and> rt = RtDelete i"
| "route_op u rt (OpRetry now i v) \<longleftrightarrow> v = u \<and> rt = RtRetry i"
| "route_op u rt op \<longleftrightarrow> request_op u op"

lemma route_request_op: "route_op u rt op \<Longrightarrow> request_op u op"
  by (cases op) auto

lemma route_with_task:
  assumes "\<And>g. db_by (route_op u rt) (k g)"
  shows "db_by (route_op u rt) (with_task u i e k)"
  unfolding with_task_def by (intro db_by_intros assms; simp)

lemma route_enqueue: "db_by (route_op u rt) (TaskEngine_enqueue cfg i)"
  unfolding TaskEngine_enqueue_def engine_bootstrap_def recoverOrphanedTasks_def by (intro db_by_intros; simp)

lemma route_create: "db_by (route_op u RtCreate) (svc_create x rand u payload adm)"
  unfolding svc_create_def quota_check_def insert_task_def announce_def
  by (intro db_by_intros route_enqueue; simp add: new_task_def)

lemma route_requests:
  "db_by (route_op u rt) (svc_listMy x d u p z)" "db_by (route_op u rt) (svc_listMyByStatus x d u st p z)"
  "db_by (route_op u rt) (svc_getById x u i b)" "db_by (route_op u rt) (svc_cancelById x u i)"
  "db_by (route_op u (RtRetry i)) (svc_retryById x u i)" "db_by (route_op u rt) (svc_getBinaryById x u i)"
  "db_by (route_op u (RtDelete i)) (svc_deleteById x u i)"
  unfolding svc_listMy_def svc_listMyByStatus_def svc_getById_def svc_cancelById_def svc_retryById_def
    svc_getBinaryById_def svc_deleteById_def list_from_repo_def image_from_repo_def
  by (intro db_by_intros route_with_task route_enqueue; simp)+

lemma requester_positive: "requester x oc req = Some p \<Longrightarrow> 0 < jp_user_id p"
  by (auto simp: requester_def bearer_user_def split: option.splits if_splits)

lemma known_user:
  assumes "requester x oc req = Some p"
  shows "audited x oc req ev k = k p"
    "runAuthenticatedJson x oc req n b = runJsonHandler x oc n (b (jp_user_id p))"
  using assms requester_positive [OF assms]
  by (simp_all add: audited_def runAuthenticatedJson_def resolveUserId_def resolveUser_def bindp_def fun_eq_iff)

text \<open>What every operation behind a route keeps is kept by its handler.\<close>

lemma handler_keeps:
  assumes user: "requester x oc req = Some p"
    and ops: "\<forall>op db. route_op (jp_user_id p) rt op \<longrightarrow> I db \<longrightarrow> I (run_op op db)"
  shows "keeps (says I) (image_handler x oc req rt)"
proof -
  note services = says_service [OF _ ops]
  note handlers = image_create_def image_listMy_def image_listMyByStatus_def image_getById_def image_getBinaryById_def
    image_getStatusById_def image_deleteById_def image_cancelById_def image_retryById_def
  show ?thesis
    by (cases rt) (simp_all only: image_handler.simps handlers known_user [OF user] Let_def,
      (intro keeps_intros services; (simp only:)?; rule route_create route_requests)+)
qed

lemma others_handler:
  assumes "requester x oc req = Some p"
  shows "keeps (says (\<lambda>db. rows_of_others (jp_user_id p) db = c)) (image_handler x oc req rt)"
  using assms by (rule handler_keeps) (simp add: request_op_others route_request_op)

section \<open>A request without a user\<close>

lemma writes_plainD: "writes_plain dump \<Longrightarrow> plain_json j \<Longrightarrow> \<exists>t. dump j = Inr t"
  by (simp add: writes_plain_def)

lemma fillDirectError_runs:
  assumes "writes_plain (x_dump x)" "plain_text c" "plain_text m"
  shows "\<exists>b. fillDirectError x st c m s = (Inr (), s\<lparr>sv_response := (sv_response s)\<lparr>hp_status := st, hp_body := b\<rparr>\<rparr>)"
  using writes_plainD [OF assms(1) plain_error [OF assms(2,3)], of st]
  by (auto simp: fillDirectError_def fillServiceError_def mk_error_def set_status_def set_body_def bindp_def)

lemma auditRequest_runs:
  assumes "writes_plain (x_dump x)"
  shows "\<exists>l. auditRequest x oc req ev out u st i s = (Inr (), s\<lparr>sv_log := l\<rparr>)"
proof -
  obtain t where "x_dump x (audit_toJson (oc_time oc)
       \<lparr>ae_event = ev, ae_outcome = out, ae_request_id = requestIdFrom req,
        ae_client_ip = safeLogValue (clientIp req (rl_trust_proxy (ap_limits x))),
        ae_resource_id = (if i = [] then None else Some (safeLogValue i)), ae_user_id = u, ae_status_code = st\<rparr>) = Inr t"
    using writes_plainD [OF assms plain_audit] by blast
  then have "auditRequest x oc req ev out u st i s = (Inr (), s\<lparr>sv_log := sv_log s @ [''audit '' @ t]\<rparr>)"
    by (simp add: auditRequest_def logHttpEvent_def log_line_def bindp_def)
  then show ?thesis by blast
qed

text \<open>A step that runs to its end, leaves the tasks and users, and sets the status 401.\<close>

definition refuses :: "('c server, 'a) prog \<Rightarrow> 'a \<Rightarrow> bool" where
  "refuses m v \<longleftrightarrow> (\<forall>s. \<exists>s'. m s = (Inr v, s') \<and> held s' = held s \<and> hp_status (sv_response s') = 401)"

lemma refusesD: "refuses m v \<Longrightarrow> \<exists>s'. m s = (Inr v, s') \<and> held s' = held s \<and> hp_status (sv_response s') = 401"
  by (simp add: refuses_def)

lemma resolve_refuses:
  assumes "writes_plain (x_dump x)" "requester x oc req = None"
  shows "refuses (resolveUser x oc req) None"
  unfolding refuses_def
proof
  fix s
  obtain c m where cm: "plain_text c" "plain_text m" and r: "resolveUser x oc req = bindp (fillDirectError x 401 c m) (\<lambda>_. ret None)"
  proof (cases "extractBearerToken (hq_header req ''Authorization'') = None")
    case True
    then show ?thesis
      using assms(2) that [of "''missing_bearer_token''" "''missing bearer token''"]
      by (simp add: resolveUser_def isSafeVisibleChar_def cbyte_def)
  next
    case False
    then show ?thesis
      using assms(2) that [of "''invalid_token''" "''invalid token''"]
      by (auto simp: resolveUser_def isSafeVisibleChar_def cbyte_def)
  qed
  obtain b where "fillDirectError x 401 c m s = (Inr (), s\<lparr>sv_response := (sv_response s)\<lparr>hp_status := 401, hp_body := b\<rparr>\<rparr>)"
    using fillDirectError_runs [OF assms(1) cm] by blast
  then show "\<exists>s'. resolveUser x oc req s = (Inr None, s') \<and> held s' = held s \<and> hp_status (sv_response s') = 401"
    by (simp add: r bindp_def held_def)
qed

lemma run_refuses:
  assumes "refuses m ()"
  shows "refuses (runJsonHandler x oc n m) ()"
  unfolding refuses_def
proof
  fix s
  obtain s1 where "m (s\<lparr>sv_response := new_response\<rparr>) = (Inr (), s1)" "held s1 = held s" "hp_status (sv_response s1) = 401"
    using refusesD [OF assms, of "s\<lparr>sv_response := new_response\<rparr>"] by (auto simp: held_def)
  then show "\<exists>s'. runJsonHandler x oc n m s = (Inr (), s') \<and> held s' = held s \<and> hp_status (sv_response s') = 401"
    by (simp add: runJsonHandler_def bindp_def modify_def catch_json_def catch_std_def status_now_def on_world_def on_metrics_def held_def)
qed

lemma stranger_refused:
  assumes "writes_plain (x_dump x)" "requester x oc req = None"
  shows "refuses (audited x oc req ev k) ()" "refuses (runAuthenticatedJson x oc req n b) ()"
proof -
  show "refuses (audited x oc req ev k) ()"
    unfolding refuses_def
  proof
    fix s
    obtain s1 where s1: "resolveUser x oc req s = (Inr None, s1)" "held s1 = held s" "hp_status (sv_response s1) = 401"
      using refusesD [OF resolve_refuses [OF assms]] by blast
    obtain l where "auditRequest x oc req ev ''failure'' None 401 [] s1 = (Inr (), s1\<lparr>sv_log := l\<rparr>)"
      using auditRequest_runs [OF assms(1)] by blast
    with s1 show "\<exists>s'. audited x oc req ev k s = (Inr (), s') \<and> held s' = held s \<and> hp_status (sv_response s') = 401"
      by (simp add: audited_def bindp_def status_now_def held_def)
  qed
  have "refuses (bindp (resolveUserId x oc req) (\<lambda>u. case u of None \<Rightarrow> ret () | Some userId \<Rightarrow> b userId)) ()"
    unfolding refuses_def
  proof
    fix s
    show "\<exists>s'. bindp (resolveUserId x oc req) (\<lambda>u. case u of None \<Rightarrow> ret () | Some userId \<Rightarrow> b userId) s = (Inr (), s') \<and>
        held s' = held s \<and> hp_status (sv_response s') = 401"
      using refusesD [OF resolve_refuses [OF assms], of s] by (auto simp: resolveUserId_def bindp_def)
  qed
  then show "refuses (runAuthenticatedJson x oc req n b) ()"
    unfolding runAuthenticatedJson_def by (rule run_refuses)
qed

lemma stranger_handler:
  assumes "writes_plain (x_dump x)" "requester x oc req = None"
  shows "refuses (image_handler x oc req rt) ()"
  by (cases rt) (simp_all add: image_create_def image_listMy_def image_listMyByStatus_def image_getById_def image_getBinaryById_def
      image_getStatusById_def image_deleteById_def image_cancelById_def image_retryById_def run_refuses stranger_refused [OF assms])

text \<open>
  C4: a request for an image serves the user whom the filter or a valid token
  names: whatever fails, the rows of every other user stay as they are and in their place; a request
  that names no user is answered with the status 401, and neither the tasks nor the users change.
\<close>

theorem api_serves_its_user:
  assumes "writes_plain (x_dump x)"
  shows "case requester x oc req of
      None \<Rightarrow> \<exists>s'. image_handler x oc req rt s = (Inr (), s') \<and> hp_status (sv_response s') = 401 \<and>
        w_db (sv_world s') = w_db (sv_world s) \<and> sv_users s' = sv_users s
    | Some p \<Rightarrow> filter (\<lambda>r. ir_user_id r \<noteq> jp_user_id p) (rows (w_db (sv_world (snd (image_handler x oc req rt s))))) =
        filter (\<lambda>r. ir_user_id r \<noteq> jp_user_id p) (rows (w_db (sv_world s)))"
proof (cases "requester x oc req")
  case None
  then show ?thesis using refusesD [OF stranger_handler [OF assms None], of rt s] by (auto simp: held_def)
next
  case (Some p)
  have "says (\<lambda>db. rows_of_others (jp_user_id p) db = rows_of_others (jp_user_id p) (w_db (sv_world s)))
      (snd (image_handler x oc req rt s))"
    by (rule keepsD [OF others_handler [OF Some]]) (simp add: says_def)
  with Some show ?thesis by (simp add: says_def rows_of_others_def)
qed

text \<open>The witness: the token of user 7 asks for the deletion of a task of user 5; nobody asks for it at all.\<close>

definition demo_api :: "unit api" where
  "demo_api = \<lparr>x_config = Inr demo_config, x_dump = (\<lambda>_. Inr ''{}''), x_parse = (\<lambda>_. Inl (JsonParseError ''syntax'')),
     x_url_path = (\<lambda>_. None), x_presign = (\<lambda>_ _ _. None), x_cache = null_cache_if, x_presign_ttl = 3600,
     ap_jwt = demo_jwt, ap_kdf = demo_kdf, ap_limits = default_rate_config, ap_metrics = None\<rparr>"

definition demo_occasion :: occasion where
  "demo_occasion = \<lparr>oc_draws = demo_draws 1, oc_rand = 7, oc_jitter = 0, oc_now_ms = 0, oc_time = 0, oc_elapsed = 0\<rparr>"

definition demo_request :: "string \<Rightarrow> http_request" where
  "demo_request authorization = \<lparr>hq_header = (\<lambda>k. if k = ''Authorization'' then authorization else []), hq_param = (\<lambda>_. []),
     hq_body = [], hq_peer = ''10.0.0.9'', hq_user_id = None, hq_user_role = None, hq_request_id = None\<rparr>"

definition demo_server :: "unit server" where
  "demo_server = \<lparr>sv_world = demo_world (demo_db [demo_row 1 5 Queued]) demo_redis, sv_users = demo_user_db [demo_ann],
     sv_limiter = NullRateLimiter, sv_log = [], sv_response = new_response\<rparr>"

lemma demo_api_plain: "writes_plain (x_dump demo_api)"
  by (simp add: writes_plain_def demo_api_def)

lemma demo_requesters:
  "\<exists>p. requester demo_api demo_occasion (demo_request ''Bearer a'') = Some p \<and> jp_user_id p = 7"
  "requester demo_api demo_occasion (demo_request []) = None"
proof -
  have "generateJti (replicate 16 1) \<noteq> []" by (simp add: generateJti_def Let_def)
  then have "\<exists>p. verifyToken demo_jwt (Inr demo_config) 100 ''a'' = Some p \<and> jp_user_id p = 7"
    using tokens_read_back [OF demo_jwt_laws _ _ demo_issued(2) _ _ demo_issued(3), of 100 100] by (simp add: demo_lifetimes is_int64_def)
  then show "\<exists>p. requester demo_api demo_occasion (demo_request ''Bearer a'') = Some p \<and> jp_user_id p = 7"
    by (auto simp: requester_def bearer_user_def demo_request_def extractBearerToken_def starts_with_def demo_api_def
        demo_occasion_def demo_draws_def)
  show "requester demo_api demo_occasion (demo_request []) = None"
    by (simp add: requester_def bearer_user_def demo_request_def extractBearerToken_def)
qed

theorem api_serves_its_user_witness:
  "filter (\<lambda>r. ir_user_id r \<noteq> 7) (rows (w_db (sv_world (snd
       (image_handler demo_api demo_occasion (demo_request ''Bearer a'') (RtDelete 1) demo_server))))) = [demo_row 1 5 Queued] \<and>
   (\<exists>s'. image_handler demo_api demo_occasion (demo_request []) (RtDelete 1) demo_server = (Inr (), s') \<and>
      hp_status (sv_response s') = 401 \<and> rows (w_db (sv_world s')) = [demo_row 1 5 Queued])"
proof -
  have rows: "rows (w_db (sv_world demo_server)) = [demo_row 1 5 Queued]"
    by (simp add: demo_server_def demo_db_def)
  obtain p where p: "requester demo_api demo_occasion (demo_request ''Bearer a'') = Some p" "jp_user_id p = 7"
    using demo_requesters(1) by blast
  show ?thesis
    using api_serves_its_user [OF demo_api_plain, of demo_occasion "demo_request ''Bearer a''" "RtDelete 1" demo_server]
      api_serves_its_user [OF demo_api_plain, of demo_occasion "demo_request []" "RtDelete 1" demo_server]
    by (auto simp: p demo_requesters(2) rows)
qed

section \<open>Exceptions\<close>

lemma returns_runs: "(\<And>s. \<exists>v s'. m s = (Inr v, s')) \<Longrightarrow> contained m"
  unfolding contained_def by (metis Inl_Inr_False prod.inject)

text \<open>The last resort of a handler is an answer that the JSON library can write, so nothing leaves it.\<close>

lemma run_contained:
  assumes "writes_plain (x_dump x)"
  shows "contained (runJsonHandler x oc n m)"
proof -
  have error: "contained (fillDirectError x st ''invalid_json_body'' ''invalid json body'')"
    "contained (fillDirectError x st ''internal_error'' ''internal error'')" for st
    using fillDirectError_runs [OF assms, of "''invalid_json_body''" "''invalid json body''" st]
      fillDirectError_runs [OF assms, of "''internal_error''" "''internal error''" st]
    by (intro returns_runs; fastforce simp: isSafeVisibleChar_def cbyte_def)+
  have "contained (catch_json x m)"
    unfolding catch_json_def by (rule contained_catch_std) (auto split: exn.split intro: error)
  moreover have "contained (modify f)" "contained status_now" "contained (on_world (on_metrics g))" for f g
    by (simp_all add: contained_def modify_def status_now_def on_world_def on_metrics_def)
  ultimately show ?thesis unfolding runJsonHandler_def by (intro contained_bindp)
qed

lemma image_handler_contained: "writes_plain (x_dump x) \<Longrightarrow> contained (image_handler x oc req rt)"
  by (cases rt) (simp_all add: image_create_def image_listMy_def image_listMyByStatus_def image_getById_def image_getBinaryById_def
      image_getStatusById_def image_deleteById_def image_cancelById_def image_retryById_def runAuthenticatedJson_def run_contained)

section \<open>A body that is no JSON\<close>

text \<open>A program that stops before it touches anything: with one of the refusals, or at the parse error.\<close>

definition declines :: "('c server, 'a) prog \<Rightarrow> bool" where
  "declines m \<longleftrightarrow> (\<forall>s. held (snd (m s)) = held s \<and> (case fst (m s) of
     Inl e \<Rightarrow> \<exists>t. e = JsonParseError t | Inr _ \<Rightarrow> hp_status (sv_response (snd (m s))) \<in> {401, 429, 503}))"

lemma limiter_refusal:
  assumes "limiter_tryAcquire k c w n l = (Inl e, l')"
  shows "\<exists>st c m. e = mk_error st c m \<and> st \<in> {429, 503} \<and> plain_text c \<and> plain_text m"
proof -
  have "e = limiter_unavailable \<or> e = tooManyRequests ''rate_limit_exceeded'' ''too many requests''"
    using assms by (cases l) (auto simp: tryAcquire_def split: if_splits prod.splits sum.splits)
  moreover have "plain_text ''rate_limiter_unavailable'' \<and> plain_text ''rate limiter is unavailable'' \<and>
      plain_text ''rate_limit_exceeded'' \<and> plain_text ''too many requests''"
    by (simp add: isSafeVisibleChar_def cbyte_def)
  ultimately show ?thesis
    unfolding limiter_unavailable_def tooManyRequests_def by (metis insertCI)
qed

lemma declines_bad_body: "x_parse x body = Inl (JsonParseError t) \<Longrightarrow> declines (bindp (lift_sum (x_parse x body)) k)"
  by (simp add: declines_def bindp_def lift_sum_def)

lemma declines_step:
  assumes "\<And>s. \<exists>v s1. m s = (Inr v, s1) \<and> held s1 = held s \<and> declines (k v)"
  shows "declines (bindp m k)"
  unfolding declines_def
proof
  fix s
  obtain v s1 where "m s = (Inr v, s1)" "held s1 = held s" "declines (k v)" using assms [of s] by blast
  moreover from this have "bindp m k s = k v s1" by (simp add: bindp_def)
  ultimately show "held (snd (bindp m k s)) = held s \<and> (case fst (bindp m k s) of
      Inl e \<Rightarrow> \<exists>t. e = JsonParseError t | Inr _ \<Rightarrow> hp_status (sv_response (snd (bindp m k s))) \<in> {401, 429, 503})"
    unfolding declines_def by metis
qed

lemma declines_refused:
  assumes "writes_plain (x_dump x)" "limiter_tryAcquire k c w n l = (Inl e, l')"
  shows "declines (bindp (auditRequest x oc req ev out u st i) (\<lambda>_. fillServiceError x e))"
proof (rule declines_step)
  fix s
  obtain lg where "auditRequest x oc req ev out u st i s = (Inr (), s\<lparr>sv_log := lg\<rparr>)"
    using auditRequest_runs [OF assms(1)] by blast
  moreover obtain code c m where e: "e = mk_error code c m" "code \<in> {429, 503}" "plain_text c" "plain_text m"
    using limiter_refusal [OF assms(2)] by blast
  have "declines (fillServiceError x e)"
    unfolding declines_def
  proof
    fix s1 :: "'a server"
    obtain b where "fillServiceError x e s1 = (Inr (), s1\<lparr>sv_response := (sv_response s1)\<lparr>hp_status := code, hp_body := b\<rparr>\<rparr>)"
      using fillDirectError_runs [OF assms(1) e(3,4), of code s1] unfolding fillDirectError_def e(1) by blast
    then show "held (snd (fillServiceError x e s1)) = held s1 \<and> (case fst (fillServiceError x e s1) of
        Inl e \<Rightarrow> \<exists>t. e = JsonParseError t | Inr _ \<Rightarrow> hp_status (sv_response (snd (fillServiceError x e s1))) \<in> {401, 429, 503})"
      using e(2) by (auto simp: held_def)
  qed
  ultimately show "\<exists>v s1. auditRequest x oc req ev out u st i s = (Inr v, s1) \<and> held s1 = held s \<and> declines (fillServiceError x e)"
    by (intro exI [of _ "()"] exI [of _ "s\<lparr>sv_log := lg\<rparr>"]) (simp add: held_def)
qed

text \<open>A request for a token of the limiter, with the refusal it may end in.\<close>

lemma declines_limited:
  assumes "writes_plain (x_dump x)" "\<And>v. declines (k v)"
  shows "declines (bindp (if b then on_limiter (limiter_tryAcquire ky c w n) else ret (Inr ())) (\<lambda>acquired. case acquired of
     Inl e \<Rightarrow> bindp (auditRequest x oc req ev out u (se_status e) i) (\<lambda>_. fillServiceError x e) | Inr v \<Rightarrow> k v))"
proof (rule declines_step)
  fix s :: "'a server"
  obtain r l where r: "limiter_tryAcquire ky c w n (sv_limiter s) = (r, l)" by fastforce
  show "\<exists>v s1. (if b then on_limiter (limiter_tryAcquire ky c w n) else ret (Inr ())) s = (Inr v, s1) \<and> held s1 = held s \<and>
      declines (case v of Inl e \<Rightarrow> bindp (auditRequest x oc req ev out u (se_status e) i) (\<lambda>_. fillServiceError x e) | Inr v \<Rightarrow> k v)"
    using r assms(2) declines_refused [OF assms(1), of ky c w n "sv_limiter s"]
    by (cases b) (auto simp: on_limiter_def held_def split: sum.split)
qed

lemma declines_stranger: "refuses m () \<Longrightarrow> declines m"
  unfolding declines_def refuses_def by (metis (mono_tags, lifting) fst_conv insertI1 old.sum.simps(6) snd_conv)

lemma declines_audited:
  assumes "writes_plain (x_dump x)" "\<And>p. declines (k p)"
  shows "declines (audited x oc req ev k)"
proof (cases "requester x oc req")
  case None
  show ?thesis by (rule declines_stranger [OF stranger_refused(1) [OF assms(1) None]])
next
  case (Some p)
  show ?thesis unfolding known_user(1) [OF Some] by (rule assms(2))
qed

lemma run_declines:
  assumes "writes_plain (x_dump x)" "declines m"
  shows "\<exists>s'. runJsonHandler x oc n m s = (Inr (), s') \<and> held s' = held s \<and> hp_status (sv_response s') \<in> {400, 401, 429, 503}"
proof -
  let ?s = "s\<lparr>sv_response := new_response\<rparr>"
  have d: "held (snd (m ?s)) = held s" "case fst (m ?s) of Inl e \<Rightarrow> \<exists>t. e = JsonParseError t
      | Inr _ \<Rightarrow> hp_status (sv_response (snd (m ?s))) \<in> {401, 429, 503}"
    using assms(2) by (auto simp: declines_def held_def)
  have "\<exists>s1. catch_json x m ?s = (Inr (), s1) \<and> held s1 = held s \<and> hp_status (sv_response s1) \<in> {400, 401, 429, 503}"
  proof (cases "m ?s")
    case (Pair r s1)
    obtain b where "fillDirectError x 400 ''invalid_json_body'' ''invalid json body'' s1 =
        (Inr (), s1\<lparr>sv_response := (sv_response s1)\<lparr>hp_status := 400, hp_body := b\<rparr>\<rparr>)"
      using fillDirectError_runs [OF assms(1), of "''invalid_json_body''" "''invalid json body''" 400 s1]
      by (auto simp: isSafeVisibleChar_def cbyte_def)
    with Pair d show ?thesis by (cases r) (auto simp: catch_json_def catch_std_def held_def)
  qed
  then show ?thesis
    by (auto simp: runJsonHandler_def bindp_def modify_def status_now_def on_world_def on_metrics_def held_def)
qed

text \<open>The handlers that read a body.\<close>

datatype body_route = BodyCreate | BodyRegister | BodyLogin | BodyRefresh | BodyLogout | BodyPassword

fun body_handler :: "'c api \<Rightarrow> occasion \<Rightarrow> http_request \<Rightarrow> body_route \<Rightarrow> ('c server, unit) prog" where
  "body_handler x oc req BodyCreate = image_create x oc req"
| "body_handler x oc req BodyRegister = http_register x oc req"
| "body_handler x oc req BodyLogin = http_login x oc req"
| "body_handler x oc req BodyRefresh = http_refresh x oc req"
| "body_handler x oc req BodyLogout = http_logout x oc req"
| "body_handler x oc req BodyPassword = http_changePassword x oc req"

lemma limited_rule:
  assumes "writes_plain (x_dump x)" "declines k"
  shows "declines (limited x oc req ev k)"
  using declines_limited [OF assms(1), of "\<lambda>_. k" "rl_enabled (ap_limits x)"
      "rate_ipKey (clientIp req (rl_trust_proxy (ap_limits x))) (ap_limits x)" "rl_auth_ip_capacity (ap_limits x)"
      "rl_auth_ip_window (ap_limits x)" "oc_now_ms oc" oc req ev "''failure''" None "[]"] assms(2)
  unfolding limited_def acquireAuthIpToken_def Let_def by (cases "rl_enabled (ap_limits x)") simp_all

text \<open>
  C40: a request whose body is no JSON ends in the status 400, unless it was
  refused before for its token (401) or its rate (429, or 503 when the limiter is out of reach and
  fails closed); in every case the tasks, the users and what Redis holds stay as they were.
\<close>

theorem bad_body_is_refused:
  assumes "writes_plain (x_dump x)" "x_parse x (hq_body req) = Inl (JsonParseError t)"
  shows "\<exists>s'. body_handler x oc req rt s = (Inr (), s') \<and> hp_status (sv_response s') \<in> {400, 401, 429, 503} \<and>
    w_db (sv_world s') = w_db (sv_world s) \<and> sv_users s' = sv_users s \<and> w_redis (sv_world s') = w_redis (sv_world s)"
proof -
  note bad = declines_bad_body [of x "hq_body req", OF assms(2)] and plain = assms(1)
  obtain n m where m: "body_handler x oc req rt = runJsonHandler x oc n m" "declines m"
  proof (cases rt)
    case BodyCreate
    then show ?thesis
      by (intro that) (simp add: image_create_def, intro declines_audited declines_limited bad plain, unfold Let_def, intro declines_limited bad plain)
  next
    case BodyRegister
    then show ?thesis by (intro that) (simp add: http_register_def, intro limited_rule bad plain)
  next
    case BodyLogin
    then show ?thesis by (intro that) (simp add: http_login_def, intro limited_rule bad plain)
  next
    case BodyRefresh
    then show ?thesis by (intro that) (simp add: http_refresh_def, intro bad)
  next
    case BodyLogout
    then show ?thesis by (intro that) (simp add: http_logout_def, intro bad)
  next
    case BodyPassword
    then show ?thesis by (intro that) (simp add: http_changePassword_def, intro declines_audited bad plain)
  qed
  show ?thesis using run_declines [OF assms(1) m(2), of oc n s] unfolding m(1) by (auto simp: held_def)
qed

theorem bad_body_is_refused_witness:
  "\<exists>s'. body_handler demo_api demo_occasion (demo_request []) BodyLogin demo_server = (Inr (), s') \<and>
     hp_status (sv_response s') \<in> {400, 401, 429, 503} \<and> rows (w_db (sv_world s')) = [demo_row 1 5 Queued]"
proof -
  have "x_parse demo_api (hq_body (demo_request [])) = Inl (JsonParseError ''syntax'')" by (simp add: demo_api_def)
  from bad_body_is_refused [OF demo_api_plain this, of demo_occasion BodyLogin demo_server]
  show ?thesis by (auto simp: demo_server_def demo_db_def)
qed

end
