(* ===== verification/Task_System.thy ===== *)
theory Task_System
  imports Http_Facts
begin

text \<open>
  The whole program: requests of users, requests for authentication, rounds of workers, keepers and
  the scanner, and everything that happens outside (time, answers of the network, failures, other
  changes of Redis, the cache and the object store) as steps on one server state, interleaved in any
  order. A step carries what happened, so a run carries the list of its events.
\<close>

section \<open>Steps and runs\<close>

datatype auth_route = AuRegister | AuLogin | AuRefresh | AuLogout | AuMe | AuPassword

fun auth_handler :: "'c api \<Rightarrow> occasion \<Rightarrow> http_request \<Rightarrow> auth_route \<Rightarrow> ('c server, unit) prog" where
  "auth_handler x oc req AuRegister = http_register x oc req"
| "auth_handler x oc req AuLogin = http_login x oc req"
| "auth_handler x oc req AuRefresh = http_refresh x oc req"
| "auth_handler x oc req AuLogout = http_logout x oc req"
| "auth_handler x oc req AuMe = http_me x oc req"
| "auth_handler x oc req AuPassword = http_changePassword x oc req"

datatype sys_event =
    EvImage "jwt_payload option" image_route
  | EvAuth auth_route
  | EvEngine
  | EvOutside

inductive sys_step :: "'c api \<Rightarrow> 'c server \<Rightarrow> sys_event \<Rightarrow> 'c server \<Rightarrow> bool" for x where
  step_image: "sys_step x s (EvImage (requester x oc req) rt) (snd (image_handler x oc req rt s))"
| step_auth: "sys_step x s (EvAuth rt) (snd (auth_handler x oc req rt s))"
| step_worker: "sys_step x s EvEngine (snd (on_world (worker_round x cfg v) s))"
| step_keeper: "sys_step x s EvEngine (snd (on_world (keeper_round cfg t v due) s))"
| step_scanner: "sys_step x s EvEngine (snd (on_world (scanner_round x) s))"
| step_outside: "w_db (sv_world s') = (w_db (sv_world s))\<lparr>faults := fs\<rparr> \<Longrightarrow> sys_step x s EvOutside s'"

inductive_cases sys_step_imageE: "sys_step x s (EvImage u rt) s'"

inductive sys_run :: "'c api \<Rightarrow> 'c server \<Rightarrow> sys_event list \<Rightarrow> 'c server \<Rightarrow> bool" for x where
  run_none: "sys_run x s [] s"
| run_more: "sys_run x s evs s1 \<Longrightarrow> sys_step x s1 ev s2 \<Longrightarrow> sys_run x s (evs @ [ev]) s2"

section \<open>What a step keeps of the table\<close>

lemma says_on_auth [keeps_intros]: "keeps (says I) (on_auth m)"
  by (rule keepsI) (auto simp: on_auth_def says_def split: prod.split)

lemma says_limited [keeps_intros]: "keeps (says I) k \<Longrightarrow> keeps (says I) (limited x oc req ev k)"
  unfolding limited_def acquireAuthIpToken_def Let_def by (intro keeps_intros)

lemma says_auth_answer [keeps_intros]: "keeps (says I) (auth_answer x oc req ev m f g)"
  unfolding auth_answer_def by (intro keeps_intros)

lemma says_resolve [keeps_intros]: "keeps (says I) (resolveUser x oc req)"
  unfolding resolveUser_def by (intro keeps_intros)

lemma says_audited [keeps_intros]: "(\<And>p. keeps (says I) (k p)) \<Longrightarrow> keeps (says I) (audited x oc req ev k)"
  unfolding audited_def by (intro keeps_intros)

lemma auth_handler_keeps: "keeps (says I) (auth_handler x oc req rt)"
  by (cases rt) (simp_all add: http_register_def http_login_def http_refresh_def http_logout_def http_me_def http_changePassword_def,
      (intro keeps_intros)+)

lemma engine_keeps:
  assumes "\<forall>op db. engine_op op \<longrightarrow> I db \<longrightarrow> I (run_op op db)"
  shows "keeps (says I) (on_world (worker_round x cfg v))" "keeps (says I) (on_world (keeper_round cfg t v due))"
    "keeps (says I) (on_world (scanner_round x))"
  by (intro says_service [OF _ assms] db_by_intros)+

text \<open>
  A step keeps a fact about the table that the operations behind it keep: the engine's, and those of
  the route a user asks for. A request without a user does none.
\<close>

definition event_op :: "sys_event \<Rightarrow> repo_op \<Rightarrow> bool" where
  "event_op ev op \<longleftrightarrow> (case ev of
      EvImage (Some p) rt \<Rightarrow> 0 < jp_user_id p \<and> route_op (jp_user_id p) rt op | EvEngine \<Rightarrow> engine_op op | _ \<Rightarrow> False)"

lemma sys_step_keeps:
  assumes "sys_step x s ev s'" "writes_plain (x_dump x)" "table_pred I"
    and ops: "\<forall>op db. event_op ev op \<longrightarrow> I db \<longrightarrow> I (run_op op db)"
    and "I (w_db (sv_world s))"
  shows "I (w_db (sv_world s'))"
proof -
  have start: "says I s" using assms(5) by (simp add: says_def)
  from assms(1) have "says I s'"
  proof cases
    case (step_image oc req rt)
    show ?thesis
    proof (cases "requester x oc req")
      case None
      then have "held s' = held s"
        using refusesD [OF stranger_handler [OF assms(2) None], of rt s] step_image by auto
      then show ?thesis using start by (simp add: says_def held_def)
    next
      case (Some p)
      have "keeps (says I) (image_handler x oc req rt)"
        by (rule handler_keeps [OF Some]) (use ops step_image Some requester_positive [OF Some] in \<open>simp add: event_op_def\<close>)
      with start show ?thesis unfolding step_image by (rule keepsD [rotated])
    qed
  next
    case (step_auth oc req rt)
    show ?thesis unfolding step_auth by (rule keepsD [OF auth_handler_keeps start])
  next
    case (step_outside fs)
    have "I (w_db (sv_world s)) \<longrightarrow> I ((w_db (sv_world s))\<lparr>faults := fs\<rparr>)"
      using assms(3) [unfolded table_pred_def, THEN spec, of "w_db (sv_world s)", THEN spec, of "(w_db (sv_world s))\<lparr>faults := fs\<rparr>"]
      by simp
    with assms(5) step_outside show ?thesis by (simp add: says_def)
  next
    case (step_worker cfg v)
    show ?thesis unfolding step_worker
      by (rule keepsD [OF engine_keeps(1) start]) (use ops step_worker in \<open>simp add: event_op_def\<close>)
  next
    case (step_keeper cfg t v due)
    show ?thesis unfolding step_keeper
      by (rule keepsD [OF engine_keeps(2) start]) (use ops step_keeper in \<open>simp add: event_op_def\<close>)
  next
    case step_scanner
    show ?thesis unfolding step_scanner
      by (rule keepsD [OF engine_keeps(3) start]) (use ops step_scanner in \<open>simp add: event_op_def\<close>)
  qed
  then show ?thesis by (simp add: says_def)
qed

lemma sys_run_keeps:
  assumes "sys_run x s evs s'" "\<forall>ev\<in>set evs. \<forall>op db. event_op ev op \<longrightarrow> I db \<longrightarrow> I (run_op op db)" "I (w_db (sv_world s))"
    and "writes_plain (x_dump x)" "table_pred I"
  shows "I (w_db (sv_world s'))"
  using assms(1-3)
proof (induction rule: sys_run.induct)
  case (run_more s evs s1 ev s2)
  have "I (w_db (sv_world s1))" by (rule run_more.IH) (use run_more.prems in simp_all)
  moreover have "\<forall>op db. event_op ev op \<longrightarrow> I db \<longrightarrow> I (run_op op db)" using run_more.prems(1) by simp
  ultimately show ?case by (intro sys_step_keeps [OF run_more.hyps(2) assms(4,5)])
qed

lemma event_op_wf: "event_op ev op \<Longrightarrow> wf_op op"
  by (cases op) (auto simp: event_op_def split: sys_event.splits option.splits)

section \<open>Properties\<close>

text \<open>
  C3: whatever users ask for, workers and scanner do, and fails on the way, the table
  keeps its invariant, and a task that has ended keeps every column as long as its owner asks
  neither for its deletion nor for its retry: no other user, no late worker and no scan reaches it.
\<close>

theorem ended_tasks_stay:
  assumes "sys_run x s evs s'" "writes_plain (x_dump x)" "wf_db (w_db (sv_world s))"
    and "r \<in> set (rows (w_db (sv_world s)))" "isTerminal (row_status r)"
    and "\<forall>p rt. EvImage (Some p) rt \<in> set evs \<and> jp_user_id p = ir_user_id r \<longrightarrow> rt \<noteq> RtDelete (ir_id r) \<and> rt \<noteq> RtRetry (ir_id r)"
  shows "wf_db (w_db (sv_world s')) \<and> r \<in> set (rows (w_db (sv_world s')))"
proof -
  have owner: "ir_user_id r \<noteq> jp_user_id p"
    if "EvImage (Some p) (RtDelete (ir_id r)) \<in> set evs \<or> EvImage (Some p) (RtRetry (ir_id r)) \<in> set evs" for p
    using that assms(6) by metis
  have "\<not> reopens op r" if ev: "ev \<in> set evs" "event_op ev op" for ev op
    using ev owner by (cases op) (auto simp: event_op_def by_id_and_user_def split: sys_event.splits option.splits)
  then have "\<forall>ev\<in>set evs. \<forall>op db. event_op ev op \<longrightarrow> settled_in r db \<longrightarrow> settled_in r (run_op op db)"
    using run_op_settled [OF _ assms(5)] event_op_wf by blast
  then have "settled_in r (w_db (sv_world s'))"
    by (rule sys_run_keeps [OF assms(1) _ _ assms(2) table_pred_settled]) (simp add: settled_in_def assms(3,4))
  then show ?thesis by (simp add: settled_in_def)
qed

text \<open>The witness: user 7 asks for the deletion of the task of user 5, then the scanner passes.\<close>

definition demo_ended :: "unit server" where
  "demo_ended = demo_server\<lparr>sv_world := demo_world (demo_db [demo_row 1 5 Success]) demo_redis\<rparr>"

definition demo_after :: "unit server" where
  "demo_after = snd (on_world (scanner_round demo_api)
     (snd (image_handler demo_api demo_occasion (demo_request ''Bearer a'') (RtDelete 1) demo_ended)))"

theorem ended_tasks_stay_witness:
  "(\<exists>evs. length evs = 2 \<and> sys_run demo_api demo_ended evs demo_after) \<and> demo_row 1 5 Success \<in> set (rows (w_db (sv_world demo_after)))"
proof -
  obtain p where p: "requester demo_api demo_occasion (demo_request ''Bearer a'') = Some p" "jp_user_id p = 7"
    using demo_requesters(1) by blast
  let ?evs = "([] @ [EvImage (Some p) (RtDelete 1)]) @ [EvEngine]"
  have run: "sys_run demo_api demo_ended ?evs demo_after"
    unfolding demo_after_def p(1) [symmetric] by (rule run_more [OF run_more [OF run_none step_image] step_scanner])
  have db: "w_db (sv_world demo_ended) = demo_db [demo_row 1 5 Success]" by (simp add: demo_ended_def)
  have "wf_db (w_db (sv_world demo_ended)) \<and> demo_row 1 5 Success \<in> set (rows (w_db (sv_world demo_ended)))"
    unfolding db by (simp add: wf_demo_db)
  with ended_tasks_stay [OF run demo_api_plain, of "demo_row 1 5 Success"] p(2) run show ?thesis
    by (intro conjI exI [of _ ?evs]) auto
qed

end
