(* ===== verification/Async_Queue.thy ===== *)
theory Async_Queue
  imports Image_Model "HOL-Library.Multiset"
begin

text \<open>
  The queue of the old in-process workers, \<open>async_image_queue.cpp\<close>: threads that wait on one queue
  under a mutex and a condition variable. The critical sections are single steps; the steps of the
  threads, of the callers, the notifications, wake-ups without a reason and the destruction
  interleave in any order. The handler is a parameter that works on a state of its own and may throw.
\<close>

section \<open>State and operations\<close>

type_synonym 'h task_handler = "image_generation \<Rightarrow> ('h, unit) prog"

text \<open>Where a worker stands: at the head of its loop, about to test the condition of the wait, asleep
  in the wait, with a task, beyond a call of a destroyed handler, or ended.\<close>

datatype worker_point = AtLoop | AtWait | Asleep | WithTask image_generation | Undefined image_generation | Ended

text \<open>\<open>aq_notices\<close> counts the calls of \<open>notify_one\<close> that are due after a task was put in,
  \<open>aq_asked\<close> lists the workers whose \<open>jthread\<close> was asked to stop, \<open>aq_gone\<close> tells that the
  destructor has begun.\<close>

record 'h async_queue =
  aq_queue :: "image_generation list"
  aq_workers :: "worker_point list"
  aq_handler :: "'h task_handler option"
  aq_started :: bool
  aq_notices :: nat
  aq_gone :: bool
  aq_asked :: "nat list"
  aq_env :: 'h

definition new_async_queue :: "'h \<Rightarrow> 'h async_queue" where
  "new_async_queue h = \<lparr>aq_queue = [], aq_workers = [], aq_handler = None, aq_started = False, aq_notices = 0,
     aq_gone = False, aq_asked = [], aq_env = h\<rparr>"

text \<open>\<open>start\<close> keeps an empty handler before it throws; a second start does nothing.\<close>

definition aq_start :: "'h task_handler option \<Rightarrow> nat \<Rightarrow> ('h async_queue, unit) prog" where
  "aq_start h workerCount q =
     (if aq_started q then (Inr (), q)
      else let q' = q\<lparr>aq_handler := h\<rparr> in
        if h = None then (Inl (StdExn ''AsyncImageQueue handler must not be empty''), q')
        else (Inr (), q'\<lparr>aq_workers := replicate (max workerCount 1) AtLoop, aq_started := True\<rparr>))"

text \<open>The task is put in under the lock; the notification follows after it.\<close>

definition aq_enqueue :: "image_generation \<Rightarrow> ('h async_queue, unit) prog" where
  "aq_enqueue g q =
     (if \<not> aq_started q then (Inl (StdExn ''AsyncImageQueue is not running''), q)
      else (Inr (), q\<lparr>aq_queue := aq_queue q @ [g], aq_notices := aq_notices q + 1\<rparr>))"

definition pendingCount :: "'h async_queue \<Rightarrow> nat" where
  "pendingCount q = length (aq_queue q)"

text \<open>A worker that sleeps tests its condition again.\<close>

definition woken :: "nat \<Rightarrow> 'h async_queue \<Rightarrow> 'h async_queue option" where
  "woken i q = (if i < length (aq_workers q) \<and> aq_workers q ! i = Asleep
     then Some (q\<lparr>aq_workers := (aq_workers q)[i := AtWait]\<rparr>) else None)"

text \<open>A \<open>notify_one\<close> that is due wakes the sleeper \<open>i\<close>, or nobody when nobody sleeps.\<close>

definition notify_one :: "nat \<Rightarrow> 'h async_queue \<Rightarrow> 'h async_queue option" where
  "notify_one i q = (if aq_notices q = 0 then None
     else let q' = q\<lparr>aq_notices := aq_notices q - 1\<rparr> in
       if Asleep \<in> set (aq_workers q) then woken i q' else Some q')"

text \<open>
  One move of a worker, \<open>None\<close> while it sleeps or has ended; \<open>stop\<close> says whether it was asked to
  stop. \<open>wait\<close> goes on when the queue holds a task, and gives up on a stop request; every exception
  of the handler is caught; a handler that was destroyed must not be called.
\<close>

fun worker_moves :: "bool \<Rightarrow> 'h async_queue \<Rightarrow> worker_point \<Rightarrow> ('h async_queue \<times> worker_point) option" where
  "worker_moves stop q AtLoop = Some (q, if stop then Ended else AtWait)"
| "worker_moves stop q AtWait = (case aq_queue q of
      [] \<Rightarrow> Some (q, if stop then Ended else Asleep)
    | g # gs \<Rightarrow> Some (q\<lparr>aq_queue := gs\<rparr>, WithTask g))"
| "worker_moves stop q (WithTask g) = (if aq_gone q then Some (q, Undefined g) else (case aq_handler q of
      None \<Rightarrow> Some (q, AtLoop)
    | Some h \<Rightarrow> Some (q\<lparr>aq_env := snd (h g (aq_env q))\<rparr>, AtLoop)))"
| "worker_moves stop q Asleep = None"
| "worker_moves stop q (Undefined g) = None"
| "worker_moves stop q Ended = None"

definition worker_step :: "nat \<Rightarrow> 'h async_queue \<Rightarrow> 'h async_queue option" where
  "worker_step i q = (if i < length (aq_workers q)
     then (case worker_moves (i \<in> set (aq_asked q)) q (aq_workers q ! i) of None \<Rightarrow> None
           | Some (q', p) \<Rightarrow> Some (q'\<lparr>aq_workers := (aq_workers q)[i := p]\<rparr>))
     else None)"

text \<open>
  The default destructor destroys the members from the last to the first: \<open>handler_\<close> before
  \<open>workers_\<close>. Then each \<open>jthread\<close> is asked to stop, which wakes it, and is joined before the next.
\<close>

definition aq_destroy :: "'h async_queue \<Rightarrow> 'h async_queue" where
  "aq_destroy q = q\<lparr>aq_gone := True\<rparr>"

definition ask_stop :: "nat \<Rightarrow> 'h async_queue \<Rightarrow> 'h async_queue option" where
  "ask_stop i q = (if aq_gone q \<and> i < length (aq_workers q) \<and> i \<notin> set (aq_asked q) \<and>
       list_all (\<lambda>j. aq_workers q ! j = Ended) (aq_asked q)
     then Some (q\<lparr>aq_asked := i # aq_asked q,
       aq_workers := (if aq_workers q ! i = Asleep then (aq_workers q)[i := AtWait] else aq_workers q)\<rparr>)
     else None)"

definition in_hand :: "worker_point \<Rightarrow> image_generation list" where
  "in_hand p = (case p of WithTask g \<Rightarrow> [g] | Undefined g \<Rightarrow> [g] | _ \<Rightarrow> [])"

section \<open>Runs\<close>

text \<open>
  Beside the state a run records what callers have put in, what workers have taken and what they
  have done with, each in the order of the steps. The handler is the one of the first good start.
\<close>

inductive aq_run :: "'h \<Rightarrow> image_generation list \<Rightarrow> image_generation list \<Rightarrow> image_generation list \<Rightarrow> 'h async_queue \<Rightarrow> bool" for h0 where
  aq_begin: "aq_run h0 [] [] [] (new_async_queue h0)"
| aq_starts: "aq_run h0 ins outs dones q \<Longrightarrow> \<not> aq_gone q \<Longrightarrow> aq_run h0 ins outs dones (snd (aq_start h n q))"
| aq_accepts: "aq_run h0 ins outs dones q \<Longrightarrow> \<not> aq_gone q \<Longrightarrow> aq_enqueue g q = (Inr (), q') \<Longrightarrow> aq_run h0 (ins @ [g]) outs dones q'"
| aq_notifies: "aq_run h0 ins outs dones q \<Longrightarrow> notify_one i q = Some q' \<Longrightarrow> aq_run h0 ins outs dones q'"
| aq_wakes: "aq_run h0 ins outs dones q \<Longrightarrow> woken i q = Some q' \<Longrightarrow> aq_run h0 ins outs dones q'"
| aq_works: "aq_run h0 ins outs dones q \<Longrightarrow> worker_step i q = Some q' \<Longrightarrow>
     aq_run h0 ins (if aq_workers q ! i = AtWait then outs @ in_hand (aq_workers q' ! i) else outs)
       (if aq_workers q' ! i = AtLoop then dones @ in_hand (aq_workers q ! i) else dones) q'"
| aq_dies: "aq_run h0 ins outs dones q \<Longrightarrow> aq_run h0 ins outs dones (aq_destroy q)"
| aq_asks: "aq_run h0 ins outs dones q \<Longrightarrow> ask_stop i q = Some q' \<Longrightarrow> aq_run h0 ins outs dones q'"

fun run_moves :: "nat list \<Rightarrow> 'h async_queue \<Rightarrow> 'h async_queue option" where
  "run_moves [] q = Some q"
| "run_moves (i # is) q = (case worker_step i q of None \<Rightarrow> None | Some q' \<Rightarrow> run_moves is q')"

section \<open>The invariant\<close>

text \<open>The effect of the handler on its own state, task by task.\<close>

definition handle_all :: "'h task_handler option \<Rightarrow> image_generation list \<Rightarrow> 'h \<Rightarrow> 'h" where
  "handle_all f gs h = (case f of None \<Rightarrow> h | Some k \<Rightarrow> foldl (\<lambda>h g. snd (k g h)) h gs)"

definition hands :: "'h async_queue \<Rightarrow> image_generation multiset" where
  "hands q = mset (concat (map in_hand (aq_workers q)))"

text \<open>No wake-up is lost: a task in the queue has a notification under way or a worker that is awake.\<close>

definition awake_ok :: "'h async_queue \<Rightarrow> bool" where
  "awake_ok q \<longleftrightarrow> aq_queue q \<noteq> [] \<longrightarrow> aq_started q \<and> (0 < aq_notices q \<or> (\<exists>p\<in>set (aq_workers q). p \<noteq> Asleep))"

definition queue_ok :: "'h \<Rightarrow> image_generation list \<Rightarrow> image_generation list \<Rightarrow> image_generation list \<Rightarrow> 'h async_queue \<Rightarrow> bool" where
  "queue_ok h0 ins outs dones q \<longleftrightarrow> ins = outs @ aq_queue q \<and> mset outs = mset dones + hands q \<and>
     aq_env q = handle_all (aq_handler q) dones h0 \<and> awake_ok q \<and>
     (\<forall>p\<in>set (aq_workers q). (p = Ended \<or> (\<exists>g. p = Undefined g)) \<longrightarrow> aq_gone q) \<and> (aq_asked q \<noteq> [] \<longrightarrow> aq_gone q) \<and>
     (if aq_started q then aq_handler q \<noteq> None \<and> aq_workers q \<noteq> [] else aq_workers q = [] \<and> dones = [])"

lemma handle_all_simps [simp]:
  "handle_all f [] h = h" "handle_all (Some k) (gs @ [g]) h = snd (k g (handle_all (Some k) gs h))"
  by (simp_all add: handle_all_def split: option.split)

lemma in_hand_simps [simp]:
  "in_hand AtLoop = []" "in_hand AtWait = []" "in_hand Asleep = []" "in_hand (WithTask g) = [g]"
  "in_hand (Undefined g) = [g]" "in_hand Ended = []"
  by (simp_all add: in_hand_def)

lemma worker_stepE:
  assumes "worker_step i q = Some q'"
  obtains p q1 where "i < length (aq_workers q)"
    "worker_moves (i \<in> set (aq_asked q)) q (aq_workers q ! i) = Some (q1, p)" "q' = q1\<lparr>aq_workers := (aq_workers q)[i := p]\<rparr>"
  using assms by (auto simp: worker_step_def split: if_splits option.splits)

lemma hands_update:
  assumes "i < length ws"
  shows "mset (concat (map in_hand (ws[i := p]))) + mset (in_hand (ws ! i)) = mset (concat (map in_hand ws)) + mset (in_hand p)"
  using assms
proof (induction ws arbitrary: i)
  case (Cons w ws) then show ?case by (cases i) (auto simp: ac_simps)
qed simp

lemma set_update_cases: "p \<in> set (ws[i := x]) \<Longrightarrow> p = x \<or> p \<in> set ws"
  using set_update_subset_insert [of ws i x] by auto

text \<open>A step that only wakes a sleeper.\<close>

lemma queue_ok_woken:
  assumes ok: "queue_ok h0 ins outs dones q" and i: "i < length (aq_workers q)" "aq_workers q ! i = Asleep"
  shows "queue_ok h0 ins outs dones (q\<lparr>aq_workers := (aq_workers q)[i := AtWait], aq_notices := n\<rparr>)"
proof -
  have "AtWait \<in> set ((aq_workers q)[i := AtWait])" using i(1) by (rule set_update_memI)
  then have "\<exists>p\<in>set ((aq_workers q)[i := AtWait]). p \<noteq> Asleep" by blast
  then show ?thesis
    using ok hands_update [OF i(1), of AtWait] i
    by (auto simp: queue_ok_def awake_ok_def hands_def dest!: set_update_cases split: if_splits)
qed

lemma queue_ok_notify:
  assumes ok: "queue_ok h0 ins outs dones q" and step: "notify_one i q = Some q'"
  shows "queue_ok h0 ins outs dones q'"
proof (cases "Asleep \<in> set (aq_workers q)")
  case True
  then have "i < length (aq_workers q)" "aq_workers q ! i = Asleep"
    "q' = q\<lparr>aq_workers := (aq_workers q)[i := AtWait], aq_notices := aq_notices q - 1\<rparr>"
    using step by (auto simp: notify_one_def woken_def Let_def split: if_splits)
  with queue_ok_woken [OF ok] show ?thesis by simp
next
  case False
  then have q': "q' = q\<lparr>aq_notices := aq_notices q - 1\<rparr>"
    using step by (auto simp: notify_one_def Let_def split: if_splits)
  have "aq_started q \<Longrightarrow> \<exists>p\<in>set (aq_workers q). p \<noteq> Asleep"
    using ok False by (cases "aq_workers q") (auto simp: queue_ok_def)
  with ok show ?thesis by (auto simp: q' queue_ok_def awake_ok_def hands_def split: if_splits)
qed

lemma queue_ok_step:
  assumes ok: "queue_ok h0 ins outs dones q" and step: "worker_step i q = Some q'"
  shows "queue_ok h0 ins (if aq_workers q ! i = AtWait then outs @ in_hand (aq_workers q' ! i) else outs)
     (if aq_workers q' ! i = AtLoop then dones @ in_hand (aq_workers q ! i) else dones) q'"
proof -
  obtain p q1 where i: "i < length (aq_workers q)"
    and m: "worker_moves (i \<in> set (aq_asked q)) q (aq_workers q ! i) = Some (q1, p)"
    and q': "q' = q1\<lparr>aq_workers := (aq_workers q)[i := p]\<rparr>"
    using step by (rule worker_stepE)
  have started: "aq_started q" "aq_handler q \<noteq> None" using ok i by (auto simp: queue_ok_def split: if_splits)
  then obtain k where k: "aq_handler q = Some k" by blast
  have asked: "i \<in> set (aq_asked q) \<Longrightarrow> aq_gone q" using ok by (auto simp: queue_ok_def)
  note hands = hands_update [OF i, of p]
  have p: "p \<in> set ((aq_workers q)[i := p])" using i by (rule set_update_memI)
  have dead: "(\<forall>p\<in>set ((aq_workers q)[i := p]). (p = Ended \<or> (\<exists>g. p = Undefined g)) \<longrightarrow> aq_gone q)"
    if "p = Ended \<or> (\<exists>g. p = Undefined g) \<Longrightarrow> aq_gone q"
    using ok that by (auto simp: queue_ok_def dest!: set_update_cases)
  have awake: "\<exists>p\<in>set ((aq_workers q)[i := p]). p \<noteq> Asleep" if "p \<noteq> Asleep" using p that by blast
  show ?thesis
  proof (cases "aq_workers q ! i")
    case AtLoop
    then show ?thesis using ok started m i hands dead awake asked
      by (auto simp: q' queue_ok_def awake_ok_def hands_def split: if_splits)
  next
    case AtWait
    then show ?thesis using ok started m i hands dead awake asked
      by (auto simp: q' queue_ok_def awake_ok_def hands_def ac_simps split: list.splits if_splits)
  next
    case (WithTask g)
    then show ?thesis using ok started m i hands dead awake k
      by (auto simp: q' queue_ok_def awake_ok_def hands_def ac_simps split: if_splits)
  qed (use m in simp_all)
qed

lemma aq_run_ok: "aq_run h0 ins outs dones q \<Longrightarrow> queue_ok h0 ins outs dones q"
proof (induction rule: aq_run.induct)
  case aq_begin
  then show ?case by (simp add: queue_ok_def new_async_queue_def hands_def awake_ok_def)
next
  case (aq_starts ins outs dones q h n)
  then show ?case
    by (auto simp: queue_ok_def awake_ok_def aq_start_def hands_def Let_def concat_eq_Nil_conv split: if_splits)
next
  case (aq_accepts ins outs dones q g q')
  then show ?case by (auto simp: queue_ok_def awake_ok_def aq_enqueue_def hands_def split: if_splits)
next
  case (aq_notifies ins outs dones q i q')
  then show ?case by (blast intro: queue_ok_notify)
next
  case (aq_wakes ins outs dones q i q')
  then have "i < length (aq_workers q)" "aq_workers q ! i = Asleep" "q' = q\<lparr>aq_workers := (aq_workers q)[i := AtWait], aq_notices := aq_notices q\<rparr>"
    by (auto simp: woken_def split: if_splits)
  with queue_ok_woken [OF aq_wakes.IH, of i "aq_notices q"] show ?case by simp
next
  case (aq_works ins outs dones q i q')
  then show ?case by (blast intro: queue_ok_step)
next
  case (aq_dies ins outs dones q)
  then show ?case by (auto simp: queue_ok_def awake_ok_def hands_def aq_destroy_def split: if_splits)
next
  case (aq_asks ins outs dones q i q')
  obtain ws where q': "q' = q\<lparr>aq_asked := i # aq_asked q, aq_workers := ws\<rparr>" and gone: "aq_gone q"
    and ws: "ws = aq_workers q \<or> i < length (aq_workers q) \<and> aq_workers q ! i = Asleep \<and> ws = (aq_workers q)[i := AtWait]"
    using aq_asks.hyps(2) by (auto simp: ask_stop_def split: if_splits)
  from ws have "queue_ok h0 ins outs dones (q\<lparr>aq_workers := ws\<rparr>)"
  proof
    assume "i < length (aq_workers q) \<and> aq_workers q ! i = Asleep \<and> ws = (aq_workers q)[i := AtWait]"
    then show ?thesis using queue_ok_woken [OF aq_asks.IH, of i "aq_notices q"] by simp
  qed (use aq_asks.IH in simp)
  with gone show ?case by (auto simp: q' queue_ok_def awake_ok_def hands_def)
qed

section \<open>No worker sleeps on a task, and every sequence of moves ends\<close>

lemma blocked_worker:
  assumes "worker_step i q = None" "i < length (aq_workers q)"
  shows "aq_workers q ! i = Ended \<or> aq_workers q ! i = Asleep \<or> (\<exists>g. aq_workers q ! i = Undefined g)"
  using assms by (cases "aq_workers q ! i") (auto simp: worker_step_def split: list.splits if_splits option.splits)

fun point_weight :: "worker_point \<Rightarrow> nat" where
  "point_weight AtWait = 1"
| "point_weight AtLoop = 2"
| "point_weight (WithTask g) = 3"
| "point_weight _ = 0"

definition work :: "'h async_queue \<Rightarrow> nat" where
  "work q = 3 * pendingCount q + sum_list (map point_weight (aq_workers q))"

lemma weight_update:
  assumes "i < length ws"
  shows "sum_list (map point_weight (ws[i := p])) + point_weight (ws ! i) = sum_list (map point_weight ws) + point_weight p"
  using assms
proof (induction ws arbitrary: i)
  case (Cons w ws) then show ?case by (cases i) (auto simp: ac_simps)
qed simp

lemma work_decreases:
  assumes "worker_step i q = Some q'"
  shows "work q' < work q"
proof -
  obtain p q1 where i: "i < length (aq_workers q)"
    and m: "worker_moves (i \<in> set (aq_asked q)) q (aq_workers q ! i) = Some (q1, p)"
    and q': "q' = q1\<lparr>aq_workers := (aq_workers q)[i := p]\<rparr>"
    using assms by (rule worker_stepE)
  show ?thesis
    using m weight_update [OF i, of p]
    by (cases "aq_workers q ! i") (auto simp: q' work_def pendingCount_def split: list.splits if_splits option.splits)
qed

lemma run_moves_bound: "run_moves is q = Some q' \<Longrightarrow> length is + work q' \<le> work q"
proof (induction "is" arbitrary: q)
  case (Cons i js)
  then obtain q1 where "worker_step i q = Some q1" "run_moves js q1 = Some q'" by (auto split: option.splits)
  with Cons.IH [of q1] work_decreases [of i q q1] show ?case by simp
qed simp

text \<open>
  C21: in every run of callers, workers, notifications and needless wake-ups, up to
  the destruction of the queue, the tasks are taken in the order in which they were put in, and every
  task that was taken was handled or is in the hands of one worker, whatever the handler throws;
  what the handler has done is what it does to the handled tasks in turn. Between two wake-ups the
  workers make at most three moves for every task that waits and three for every worker; and when no
  worker can move in a started queue and no notification is under way, every task that was ever put
  in has been handled exactly once: no wake-up is lost.
\<close>

theorem async_queue_drains:
  assumes "aq_run h0 ins outs dones q" "\<not> aq_gone q"
  shows "ins = outs @ aq_queue q \<and> mset outs = mset dones + hands q \<and>
    aq_env q = handle_all (aq_handler q) dones h0 \<and>
    (\<forall>is q'. run_moves is q = Some q' \<longrightarrow> length is \<le> 3 * pendingCount q + 3 * length (aq_workers q)) \<and>
    (aq_started q \<and> aq_notices q = 0 \<and> (\<forall>i. worker_step i q = None) \<longrightarrow> mset dones = mset ins)"
proof -
  have ok: "queue_ok h0 ins outs dones q" using assms(1) by (rule aq_run_ok)
  have "sum_list (map point_weight ws) \<le> 3 * length ws" for ws
  proof (induction ws)
    case (Cons w ws) then show ?case by (cases w) auto
  qed simp
  then have bound: "run_moves is q = Some q' \<Longrightarrow> length is \<le> 3 * pendingCount q + 3 * length (aq_workers q)" for "is" q'
    using run_moves_bound [of "is" q q'] by (simp add: work_def) (meson add_le_cancel_left le_trans le_add1)
  have "mset dones = mset ins" if s: "aq_started q" "aq_notices q = 0" "\<forall>i. worker_step i q = None"
  proof -
    have at: "p = Asleep" if p: "p \<in> set (aq_workers q)" for p
    proof -
      obtain i where "i < length (aq_workers q)" "p = aq_workers q ! i" using p by (auto simp: in_set_conv_nth)
      moreover have "p \<noteq> Ended" "p \<noteq> Undefined g" for g using ok assms(2) p by (auto simp: queue_ok_def)
      ultimately show ?thesis using blocked_worker [of i q] s(3) by auto
    qed
    then have "aq_queue q = []" using ok s(2) by (auto simp: queue_ok_def awake_ok_def)
    moreover have "hands q = {#}" using at by (force simp: hands_def concat_eq_Nil_conv)
    ultimately show ?thesis using ok by (simp add: queue_ok_def)
  qed
  with ok bound show ?thesis by (simp add: queue_ok_def)
qed

text \<open>The witness: a worker falls asleep, is notified of a task, and its handler throws.\<close>

definition demo_handler :: "nat task_handler" where
  "demo_handler g n = (Inl (StdExn ''no model''), n + 1)"

definition demo_started :: "nat async_queue" where
  "demo_started = snd (aq_start (Some demo_handler) 0 (new_async_queue 0))"

definition demo_queue :: "image_generation list \<Rightarrow> worker_point \<Rightarrow> nat \<Rightarrow> nat \<Rightarrow> nat async_queue" where
  "demo_queue gs p n h = \<lparr>aq_queue = gs, aq_workers = [p], aq_handler = Some demo_handler, aq_started = True,
     aq_notices = n, aq_gone = False, aq_asked = [], aq_env = h\<rparr>"

lemma demo_moves:
  "demo_started = demo_queue [] AtLoop 0 0"
  "run_moves [0, 0] (demo_queue [] AtLoop n h) = Some (demo_queue [] Asleep n h)"
  "aq_enqueue g (demo_queue [] p 0 h) = (Inr (), demo_queue [g] p 1 h)"
  "notify_one 0 (demo_queue gs Asleep 1 h) = Some (demo_queue gs AtWait 0 h)"
  "run_moves [0, 0, 0, 0] (demo_queue [g] AtWait 0 0) = Some (demo_queue [] Asleep 0 1)"
  by (simp_all add: demo_started_def demo_queue_def aq_enqueue_def aq_start_def new_async_queue_def Let_def worker_step_def
      demo_handler_def notify_one_def woken_def)

lemma run_moves_run:
  "run_moves is q = Some q' \<Longrightarrow> aq_run h0 ins outs dones q \<Longrightarrow> \<exists>outs' dones'. aq_run h0 ins outs' dones' q'"
proof (induction "is" arbitrary: q outs dones)
  case (Cons i js)
  then show ?case by (auto split: option.splits dest: aq_works)
qed auto

lemma demo_asleep: "\<exists>outs dones. aq_run 0 [] outs dones (demo_queue [] Asleep 0 0)"
proof -
  have "aq_run 0 [] [] [] demo_started"
    unfolding demo_started_def by (intro aq_starts aq_begin) (simp add: new_async_queue_def)
  from run_moves_run [OF _ this] show ?thesis unfolding demo_moves(1) using demo_moves(2) by blast
qed

lemma demo_accepted: "\<exists>outs dones. aq_run 0 [default_image] outs dones (demo_queue [default_image] AtWait 0 0)"
proof -
  obtain outs dones where "aq_run 0 [] outs dones (demo_queue [] Asleep 0 0)" using demo_asleep by blast
  then have "aq_run 0 ([] @ [default_image]) outs dones (demo_queue [default_image] Asleep 1 0)"
    by (rule aq_accepts) (simp_all add: demo_moves(3), simp add: demo_queue_def)
  then show ?thesis using aq_notifies demo_moves(4) by (metis append_Nil)
qed

theorem async_queue_drains_witness:
  "\<exists>outs dones. aq_run 0 [default_image] outs dones (demo_queue [] Asleep 0 1) \<and> dones = [default_image]"
proof -
  obtain outs dones where run: "aq_run 0 [default_image] outs dones (demo_queue [] Asleep 0 1)"
    using demo_accepted run_moves_run demo_moves(5) by metis
  have "\<forall>i. worker_step i (demo_queue [] Asleep 0 1) = None" "aq_started (demo_queue [] Asleep 0 1)"
    "\<not> aq_gone (demo_queue [] Asleep 0 1)" "aq_notices (demo_queue [] Asleep 0 1) = 0"
    by (simp_all add: worker_step_def demo_queue_def)
  with async_queue_drains [OF run] have "mset dones = mset [default_image]" by blast
  with run show ?thesis by auto
qed

text \<open>
  The destructor is not safe: a worker that holds a task when the queue is destroyed goes on to call
  the handler, which is gone before the worker is asked to stop.
\<close>

theorem destroyed_handler_is_called:
  "\<exists>ins outs dones q. aq_run (0 :: nat) ins outs dones q \<and> aq_asked q = [] \<and> aq_workers q = [Undefined default_image]"
proof -
  obtain outs dones where "aq_run 0 [default_image] outs dones (demo_queue [default_image] AtWait 0 0)"
    using demo_accepted by blast
  moreover have "worker_step 0 (demo_queue [default_image] AtWait 0 0) = Some (demo_queue [] (WithTask default_image) 0 0)"
    by (simp add: worker_step_def demo_queue_def)
  ultimately have "\<exists>outs dones. aq_run 0 [default_image] outs dones (demo_queue [] (WithTask default_image) 0 0)"
    by (blast dest: aq_works)
  then obtain outs dones where "aq_run 0 [default_image] outs dones (demo_queue [] (WithTask default_image) 0 0)" by blast
  then have run: "aq_run 0 [default_image] outs dones (aq_destroy (demo_queue [] (WithTask default_image) 0 0))"
    by (rule aq_dies)
  let ?q = "(demo_queue [] (Undefined default_image) 0 0)\<lparr>aq_gone := True\<rparr>"
  have "worker_step 0 (aq_destroy (demo_queue [] (WithTask default_image) 0 0)) = Some ?q"
    by (simp add: worker_step_def demo_queue_def aq_destroy_def)
  from aq_works [OF run this] have "\<exists>outs dones. aq_run 0 [default_image] outs dones ?q" by blast
  moreover have "aq_asked ?q = []" "aq_workers ?q = [Undefined default_image]" by (simp_all add: demo_queue_def)
  ultimately show ?thesis by blast
qed

end
