(* ===== verification/Spec2Isabelle.thy ===== *)
theory Spec2Isabelle
  imports Image_Repo_Users Task_Lease Cache_Laws Image_Service_Facts Auth_Facts Task_System Async_Queue
begin

text \<open>
  The backend of Text2Image: a C++ server (directory \<open>Backend\<close>) that takes requests to generate
  images over HTTP, keeps them as tasks in a MySQL table, hands them to a model service through a
  pool of workers, and stores the images in an object store. This library models that server and
  proves what makes it correct.

  \<open>The program and how its parts interact.\<close> A request enters a controller
  (\<open>src/controllers/*.cpp\<close>), which finds its user (a token of \<open>jwt_utils.cpp\<close>), asks the rate
  limiter, and calls \<open>ImageService\<close> or \<open>AuthService\<close>. The image service validates, checks the
  quota, inserts the task with \<open>ImageRepo\<close> and puts its identifier into the Redis queue. A worker of
  \<open>task_engine.cpp\<close> takes an identifier, takes the Redis lease of the task, claims its row, asks the
  health gate, lets \<open>GenerationClient\<close> call the model service and store the image
  (\<open>minio_client.cpp\<close>, \<open>image_storage.cpp\<close>), and finishes the row; a keeper renews lease and row
  meanwhile. The scanner takes back the tasks whose lease ran out and rebuilds the queue. Every change
  is announced by \<open>TaskEventHub\<close>, counted by \<open>MetricsRegistry\<close>, and drops its entries in the cache.

  \<open>How code becomes definitions.\<close> An operation that changes state is a \<open>prog\<close>: a function from the
  state to a result and the next state; an exception is a value of \<open>exn\<close>, and the \<open>try\<close> blocks are
  \<open>catch_std\<close> (for \<open>std::exception\<close>) and \<open>catch_all\<close>. \<open>std::expected\<close> is a sum. A struct or
  class is a record whose fields keep their names behind a prefix, an enum a datatype; a definition
  has the name of its function, with a prefix where two classes share it (\<open>svc_\<close>, \<open>redis_\<close>,
  \<open>cache_\<close>, \<open>image_\<close>, \<open>http_\<close>). A program works on the state of its component (\<open>image_db\<close>,
  \<open>redis_client\<close>, \<open>event_hub\<close>, ...); World lifts it to \<open>world\<close>, which the engine and the image
  service share, and Http_Api to \<open>server\<close>, which adds users, limiter, log and response. Readings of
  clocks, random bytes and durations are arguments or entries of a list in the state. A loop of a
  thread is given by its round; the rounds of all threads interleave freely.

  \<open>Failures.\<close> Every statement on the database, every Redis command and every request to the object
  store has a fate in the state: it runs, it is refused, or it runs and its reply is lost. The
  answers of the network are a list. Theorems hold for every such list unless they say otherwise.

  \<open>The theories, from the bottom up.\<close>
  Prelude: programs, exceptions, machine integers, general lemmas. Text: bytes, trimming, number
  texts. Chrono: calendar and database times. Json_Model: JSON values.
  Task_Status: \<open>task_status.h\<close>. Image_Model: \<open>image_generation.cpp\<close>. Errors: \<open>repo_error.cpp\<close>,
  \<open>repo_invoke.h\<close>, \<open>service_error.h\<close> and the mappers.
  Image_Repo: \<open>ImageRepo.cpp\<close>, each SQL statement as a function on the table; Image_Repo_Facts (what
  every operation keeps, the outcome on a row), Image_Repo_Correct (claim, fence, settlement),
  Image_Repo_Leases (queue order, expiry, retry budget), Image_Repo_Users (pages, isolation).
  Redis_Server: the commands; Redis_Client: \<open>redis_client.cpp\<close>, queue, leases and scripts. Task_Lease:
  the locale of an exclusive lease, interpreted for the Redis keys and for the rows.
  Cache_Keys, Cache_Client, Cache_Laws: \<open>image_cache_key.h\<close>, \<open>cache_client.cpp\<close>, \<open>cache_metrics.cpp\<close>,
  \<open>metrics_cache_client.cpp\<close>, and the locale of cache laws with its interpretations.
  Metrics: \<open>metrics_registry.cpp\<close>. Event_Hub: \<open>task_event_hub.cpp\<close>. Json_Text: which records the JSON
  library prints. Request_Id: \<open>request_id.cpp\<close>.
  Http_Client: \<open>client.cpp\<close>. Object_Store: \<open>minio_client.cpp\<close>, \<open>image_storage.cpp\<close>. Health_Gate:
  \<open>model_health_gate.cpp\<close>. Generation_Client: \<open>generation_client.cpp\<close>. Rate_Limiter:
  \<open>rate_limiter.cpp\<close>. World, World_Facts: the shared state, and programs as sequences of repository
  operations. Task_Engine, Task_Engine_Facts: \<open>task_engine.cpp\<close>. Image_Service,
  Image_Service_Facts: \<open>image_service.cpp\<close>.
  Passwords: \<open>password_utils.cpp\<close>, \<open>string_utils.cpp\<close>. Db_Session: \<open>db_manager.cpp\<close>. Users: \<open>user.cpp\<close>,
  \<open>UserRepo.cpp\<close>. Jwt: \<open>jwt_utils.cpp\<close>. Refresh_Tokens: \<open>refresh_token_store.cpp\<close> with the locale of a
  token store, interpreted for Redis and for memory. Auth_Service, Auth_Facts: \<open>auth_service.cpp\<close>.
  Config: \<open>Backend.cpp\<close>. Startup: \<open>main.cpp\<close>. Http_Api, Http_Facts: the controllers, \<open>handler_utils\<close>,
  \<open>jwt_middleware.cpp\<close>, \<open>audit_log.cpp\<close>. Task_System: the runs of the whole program. Async_Queue:
  \<open>async_image_queue.cpp\<close>, the older queue inside the process, with its waits, notifications and
  destructor as steps.

  \<open>What is proved.\<close> A task is claimed by one worker, finished only by its holder and only once; an
  ended task stays as it is until its owner asks, in every run of the whole program; a cancellation
  wins; both kinds of lease keep the contract of an exclusive lease; a worker leaves no task behind
  and the scanner brings every expired one back, within the budget of retries; the queue is first in,
  first out. A request reaches the rows of its own user only, adds at most one valid task within the
  quota, and is answered whatever fails. A login needs the password, a refresh token is spent once,
  and a change of the password ends the sessions; a started program in production has a real secret
  and no local origin. Encodings are read back; rates, redirects, deferrals and renewals are bounded.
  A flaw that modelling showed is a theorem of its own beside the component that has it: the version
  key that starts over, the subscriber left behind, the image lost with a reply, the limiter that
  never comes back, the storage key that a client chooses, the logout that leaves a token live, the
  handler that is destroyed before the workers that call it have stopped.

  \<open>Hypotheses.\<close> \<open>wf_db\<close>, \<open>wf_users\<close> and their like are invariants, proved to be kept. \<open>jwt_laws\<close>: a
  signed token decodes to its claims; under its secret and for its issuer it verifies while it is in
  force (after \<open>iat\<close> and \<open>nbf\<close>, before \<open>exp\<close>) and is refused before and after. \<open>writes_utf8\<close>: the JSON
  library prints every value whose texts are UTF-8, and \<open>utf8_rows\<close>: so are the texts of the table;
  \<open>writes_plain\<close> asks the same of plain ASCII only; \<open>json_text_on\<close>: what was printed is read back.
  \<open>quiet\<close> and \<open>redis_up\<close>: no failure is due. Each has a witness on concrete values.

  \<open>Bounds.\<close> The models have no fuel. \<open>http_get\<close> follows at most five redirects, the limit of the code,
  and its loop counts them; the wait for the bucket makes ten attempts with two seconds between; the
  list reader of the configuration is a recursion on what is left of the text; the workers of the
  in-process queue make at most three moves for a waiting task and three for a worker.

  \<open>Not modelled.\<close> The meaning of SQL, Redis commands and object requests is taken from their
  documentation. A \<open>double\<close> is a real number. JSON texts, the signing of tokens, key derivation, the
  signer and the URL parser of the object store are parameters. The arithmetic of \<open>chrono\<close> does not
  overflow, one clock stands for the steady and the system clock, and the counter \<open>retry_count\<close> does
  not reach the end of its INT column. Texts of exceptions are kept where the code looks at them.
  Threads are rounds: a request, a round of a worker, of a keeper or of the scanner is one step of
  Task_System (the theorems on the repository hold for any sequence of its operations); locks and the stop of a process are modelled in Async_Queue only. The web framework (routing,
  sockets, listeners), the log sinks and the Windows and macOS branches are left out, as are the
  model service, the frontend, scripts, deployment files and tests, which are other programs.
\<close>

end
